(* ===== verification/Prelude.thy ===== *)
theory Prelude
  imports Main "HOL-Library.AList" "HOL-Library.List_Lexorder" "HOL-Library.Char_ord"
    "HOL-Library.Product_Lexorder" "HOL-Library.Multiset" "HOL-Library.Sublist"
begin

text \<open>
  Shared ground of the development.

  \<^item> Go strings are byte strings; the model uses \<open>string\<close> (a list of 8-bit characters).
    \<open>List_Lexorder\<close> and \<open>Char_ord\<close> give them the byte-wise lexicographic order of Go's \<open><\<close>
    on strings, \<open>Product_Lexorder\<close> the order of the two-key comparison functions handed to
    \<open>sort.Slice\<close>.
  \<^item> A Go map is an association list with distinct keys. Its order is one of the orders in which
    \<open>range\<close> may visit the map: the order of first insertion. Wherever the code sorts what such a
    loop has produced, the theories prove that the visiting order does not matter.
  \<^item> Errors are values of a sum type, \<open>Inl\<close> the error and \<open>Inr\<close> the result.
\<close>

named_theorems go_simps "facts about the modelled parts of Go's library"
named_theorems inv_intros "preservation of invariants"

type_synonym ('k, 'v) gomap = "('k \<times> 'v) list"

section \<open>Result values\<close>

fun is_ok :: "'e + 'a \<Rightarrow> bool" where
  "is_ok (Inl _) = False"
| "is_ok (Inr _) = True"

lemma is_ok_iff: "is_ok r \<longleftrightarrow> (\<exists>x. r = Inr x)"
  by (cases r) auto

text \<open>Go's \<open>if err != nil { return err }\<close> chains succeed when every link does.\<close>

lemma chain_ok_iff:
  "(case r of Inl e \<Rightarrow> Inl e | Inr x \<Rightarrow> q x) = Inr y \<longleftrightarrow> (\<exists>x. r = Inr x \<and> q x = Inr y)"
  by (cases r) auto

lemma guard_ok_iff: "(if b then Inl e else q) = Inr y \<longleftrightarrow> \<not> b \<and> q = Inr y"
  by auto

fun bindr :: "'e + 'a \<Rightarrow> ('a \<Rightarrow> 'e + 'b) \<Rightarrow> 'e + 'b" where
  "bindr (Inl e) f = Inl e"
| "bindr (Inr x) f = f x"

lemma bindr_ok_iff: "bindr r f = Inr y \<longleftrightarrow> (\<exists>x. r = Inr x \<and> f x = Inr y)"
  by (cases r) auto

lemma bindr_unit_ok_iff: "bindr (r :: 'e + unit) f = Inr y \<longleftrightarrow> r = Inr () \<and> f () = Inr y"
  by (cases r) auto

text \<open>Running a check on every element of a list, in order, stopping at the first error.\<close>

fun each_ok :: "('a \<Rightarrow> 'e + unit) \<Rightarrow> 'a list \<Rightarrow> 'e + unit" where
  "each_ok f [] = Inr ()"
| "each_ok f (x # xs) = bindr (f x) (\<lambda>_. each_ok f xs)"

lemma each_ok_iff: "each_ok f xs = Inr () \<longleftrightarrow> (\<forall>x\<in>set xs. f x = Inr ())"
  by (induction xs) (auto simp: bindr_unit_ok_iff)

lemma each_ok_cong [fundef_cong]:
  "xs = ys \<Longrightarrow> (\<And>x. x \<in> set ys \<Longrightarrow> f x = g x) \<Longrightarrow> each_ok f xs = each_ok g ys"
  by (induction ys arbitrary: xs) auto

text \<open>Running a list of checks in order, stopping at the first error.\<close>

fun first_error :: "('e + unit) list \<Rightarrow> 'e + unit" where
  "first_error [] = Inr ()"
| "first_error (Inl e # rs) = Inl e"
| "first_error (Inr u # rs) = first_error rs"

lemma first_error_ok_iff: "first_error rs = Inr () \<longleftrightarrow> (\<forall>r\<in>set rs. is_ok r)"
  by (induction rs rule: first_error.induct) auto

section \<open>Grouping: g[k] = append(g[k], v)\<close>

fun add_group :: "'k \<Rightarrow> 'v \<Rightarrow> ('k, 'v list) gomap \<Rightarrow> ('k, 'v list) gomap" where
  "add_group k v [] = [(k, [v])]"
| "add_group k v ((k', vs) # g) =
     (if k = k' then (k', vs @ [v]) # g else (k', vs) # add_group k v g)"

definition group_by :: "('v \<Rightarrow> 'k) \<Rightarrow> 'v list \<Rightarrow> ('k, 'v list) gomap" where
  "group_by key xs = foldl (\<lambda>g x. add_group (key x) x g) [] xs"

lemma add_group_keys: "fst ` set (add_group k v g) = insert k (fst ` set g)"
  by (induction k v g rule: add_group.induct) auto

lemma add_group_distinct:
  "distinct (map fst g) \<Longrightarrow> distinct (map fst (add_group k v g))"
proof (induction k v g rule: add_group.induct)
  case (2 k v k' vs g)
  have "k' \<notin> fst ` set (add_group k v g)" if "k \<noteq> k'"
    using "2.prems" that by (simp add: add_group_keys)
  with 2 show ?case by auto
qed simp

lemma map_of_add_group:
  "map_of (add_group k v g) = (map_of g)(k \<mapsto> (case map_of g k of None \<Rightarrow> [v] | Some vs \<Rightarrow> vs @ [v]))"
  by (induction k v g rule: add_group.induct) (auto simp: fun_eq_iff)

lemma group_by_snoc: "group_by key (xs @ [x]) = add_group (key x) x (group_by key xs)"
  by (simp add: group_by_def)

lemma group_by_distinct: "distinct (map fst (group_by key xs))"
  by (induction xs rule: rev_induct) (auto simp: group_by_snoc add_group_distinct, simp add: group_by_def)

lemma map_of_group_by:
  "map_of (group_by key xs) k =
     (if \<exists>x\<in>set xs. key x = k then Some (filter (\<lambda>x. key x = k) xs) else None)"
proof (induction xs rule: rev_induct)
  case Nil
  then show ?case by (simp add: group_by_def)
next
  case (snoc x xs)
  have none: "filter (\<lambda>x. key x = k) xs = []" if "\<not> (\<exists>x\<in>set xs. key x = k)"
    using that by (simp add: filter_empty_conv)
  show ?case
    using snoc none by (auto simp: group_by_snoc map_of_add_group filter_empty_conv)
qed

lemma group_by_keys: "fst ` set (group_by key xs) = key ` set xs"
proof (rule set_eqI)
  fix k
  have "k \<in> fst ` set (group_by key xs) \<longleftrightarrow> map_of (group_by key xs) k \<noteq> None"
    by (simp add: map_of_eq_None_iff)
  also have "\<dots> \<longleftrightarrow> k \<in> key ` set xs"
    by (auto simp: map_of_group_by)
  finally show "k \<in> fst ` set (group_by key xs) \<longleftrightarrow> k \<in> key ` set xs" .
qed

lemma group_by_mem_iff:
  "(k, vs) \<in> set (group_by key xs) \<longleftrightarrow>
     vs = filter (\<lambda>x. key x = k) xs \<and> vs \<noteq> []"
proof -
  have "(k, vs) \<in> set (group_by key xs) \<longleftrightarrow> map_of (group_by key xs) k = Some vs"
    using group_by_distinct by (metis map_of_eq_Some_iff)
  moreover have "(\<exists>x\<in>set xs. key x = k) \<longleftrightarrow> filter (\<lambda>x. key x = k) xs \<noteq> []"
    by (auto simp: filter_empty_conv)
  ultimately show ?thesis
    unfolding map_of_group_by by (metis option.inject option.distinct(1))
qed

lemma group_by_nonempty: "(k, vs) \<in> set (group_by key xs) \<Longrightarrow> vs \<noteq> []"
  by (drule group_by_mem_iff [THEN iffD1]) (erule conjunct2)

section \<open>Visiting orders and sorting\<close>

text \<open>A visiting order of a map: the same pairs in any order.\<close>

definition same_map :: "('k, 'v) gomap \<Rightarrow> ('k, 'v) gomap \<Rightarrow> bool" where
  "same_map m m' \<longleftrightarrow> mset m = mset m' \<and> distinct (map fst m)"

lemma same_map_refl: "distinct (map fst m) \<Longrightarrow> same_map m m"
  by (simp add: same_map_def)

lemma same_map_distinct:
  assumes "same_map m m'"
  shows "distinct (map fst m) \<and> distinct (map fst m')"
proof -
  have "mset (map fst m) = mset (map fst m')"
    using assms by (simp add: same_map_def)
  then show ?thesis
    using assms by (metis mset_eq_imp_distinct_iff same_map_def)
qed

lemma same_map_set: "same_map m m' \<Longrightarrow> set m = set m'"
  by (metis same_map_def set_mset_mset)

lemma same_map_map_of: "same_map m m' \<Longrightarrow> map_of m = map_of m'"
  by (metis map_of_inject_set same_map_distinct same_map_set)

lemma same_map_sym: "same_map m m' \<Longrightarrow> same_map m' m"
  using same_map_distinct by (auto simp: same_map_def)

text \<open>
  \<open>sort.Slice\<close> with a key that tells the elements apart has one possible result, whatever the
  order of its input.
\<close>

lemma sort_key_order_irrelevant:
  fixes f :: "'a \<Rightarrow> 'b::linorder"
  assumes "mset xs = mset ys" and "inj_on f (set xs)"
  shows "sort_key f xs = sort_key f ys"
  by (rule sort_key_inj_key_eq) (use assms in auto)

lemma sort_order_irrelevant:
  fixes xs ys :: "'a::linorder list"
  shows "mset xs = mset ys \<Longrightarrow> sort xs = sort ys"
  by (rule sort_key_order_irrelevant) auto

lemma set_sort_key [simp]: "set (sort_key f xs) = set xs"
  by simp

lemma sort_key_empty_iff [simp]: "sort_key f xs = [] \<longleftrightarrow> xs = []"
  by (metis length_0_conv length_sort)

lemma inj_on_snd_of_keys:
  assumes "distinct (map fst m)" and "\<And>p. p \<in> set m \<Longrightarrow> f (g p) = h (fst p)" and "inj h"
  shows "inj_on f (g ` set m)"
proof (rule inj_onI)
  fix x y
  assume "x \<in> g ` set m" "y \<in> g ` set m" and eq: "f x = f y"
  then obtain p q where pq: "p \<in> set m" "q \<in> set m" "x = g p" "y = g q" by auto
  then have "h (fst p) = h (fst q)" using assms(2) eq by metis
  then have "fst p = fst q" using assms(3) by (simp add: inj_eq)
  then have "p = q" using assms(1) pq(1,2)
    by (metis distinct_map inj_onD)
  then show "x = y" using pq by simp
qed

lemma mem_case_option:
  "c \<in> set (case x of None \<Rightarrow> [] | Some y \<Rightarrow> f y) \<longleftrightarrow> (\<exists>y. x = Some y \<and> c \<in> set (f y))"
  by (cases x) auto

section \<open>Counting\<close>

definition count_if :: "('a \<Rightarrow> bool) \<Rightarrow> 'a list \<Rightarrow> nat" where
  "count_if P xs = length (filter P xs)"

lemma count_if_Nil [simp]: "count_if P [] = 0"
  and count_if_Cons [simp]: "count_if P (x # xs) = (if P x then Suc (count_if P xs) else count_if P xs)"
  and count_if_append [simp]: "count_if P (xs @ ys) = count_if P xs + count_if P ys"
  by (simp_all add: count_if_def)

lemma count_if_zero_iff: "count_if P xs = 0 \<longleftrightarrow> (\<forall>x\<in>set xs. \<not> P x)"
  by (simp add: count_if_def filter_empty_conv)

section \<open>Seen-sets: if seen[k] { continue }; seen[k] = true\<close>

text \<open>A loop that keeps a map of the keys it has met and skips an item whose key it has met before.\<close>

fun dedup_by :: "('a \<Rightarrow> 'k) \<Rightarrow> 'k list \<Rightarrow> 'a list \<Rightarrow> 'a list" where
  "dedup_by key seen [] = []"
| "dedup_by key seen (x # xs) =
     (if key x \<in> set seen then dedup_by key seen xs else x # dedup_by key (key x # seen) xs)"

lemma dedup_by_subset: "set (dedup_by key seen xs) \<subseteq> set xs"
  by (induction key seen xs rule: dedup_by.induct) auto

lemma dedup_by_keys: "key ` set (dedup_by key seen xs) = key ` set xs - set seen"
  by (induction key seen xs rule: dedup_by.induct) auto

lemma dedup_by_distinct: "distinct (map key (dedup_by key seen xs))"
proof (induction key seen xs rule: dedup_by.induct)
  case (2 key seen x xs)
  then show ?case
    using dedup_by_keys [of key "key x # seen" xs] by (auto simp del: dedup_by.simps(1) simp: image_iff)
qed simp

lemma dedup_by_distinct_id:
  "distinct (map key xs) \<Longrightarrow> key ` set xs \<inter> set seen = {} \<Longrightarrow> dedup_by key seen xs = xs"
  by (induction key seen xs rule: dedup_by.induct) auto

text \<open>Every key that is met is decided once, by the first item that carries it.\<close>

lemma dedup_by_first:
  "k \<notin> set seen \<Longrightarrow> find (\<lambda>x. key x = k) (dedup_by key seen xs) = find (\<lambda>x. key x = k) xs"
  by (induction key seen xs rule: dedup_by.induct) auto

lemma dedup_by_one:
  assumes "x \<in> set xs"
  shows "\<exists>!y. y \<in> set (dedup_by key [] xs) \<and> key y = key x"
proof -
  have "key x \<in> key ` set (dedup_by key [] xs)"
    using assms by (simp add: dedup_by_keys)
  then obtain y where y: "y \<in> set (dedup_by key [] xs)" "key y = key x" by auto
  show ?thesis
  proof (rule ex1I [of _ y])
    show "y \<in> set (dedup_by key [] xs) \<and> key y = key x" using y by simp
    show "z = y" if "z \<in> set (dedup_by key [] xs) \<and> key z = key x" for z
      using dedup_by_distinct [of key "[]" xs] that y by (auto simp: distinct_map inj_on_def)
  qed
qed

text \<open>Looking a key up in a map filled by a loop: the last item wins, or, when the loop keeps
  what is there, the first.\<close>

definition first_with :: "('a \<Rightarrow> 'k) \<Rightarrow> 'k \<Rightarrow> 'a list \<Rightarrow> 'a option" where
  "first_with key k xs = find (\<lambda>x. key x = k) xs"

definition last_with :: "('a \<Rightarrow> 'k) \<Rightarrow> 'k \<Rightarrow> 'a list \<Rightarrow> 'a option" where
  "last_with key k xs = find (\<lambda>x. key x = k) (rev xs)"

lemma first_with_None_iff: "first_with key k xs = None \<longleftrightarrow> k \<notin> key ` set xs"
  by (auto simp: first_with_def find_None_iff)

lemma last_with_None_iff: "last_with key k xs = None \<longleftrightarrow> k \<notin> key ` set xs"
  by (auto simp: last_with_def find_None_iff)

lemma first_with_SomeD: "first_with key k xs = Some x \<Longrightarrow> x \<in> set xs \<and> key x = k"
  by (auto simp: first_with_def find_Some_iff)

lemma last_with_SomeD: "last_with key k xs = Some x \<Longrightarrow> x \<in> set xs \<and> key x = k"
proof -
  assume "last_with key k xs = Some x"
  then have "x \<in> set (rev xs) \<and> key x = k"
    unfolding last_with_def find_Some_iff by (metis nth_mem)
  then show ?thesis by simp
qed

end
