(* ===== verification/GoStrings.thy ===== *)
theory GoStrings
  imports Prelude
begin

text \<open>
  The part of Go's \<open>strings\<close>, \<open>strconv\<close>, \<open>utf8\<close> and \<open>fmt\<close> packages the program uses, on byte
  strings. \<open>strings.ToLower\<close> and \<open>strings.ToUpper\<close> are modelled on ASCII letters (other bytes are
  kept; Go also maps non-ASCII letters), \<open>%q\<close> on ASCII text; everything else is the library's
  behaviour on every byte string.
\<close>

section \<open>Bytes\<close>

definition byte :: "char \<Rightarrow> nat" where
  "byte c = of_char c"

definition is_digit :: "char \<Rightarrow> bool" where
  "is_digit c \<longleftrightarrow> 48 \<le> byte c \<and> byte c \<le> 57"

definition is_upper :: "char \<Rightarrow> bool" where
  "is_upper c \<longleftrightarrow> 65 \<le> byte c \<and> byte c \<le> 90"

definition is_lower :: "char \<Rightarrow> bool" where
  "is_lower c \<longleftrightarrow> 97 \<le> byte c \<and> byte c \<le> 122"

definition lower_char :: "char \<Rightarrow> char" where
  "lower_char c = (if is_upper c then char_of (byte c + 32) else c)"

definition upper_char :: "char \<Rightarrow> char" where
  "upper_char c = (if is_lower c then char_of (byte c - 32) else c)"

definition to_lower :: "string \<Rightarrow> string" where
  "to_lower s = map lower_char s"

definition to_upper :: "string \<Rightarrow> string" where
  "to_upper s = map upper_char s"

lemma byte_char_of: "n < 256 \<Longrightarrow> byte (char_of n) = n"
  by (simp add: byte_def)

lemma byte_inject: "byte c = byte d \<longleftrightarrow> c = d"
  by (simp add: byte_def)

lemma byte_less: "byte c < 256"
  by (simp add: byte_def)

lemma lower_char_idem [go_simps]: "lower_char (lower_char c) = lower_char c"
  by (auto simp: lower_char_def is_upper_def byte_char_of)

lemma lower_char_not_upper [go_simps]: "\<not> is_upper (lower_char c)"
  by (auto simp: lower_char_def is_upper_def byte_char_of)

lemma to_lower_idem [go_simps]: "to_lower (to_lower s) = to_lower s"
  by (simp add: to_lower_def lower_char_idem)

lemma to_lower_append [go_simps]: "to_lower (s @ t) = to_lower s @ to_lower t"
  by (simp add: to_lower_def)

lemma to_lower_Nil [go_simps]: "to_lower [] = []"
  by (simp add: to_lower_def)

lemma length_to_lower [simp]: "length (to_lower s) = length s"
  by (simp add: to_lower_def)

text \<open>A character that is not a capital letter is its own lower case and the image of itself only,
  unless it is a small letter.\<close>

lemma lower_char_eq_iff:
  assumes "\<not> is_upper c" "\<not> is_lower c"
  shows "lower_char d = c \<longleftrightarrow> d = c"
  using assms by (auto simp: lower_char_def is_upper_def is_lower_def byte_char_of)

section \<open>Prefixes, suffixes, substrings\<close>

definition has_prefix :: "string \<Rightarrow> string \<Rightarrow> bool" where
  "has_prefix s p = prefix p s"

definition has_suffix :: "string \<Rightarrow> string \<Rightarrow> bool" where
  "has_suffix s p = prefix (rev p) (rev s)"

lemma has_suffix_iff: "has_suffix s p \<longleftrightarrow> (\<exists>t. s = t @ p)"
  by (simp add: has_suffix_def suffix_to_prefix [symmetric] suffix_def)

definition trim_prefix :: "string \<Rightarrow> string \<Rightarrow> string" where
  "trim_prefix s p = (if has_prefix s p then drop (length p) s else s)"

definition trim_suffix :: "string \<Rightarrow> string \<Rightarrow> string" where
  "trim_suffix s p = (if has_suffix s p then take (length s - length p) s else s)"

lemma trim_suffix_append [go_simps]: "trim_suffix (s @ p) p = s"
  by (simp add: trim_suffix_def has_suffix_def)

fun contains :: "string \<Rightarrow> string \<Rightarrow> bool" where
  "contains [] sub = (sub = [])"
| "contains (c # s) sub = (prefix sub (c # s) \<or> contains s sub)"

lemma contains_iff: "contains s sub \<longleftrightarrow> (\<exists>a b. s = a @ sub @ b)"
proof (induction s)
  case (Cons c s)
  have "(\<exists>a b. c # s = a @ sub @ b) \<longleftrightarrow> prefix sub (c # s) \<or> (\<exists>a b. s = a @ sub @ b)"
    by (auto simp: prefix_def Cons_eq_append_conv)
  with Cons show ?case by simp
qed auto

definition contains_byte :: "string \<Rightarrow> char \<Rightarrow> bool" where
  "contains_byte s c = (c \<in> set s)"

definition contains_any :: "string \<Rightarrow> string \<Rightarrow> bool" where
  "contains_any s chars = list_ex (\<lambda>c. c \<in> set chars) s"

lemma contains_any_iff: "contains_any s chars \<longleftrightarrow> set s \<inter> set chars \<noteq> {}"
  by (auto simp: contains_any_def list_ex_iff)

section \<open>Trimming\<close>

text \<open>The UTF-8 encodings of the runes of \<open>unicode.IsSpace\<close>.\<close>

definition space_seqs :: "string list" where
  "space_seqs =
     [[CHR 0x09], [CHR 0x0A], [CHR 0x0B], [CHR 0x0C], [CHR 0x0D], [CHR 0x20],
      [CHR 0xC2, CHR 0x85], [CHR 0xC2, CHR 0xA0], [CHR 0xE1, CHR 0x9A, CHR 0x80],
      [CHR 0xE2, CHR 0x80, CHR 0x80], [CHR 0xE2, CHR 0x80, CHR 0x81],
      [CHR 0xE2, CHR 0x80, CHR 0x82], [CHR 0xE2, CHR 0x80, CHR 0x83],
      [CHR 0xE2, CHR 0x80, CHR 0x84], [CHR 0xE2, CHR 0x80, CHR 0x85],
      [CHR 0xE2, CHR 0x80, CHR 0x86], [CHR 0xE2, CHR 0x80, CHR 0x87],
      [CHR 0xE2, CHR 0x80, CHR 0x88], [CHR 0xE2, CHR 0x80, CHR 0x89],
      [CHR 0xE2, CHR 0x80, CHR 0x8A], [CHR 0xE2, CHR 0x80, CHR 0xA8],
      [CHR 0xE2, CHR 0x80, CHR 0xA9], [CHR 0xE2, CHR 0x80, CHR 0xAF],
      [CHR 0xE2, CHR 0x81, CHR 0x9F], [CHR 0xE3, CHR 0x80, CHR 0x80]]"

fun strip_while :: "string list \<Rightarrow> nat \<Rightarrow> string \<Rightarrow> string" where
  "strip_while seqs 0 s = s"
| "strip_while seqs (Suc n) s =
     (case find (\<lambda>p. prefix p s) seqs of
        None \<Rightarrow> s
      | Some p \<Rightarrow> strip_while seqs n (drop (length p) s))"

text \<open>Every round removes at least one byte, so the length of the text is enough rounds.\<close>

definition trim_left_space :: "string \<Rightarrow> string" where
  "trim_left_space s = strip_while space_seqs (length s) s"

definition trim_right_space :: "string \<Rightarrow> string" where
  "trim_right_space s = rev (strip_while (map rev space_seqs) (length s) (rev s))"

definition trim_space :: "string \<Rightarrow> string" where
  "trim_space s = trim_right_space (trim_left_space s)"

lemma strip_while_enough:
  assumes "[] \<notin> set seqs" and "length s \<le> n"
  shows "find (\<lambda>p. prefix p (strip_while seqs n s)) seqs = None"
  using assms(2)
proof (induction n arbitrary: s)
  case 0
  then show ?case using assms(1) by (auto simp: find_None_iff)
next
  case (Suc n)
  show ?case
  proof (cases "find (\<lambda>p. prefix p s) seqs")
    case (Some p)
    then have "p \<in> set seqs" and pre: "prefix p s"
      by (auto simp: find_Some_iff)
    then have "p \<noteq> []" using assms(1) by auto
    then have "length (drop (length p) s) \<le> n"
      using Suc.prems pre by (cases p) (auto dest: prefix_length_le)
    with Some Suc.IH show ?thesis by simp
  qed simp
qed

lemma strip_while_id: "find (\<lambda>p. prefix p s) seqs = None \<Longrightarrow> strip_while seqs n s = s"
  by (cases n) auto

lemma space_seqs_nonempty: "[] \<notin> set space_seqs"
  by (simp add: space_seqs_def)

lemma trim_right_space_idem: "trim_right_space (trim_right_space s) = trim_right_space s"
proof -
  let ?q = "map rev space_seqs"
  have "[] \<notin> set ?q" using space_seqs_nonempty by auto
  then have "find (\<lambda>p. prefix p (strip_while ?q (length s) (rev s))) ?q = None"
    by (intro strip_while_enough) auto
  then show ?thesis by (simp add: trim_right_space_def strip_while_id)
qed

lemma trim_left_space_idem: "trim_left_space (trim_left_space s) = trim_left_space s"
  unfolding trim_left_space_def
  by (rule strip_while_id) (rule strip_while_enough [OF space_seqs_nonempty order_refl])

text \<open>\<open>strings.Fields\<close>: the runs of bytes between white space.\<close>

function fields_from :: "string \<Rightarrow> string \<Rightarrow> string list" where
  "fields_from cur [] = (if cur = [] then [] else [cur])"
| "fields_from cur (c # s) =
     (case find (\<lambda>p. p \<noteq> [] \<and> prefix p (c # s)) space_seqs of
        Some p \<Rightarrow> (if cur = [] then [] else [cur]) @ fields_from [] (drop (length p) (c # s))
      | None \<Rightarrow> fields_from (cur @ [c]) s)"
  by pat_completeness auto
termination
  by (relation "measure (\<lambda>(cur, s). length s)") (auto simp: find_Some_iff neq_Nil_conv)

definition str_fields :: "string \<Rightarrow> string list" where
  "str_fields s = fields_from [] s"

definition trim_cutset :: "string \<Rightarrow> string \<Rightarrow> string" where
  "trim_cutset s cs =
     rev (dropWhile (\<lambda>c. c \<in> set cs) (rev (dropWhile (\<lambda>c. c \<in> set cs) s)))"

lemma trim_cutset_empty_iff: "trim_cutset s cs = [] \<longleftrightarrow> set s \<subseteq> set cs"
proof
  assume "trim_cutset s cs = []"
  then have all: "\<forall>c\<in>set (dropWhile (\<lambda>c. c \<in> set cs) s). c \<in> set cs"
    unfolding trim_cutset_def by (simp only: rev_is_Nil_conv dropWhile_eq_Nil_conv set_rev)
  show "set s \<subseteq> set cs"
  proof (rule ccontr)
    assume "\<not> set s \<subseteq> set cs"
    then have ne: "dropWhile (\<lambda>c. c \<in> set cs) s \<noteq> []" by auto
    then have "hd (dropWhile (\<lambda>c. c \<in> set cs) s) \<notin> set cs"
      by (rule hd_dropWhile)
    with all ne show False by (meson hd_in_set)
  qed
next
  assume "set s \<subseteq> set cs"
  then have "dropWhile (\<lambda>c. c \<in> set cs) s = []" by (auto simp: dropWhile_eq_Nil_conv)
  then show "trim_cutset s cs = []"
    unfolding trim_cutset_def by (simp only: dropWhile.simps rev.simps)
qed

section \<open>Splitting and joining\<close>

fun split_byte :: "char \<Rightarrow> string \<Rightarrow> string list" where
  "split_byte sep [] = [[]]"
| "split_byte sep (c # s) =
     (if c = sep then [] # split_byte sep s
      else (case split_byte sep s of
              [] \<Rightarrow> [[c]]
            | seg # segs \<Rightarrow> (c # seg) # segs))"

fun join :: "string \<Rightarrow> string list \<Rightarrow> string" where
  "join sep [] = []"
| "join sep [x] = x"
| "join sep (x # y # xs) = x @ sep @ join sep (y # xs)"

lemma split_byte_nonempty: "split_byte sep s \<noteq> []"
  by (induction s) (auto split: list.splits)

lemma split_byte_no_sep: "sep \<notin> set s \<Longrightarrow> split_byte sep s = [s]"
  by (induction s) auto

lemma split_byte_segments: "seg \<in> set (split_byte sep s) \<Longrightarrow> sep \<notin> set seg"
proof (induction s arbitrary: seg)
  case (Cons c s)
  then show ?case
    using split_byte_nonempty [of sep s] by (auto split: list.splits if_splits)
qed simp

text \<open>Joining the segments again gives the text back.\<close>

lemma join_split_byte: "join [sep] (split_byte sep s) = s"
proof (induction s)
  case (Cons c s)
  obtain seg segs where ss: "split_byte sep s = seg # segs"
    using split_byte_nonempty [of sep s] by (cases "split_byte sep s") auto
  with Cons show ?case by (cases segs) auto
qed simp

lemma join_append:
  "xs \<noteq> [] \<Longrightarrow> ys \<noteq> [] \<Longrightarrow> join sep (xs @ ys) = join sep xs @ sep @ join sep ys"
proof (induction sep xs rule: join.induct)
  case (2 sep x)
  then show ?case by (cases ys) auto
qed auto

text \<open>A text that neither starts nor ends with the separator nor doubles it has no empty segment.\<close>

lemma split_byte_no_empty:
  assumes "s \<noteq> []" and "\<not> has_prefix s [sep]" and "\<not> has_suffix s [sep]"
    and "\<not> contains s [sep, sep]"
  shows "[] \<notin> set (split_byte sep s)"
proof
  assume "[] \<in> set (split_byte sep s)"
  then obtain a b where ab: "split_byte sep s = a @ [] # b" by (meson split_list)
  have s: "s = join [sep] (a @ [] # b)" using join_split_byte ab by metis
  consider "a = []" "b = []" | "a = []" "b \<noteq> []" | "a \<noteq> []" "b = []" | "a \<noteq> []" "b \<noteq> []"
    by blast
  then show False
  proof cases
    case 1
    then show False using s assms(1) by simp
  next
    case 2
    then have "s = sep # join [sep] b" using s join_append [of "[[]]" b "[sep]"] by simp
    then show False using assms(2) by (simp add: has_prefix_def)
  next
    case 3
    then have "s = join [sep] a @ [sep]" using s join_append [of a "[[]]" "[sep]"] by simp
    then show False using assms(3) by (simp add: has_suffix_iff)
  next
    case 4
    then have "s = join [sep] a @ [sep, sep] @ join [sep] b"
      using s join_append [of a "[] # b" "[sep]"] join_append [of "[[]]" b "[sep]"] by simp
    then show False using assms(4) by (simp only: contains_iff) blast
  qed
qed

text \<open>Text before and after the first separator (\<open>strings.Cut\<close>, \<open>IndexByte\<close>).\<close>

definition cut_byte :: "char \<Rightarrow> string \<Rightarrow> (string \<times> string) option" where
  "cut_byte sep s =
     (if sep \<in> set s
      then Some (takeWhile (\<lambda>c. c \<noteq> sep) s, tl (dropWhile (\<lambda>c. c \<noteq> sep) s))
      else None)"

lemma cut_byte_Some:
  assumes "cut_byte sep s = Some (a, b)"
  shows "s = a @ sep # b \<and> sep \<notin> set a"
proof -
  have mem: "sep \<in> set s" and a: "a = takeWhile (\<lambda>c. c \<noteq> sep) s"
    and b: "b = tl (dropWhile (\<lambda>c. c \<noteq> sep) s)"
    using assms by (auto simp: cut_byte_def split: if_splits)
  have ne: "dropWhile (\<lambda>c. c \<noteq> sep) s \<noteq> []" using mem by auto
  then have "hd (dropWhile (\<lambda>c. c \<noteq> sep) s) = sep"
    using hd_dropWhile [of "\<lambda>c. c \<noteq> sep" s] by simp
  then have "dropWhile (\<lambda>c. c \<noteq> sep) s = sep # b"
    using b ne by (metis list.collapse)
  moreover have "sep \<notin> set a" using a by (auto dest: set_takeWhileD)
  ultimately show ?thesis using a by (metis takeWhile_dropWhile_id)
qed

text \<open>Text before and after the last separator (\<open>LastIndexByte\<close>).\<close>

definition cut_last_byte :: "char \<Rightarrow> string \<Rightarrow> (string \<times> string) option" where
  "cut_last_byte sep s =
     map_option (\<lambda>(a, b). (rev b, rev a)) (cut_byte sep (rev s))"

section \<open>Numbers and booleans as text\<close>

definition digit_char :: "nat \<Rightarrow> char" where
  "digit_char d = char_of (48 + d)"

fun digits_of :: "nat \<Rightarrow> string" where
  "digits_of n = (if n < 10 then [digit_char n] else digits_of (n div 10) @ [digit_char (n mod 10)])"

declare digits_of.simps [simp del]

definition itoa :: "int \<Rightarrow> string" where
  "itoa i = (if i < 0 then CHR ''-'' # digits_of (nat (- i)) else digits_of (nat i))"

definition format_bool :: "bool \<Rightarrow> string" where
  "format_bool b = (if b then ''true'' else ''false'')"

definition digits_value :: "string \<Rightarrow> nat" where
  "digits_value s = foldl (\<lambda>v c. 10 * v + (byte c - 48)) 0 s"

lemma byte_digit_char: "d < 10 \<Longrightarrow> byte (digit_char d) = 48 + d"
  by (simp add: digit_char_def byte_char_of)

lemma digits_value_digits_of: "digits_value (digits_of n) = n"
proof (induction n rule: digits_of.induct)
  case (1 n)
  show ?case
  proof (cases "n < 10")
    case True
    then show ?thesis
      by (simp add: digits_of.simps [of n] digits_value_def byte_digit_char)
  next
    case False
    with 1 have IH: "digits_value (digits_of (n div 10)) = n div 10" by simp
    have "digits_value (digits_of n) = 10 * digits_value (digits_of (n div 10)) + n mod 10"
      using False by (simp add: digits_of.simps [of n] digits_value_def byte_digit_char)
    then show ?thesis using IH by simp
  qed
qed

lemma digits_of_digits: "c \<in> set (digits_of n) \<Longrightarrow> is_digit c"
proof (induction n rule: digits_of.induct)
  case (1 n)
  then show ?case
    by (cases "n < 10") (auto simp: digits_of.simps [of n] is_digit_def byte_digit_char)
qed

lemma digits_of_nonempty: "digits_of n \<noteq> []"
  by (subst digits_of.simps) simp

lemma itoa_chars: "c \<in> set (itoa i) \<Longrightarrow> is_digit c \<or> c = CHR ''-''"
  by (auto simp: itoa_def digits_of_digits split: if_splits)

lemma minus_not_digit: "\<not> is_digit CHR ''-''"
  by (simp add: is_digit_def byte_def)

lemma itoa_inject: "itoa i = itoa j \<longleftrightarrow> i = j"
proof
  have nd: "CHR ''-'' # s \<noteq> digits_of n" for s n
    using digits_of_digits [of "CHR ''-''" n] minus_not_digit by (metis list.set_intros(1))
  assume eq: "itoa i = itoa j"
  then have sign: "(i < 0) = (j < 0)"
    using nd by (auto simp: itoa_def split: if_splits) (metis nd)+
  show "i = j"
  proof (cases "i < 0")
    case True
    then have "digits_of (nat (- i)) = digits_of (nat (- j))" using eq sign by (simp add: itoa_def)
    then have "nat (- i) = nat (- j)" by (metis digits_value_digits_of)
    then show ?thesis using True sign by simp
  next
    case False
    then have "digits_of (nat i) = digits_of (nat j)" using eq sign by (simp add: itoa_def)
    then have "nat i = nat j" by (metis digits_value_digits_of)
    then show ?thesis using False sign by simp
  qed
qed simp

lemma itoa_no_control: "c \<in> set (itoa i) \<Longrightarrow> 32 < byte c"
  using itoa_chars [of c i] by (auto simp: is_digit_def byte_def)

section \<open>UTF-8\<close>

definition cont_byte :: "nat \<Rightarrow> nat \<Rightarrow> char \<Rightarrow> bool" where
  "cont_byte lo hi c \<longleftrightarrow> lo \<le> byte c \<and> byte c \<le> hi"

text \<open>Number of bytes of the valid encoding at the front of the text, 0 when there is none.\<close>

definition rune_len :: "string \<Rightarrow> nat" where
  "rune_len s =
     (case s of [] \<Rightarrow> 0
      | a # s1 \<Rightarrow>
         (let n = byte a in
          if n < 128 then 1
          else (case s1 of [] \<Rightarrow> 0
           | b # s2 \<Rightarrow>
              if 194 \<le> n \<and> n \<le> 223 then (if cont_byte 128 191 b then 2 else 0)
              else (case s2 of [] \<Rightarrow> 0
               | c # s3 \<Rightarrow>
                  if 224 \<le> n \<and> n \<le> 239 then
                    (if cont_byte (if n = 224 then 160 else 128) (if n = 237 then 159 else 191) b
                        \<and> cont_byte 128 191 c then 3 else 0)
                  else (case s3 of [] \<Rightarrow> 0
                   | d # _ \<Rightarrow>
                      if 240 \<le> n \<and> n \<le> 244 then
                        (if cont_byte (if n = 240 then 144 else 128) (if n = 244 then 143 else 191) b
                            \<and> cont_byte 128 191 c \<and> cont_byte 128 191 d then 4 else 0)
                      else 0)))))"

function valid_utf8 :: "string \<Rightarrow> bool" where
  "valid_utf8 s =
     (if s = [] then True
      else if rune_len s = 0 then False
      else valid_utf8 (drop (rune_len s) s))"
  by pat_completeness auto
termination
  by (relation "measure length") auto

declare valid_utf8.simps [simp del]

text \<open>\<open>utf8.RuneStart\<close>: the byte is not a continuation byte.\<close>

definition rune_start :: "char \<Rightarrow> bool" where
  "rune_start c \<longleftrightarrow> \<not> (128 \<le> byte c \<and> byte c \<le> 191)"

section \<open>Quoting\<close>

definition hex_digit :: "nat \<Rightarrow> char" where
  "hex_digit d = (if d < 10 then char_of (48 + d) else char_of (87 + d))"

definition quote_char :: "char \<Rightarrow> string" where
  "quote_char c =
     (let n = byte c in
      if n = 34 then [CHR 0x5C, CHR 0x22]
      else if n = 92 then [CHR 0x5C, CHR 0x5C]
      else if n = 7 then [CHR 0x5C, CHR ''a'']
      else if n = 8 then [CHR 0x5C, CHR ''b'']
      else if n = 9 then [CHR 0x5C, CHR ''t'']
      else if n = 10 then [CHR 0x5C, CHR ''n'']
      else if n = 11 then [CHR 0x5C, CHR ''v'']
      else if n = 12 then [CHR 0x5C, CHR ''f'']
      else if n = 13 then [CHR 0x5C, CHR ''r'']
      else if n < 32 \<or> n = 127 then [CHR 0x5C, CHR ''x'', hex_digit (n div 16), hex_digit (n mod 16)]
      else [c])"

definition go_quote :: "string \<Rightarrow> string" where
  "go_quote s = CHR 0x22 # concat (map quote_char s) @ [CHR 0x22]"

section \<open>Characters outside ASCII used in messages\<close>

definition emdash :: string where
  "emdash = [CHR 0xE2, CHR 0x80, CHR 0x94]"

definition rarrow :: string where
  "rarrow = [CHR 0xE2, CHR 0x86, CHR 0x92]"

definition nul :: string where
  "nul = [CHR 0x00]"

section \<open>Trimming and lower case\<close>

lemma strip_while_suffix: "\<exists>t. s = t @ strip_while seqs n s"
proof (induction n arbitrary: s)
  case (Suc n)
  show ?case
  proof (cases "find (\<lambda>p. prefix p s) seqs")
    case (Some p)
    obtain t where "drop (length p) s = t @ strip_while seqs n (drop (length p) s)"
      using Suc.IH by blast
    then have "s = (take (length p) s @ t) @ strip_while seqs n (drop (length p) s)"
      by (metis append.assoc append_take_drop_id)
    with Some show ?thesis by simp (metis append.assoc)
  qed simp
qed simp

lemma trim_right_prefix: "prefix (trim_right_space s) s"
proof -
  obtain t where "rev s = t @ strip_while (map rev space_seqs) (length s) (rev s)"
    using strip_while_suffix by blast
  then have "s = trim_right_space s @ rev t"
    unfolding trim_right_space_def by (metis rev_append rev_rev_ident)
  then show ?thesis by (rule prefixI)
qed

lemma trim_space_idem [go_simps]: "trim_space (trim_space s) = trim_space s"
proof -
  let ?t = "trim_left_space s"
  have "find (\<lambda>p. prefix p ?t) space_seqs = None"
    unfolding trim_left_space_def by (rule strip_while_enough [OF space_seqs_nonempty order_refl])
  then have "find (\<lambda>p. prefix p (trim_right_space ?t)) space_seqs = None"
    using trim_right_prefix [of ?t] by (auto simp: find_None_iff dest: prefix_order.order_trans)
  then have "trim_left_space (trim_right_space ?t) = trim_right_space ?t"
    unfolding trim_left_space_def by (rule strip_while_id)
  then show ?thesis by (simp add: trim_space_def trim_right_space_idem)
qed

definition no_letter :: "char \<Rightarrow> bool" where
  "no_letter c \<longleftrightarrow> \<not> is_upper c \<and> \<not> is_lower c"

lemma prefix_to_lower:
  "list_all no_letter p \<Longrightarrow> prefix p (to_lower s) \<longleftrightarrow> prefix p s"
proof (induction p arbitrary: s)
  case (Cons c p)
  have "lower_char d = c \<longleftrightarrow> d = c" for d
    using Cons.prems by (intro lower_char_eq_iff) (simp_all add: no_letter_def)
  then have "c = lower_char d \<longleftrightarrow> c = d" for d by metis
  moreover have "prefix p (to_lower t) \<longleftrightarrow> prefix p t" for t
    using Cons.prems Cons.IH by simp
  ultimately show ?case by (cases s) (simp_all add: to_lower_def)
qed simp

lemma space_seqs_no_letter: "\<forall>p\<in>set space_seqs. list_all no_letter p"
  by (simp add: space_seqs_def no_letter_def is_upper_def is_lower_def byte_def)

lemma strip_while_to_lower:
  assumes "\<forall>p\<in>set seqs. list_all no_letter p"
  shows "strip_while seqs n (to_lower s) = to_lower (strip_while seqs n s)"
proof (induction n arbitrary: s)
  case (Suc n)
  have "find (\<lambda>p. prefix p (to_lower s)) seqs = find (\<lambda>p. prefix p s) seqs"
    using assms by (intro find_cong) (auto simp: prefix_to_lower)
  then show ?case
    using Suc.IH by (simp add: to_lower_def drop_map split: option.split)
qed simp

lemma to_lower_rev: "rev (to_lower s) = to_lower (rev s)"
  by (simp add: to_lower_def rev_map)

lemma trim_space_to_lower [go_simps]: "trim_space (to_lower s) = to_lower (trim_space s)"
proof -
  have "\<forall>p\<in>set (map rev space_seqs). list_all no_letter p"
    using space_seqs_no_letter by (auto simp: list_all_iff)
  then have "trim_right_space (to_lower t) = to_lower (trim_right_space t)" for t
    by (simp add: trim_right_space_def to_lower_rev strip_while_to_lower)
  moreover have "trim_left_space (to_lower t) = to_lower (trim_left_space t)" for t
    by (simp add: trim_left_space_def strip_while_to_lower [OF space_seqs_no_letter])
  ultimately show ?thesis by (simp add: trim_space_def)
qed

section \<open>Replacing\<close>

text \<open>\<open>strings.ReplaceAll\<close> of a text that is not empty.\<close>

function replace_all :: "string \<Rightarrow> string \<Rightarrow> string \<Rightarrow> string" where
  "replace_all old new [] = []"
| "replace_all old new (c # s) =
     (if old \<noteq> [] \<and> prefix old (c # s) then new @ replace_all old new (drop (length old) (c # s))
      else c # replace_all old new s)"
  by pat_completeness auto
termination
  by (relation "measure (\<lambda>(old, new, s). length s)") (auto simp: neq_Nil_conv)

lemma replace_all_none: "\<not> contains s old \<Longrightarrow> replace_all old new s = s"
  by (induction old new s rule: replace_all.induct) auto

section \<open>strconv.ParseInt\<close>

text \<open>\<open>strconv.ParseInt(s, 10, 64)\<close>.\<close>

definition parse_int64 :: "string \<Rightarrow> int option" where
  "parse_int64 s =
     (let (neg, ds) = (case s of
             c # cs \<Rightarrow> if c = CHR ''-'' then (True, cs) else if c = CHR ''+'' then (False, cs) else (False, s)
           | [] \<Rightarrow> (False, []));
          v = (if neg then - int (digits_value ds) else int (digits_value ds))
      in if ds \<noteq> [] \<and> list_all is_digit ds \<and> - (2 ^ 63) \<le> v \<and> v < 2 ^ 63 then Some v else None)"

lemma parse_int64_range: "parse_int64 s = Some v \<Longrightarrow> - (2 ^ 63) \<le> v \<and> v < 2 ^ 63"
  by (auto simp: parse_int64_def Let_def split: prod.splits if_splits)

lemma itoa_digits: "list_all is_digit (digits_of n)"
  by (auto simp: list_all_iff digits_of_digits)

lemma parse_int64_itoa:
  assumes "- (2 ^ 63) \<le> i" and "i < 2 ^ 63"
  shows "parse_int64 (itoa i) = Some i"
proof (cases "i < 0")
  case True
  then show ?thesis
    using assms by (simp add: parse_int64_def itoa_def digits_value_digits_of digits_of_nonempty itoa_digits)
next
  case False
  obtain c cs where ds: "digits_of (nat i) = c # cs"
    using digits_of_nonempty [of "nat i"] by (cases "digits_of (nat i)") auto
  then have dg: "is_digit c" using digits_of_digits [of c "nat i"] by simp
  then have "c \<noteq> CHR ''-''" "c \<noteq> CHR ''+''" by (auto simp: is_digit_def byte_def)
  moreover have "digits_value (c # cs) = nat i" "list_all is_digit (c # cs)"
    using digits_value_digits_of [of "nat i"] itoa_digits [of "nat i"] ds by simp_all
  ultimately show ?thesis
    using assms False ds by (simp add: parse_int64_def itoa_def)
qed

end
