(* ===== verification/Paths.thy ===== *)
theory Paths
  imports GoStrings
begin

text \<open>
  What a slash-separated path names: a walk over directory names, in which an empty segment and
  \<open>.\<close> stay, and \<open>..\<close> goes up. The checks of \<open>internal/validate\<close>, \<open>internal/executioncontract\<close>
  and \<open>internal/workbench\<close> all promise that a path they accept stays below the directory it is
  joined to; the locales state that promise once, and the theories of those packages interpret them.
\<close>

fun walk :: "string list \<Rightarrow> string list \<Rightarrow> string list" where
  "walk dir [] = dir"
| "walk dir (seg # segs) =
     (if seg = '''' \<or> seg = ''.'' then walk dir segs
      else if seg = ''..'' then walk (butlast dir) segs
      else walk (dir @ [seg]) segs)"

definition resolve :: "string list \<Rightarrow> string \<Rightarrow> string list" where
  "resolve dir p =
     walk (if has_prefix p ''/'' then [] else dir) (split_byte CHR ''/'' p)"

lemma walk_no_parent:
  "''..'' \<notin> set segs \<Longrightarrow> walk dir segs = dir @ filter (\<lambda>s. s \<noteq> '''' \<and> s \<noteq> ''.'') segs"
  by (induction dir segs rule: walk.induct) auto

text \<open>A path that could escape does: the checks refuse nothing harmless here.\<close>

lemma walk_parent_escapes: "walk [d] [''..'', ''x''] = [''x'']"
  by simp

locale confined_path =
  fixes norm :: "string \<Rightarrow> string" and ok :: "string \<Rightarrow> bool"
  assumes relative: "ok s \<Longrightarrow> \<not> has_prefix (norm s) ''/''"
    and no_parent: "ok s \<Longrightarrow> ''..'' \<notin> set (split_byte CHR ''/'' (norm s))"
begin

lemma resolve_below:
  "ok s \<Longrightarrow> resolve dir (norm s) =
     dir @ filter (\<lambda>t. t \<noteq> '''' \<and> t \<noteq> ''.'') (split_byte CHR ''/'' (norm s))"
  using relative no_parent by (simp add: resolve_def walk_no_parent)

lemma confined: "ok s \<Longrightarrow> prefix dir (resolve dir (norm s))"
  by (simp add: resolve_below)

end

text \<open>A check that accepts single path components only.\<close>

locale single_component =
  fixes ok :: "string \<Rightarrow> bool"
  assumes no_slash: "ok s \<Longrightarrow> CHR ''/'' \<notin> set s"
    and named: "ok s \<Longrightarrow> s \<notin> {'''', ''.'', ''..''}"
begin

lemma one_segment: "ok s \<Longrightarrow> split_byte CHR ''/'' s = [s]"
  by (simp add: no_slash split_byte_no_sep)

lemma not_absolute: "ok s \<Longrightarrow> \<not> has_prefix s ''/''"
  using no_slash [of s] by (auto simp: has_prefix_def prefix_def)

lemma resolve_child: "ok s \<Longrightarrow> resolve dir s = dir @ [s]"
  using named [of s] by (simp add: resolve_def not_absolute one_segment)

lemma children_apart: "ok s \<Longrightarrow> ok t \<Longrightarrow> resolve dir s = resolve dir t \<Longrightarrow> s = t"
  by (simp add: resolve_child)

end

sublocale single_component \<subseteq> confined_path "\<lambda>s. s" ok
  using not_absolute one_segment named by unfold_locales (auto dest: named)

end
