(* ===== verification/Validate.thy ===== *)
theory Validate
  imports Paths
begin

text \<open>
  \<open>internal/domainname\<close>: the identity key of a domain. \<open>internal/validate\<close>: the checks every
  externally supplied identifier and path passes.
\<close>

section \<open>Domain identity (domainname.go)\<close>

definition domain_key :: "string \<Rightarrow> string" where
  "domain_key name = to_lower (rev (dropWhile (\<lambda>c. c = CHR ''.'') (rev name)))"

definition domain_has :: "(string \<Rightarrow> bool) \<Rightarrow> string \<Rightarrow> bool" where
  "domain_has st name = st (domain_key name)"

definition domain_equal :: "string \<Rightarrow> string \<Rightarrow> bool" where
  "domain_equal a b = (domain_key a = domain_key b)"

lemma lower_char_dot: "lower_char c = CHR ''.'' \<longleftrightarrow> c = CHR ''.''"
  by (rule lower_char_eq_iff) (simp_all add: is_upper_def is_lower_def byte_def)

lemma dropWhile_dots_lower:
  "dropWhile (\<lambda>c. c = CHR ''.'') (map lower_char s) = map lower_char (dropWhile (\<lambda>c. c = CHR ''.'') s)"
  by (induction s) (auto simp: lower_char_dot)

lemma dropWhile_dots_idem:
  "dropWhile (\<lambda>c. c = CHR ''.'') (dropWhile (\<lambda>c. c = CHR ''.'') s) = dropWhile (\<lambda>c. c = CHR ''.'') s"
  by (rule dropWhile_idem)

lemma domain_key_idem: "domain_key (domain_key n) = domain_key n"
  by (simp add: domain_key_def to_lower_def rev_map dropWhile_dots_lower dropWhile_dots_idem
        lower_char_idem o_def)

lemma domain_key_lower: "domain_key (to_lower n) = domain_key n"
  by (simp add: domain_key_def to_lower_def rev_map dropWhile_dots_lower lower_char_idem o_def)

lemma domain_key_dots: "domain_key (n @ replicate k CHR ''.'') = domain_key n"
proof -
  have "dropWhile (\<lambda>c. c = CHR ''.'') (replicate k CHR ''.'' @ rev n) =
      dropWhile (\<lambda>c. c = CHR ''.'') (rev n)"
    by (rule dropWhile_append2) (simp add: in_set_replicate)
  then show ?thesis by (simp add: domain_key_def)
qed

section \<open>Checks (validate.go)\<close>

datatype validate_error =
    EmptyField string
  | ControlChar string nat
  | HasSpace string string
  | TraversalComponent string
  | PathSeparator string
  | EdgeDot string
  | ConsecutiveDots string
  | IllegalChar string string
  | NotRelative string
  | ParentComponent string

definition is_control :: "char \<Rightarrow> bool" where
  "is_control c \<longleftrightarrow> byte c < 32 \<or> byte c = 127"

definition no_control :: "string \<Rightarrow> string \<Rightarrow> validate_error + unit" where
  "no_control what s =
     (case find is_control s of
        Some c \<Rightarrow> Inl (ControlChar what (byte c))
      | None \<Rightarrow> Inr ())"

definition no_control_or_space :: "string \<Rightarrow> string \<Rightarrow> validate_error + unit" where
  "no_control_or_space what s =
     (case no_control what s of
        Inl e \<Rightarrow> Inl e
      | Inr _ \<Rightarrow> if CHR '' '' \<in> set s then Inl (HasSpace what s) else Inr ())"

definition mailbox_user :: "string \<Rightarrow> validate_error + unit" where
  "mailbox_user s =
     (if s = [] then Inl (EmptyField ''mailbox user'')
      else case no_control_or_space ''mailbox user'' s of
        Inl e \<Rightarrow> Inl e
      | Inr _ \<Rightarrow>
         if s = ''.'' \<or> s = ''..'' then Inl (TraversalComponent s)
         else if contains_any s [CHR ''/'', CHR 0x5C] then Inl (PathSeparator s)
         else Inr ())"

definition domain_illegal :: string where
  "domain_illegal =
     [CHR ''/'', CHR 0x5C] @ ''?#%&'' @ [CHR 0x27, CHR 0x22, CHR 0x60] @ '';|*$(){}[]<>!''"

definition check_domain :: "string \<Rightarrow> validate_error + unit" where
  "check_domain s =
     (if s = [] then Inl (EmptyField ''domain'')
      else case no_control_or_space ''domain'' s of
        Inl e \<Rightarrow> Inl e
      | Inr _ \<Rightarrow>
         if has_prefix s ''.'' \<or> has_suffix s ''.'' then Inl (EdgeDot s)
         else if contains s ''..'' then Inl (ConsecutiveDots s)
         else if contains_any s domain_illegal then Inl (IllegalChar ''domain'' s)
         else Inr ())"

definition db_illegal :: string where
  "db_illegal =
     [CHR ''/'', CHR 0x5C, CHR 0x60, CHR 0x27, CHR 0x22] @ '';|*$(){}[]<>!?#&''"

definition db_name :: "string \<Rightarrow> validate_error + unit" where
  "db_name s =
     (if s = [] then Inl (EmptyField ''database name'')
      else case no_control_or_space ''database name'' s of
        Inl e \<Rightarrow> Inl e
      | Inr _ \<Rightarrow>
         if contains_any s db_illegal then Inl (IllegalChar ''database name'' s) else Inr ())"

definition rel_path :: "string \<Rightarrow> validate_error + unit" where
  "rel_path s =
     (if s = [] then Inl (EmptyField ''relative path'')
      else case no_control ''path'' s of
        Inl e \<Rightarrow> Inl e
      | Inr _ \<Rightarrow>
         if has_prefix s ''/'' then Inl (NotRelative s)
         else if list_ex (\<lambda>seg. seg = ''..'') (split_byte CHR ''/'' s) then Inl (ParentComponent s)
         else Inr ())"

lemma no_control_ok_iff: "no_control w s = Inr () \<longleftrightarrow> (\<forall>c\<in>set s. \<not> is_control c)"
proof -
  have "no_control w s = Inr () \<longleftrightarrow> find is_control s = None"
    by (simp add: no_control_def split: option.split)
  then show ?thesis unfolding find_None_iff by blast
qed

lemma no_control_or_space_ok_iff:
  "no_control_or_space w s = Inr () \<longleftrightarrow> (\<forall>c\<in>set s. \<not> is_control c \<and> c \<noteq> CHR '' '')"
  unfolding no_control_or_space_def chain_ok_iff by (auto simp: no_control_ok_iff)

lemma mailbox_user_ok_iff:
  "mailbox_user s = Inr () \<longleftrightarrow>
     s \<notin> {'''', ''.'', ''..''} \<and> (\<forall>c\<in>set s. \<not> is_control c \<and> c \<noteq> CHR '' '')
     \<and> CHR ''/'' \<notin> set s \<and> CHR 0x5C \<notin> set s"
  unfolding mailbox_user_def chain_ok_iff guard_ok_iff
  by (simp add: no_control_or_space_ok_iff contains_any_iff) blast

lemma rel_path_ok_iff:
  "rel_path s = Inr () \<longleftrightarrow>
     s \<noteq> [] \<and> (\<forall>c\<in>set s. \<not> is_control c) \<and> \<not> has_prefix s ''/''
     \<and> ''..'' \<notin> set (split_byte CHR ''/'' s)"
  unfolding rel_path_def chain_ok_iff guard_ok_iff
  by (simp add: no_control_ok_iff list_ex_iff)

lemma check_domain_ok_iff:
  "check_domain s = Inr () \<longleftrightarrow>
     s \<noteq> [] \<and> (\<forall>c\<in>set s. \<not> is_control c \<and> c \<noteq> CHR '' '')
     \<and> \<not> has_prefix s ''.'' \<and> \<not> has_suffix s ''.'' \<and> \<not> contains s ''..''
     \<and> set s \<inter> set domain_illegal = {}"
  unfolding check_domain_def chain_ok_iff guard_ok_iff
  by (simp add: no_control_or_space_ok_iff contains_any_iff)

text \<open>An accepted domain splits at its dots into labels none of which is empty.\<close>

lemma accepted_domain_labels:
  "check_domain s = Inr () \<Longrightarrow> [] \<notin> set (split_byte CHR ''.'' s)"
  by (rule split_byte_no_empty) (simp_all add: check_domain_ok_iff)

interpretation relp: confined_path "\<lambda>s. s" "\<lambda>s. rel_path s = Inr ()"
  by unfold_locales (simp_all add: rel_path_ok_iff)

interpretation mbox: single_component "\<lambda>s. mailbox_user s = Inr ()"
  by unfold_locales (simp_all add: mailbox_user_ok_iff)

text \<open>C20. A relative path that \<open>validate.RelPath\<close> accepts names something at or below the directory it
  is joined to, whatever that directory is, and every mailbox user that \<open>validate.MailboxUser\<close>
  accepts names exactly one directory entry directly below it, different users different entries.
\<close>

theorem accepted_paths_stay_inside:
  "(rel_path p = Inr () \<longrightarrow> prefix dir (resolve dir p))
   \<and> (mailbox_user u = Inr () \<longrightarrow> resolve dir u = dir @ [u])
   \<and> (mailbox_user u = Inr () \<longrightarrow> mailbox_user v = Inr () \<longrightarrow>
        resolve dir u = resolve dir v \<longrightarrow> u = v)"
  using relp.confined mbox.resolve_child mbox.children_apart by blast

lemma accepted_paths_stay_inside_witness:
  "prefix [''home'', ''mail''] (resolve [''home'', ''mail''] ''.Sent Items/cur'')
   \<and> resolve [''home''] ''john.doe'' = [''home'', ''john.doe'']"
proof -
  have p: "rel_path ''.Sent Items/cur'' = Inr ()" by code_simp
  have u: "mailbox_user ''john.doe'' = Inr ()" by code_simp
  have "prefix [''home'', ''mail''] (resolve [''home'', ''mail''] ''.Sent Items/cur'')"
    by (rule accepted_paths_stay_inside [THEN conjunct1, rule_format, OF p])
  moreover have "resolve [''home''] ''john.doe'' = [''home''] @ [''john.doe'']"
    by (rule accepted_paths_stay_inside [THEN conjunct2, THEN conjunct1, rule_format, OF u])
  ultimately show ?thesis by simp
qed

text \<open>Two raw domain names are the same domain to the migration (\<open>domainname.Equal\<close>) as soon as
  they differ in ASCII case or in trailing dots only; the comparison is an equivalence and depends
  on the canonical key alone, which is a fixed point of the canonicalisation.
\<close>

theorem domain_identity:
  "domain_equal (to_lower n @ replicate k CHR ''.'') n
   \<and> domain_key (domain_key n) = domain_key n
   \<and> domain_equal n (domain_key n)
   \<and> equivp domain_equal"
proof -
  have "equivp domain_equal"
    by (rule equivpI) (auto simp: domain_equal_def reflp_def symp_def transp_def)
  then show ?thesis
    by (simp add: domain_equal_def domain_key_dots domain_key_lower domain_key_idem)
qed

end
