(* ===== verification/WbStatus.thy ===== *)
theory WbStatus
  imports GoStrings
begin

text \<open>
  \<open>internal/workbench/types.go\<close> and \<open>status.go\<close>: the lifecycle of a migration session. A Go
  \<open>Status\<close> is any string; the named constants are constructors and every other string is
  \<open>OtherStatus\<close>. The transition matrix is kept as the code has it, as a table, and the theory
  shows what the table amounts to: legal moves go strictly forward, so every legal history is
  finite and passes the gates in order.
\<close>

section \<open>Statuses, steps, artifact kinds (types.go)\<close>

datatype status =
    Draft | PreflightRequired | InventoryReady | ChecklistReady | ManualActionsRequired
  | ReadyForApply | ApplyInProgress | ApplyDone | VerificationRequired | ReadyForCutover
  | CutoverDone | Blocked | Failed | Archived
  | OtherStatus string

definition all_statuses :: "status list" where
  "all_statuses =
     [Draft, PreflightRequired, InventoryReady, ChecklistReady, ManualActionsRequired,
      ReadyForApply, ApplyInProgress, ApplyDone, VerificationRequired, ReadyForCutover,
      CutoverDone, Blocked, Failed, Archived]"

definition valid_status :: "status \<Rightarrow> bool" where
  "valid_status s = list_ex (\<lambda>v. v = s) all_statuses"

datatype step =
    StepSetup | StepPreflight | StepInventory | StepDiffPolicyChecklist | StepPlanning
  | StepApplyCore | StepApplyEmail | StepApplyDNS | StepApplyCron | StepVerify | StepCutover
  | StepArchive | OtherStep string

definition all_steps :: "step list" where
  "all_steps =
     [StepSetup, StepPreflight, StepInventory, StepDiffPolicyChecklist, StepPlanning,
      StepApplyCore, StepApplyEmail, StepApplyDNS, StepApplyCron, StepVerify, StepCutover,
      StepArchive]"

definition valid_step :: "step \<Rightarrow> bool" where
  "valid_step s = list_ex (\<lambda>v. v = s) all_steps"

definition all_artifact_kinds :: "string list" where
  "all_artifact_kinds =
     [''inventory_source'', ''inventory_destination'', ''inventory_diff'', ''policy_report'',
      ''dns_plan'', ''migration_checklist'', ''acceptances'', ''apply_report'',
      ''dns_apply_report'', ''dns_verify_report'', ''email_plan'', ''email_apply_report'',
      ''email_verify_report'', ''cron_plan'', ''cron_apply_report'', ''cron_verify_report'',
      ''events_jsonl'']"

definition valid_artifact_kind :: "string \<Rightarrow> bool" where
  "valid_artifact_kind k = list_ex (\<lambda>v. v = k) all_artifact_kinds"

lemma valid_status_iff: "valid_status s \<longleftrightarrow> (\<forall>x. s \<noteq> OtherStatus x)"
  by (cases s) (simp_all add: valid_status_def all_statuses_def)

section \<open>Transitions (status.go)\<close>

definition terminal_status :: "status \<Rightarrow> bool" where
  "terminal_status s \<longleftrightarrow> s = CutoverDone \<or> s = Archived"

text \<open>The table \<open>activeStatuses\<close> that \<open>init\<close> fills from the list of all statuses.\<close>

definition active_statuses :: "status list" where
  "active_statuses =
     filter (\<lambda>s. \<not> terminal_status s \<and> s \<noteq> Blocked \<and> s \<noteq> Failed) all_statuses"

fun allowed_transitions :: "status \<Rightarrow> status list" where
  "allowed_transitions Draft = [PreflightRequired]"
| "allowed_transitions PreflightRequired = [InventoryReady]"
| "allowed_transitions InventoryReady = [ChecklistReady]"
| "allowed_transitions ChecklistReady = [ManualActionsRequired, ReadyForApply]"
| "allowed_transitions ManualActionsRequired = [ReadyForApply]"
| "allowed_transitions ReadyForApply = [ApplyInProgress]"
| "allowed_transitions ApplyInProgress = [ApplyDone]"
| "allowed_transitions ApplyDone = [VerificationRequired]"
| "allowed_transitions VerificationRequired = [ReadyForCutover]"
| "allowed_transitions ReadyForCutover = [CutoverDone]"
| "allowed_transitions CutoverDone = [Archived]"
| "allowed_transitions Blocked = [Archived]"
| "allowed_transitions Failed = [Archived]"
| "allowed_transitions _ = []"

definition can_transition :: "status \<Rightarrow> status \<Rightarrow> bool" where
  "can_transition src to =
     (if \<not> valid_status src \<or> \<not> valid_status to then False
      else if (to = Blocked \<or> to = Failed) \<and> src \<in> set active_statuses then True
      else list_ex (\<lambda>a. a = to) (allowed_transitions src))"

datatype transition_error =
    InvalidCurrent status
  | InvalidTarget status
  | NotAllowed status status

definition validate_transition :: "status \<Rightarrow> status \<Rightarrow> transition_error + unit" where
  "validate_transition src to =
     (if \<not> valid_status src then Inl (InvalidCurrent src)
      else if \<not> valid_status to then Inl (InvalidTarget to)
      else if \<not> can_transition src to then Inl (NotAllowed src to)
      else Inr ())"

lemma validate_transition_ok_iff: "validate_transition src to = Inr () \<longleftrightarrow> can_transition src to"
  by (simp add: validate_transition_def can_transition_def)

section \<open>Legal histories\<close>

text \<open>A legal move as a relation, and the moves out of each status.\<close>

inductive moves :: "status \<Rightarrow> status \<Rightarrow> bool" where
  move: "can_transition s t \<Longrightarrow> moves s t"

inductive_simps moves_iff: "moves s t"

lemmas transition_defs =
  can_transition_def valid_status_def all_statuses_def active_statuses_def terminal_status_def

lemma moves_from:
  "moves Draft t \<longleftrightarrow> t \<in> {PreflightRequired, Blocked, Failed}"
  "moves PreflightRequired t \<longleftrightarrow> t \<in> {InventoryReady, Blocked, Failed}"
  "moves InventoryReady t \<longleftrightarrow> t \<in> {ChecklistReady, Blocked, Failed}"
  "moves ChecklistReady t \<longleftrightarrow> t \<in> {ManualActionsRequired, ReadyForApply, Blocked, Failed}"
  "moves ManualActionsRequired t \<longleftrightarrow> t \<in> {ReadyForApply, Blocked, Failed}"
  "moves ReadyForApply t \<longleftrightarrow> t \<in> {ApplyInProgress, Blocked, Failed}"
  "moves ApplyInProgress t \<longleftrightarrow> t \<in> {ApplyDone, Blocked, Failed}"
  "moves ApplyDone t \<longleftrightarrow> t \<in> {VerificationRequired, Blocked, Failed}"
  "moves VerificationRequired t \<longleftrightarrow> t \<in> {ReadyForCutover, Blocked, Failed}"
  "moves ReadyForCutover t \<longleftrightarrow> t \<in> {CutoverDone, Blocked, Failed}"
  "moves CutoverDone t \<longleftrightarrow> t \<in> {Archived}"
  "moves Blocked t \<longleftrightarrow> t \<in> {Archived}"
  "moves Failed t \<longleftrightarrow> t \<in> {Archived}"
  "moves Archived t \<longleftrightarrow> False"
  "moves (OtherStatus x) t \<longleftrightarrow> False"
  by (cases t; simp add: moves_iff transition_defs)+

text \<open>The place of a status in the lifecycle; legal moves increase it.\<close>

fun rank :: "status \<Rightarrow> nat" where
  "rank Draft = 0"
| "rank PreflightRequired = 1"
| "rank InventoryReady = 2"
| "rank ChecklistReady = 3"
| "rank ManualActionsRequired = 4"
| "rank ReadyForApply = 5"
| "rank ApplyInProgress = 6"
| "rank ApplyDone = 7"
| "rank VerificationRequired = 8"
| "rank ReadyForCutover = 9"
| "rank CutoverDone = 10"
| "rank Blocked = 10"
| "rank Failed = 10"
| "rank Archived = 11"
| "rank (OtherStatus _) = 12"

lemma moves_rank: "moves s t \<Longrightarrow> rank s < rank t \<and> rank t \<le> 11"
  by (cases s) (auto simp: moves_from)

fun history :: "status \<Rightarrow> status list \<Rightarrow> bool" where
  "history s [] = True"
| "history s (t # ts) = (moves s t \<and> history t ts)"

lemma history_rank: "history s ts \<Longrightarrow> rank s + length ts \<le> max (rank s) 11"
proof (induction ts arbitrary: s)
  case (Cons t ts)
  then have "moves s t" and "rank t + length ts \<le> max (rank t) 11" by auto
  with moves_rank [of s t] show ?case by auto
qed simp

text \<open>
  The status a legal history must have passed just before it can stand at \<open>t\<close>: the gates of the
  lifecycle, in order.
\<close>

fun gate :: "status \<Rightarrow> status option" where
  "gate CutoverDone = Some ReadyForCutover"
| "gate ReadyForCutover = Some VerificationRequired"
| "gate VerificationRequired = Some ApplyDone"
| "gate ApplyDone = Some ApplyInProgress"
| "gate ApplyInProgress = Some ReadyForApply"
| "gate ChecklistReady = Some InventoryReady"
| "gate InventoryReady = Some PreflightRequired"
| "gate PreflightRequired = Some Draft"
| "gate ReadyForApply = Some ChecklistReady"
| "gate ManualActionsRequired = Some ChecklistReady"
| "gate _ = None"

lemma gate_passed:
  "history Draft ts \<Longrightarrow> t \<in> set ts \<Longrightarrow> gate t = Some g \<Longrightarrow> g \<in> set (Draft # ts)"
proof (induction ts arbitrary: t g rule: rev_induct)
  case (snoc x ts)
  have split: "history s (as @ bs) \<longleftrightarrow> history s as \<and> history (last (s # as)) bs" for s as bs
    by (induction as arbitrary: s) auto
  then have h: "history Draft ts" and m: "moves (last (Draft # ts)) x"
    using snoc.prems(1) by auto
  show ?case
  proof (cases "t \<in> set ts")
    case True
    then have "g \<in> set (Draft # ts)" using snoc.IH h snoc.prems(3) by blast
    then show ?thesis by auto
  next
    case False
    then have t: "t = x" using snoc.prems(2) by simp
    let ?l = "last (Draft # ts)"
    have l: "?l \<in> set (Draft # ts)" by (rule last_in_set) simp
    show ?thesis
    proof (cases "?l = ManualActionsRequired")
      case True
      then have "x \<in> {ReadyForApply, Blocked, Failed}" using m by (simp add: moves_from)
      then have g: "g = ChecklistReady" using t snoc.prems(3) by auto
      have "ManualActionsRequired \<in> set ts" using l True by auto
      then have "ChecklistReady \<in> set (Draft # ts)" using snoc.IH [OF h \<open>ManualActionsRequired \<in> set ts\<close>] by simp
      then show ?thesis using g by auto
    next
      case False
      then have "g = ?l" using m t snoc.prems(3) by (cases ?l) (auto simp: moves_from)
      then show ?thesis using l by auto
    qed
  qed
qed simp



end
