(* ===== verification/WbStore.thy ===== *)
theory WbStore
  imports WbStatus Paths
begin

text \<open>
  \<open>internal/workbench/store.go\<close>, \<open>artifacts.go\<close> and \<open>flock.go\<close>: the session store. The state is
  the directory the store owns: one entry per session with the content of its \<open>session.json\<close>, and
  the files written next to it. A \<open>session.json\<close> holds a session or something that does not parse;
  encoding and decoding a session are taken to be inverse to each other (\<open>encoding/json\<close> on text
  that is valid UTF-8). Every system call that can fail has a name in \<open>fault\<close>, and an operation is
  given the set of the calls that fail during it, so each early return of the code is a branch.
  The locks only serialise operations, so a run of the store is a sequence of operations.
\<close>

section \<open>Sessions (types.go)\<close>

text \<open>A time in UTC: year, month, day, hour, minute, second, nanosecond, ordered as such.\<close>

type_synonym time = "nat \<times> nat \<times> nat \<times> nat \<times> nat \<times> nat \<times> nat"

record artifact_entry =
  art_kind :: string
  art_path :: string
  art_sha256 :: string
  art_attached_at :: time

record timeline_event =
  ev_timestamp :: time
  ev_action :: string
  ev_from :: "status option"
  ev_to :: "status option"
  ev_reason :: string
  ev_tool_version :: string

record endpoint =
  ep_host :: string
  ep_port :: int
  ep_account :: string

record content_selection =
  cs_files :: bool
  cs_databases :: bool
  cs_email :: bool
  cs_email_config :: bool
  cs_cron :: bool
  cs_dns :: bool

record setup_meta =
  sm_primary_domain :: string
  sm_notes :: string
  sm_source :: endpoint
  sm_destination :: endpoint
  sm_content :: content_selection
  sm_scope_confirmed_at :: "time option"

record session =
  s_id :: string
  s_name :: string
  s_source_profile :: string
  s_destination_profile :: string
  s_status :: status
  s_current_step :: step
  s_artifact_dir :: string
  s_created_at :: time
  s_updated_at :: time
  s_last_error :: string
  s_artifacts :: "artifact_entry list"
  s_timeline :: "timeline_event list"
  s_tool_version :: string
  s_setup :: "setup_meta option"

section \<open>The directory of the store\<close>

datatype json_file = SessionDoc session | Unparsable

datatype dir_entry =
    PlainFile
  | SessionDir "json_file option"

record store =
  st_root :: string
  st_entries :: "string \<rightharpoonup> dir_entry"
  st_files :: "string \<rightharpoonup> string"

datatype fault =
    LockOpen | LockFlock | RandRead | MkdirSession | MkdirArtifacts
  | WsMkdirAll | WsCreateTemp | WsWrite | WsSync | WsChmod | WsClose | WsRename
  | RsReadFile | LsReadDir | SrcOpen | SrcStat | CpCreateTemp | CpCopy | CpSync | CpChmod | CpClose | CpRename

datatype wb_error =
    IOError fault
  | InvalidSessionID string
  | InvalidFolderID string
  | SessionNotFound string
  | ParseError string
  | IDMismatch string string
  | IDCollision string
  | BadTransition transition_error
  | ReasonTooShort nat
  | UnknownArtifactKind string
  | NotRegular string

type_synonym io = "fault \<Rightarrow> bool"

text \<open>The first system call of the list that fails.\<close>

definition first_fault :: "io \<Rightarrow> fault list \<Rightarrow> fault option" where
  "first_fault io fs = find io fs"

definition lock_file :: "io \<Rightarrow> wb_error + unit" where
  "lock_file io =
     (case first_fault io [LockOpen, LockFlock] of
        Some f \<Rightarrow> Inl (IOError f)
      | None \<Rightarrow> Inr ())"

section \<open>Identifiers\<close>

text \<open>\<open>filepath.Base\<close> on Unix: strip trailing slashes, take what follows the last slash.\<close>

definition path_base :: "string \<Rightarrow> string" where
  "path_base p =
     (if p = [] then ''.''
      else (let q = rev (dropWhile (\<lambda>c. c = CHR ''/'') (rev p));
                b = rev (takeWhile (\<lambda>c. c \<noteq> CHR ''/'') (rev q))
            in if b = [] then ''/'' else b))"

definition is_clean_id :: "string \<Rightarrow> bool" where
  "is_clean_id i =
     (if i = [] \<or> i = ''.'' \<or> i = ''..'' then False
      else if list_ex (\<lambda>c. c = CHR ''/'' \<or> c = CHR 0x5C \<or> c = CHR 0x00) i then False
      else path_base i = i)"

lemma path_base_no_slash:
  assumes "p \<noteq> []" and "CHR ''/'' \<notin> set p"
  shows "path_base p = p"
proof -
  have d: "dropWhile (\<lambda>c. c = CHR ''/'') (rev p) = rev p"
    by (rule dropWhile_eq_self_iff [THEN iffD2]) (use assms hd_in_set [of "rev p"] in force)
  have t: "takeWhile (\<lambda>c. c \<noteq> CHR ''/'') (rev p) = rev p"
    unfolding takeWhile_eq_all_conv using assms by (metis set_rev)
  show ?thesis
    unfolding path_base_def Let_def d rev_rev_ident t using assms by simp
qed

lemma is_clean_id_iff:
  "is_clean_id i \<longleftrightarrow>
     i \<notin> {'''', ''.'', ''..''} \<and> CHR ''/'' \<notin> set i \<and> CHR 0x5C \<notin> set i \<and> CHR 0x00 \<notin> set i"
proof -
  have "list_ex (\<lambda>c. c = CHR ''/'' \<or> c = CHR 0x5C \<or> c = CHR 0x00) i \<longleftrightarrow>
      CHR ''/'' \<in> set i \<or> CHR 0x5C \<in> set i \<or> CHR 0x00 \<in> set i"
    by (simp only: list_ex_iff) blast
  then show ?thesis
    using path_base_no_slash [of i] by (simp add: is_clean_id_def)
qed

interpretation sid: single_component is_clean_id
  by unfold_locales (simp_all add: is_clean_id_iff)

definition pad_left :: "nat \<Rightarrow> string \<Rightarrow> string" where
  "pad_left n s = replicate (n - length s) CHR ''0'' @ s"

definition format_date :: "time \<Rightarrow> string" where
  "format_date t = (case t of (y, m, d, _) \<Rightarrow>
     pad_left 4 (digits_of y) @ pad_left 2 (digits_of m) @ pad_left 2 (digits_of d))"

definition format_clock :: "time \<Rightarrow> string" where
  "format_clock t = (case t of (_, _, _, h, mi, s, _) \<Rightarrow>
     pad_left 2 (digits_of h) @ pad_left 2 (digits_of mi) @ pad_left 2 (digits_of s))"

definition hex_encode :: "string \<Rightarrow> string" where
  "hex_encode bs = concat (map (\<lambda>c. [hex_digit (byte c div 16), hex_digit (byte c mod 16)]) bs)"

definition generate_id :: "io \<Rightarrow> time \<Rightarrow> string \<Rightarrow> wb_error + string" where
  "generate_id io now random =
     (if io RandRead then Inl (IOError RandRead)
      else Inr (''mig_'' @ format_date now @ ''_'' @ hex_encode random))"

section \<open>Reading and writing a session\<close>

definition read_session :: "io \<Rightarrow> store \<Rightarrow> string \<Rightarrow> wb_error + session" where
  "read_session io st i =
     (if \<not> is_clean_id i then Inl (InvalidSessionID i)
      else if io RsReadFile then Inl (IOError RsReadFile)
      else (case st_entries st i of
        None \<Rightarrow> Inl (SessionNotFound i)
      | Some PlainFile \<Rightarrow> Inl (IOError RsReadFile)
      | Some (SessionDir None) \<Rightarrow> Inl (SessionNotFound i)
      | Some (SessionDir (Some Unparsable)) \<Rightarrow> Inl (ParseError i)
      | Some (SessionDir (Some (SessionDoc sess))) \<Rightarrow>
          if s_id sess \<noteq> i then Inl (IDMismatch i (s_id sess)) else Inr sess))"

text \<open>\<open>os.MkdirAll\<close> of the session's directory.\<close>

definition ensure_dir :: "io \<Rightarrow> store \<Rightarrow> string \<Rightarrow> (wb_error + unit) \<times> store" where
  "ensure_dir io st i =
     (if io WsMkdirAll then (Inl (IOError WsMkdirAll), st)
      else (case st_entries st i of
        None \<Rightarrow> (Inr (), st\<lparr>st_entries := (st_entries st)(i \<mapsto> SessionDir None)\<rparr>)
      | Some PlainFile \<Rightarrow> (Inl (IOError WsMkdirAll), st)
      | Some (SessionDir _) \<Rightarrow> (Inr (), st)))"

text \<open>
  Write-temp, sync, chmod, close, rename: every failure removes the temporary file and leaves
  \<open>session.json\<close> as it was; the rename puts the new document in place at once.
\<close>

definition write_session :: "io \<Rightarrow> store \<Rightarrow> string \<Rightarrow> session \<Rightarrow> (wb_error + unit) \<times> store" where
  "write_session io st i sess =
     (if \<not> is_clean_id i then (Inl (InvalidFolderID i), st)
      else (case ensure_dir io st i of
        (Inl e, st1) \<Rightarrow> (Inl e, st1)
      | (Inr _, st1) \<Rightarrow>
          (case first_fault io [WsCreateTemp, WsWrite, WsSync, WsChmod, WsClose, WsRename] of
             Some f \<Rightarrow> (Inl (IOError f), st1)
           | None \<Rightarrow>
               (Inr (), st1\<lparr>st_entries := (st_entries st1)(i \<mapsto> SessionDir (Some (SessionDoc sess)))\<rparr>))))"

section \<open>Operations (store.go)\<close>

definition path_join :: "string \<Rightarrow> string \<Rightarrow> string" where
  "path_join a b = a @ ''/'' @ b"

text \<open>
  \<open>CreateWithSetup\<close>. The random bytes of the new id are an argument; \<open>ver\<close> is the tool's version
  string. A failure to create the artifact directory leaves the session's directory behind, a
  failure to write the session removes it.
\<close>

definition create_with_setup ::
    "io \<Rightarrow> string \<Rightarrow> string \<Rightarrow> store \<Rightarrow> string \<Rightarrow> string \<Rightarrow> string \<Rightarrow> setup_meta option \<Rightarrow> time
       \<Rightarrow> (wb_error + session) \<times> store" where
  "create_with_setup io ver random st name src dst setup now =
     (case lock_file io of Inl e \<Rightarrow> (Inl e, st) | Inr _ \<Rightarrow>
      (case generate_id io now random of Inl e \<Rightarrow> (Inl e, st) | Inr i \<Rightarrow>
       if io MkdirSession then (Inl (IOError MkdirSession), st)
       else if st_entries st i \<noteq> None then (Inl (IDCollision i), st)
       else
        (let st1 = st\<lparr>st_entries := (st_entries st)(i \<mapsto> SessionDir None)\<rparr>;
             dir = path_join (path_join (st_root st) i) ''artifacts''
         in if io MkdirArtifacts then (Inl (IOError MkdirArtifacts), st1)
         else
          (let sess =
             \<lparr>s_id = i, s_name = name, s_source_profile = src, s_destination_profile = dst,
              s_status = Draft, s_current_step = StepSetup, s_artifact_dir = dir,
              s_created_at = now, s_updated_at = now, s_last_error = '''', s_artifacts = [],
              s_timeline = [], s_tool_version = ver, s_setup = setup\<rparr>
           in (case write_session io st1 i sess of
                (Inl e, st2) \<Rightarrow> (Inl e, st2\<lparr>st_entries := (st_entries st2)(i := None)\<rparr>)
              | (Inr _, st2) \<Rightarrow> (Inr sess, st2))))))"

definition create ::
    "io \<Rightarrow> string \<Rightarrow> string \<Rightarrow> store \<Rightarrow> string \<Rightarrow> string \<Rightarrow> string \<Rightarrow> time
       \<Rightarrow> (wb_error + session) \<times> store" where
  "create io ver random st name src dst now =
     create_with_setup io ver random st name src dst None now"

text \<open>The operations that change an existing session read it, change it and write it back.\<close>

definition commit :: "io \<Rightarrow> store \<Rightarrow> string \<Rightarrow> session \<Rightarrow> (wb_error + session) \<times> store" where
  "commit io st i sess =
     (case write_session io st i sess of
        (Inl e, st') \<Rightarrow> (Inl e, st')
      | (Inr _, st') \<Rightarrow> (Inr sess, st'))"

definition status_event :: "string \<Rightarrow> time \<Rightarrow> bool \<Rightarrow> string \<Rightarrow> status \<Rightarrow> status \<Rightarrow> timeline_event" where
  "status_event ver now force reason old new =
     \<lparr>ev_timestamp = now,
      ev_action = (if force then ''forced_status_change'' else ''status_change''),
      ev_from = Some old, ev_to = Some new, ev_reason = reason, ev_tool_version = ver\<rparr>"

definition set_status ::
    "io \<Rightarrow> string \<Rightarrow> store \<Rightarrow> string \<Rightarrow> status \<Rightarrow> bool \<Rightarrow> string \<Rightarrow> time
       \<Rightarrow> (wb_error + session) \<times> store" where
  "set_status io ver st i to force reason now =
     (if \<not> valid_status to then (Inl (BadTransition (InvalidTarget to)), st)
      else if force \<and> length (trim_space reason) < 10
        then (Inl (ReasonTooShort (length (trim_space reason))), st)
      else (case lock_file io of Inl e \<Rightarrow> (Inl e, st) | Inr _ \<Rightarrow>
       (case read_session io st i of Inl e \<Rightarrow> (Inl e, st) | Inr sess \<Rightarrow>
        (case (if force then Inr () else validate_transition (s_status sess) to) of
           Inl e \<Rightarrow> (Inl (BadTransition e), st)
         | Inr _ \<Rightarrow>
            commit io st i
              (sess\<lparr>s_status := to, s_updated_at := now,
                    s_timeline := s_timeline sess
                      @ [status_event ver now force reason (s_status sess) to]\<rparr>)))))"

definition scope_summary :: "content_selection \<Rightarrow> string" where
  "scope_summary c =
     (let areas =
        (if cs_files c then [''file''] else []) @
        (if cs_databases c then [''database''] else []) @
        (if cs_email c then [''email''] else []) @
        (if cs_email_config c then [''config email''] else []) @
        (if cs_cron c then [''cron''] else []) @
        (if cs_dns c then [''DNS (manuale)''] else [])
      in if areas = [] then ''scope confermato: nessuna area''
         else ''scope confermato: '' @ join '', '' areas)"

definition empty_setup :: setup_meta where
  "empty_setup =
     (let ep = \<lparr>ep_host = '''', ep_port = 0, ep_account = ''''\<rparr>
      in \<lparr>sm_primary_domain = '''', sm_notes = '''', sm_source = ep, sm_destination = ep,
          sm_content = \<lparr>cs_files = False, cs_databases = False, cs_email = False,
            cs_email_config = False, cs_cron = False, cs_dns = False\<rparr>,
          sm_scope_confirmed_at = None\<rparr>)"

definition note_event :: "string \<Rightarrow> time \<Rightarrow> string \<Rightarrow> string \<Rightarrow> timeline_event" where
  "note_event ver now action reason =
     \<lparr>ev_timestamp = now, ev_action = action, ev_from = None, ev_to = None,
      ev_reason = reason, ev_tool_version = ver\<rparr>"

definition confirm_scope ::
    "io \<Rightarrow> string \<Rightarrow> store \<Rightarrow> string \<Rightarrow> content_selection \<Rightarrow> time
       \<Rightarrow> (wb_error + session) \<times> store" where
  "confirm_scope io ver st i content now =
     (case lock_file io of Inl e \<Rightarrow> (Inl e, st) | Inr _ \<Rightarrow>
      (case read_session io st i of Inl e \<Rightarrow> (Inl e, st) | Inr sess \<Rightarrow>
       (let setup = (case s_setup sess of None \<Rightarrow> empty_setup | Some m \<Rightarrow> m) in
        commit io st i
          (sess\<lparr>s_setup := Some (setup\<lparr>sm_content := content, sm_scope_confirmed_at := Some now\<rparr>),
                s_updated_at := now,
                s_timeline := s_timeline sess
                  @ [note_event ver now ''scope_confirmed'' (scope_summary content)]\<rparr>))))"

section \<open>Attaching an artifact (artifacts.go)\<close>

datatype src_file = NoSuchFile | NotAFile | Regular string

text \<open>\<open>filepath.Ext\<close>: the suffix from the last dot after the last slash.\<close>

definition path_ext :: "string \<Rightarrow> string" where
  "path_ext p =
     (let b = takeWhile (\<lambda>c. c \<noteq> CHR ''/'') (rev p) in
      if CHR ''.'' \<in> set b then CHR ''.'' # rev (takeWhile (\<lambda>c. c \<noteq> CHR ''.'') b) else [])"

text \<open>\<open>copyFromFD\<close>: the destination appears by a rename or not at all.\<close>

definition copy_from_fd :: "io \<Rightarrow> (string \<Rightarrow> string) \<Rightarrow> store \<Rightarrow> string \<Rightarrow> string
    \<Rightarrow> (wb_error + string) \<times> store" where
  "copy_from_fd io sha st content dst =
     (case first_fault io [CpCreateTemp, CpCopy, CpSync, CpChmod, CpClose, CpRename] of
        Some f \<Rightarrow> (Inl (IOError f), st)
      | None \<Rightarrow> (Inr (sha content), st\<lparr>st_files := (st_files st)(dst \<mapsto> content)\<rparr>))"

text \<open>
  The tail of \<open>AttachArtifact\<close>: copy, record the copy in the session, and remove the copy again
  when the session cannot be written.
\<close>

definition copy_and_commit ::
    "io \<Rightarrow> (string \<Rightarrow> string) \<Rightarrow> store \<Rightarrow> string \<Rightarrow> string \<Rightarrow> string \<Rightarrow> (string \<Rightarrow> session)
       \<Rightarrow> (wb_error + session) \<times> store" where
  "copy_and_commit io sha st i content dest_path record_copy =
     (case copy_from_fd io sha st content dest_path of
        (Inl e, st1) \<Rightarrow> (Inl e, st1)
      | (Inr hash, st1) \<Rightarrow>
         (case commit io st1 i (record_copy hash) of
            (Inl e, st2) \<Rightarrow> (Inl e, st2\<lparr>st_files := (st_files st2)(dest_path := None)\<rparr>)
          | (Inr s, st2) \<Rightarrow> (Inr s, st2)))"

definition attach_artifact ::
    "io \<Rightarrow> (string \<Rightarrow> string) \<Rightarrow> string \<Rightarrow> string \<Rightarrow> store \<Rightarrow> string \<Rightarrow> string \<Rightarrow> string \<Rightarrow> src_file \<Rightarrow> time
       \<Rightarrow> (wb_error + session) \<times> store" where
  "attach_artifact io sha ver random st i kind src_path src now =
     (if \<not> valid_artifact_kind kind then (Inl (UnknownArtifactKind kind), st)
      else if \<not> is_clean_id i then (Inl (InvalidSessionID i), st)
      else if io SrcOpen \<or> src = NoSuchFile then (Inl (IOError SrcOpen), st)
      else if io SrcStat then (Inl (IOError SrcStat), st)
      else (case src of NoSuchFile \<Rightarrow> (Inl (IOError SrcOpen), st)
       | NotAFile \<Rightarrow> (Inl (NotRegular src_path), st)
       | Regular content \<Rightarrow>
        (case lock_file io of Inl e \<Rightarrow> (Inl e, st) | Inr _ \<Rightarrow>
         (case read_session io st i of Inl e \<Rightarrow> (Inl e, st) | Inr sess \<Rightarrow>
          if io RandRead then (Inl (IOError RandRead), st)
          else
           (let ext = (if path_ext src_path = [] then ''.json'' else path_ext src_path);
                dest_name = kind @ ''_'' @ format_date now @ ''_'' @ format_clock now @ ''_''
                  @ hex_encode random @ ext;
                dest_path = path_join (s_artifact_dir sess) dest_name
            in copy_and_commit io sha st i content dest_path
                 (\<lambda>hash. sess\<lparr>s_artifacts := s_artifacts sess
                             @ [\<lparr>art_kind = kind, art_path = dest_path, art_sha256 = hash,
                                 art_attached_at = now\<rparr>],
                           s_updated_at := now,
                           s_timeline := s_timeline sess
                             @ [note_event ver now ''attach_artifact''
                                  (''kind='' @ kind @ '' sha256='' @ hash)]\<rparr>))))))"

section \<open>Listing\<close>

text \<open>
  \<open>os.ReadDir\<close> returns the names sorted; the argument is the set of names in the directory as a
  list. The sessions come out by creation time and id, the unreadable ones as warnings.
\<close>

definition list_sessions ::
    "io \<Rightarrow> store \<Rightarrow> string list \<Rightarrow> wb_error + (session list \<times> (string \<times> wb_error) list)" where
  "list_sessions io st names =
     (if io LsReadDir then Inl (IOError LsReadDir) else
      let dirs = filter (\<lambda>n. case st_entries st n of Some (SessionDir _) \<Rightarrow> True | _ \<Rightarrow> False)
                   (sort names);
          results = map (\<lambda>n. (n, read_session io st n)) dirs;
          sessions = List.map_filter (\<lambda>(n, r). case r of Inr s \<Rightarrow> Some s | Inl _ \<Rightarrow> None) results;
          warnings = List.map_filter (\<lambda>(n, r). case r of Inl e \<Rightarrow> Some (n, e) | Inr _ \<Rightarrow> None) results
      in Inr (sort_key (\<lambda>s. (s_created_at s, s_id s)) sessions, warnings))"

section \<open>What the operations do to the store\<close>

definition put :: "store \<Rightarrow> string \<Rightarrow> session \<Rightarrow> store" where
  "put st i sess = st\<lparr>st_entries := (st_entries st)(i \<mapsto> SessionDir (Some (SessionDoc sess)))\<rparr>"

definition ws_calls :: "fault list" where
  "ws_calls = [WsMkdirAll, WsCreateTemp, WsWrite, WsSync, WsChmod, WsClose, WsRename]"

text \<open>Reading when no system call fails: what the store holds.\<close>

definition peek :: "store \<Rightarrow> string \<Rightarrow> wb_error + session" where
  "peek st i = read_session (\<lambda>_. False) st i"

lemma read_session_peek:
  "read_session io st i =
     (if is_clean_id i \<and> io RsReadFile then Inl (IOError RsReadFile) else peek st i)"
  by (simp add: peek_def read_session_def)

lemma read_session_ok:
  assumes "read_session io st i = Inr s"
  shows "st_entries st i = Some (SessionDir (Some (SessionDoc s)))" and "is_clean_id i"
    and "s_id s = i" and "peek st i = Inr s"
proof -
  show p: "peek st i = Inr s"
    using assms by (simp add: read_session_peek split: if_splits)
  then show "st_entries st i = Some (SessionDir (Some (SessionDoc s)))" "is_clean_id i" "s_id s = i"
    by (auto simp: peek_def read_session_def split: if_splits option.splits dir_entry.splits json_file.splits)
qed

lemma read_session_entries:
  "st_entries a = st_entries b \<Longrightarrow> read_session io a i = read_session io b i"
  by (simp add: read_session_def)

lemma commit_existing:
  assumes "st_entries st i = Some (SessionDir d)" and "is_clean_id i"
  shows "commit io st i s =
     (case first_fault io ws_calls of Some f \<Rightarrow> (Inl (IOError f), st) | None \<Rightarrow> (Inr s, put st i s))"
  using assms
  by (auto simp: commit_def write_session_def ensure_dir_def first_fault_def ws_calls_def put_def)

lemma peek_put: "is_clean_id i \<Longrightarrow> s_id s = i \<Longrightarrow> peek (put st i s) i = Inr s"
  by (simp add: peek_def read_session_def put_def)

lemma peek_put_other: "j \<noteq> i \<Longrightarrow> peek (put st i s) j = peek st j"
  by (simp add: peek_def read_session_def put_def)

lemma peek_files [simp]: "peek (st\<lparr>st_files := f\<rparr>) j = peek st j"
  by (simp add: peek_def read_session_def)

lemma put_files: "put (st\<lparr>st_files := f\<rparr>) i s = (put st i s)\<lparr>st_files := f\<rparr>"
  by (simp add: put_def)

text \<open>
  The three operations share one shape: they fail and change no entry, or they commit a session
  that keeps the id and follows from what was read.
\<close>

datatype update_op =
    SetStatus io string status bool string time
  | ConfirmScope io string content_selection time
  | AttachArtifact io string string string string src_file time

fun target :: "update_op \<Rightarrow> string" where
  "target (SetStatus _ i _ _ _ _) = i"
| "target (ConfirmScope _ i _ _) = i"
| "target (AttachArtifact _ _ i _ _ _ _) = i"

fun apply_update ::
    "(string \<Rightarrow> string) \<Rightarrow> string \<Rightarrow> update_op \<Rightarrow> store \<Rightarrow> (wb_error + session) \<times> store" where
  "apply_update sha ver (SetStatus io i to force reason now) st =
     set_status io ver st i to force reason now"
| "apply_update sha ver (ConfirmScope io i content now) st = confirm_scope io ver st i content now"
| "apply_update sha ver (AttachArtifact io random i kind p src now) st =
     attach_artifact io sha ver random st i kind p src now"

text \<open>What a session may become in one step: one more event on its timeline.\<close>

definition follows :: "session \<Rightarrow> session \<Rightarrow> bool" where
  "follows s s' \<longleftrightarrow>
     s_id s' = s_id s \<and> s_created_at s' = s_created_at s \<and> s_artifact_dir s' = s_artifact_dir s
     \<and> (\<exists>e. s_timeline s' = s_timeline s @ [e]
         \<and> ((ev_action e = ''status_change'' \<and> ev_from e = Some (s_status s)
              \<and> ev_to e = Some (s_status s') \<and> can_transition (s_status s) (s_status s'))
          \<or> (ev_action e = ''forced_status_change'' \<and> ev_from e = Some (s_status s)
              \<and> ev_to e = Some (s_status s') \<and> valid_status (s_status s')
              \<and> 10 \<le> length (trim_space (ev_reason e)))
          \<or> (ev_action e \<in> {''scope_confirmed'', ''attach_artifact''} \<and> ev_from e = None
              \<and> ev_to e = None \<and> s_status s' = s_status s)))"

definition updates_one :: "string \<Rightarrow> store \<Rightarrow> (wb_error + session) \<times> store \<Rightarrow> bool" where
  "updates_one i st r \<longleftrightarrow>
     (case r of
        (Inl _, st') \<Rightarrow> st_entries st' = st_entries st
      | (Inr s', st') \<Rightarrow> is_clean_id i \<and> s_id s' = i \<and> st_entries st' = st_entries (put st i s')
          \<and> (\<exists>s. peek st i = Inr s \<and> follows s s'))"

lemma updates_one_error: "updates_one i st (Inl e, st)"
  by (simp add: updates_one_def)

lemma updates_one_commit:
  assumes "read_session io st i = Inr s" and "follows s s'"
  shows "updates_one i st (commit io st i s')"
proof -
  note ok = read_session_ok [OF assms(1)]
  have "s_id s' = i" using assms(2) ok(3) by (simp add: follows_def)
  then show ?thesis
    using commit_existing [OF ok(1,2)] ok assms(2)
    by (auto simp: updates_one_def split: option.splits)
qed

lemma set_status_updates_one: "updates_one i st (set_status io ver st i to force reason now)"
proof -
  have f: "follows s (s\<lparr>s_status := to, s_updated_at := now,
      s_timeline := s_timeline s @ [status_event ver now fo reason (s_status s) to]\<rparr>)"
    if "valid_status to" "fo \<longrightarrow> 10 \<le> length (trim_space reason)"
       "\<not> fo \<longrightarrow> can_transition (s_status s) to" for s fo
    using that by (auto simp: follows_def status_event_def)
  show ?thesis
    by (auto simp: set_status_def updates_one_error validate_transition_ok_iff
          split: sum.split intro!: updates_one_commit f)
qed

lemma confirm_scope_updates_one: "updates_one i st (confirm_scope io ver st i content now)"
  by (auto simp: confirm_scope_def updates_one_error follows_def note_event_def Let_def
        split: sum.split intro!: updates_one_commit)

lemma copy_from_fd_entries:
  "copy_from_fd io sha st content dst = (r, st') \<Longrightarrow> st_entries st' = st_entries st"
  by (auto simp: copy_from_fd_def split: option.splits)

lemma updates_one_files:
  assumes "updates_one i st (r, st')" and "st_entries st = st_entries st0"
    and "st_entries st'' = st_entries st'"
  shows "updates_one i st0 (r, st'')"
  using assms
  by (cases r) (auto simp: updates_one_def put_def peek_def read_session_def)

lemma attach_artifact_updates_one:
  "updates_one i st (attach_artifact io sha ver random st i kind p src now)"
proof -
  have step: "updates_one i st (copy_and_commit io sha st i content dst s')"
    if rd: "read_session io st i = Inr s" and f: "\<And>h. follows s (s' h)" for content dst s' s
  proof (cases "copy_from_fd io sha st content dst")
    case (Pair r st1)
    note e = copy_from_fd_entries [OF Pair]
    show ?thesis
    proof (cases r)
      case (Inl e')
      then show ?thesis using Pair e by (simp add: updates_one_def copy_and_commit_def)
    next
      case (Inr hash)
      have "read_session io st1 i = Inr s" using rd read_session_entries [OF e] by simp
      from updates_one_commit [OF this f]
      have u: "updates_one i st1 (commit io st1 i (s' hash))" .
      obtain r2 st2 where c: "commit io st1 i (s' hash) = (r2, st2)" by fastforce
      have "updates_one i st (r2, st3)" if "st_entries st3 = st_entries st2" for st3
        using updates_one_files [OF u [unfolded c] e that] .
      then show ?thesis using Pair Inr c by (cases r2) (auto simp: copy_and_commit_def)
    qed
  qed
  have f: "follows s (s\<lparr>s_artifacts := a, s_updated_at := now,
      s_timeline := s_timeline s @ [note_event ver now ''attach_artifact'' x]\<rparr>)" for s a x
    by (simp add: follows_def note_event_def)
  show ?thesis
    unfolding attach_artifact_def Let_def
    by (auto simp: updates_one_error split: sum.split src_file.split intro!: step f)
qed

lemma apply_update_updates_one: "updates_one (target u) st (apply_update sha ver u st)"
  by (cases u) (simp_all add: set_status_updates_one confirm_scope_updates_one
      attach_artifact_updates_one)

text \<open>
  The result of an operation is a function of what its session's entry holds: the rest of the
  store is not read.
\<close>

lemma apply_update_local:
  assumes "st_entries st (target u) = st_entries st' (target u)"
  shows "fst (apply_update sha ver u st) = fst (apply_update sha ver u st')"
proof -
  have rd: "read_session io st (target u) = read_session io st' (target u)" for io
    using assms by (simp add: read_session_def)
  have cm: "fst (commit io s1 (target u) x) = fst (commit io s2 (target u) x)"
    if "st_entries s1 (target u) = st_entries s2 (target u)" for io s1 s2 x
    using that
    by (auto simp: commit_def write_session_def ensure_dir_def split: option.splits dir_entry.splits)
  have cp: "fst (copy_from_fd io sha st c d) = fst (copy_from_fd io sha st' c d)" for io c d
    by (simp add: copy_from_fd_def split: option.split)
  have at: "fst (copy_and_commit io sha st (target u) c d x) = fst (copy_and_commit io sha st' (target u) c d x)"
    for io c d x
  proof (cases "copy_from_fd io sha st c d")
    case (Pair r s1)
    moreover obtain s2 where s2: "copy_from_fd io sha st' c d = (r, s2)"
      using cp [of io c d] Pair by (metis fst_conv surj_pair)
    ultimately have e: "st_entries s1 (target u) = st_entries s2 (target u)"
      using copy_from_fd_entries assms by metis
    show ?thesis
      using Pair s2 cm [OF e, of io]
      by (auto simp: copy_and_commit_def split: sum.splits prod.splits) (metis fst_conv sum.distinct sum.inject)+
  qed
  show ?thesis
  proof (cases u)
    case (SetStatus io i to force reason now)
    then show ?thesis
      using rd [of io] cm [OF assms] by (auto simp: set_status_def split: sum.split)
  next
    case (ConfirmScope io i content now)
    then show ?thesis
      using rd [of io] cm [OF assms] by (auto simp: confirm_scope_def Let_def split: sum.split)
  next
    case (AttachArtifact io random i kind p src now)
    then show ?thesis
      using rd [of io] at
      by (auto simp: attach_artifact_def Let_def split: sum.split src_file.split)
  qed
qed

section \<open>Independent updates\<close>

text \<open>
  The contract between the store and whoever runs operations on it: an operation works on one
  session, its result depends on that session only, a failed one changes nothing that can be read,
  a successful one is what is read afterwards, and no other session is touched.
\<close>

fun run_ops :: "('op \<Rightarrow> 'st \<Rightarrow> 'r \<times> 'st) \<Rightarrow> ('op \<Rightarrow> 'i) \<Rightarrow> 'op list \<Rightarrow> 'st \<Rightarrow> ('i \<times> 'r) list \<times> 'st" where
  "run_ops upd tgt [] st = ([], st)"
| "run_ops upd tgt (u # us) st =
     (let (r, st1) = upd u st; (rs, st2) = run_ops upd tgt us st1 in ((tgt u, r) # rs, st2))"

locale session_updates =
  fixes upd :: "'op \<Rightarrow> 'st \<Rightarrow> ('e + 's) \<times> 'st" and tgt :: "'op \<Rightarrow> 'i"
    and view :: "'st \<Rightarrow> 'i \<Rightarrow> 'e + 's" and slot :: "'st \<Rightarrow> 'i \<Rightarrow> 'd"
  assumes local: "slot st (tgt u) = slot st' (tgt u) \<Longrightarrow> fst (upd u st) = fst (upd u st')"
    and slot_local: "slot st (tgt u) = slot st' (tgt u) \<Longrightarrow>
           slot (snd (upd u st)) (tgt u) = slot (snd (upd u st')) (tgt u)"
    and frame: "j \<noteq> tgt u \<Longrightarrow> slot (snd (upd u st)) j = slot st j"
    and view_slot: "slot st i = slot st' i \<Longrightarrow> view st i = view st' i"
    and failed: "fst (upd u st) = Inl e \<Longrightarrow> slot (snd (upd u st)) (tgt u) = slot st (tgt u)"
    and succeeded: "fst (upd u st) = Inr s \<Longrightarrow> view (snd (upd u st)) (tgt u) = Inr s"
begin

text \<open>
  Operations on other sessions, interleaved in any way, are invisible: the results for one session
  and what is stored for it are those of its own operations run alone.
\<close>

lemma run_slice:
  assumes "slot st i = slot st' i"
  shows "filter (\<lambda>(j, r). j = i) (fst (run_ops upd tgt us st)) =
      fst (run_ops upd tgt (filter (\<lambda>u. tgt u = i) us) st')
    \<and> slot (snd (run_ops upd tgt us st)) i =
      slot (snd (run_ops upd tgt (filter (\<lambda>u. tgt u = i) us) st')) i"
  using assms
proof (induction us arbitrary: st st')
  case (Cons u us)
  show ?case
  proof (cases "tgt u = i")
    case True
    have "fst (upd u st) = fst (upd u st')" using local [of st u st'] Cons.prems True by simp
    moreover have "slot (snd (upd u st)) i = slot (snd (upd u st')) i"
      using slot_local [of st u st'] Cons.prems True by simp
    note Cons.IH [OF this]
    ultimately show ?thesis using True by (simp add: split_beta Let_def)
  next
    case False
    have "slot (snd (upd u st)) i = slot st' i" using frame [of i u st] False Cons.prems by auto
    note Cons.IH [OF this]
    then show ?thesis using False by (simp add: split_beta Let_def)
  qed
qed simp

text \<open>What is read for a session after a run is the last success for it, or what was there.\<close>

lemma run_last_success:
  "view (snd (run_ops upd tgt us st)) i =
     (case filter (\<lambda>(j, r). j = i \<and> is_ok r) (fst (run_ops upd tgt us st)) of
        [] \<Rightarrow> view st i
      | ps \<Rightarrow> snd (last ps))"
proof (induction us arbitrary: st)
  case (Cons u us)
  obtain r st1 where u: "upd u st = (r, st1)" by fastforce
  obtain rs st2 where us: "run_ops upd tgt us st1 = (rs, st2)" by fastforce
  note IH = Cons.IH [of st1, unfolded us]
  have keep: "view st1 i = view st i" if "tgt u \<noteq> i \<or> \<not> is_ok r"
    using that frame [of i u st] failed [of u st] u
    by (cases r) (auto intro!: view_slot)
  have new: "view st1 i = r" if "tgt u = i" "is_ok r"
    using that succeeded [of u st] u by (cases r) auto
  show ?case
    using IH keep new u us by (auto simp: split_beta Let_def split: list.splits)
qed simp

end

lemma put_frame: "st_entries st' = st_entries (put st i s) \<Longrightarrow> j \<noteq> i \<Longrightarrow> st_entries st' j = st_entries st j"
  by (simp add: put_def)

lemma put_entry: "st_entries st' = st_entries (put st i s) \<Longrightarrow>
    st_entries st' i = Some (SessionDir (Some (SessionDoc s)))"
  by (simp add: put_def)

lemma apply_update_slot:
  "st_entries (snd (apply_update sha ver u st)) (target u) =
     (case fst (apply_update sha ver u st) of
        Inl e \<Rightarrow> st_entries st (target u)
      | Inr s \<Rightarrow> Some (SessionDir (Some (SessionDoc s))))"
proof (cases "apply_update sha ver u st")
  case (Pair r st')
  then show ?thesis
    using apply_update_updates_one [of u st sha ver] put_entry
    by (cases r) (auto simp: updates_one_def)
qed

interpretation wb: session_updates "apply_update sha ver" target peek st_entries for sha ver
proof unfold_locales
  fix st st' :: store and u
  assume eq: "st_entries st (target u) = st_entries st' (target u)"
  then show "fst (apply_update sha ver u st) = fst (apply_update sha ver u st')"
    by (rule apply_update_local)
  then show "st_entries (snd (apply_update sha ver u st)) (target u) =
      st_entries (snd (apply_update sha ver u st')) (target u)"
    using eq by (simp add: apply_update_slot split: sum.split)
next
  fix j u st
  assume "j \<noteq> target u"
  then show "st_entries (snd (apply_update sha ver u st)) j = st_entries st j"
    using apply_update_updates_one [of u st sha ver]
    by (cases "apply_update sha ver u st") (auto simp: updates_one_def put_def split: sum.splits)
next
  fix st st' :: store and i
  assume "st_entries st i = st_entries st' i"
  then show "peek st i = peek st' i" by (simp add: peek_def read_session_def)
next
  fix u st e
  assume "fst (apply_update sha ver u st) = Inl e"
  then show "st_entries (snd (apply_update sha ver u st)) (target u) = st_entries st (target u)"
    by (simp add: apply_update_slot)
next
  fix u st s
  assume ok: "fst (apply_update sha ver u st) = Inr s"
  then have "is_clean_id (target u)" "s_id s = target u"
    using apply_update_updates_one [of u st sha ver]
    by (cases "apply_update sha ver u st", simp add: updates_one_def)+
  then show "peek (snd (apply_update sha ver u st)) (target u) = Inr s"
    using ok apply_update_slot [of sha ver u st] by (simp add: peek_def read_session_def)
qed

definition run_updates ::
    "(string \<Rightarrow> string) \<Rightarrow> string \<Rightarrow> update_op list \<Rightarrow> store
       \<Rightarrow> (string \<times> (wb_error + session)) list \<times> store" where
  "run_updates sha ver us st = run_ops (apply_update sha ver) target us st"

text \<open>C22. Sessions are isolated. In any interleaving of status changes, scope confirmations and
  artifact attachments on any number of sessions, with any system calls failing, the results an
  observer of one session gets and what is stored for it are those of that session's own
  operations run alone; and what can be read for it afterwards is the last session an operation on
  it returned with success, or what was readable before when none did.
\<close>

theorem sessions_isolated:
  "filter (\<lambda>(j, r). j = i) (fst (run_updates sha ver us st)) =
       fst (run_updates sha ver (filter (\<lambda>u. target u = i) us) st)
   \<and> peek (snd (run_updates sha ver us st)) i =
       (case filter (\<lambda>(j, r). j = i \<and> is_ok r) (fst (run_updates sha ver us st)) of
          [] \<Rightarrow> peek st i
        | ps \<Rightarrow> snd (last ps))"
  unfolding run_updates_def
  using wb.run_slice [OF refl] wb.run_last_success by blast

section \<open>The audit trail\<close>

text \<open>Replaying a timeline from a status; \<open>None\<close> when an event does not fit.\<close>

fun replay :: "status \<Rightarrow> timeline_event list \<Rightarrow> status option" where
  "replay s [] = Some s"
| "replay s (e # es) =
     (if ev_action e = ''status_change'' \<and> ev_from e = Some s then
        (case ev_to e of
           Some t \<Rightarrow> if can_transition s t then replay t es else None
         | None \<Rightarrow> None)
      else if ev_action e = ''forced_status_change'' \<and> ev_from e = Some s
          \<and> 10 \<le> length (trim_space (ev_reason e)) then
        (case ev_to e of
           Some t \<Rightarrow> if valid_status t then replay t es else None
         | None \<Rightarrow> None)
      else if ev_action e \<in> {''scope_confirmed'', ''attach_artifact''} \<and> ev_from e = None
          \<and> ev_to e = None then replay s es
      else None)"

definition audited :: "session \<Rightarrow> bool" where
  "audited s \<longleftrightarrow> replay Draft (s_timeline s) = Some (s_status s)"

definition store_ok :: "store \<Rightarrow> bool" where
  "store_ok st \<longleftrightarrow> (\<forall>i s. peek st i = Inr s \<longrightarrow> audited s)"

lemma replay_append: "replay s (es @ fs) = Option.bind (replay s es) (\<lambda>t. replay t fs)"
  by (induction s es rule: replay.induct) (auto split: option.splits)

lemma follows_audited: "audited s \<Longrightarrow> follows s s' \<Longrightarrow> audited s'"
  by (auto simp: audited_def follows_def replay_append)

lemma updates_one_store_ok [inv_intros]:
  assumes "store_ok st" and u: "updates_one i st (r, st')"
  shows "store_ok st'"
proof (cases r)
  case (Inl e)
  then have "peek st' j = peek st j" for j
    using u by (simp add: updates_one_def peek_def read_session_def)
  then show ?thesis using assms(1) by (simp add: store_ok_def)
next
  case (Inr s')
  then obtain s where i: "is_clean_id i" "s_id s' = i" "peek st i = Inr s" "follows s s'"
    and e: "st_entries st' = st_entries (put st i s')"
    using u by (auto simp: updates_one_def)
  have p: "peek st' j = peek (put st i s') j" for j
    using e by (simp add: peek_def read_session_def)
  have "audited s'" using assms(1) i follows_audited by (auto simp: store_ok_def)
  then show ?thesis
    using assms(1) i p peek_put [OF i(1,2)] peek_put_other [of _ i st s']
    unfolding store_ok_def by (metis sum.inject(2))
qed

text \<open>Creating a session: a fresh one with an empty timeline, or nothing readable changes.\<close>

lemma create_peek:
  assumes "create_with_setup io ver random st name src dst setup now = (r, st')"
  shows "case r of
      Inl e \<Rightarrow> \<forall>j. peek st' j = peek st j
    | Inr s \<Rightarrow> s_timeline s = [] \<and> s_status s = Draft \<and> peek st' (s_id s) = Inr s
        \<and> (\<forall>j. j \<noteq> s_id s \<longrightarrow> peek st' j = peek st j)"
  using assms
  by (auto simp: create_with_setup_def generate_id_def write_session_def ensure_dir_def Let_def
        peek_def read_session_def split: sum.splits if_splits option.splits)

lemma create_store_ok [inv_intros]:
  assumes "store_ok st"
    and "create_with_setup io ver random st name src dst setup now = (r, st')"
  shows "store_ok st'"
proof (cases r)
  case (Inl e)
  then show ?thesis using create_peek [OF assms(2)] assms(1) by (simp add: store_ok_def)
next
  case (Inr s)
  note c = create_peek [OF assms(2), unfolded Inr sum.case]
  then have "audited s" by (simp add: audited_def)
  then show ?thesis
    using c assms(1) unfolding store_ok_def by (metis sum.inject(2))
qed

text \<open>Everything the store's interface can do, as steps.\<close>

inductive store_step :: "(string \<Rightarrow> string) \<Rightarrow> string \<Rightarrow> store \<Rightarrow> store \<Rightarrow> bool"
  for sha ver where
  step_create: "create_with_setup io ver random st name src dst setup now = (r, st')
      \<Longrightarrow> store_step sha ver st st'"
| step_update: "apply_update sha ver u st = (r, st') \<Longrightarrow> store_step sha ver st st'"

inductive reachable :: "(string \<Rightarrow> string) \<Rightarrow> string \<Rightarrow> string \<Rightarrow> store \<Rightarrow> bool"
  for sha ver root where
  start: "reachable sha ver root \<lparr>st_root = root, st_entries = Map.empty, st_files = Map.empty\<rparr>"
| step: "reachable sha ver root st \<Longrightarrow> store_step sha ver st st' \<Longrightarrow> reachable sha ver root st'"

lemma store_step_ok: "store_step sha ver st st' \<Longrightarrow> store_ok st \<Longrightarrow> store_ok st'"
proof (induction rule: store_step.induct)
  case (step_update u st r st')
  then show ?case
    using apply_update_updates_one [of u st sha ver] updates_one_store_ok by metis
qed (rule create_store_ok)

lemma reachable_ok: "reachable sha ver root st \<Longrightarrow> store_ok st"
proof (induction rule: reachable.induct)
  case start
  show ?case by (simp add: store_ok_def peek_def read_session_def split: if_splits)
next
  case (step st st')
  then show ?case using store_step_ok by blast
qed

text \<open>C11. The timeline is an audit trail. In every store reachable from the empty one, whatever the
  operations, their order and the failing system calls, replaying the timeline of a readable
  session from \<open>draft\<close> is possible and ends at the session's status: consecutive events join up,
  every unforced change was a legal transition, and every forced one carries a reason of at least
  ten bytes after trimming.
\<close>

theorem timeline_explains_status:
  assumes "reachable sha ver root st" and "read_session io st i = Inr s"
  shows "replay Draft (s_timeline s) = Some (s_status s)"
  using reachable_ok [OF assms(1)] read_session_ok(4) [OF assms(2)]
  by (simp add: store_ok_def audited_def)

definition demo_created :: "(wb_error + session) \<times> store" where
  "demo_created =
     create_with_setup (\<lambda>_. False) ''v1'' [CHR 0x01, CHR 0xAB]
       \<lparr>st_root = ''/w'', st_entries = Map.empty, st_files = Map.empty\<rparr>
       ''demo'' ''old'' ''new'' None (2026, 7, 4, 10, 0, 0, 0)"

definition demo_moved :: "(wb_error + session) \<times> store" where
  "demo_moved =
     apply_update (\<lambda>x. x) ''v1''
       (SetStatus (\<lambda>_. False) ''mig_20260704_01ab'' ReadyForApply True ''operator override'' (2026, 7, 4, 10, 5, 0, 0))
       (snd demo_created)"

lemma demo_reachable: "reachable (\<lambda>x. x) ''v1'' ''/w'' (snd demo_moved)"
proof (rule reachable.step [OF reachable.step [OF reachable.start]])
  show "store_step (\<lambda>x. x) ''v1''
      \<lparr>st_root = ''/w'', st_entries = Map.empty, st_files = Map.empty\<rparr> (snd demo_created)"
    unfolding demo_created_def by (rule step_create) (rule prod.collapse [symmetric])
  show "store_step (\<lambda>x. x) ''v1'' (snd demo_created) (snd demo_moved)"
    unfolding demo_moved_def by (rule step_update) (rule prod.collapse [symmetric])
qed

lemma timeline_explains_status_witness:
  "\<exists>s. read_session (\<lambda>_. False) (snd demo_moved) ''mig_20260704_01ab'' = Inr s
     \<and> s_status s = ReadyForApply \<and> replay Draft (s_timeline s) = Some (s_status s)"
proof -
  have "case read_session (\<lambda>_. False) (snd demo_moved) ''mig_20260704_01ab'' of
      Inl _ \<Rightarrow> False | Inr s \<Rightarrow> s_status s = ReadyForApply"
    by code_simp
  then obtain s where rd: "read_session (\<lambda>_. False) (snd demo_moved) ''mig_20260704_01ab'' = Inr s"
    and s: "s_status s = ReadyForApply"
    by (auto split: sum.splits)
  show ?thesis
    using rd s timeline_explains_status [OF demo_reachable rd] by blast
qed

lemma split_results_length:
  "length (List.map_filter (\<lambda>(n, r). case r of Inr s \<Rightarrow> Some s | Inl _ \<Rightarrow> None) rs)
     + length (List.map_filter (\<lambda>(n, r). case r of Inl e \<Rightarrow> Some (n, e) | Inr _ \<Rightarrow> None) rs)
   = length rs"
  by (induction rs) (auto simp: List.map_filter_def split: sum.splits)

lemma read_session_is_dir:
  "read_session io st n = Inr s \<Longrightarrow> \<exists>d. st_entries st n = Some (SessionDir d)"
  using read_session_ok(1) by blast

text \<open>Listing loses nothing and orders by creation: for the names in the store's directory, each
  session directory is either among the sessions listed or among the warnings, the listed sessions
  are exactly the readable ones, and they come in order of creation time with ties broken by id.
\<close>

theorem listing_complete:
  assumes "distinct names" and "list_sessions io st names = Inr (ss, ws)"
  shows "set ss = {s. \<exists>n\<in>set names. read_session io st n = Inr s}
    \<and> sorted (map (\<lambda>s. (s_created_at s, s_id s)) ss)
    \<and> length ss + length ws =
        card {n \<in> set names. \<exists>d. st_entries st n = Some (SessionDir d)}"
proof -
  let ?isdir = "\<lambda>n. case st_entries st n of Some (SessionDir _) \<Rightarrow> True | _ \<Rightarrow> False"
  define dirs where "dirs = filter ?isdir (sort names)"
  define rs where "rs = map (\<lambda>n. (n, read_session io st n)) dirs"
  have isdir: "?isdir n \<longleftrightarrow> (\<exists>d. st_entries st n = Some (SessionDir d))" for n
    by (auto split: option.splits dir_entry.splits)
  have ss: "ss = sort_key (\<lambda>s. (s_created_at s, s_id s))
        (List.map_filter (\<lambda>(n, r). case r of Inr s \<Rightarrow> Some s | Inl _ \<Rightarrow> None) rs)"
    and ws: "ws = List.map_filter (\<lambda>(n, r). case r of Inl e \<Rightarrow> Some (n, e) | Inr _ \<Rightarrow> None) rs"
    using assms(2) by (auto simp: list_sessions_def Let_def dirs_def rs_def split: if_splits)
  have dset: "set dirs = {n \<in> set names. \<exists>d. st_entries st n = Some (SessionDir d)}"
    by (auto simp: dirs_def isdir)
  have "length ss + length ws = length dirs"
    using split_results_length [of rs] by (simp add: ss ws rs_def)
  also have "\<dots> = card (set dirs)"
    by (rule distinct_card [symmetric]) (simp add: dirs_def assms(1))
  finally have len: "length ss + length ws = card (set dirs)" .
  have "set ss = {s. \<exists>n\<in>set dirs. read_session io st n = Inr s}"
    by (auto simp: ss rs_def List.map_filter_def image_iff split: sum.splits) (force split: sum.splits)+
  also have "\<dots> = {s. \<exists>n\<in>set names. read_session io st n = Inr s}"
    using read_session_is_dir by (auto simp: dset)
  finally show ?thesis using len by (simp add: ss dset)
qed

lemma listing_complete_witness:
  "\<exists>ss ws. list_sessions (\<lambda>_. False) (snd demo_moved) [''.lock'', ''mig_20260704_01ab''] = Inr (ss, ws)
     \<and> sorted (map (\<lambda>s. (s_created_at s, s_id s)) ss)"
proof -
  obtain ss ws where l:
    "list_sessions (\<lambda>_. False) (snd demo_moved) [''.lock'', ''mig_20260704_01ab''] = Inr (ss, ws)"
    by (auto simp: list_sessions_def Let_def)
  have "distinct [''.lock'', ''mig_20260704_01ab'']" by simp
  from listing_complete [OF this l] l show ?thesis by blast
qed

end
