(* ===== verification/Events.thy ===== *)
theory Events
  imports GoStrings
begin

text \<open>
  \<open>internal/events\<close>: the documents a run emits and the redaction every event payload goes through.
  A decoded JSON value (\<open>any\<close> in Go, numbers kept as their text by \<open>UseNumber\<close>) is a \<open>json\<close>; the
  members of an object are in one of the orders in which \<open>range\<close> may visit the Go map.
\<close>

section \<open>JSON values\<close>

datatype json =
    JNull
  | JBool bool
  | JNum string
  | JStr string
  | JArr "json list"
  | JObj "(string \<times> json) list"

type_synonym json_obj = "(string, json) gomap"

section \<open>Event vocabulary (event.go, report.go)\<close>

definition current_format_version :: int where
  "current_format_version = 1"

definition level_names :: "string list" where
  "level_names = [''info'', ''warn'', ''error'']"

definition phase_names :: "string list" where
  "phase_names =
     [''connect'', ''analyze_mail'', ''analyze_files'', ''analyze_db'', ''gather_data'',
      ''compare_mail'', ''compare_files'', ''compare_db'', ''create_domains'', ''migrate_mail'',
      ''verify_mail'', ''copy_files'', ''verify_files'', ''migrate_db'', ''verify_db'']"

definition event_type_names :: "string list" where
  "event_type_names =
     [''phase_started'', ''phase_completed'', ''phase_skipped'', ''phase_failed'',
      ''run_started'', ''run_completed'', ''run_failed'']"

definition exit_status_names :: "string list" where
  "exit_status_names = [''success'', ''failed'', ''interrupted'']"

record host_ref =
  hr_ip :: string
  hr_user :: string

record event =
  e_format_version :: int
  e_run_id :: string
  e_ts :: string
  e_level :: string
  e_phase :: string
  e_type :: string
  e_message :: string
  e_source :: host_ref
  e_dest :: host_ref
  e_data :: json

datatype run_id_error = RunIDEmpty | RunIDTooLong | RunIDIllegal

definition validate_run_id :: "string \<Rightarrow> run_id_error + unit" where
  "validate_run_id i =
     (if i = [] then Inl RunIDEmpty
      else if length i > 128 then Inl RunIDTooLong
      else if contains_any i [CHR ''/'', CHR 0x5C, CHR 0x00] then Inl RunIDIllegal
      else Inr ())"

section \<open>Redaction (redact.go)\<close>

definition sensitive_substrings :: "string list" where
  "sensitive_substrings =
     [''token'', ''secret'', ''pass'', ''key'', ''auth'', ''cred'', ''cookie'', ''session'', ''bearer'']"

definition redacted_placeholder :: string where
  "redacted_placeholder = ''<redacted>''"

definition is_sensitive_key :: "string \<Rightarrow> bool" where
  "is_sensitive_key k =
     (let lower = to_lower (trim_space k) in list_ex (contains lower) sensitive_substrings)"

definition is_empty_value :: "json \<Rightarrow> bool" where
  "is_empty_value v = (v = JNull \<or> v = JStr '''')"

function redact_value :: "string \<Rightarrow> json \<Rightarrow> json" where
  "redact_value k v =
     (if is_sensitive_key k \<and> \<not> is_empty_value v then JStr redacted_placeholder
      else (case v of
        JObj m \<Rightarrow> JObj (map (\<lambda>p. (fst p, redact_value (fst p) (snd p))) m)
      | JArr xs \<Rightarrow> JArr (map (redact_value '''') xs)
      | _ \<Rightarrow> v))"
  by pat_completeness auto
termination
proof (relation "measure (\<lambda>(k, v). size v)")
  fix k v xs x
  assume "v = JArr xs" "x \<in> set xs"
  then show "(('''', x), (k, v)) \<in> measure (\<lambda>(k, v). size v)"
    by (auto dest: size_list_estimation' [where f = size, OF _ order_refl] simp: less_Suc_eq_le)
next
  fix k v m p
  assume v: "v = JObj m" and p: "p \<in> set m"
  have "size (snd p) \<le> size_prod (\<lambda>_. 0) size p" by (cases p) simp
  then have "size (snd p) \<le> size_list (size_prod (\<lambda>_. 0) size) m"
    using p by (rule size_list_estimation' [rotated])
  then show "((fst p, snd p), (k, v)) \<in> measure (\<lambda>(k, v). size v)"
    using v by (simp add: split_beta)
qed simp

declare redact_value.simps [simp del]

definition redact_map :: "json_obj \<Rightarrow> json_obj" where
  "redact_map m = map (\<lambda>p. (fst p, redact_value (fst p) (snd p))) m"

text \<open>
  \<open>redactData\<close> (writer.go). A payload is \<open>nil\<close>, a map, or any other Go value; the latter is
  marshalled and redacted when its JSON form is an object, and passed on as it is otherwise.
\<close>

definition redact_data :: "json \<Rightarrow> json" where
  "redact_data v = (case v of JObj m \<Rightarrow> JObj (redact_map m) | _ \<Rightarrow> v)"

text \<open>\<open>Writer.Write\<close>: the event that is encoded, and the document it is encoded as.\<close>

definition stamp_event :: "event \<Rightarrow> event" where
  "stamp_event ev =
     ev\<lparr>e_format_version := current_format_version, e_data := redact_data (e_data ev)\<rparr>"

definition host_ref_json :: "host_ref \<Rightarrow> json" where
  "host_ref_json h = JObj [(''ip'', JStr (hr_ip h)), (''user'', JStr (hr_user h))]"

text \<open>The struct tags of \<open>Event\<close>: \<open>data\<close> is left out when it is \<open>nil\<close>.\<close>

definition event_json :: "event \<Rightarrow> json_obj" where
  "event_json ev =
     [(''format_version'', JNum (itoa (e_format_version ev))), (''run_id'', JStr (e_run_id ev)),
      (''ts'', JStr (e_ts ev)), (''level'', JStr (e_level ev)), (''phase'', JStr (e_phase ev)),
      (''event'', JStr (e_type ev)), (''message'', JStr (e_message ev)),
      (''source'', host_ref_json (e_source ev)), (''destination'', host_ref_json (e_dest ev))]
     @ (if e_data ev = JNull then [] else [(''data'', e_data ev)])"

definition write_event :: "event \<Rightarrow> json_obj" where
  "write_event ev = event_json (stamp_event ev)"

lemma not_sensitive_Nil [simp]: "\<not> is_sensitive_key ''''"
  by (simp add: is_sensitive_key_def trim_space_def trim_right_space_def trim_left_space_def
        sensitive_substrings_def to_lower_def)

lemma redact_value_idem: "redact_value k (redact_value k v) = redact_value k v"
proof (induction k v rule: redact_value.induct)
  case (1 k v)
  show ?case
  proof (cases "is_sensitive_key k \<and> \<not> is_empty_value v")
    case True
    then show ?thesis
      by (simp add: redact_value.simps [of k] is_empty_value_def redacted_placeholder_def)
  next
    case False
    show ?thesis
    proof (cases v)
      case (JArr xs)
      then have "\<not> is_sensitive_key k" using False by (simp add: is_empty_value_def)
      then show ?thesis
        using JArr 1 False by (simp add: redact_value.simps [of k] o_def)
    next
      case (JObj m)
      then have "\<not> is_sensitive_key k" using False by (simp add: is_empty_value_def)
      then show ?thesis
        using JObj 1 False by (simp add: redact_value.simps [of k] o_def)
    qed (use False in \<open>auto simp: redact_value.simps [of k]\<close>)
  qed
qed

lemma redact_map_idem: "redact_map (redact_map m) = redact_map m"
  by (simp add: redact_map_def redact_value_idem o_def)

end
