(* ===== verification/ExecContract.thy ===== *)
theory ExecContract
  imports Events Paths
begin

text \<open>
  \<open>internal/executioncontract/contract.go\<close>: the validators of the three documents exchanged with
  the control plane, and the proofs that tie them to the code that writes the documents.
  What \<open>json.Decoder\<close> returns is the argument \<open>dec\<close> of the validators: the values and errors
  successive \<open>Decode\<close> calls yield for a text.
\<close>

datatype json_stream =
    DecodeError string
  | DecodeEOF
  | DecodeValue json json_stream

datatype contract_error =
    InvalidUTF8
  | InvalidJSON string
  | ExpectedObject
  | TrailingJSON
  | MissingField string
  | UnknownField string
  | InvalidField string string
  | UnsupportedVersion int
  | InvalidRunID run_id_error
  | BadTime string
  | SensitiveNotRedacted string
  | InvalidArtifactPath string string

section \<open>Shared helpers\<close>

text \<open>Decoding into a \<open>map[string]any\<close>: \<open>null\<close> leaves the map nil, other values do not fit.\<close>

definition decode_single_object ::
    "(string \<Rightarrow> json_stream) \<Rightarrow> string \<Rightarrow> contract_error + json_obj" where
  "decode_single_object dec raw =
     (if \<not> valid_utf8 raw then Inl InvalidUTF8
      else (case dec raw of
        DecodeError e \<Rightarrow> Inl (InvalidJSON e)
      | DecodeEOF \<Rightarrow> Inl (InvalidJSON ''EOF'')
      | DecodeValue (JObj m) rest \<Rightarrow> if rest = DecodeEOF then Inr m else Inl TrailingJSON
      | DecodeValue JNull rest \<Rightarrow> Inl ExpectedObject
      | DecodeValue _ rest \<Rightarrow> Inl (InvalidJSON ''cannot unmarshal'')))"

definition check_format_version :: "json_obj \<Rightarrow> contract_error + unit" where
  "check_format_version m =
     (case map_of m ''format_version'' of
        None \<Rightarrow> Inl (MissingField ''format_version'')
      | Some (JNum n) \<Rightarrow>
          if contains_any n ''.eE'' then Inl (InvalidField ''format_version'' (''expected an integer, got '' @ n))
          else (case parse_int64 n of
            None \<Rightarrow> Inl (InvalidField ''format_version'' ''expected an integer'')
          | Some v \<Rightarrow> if v \<noteq> current_format_version then Inl (UnsupportedVersion v) else Inr ())
      | Some _ \<Rightarrow> Inl (InvalidField ''format_version'' ''expected an integer''))"

definition reject_unknown :: "json_obj \<Rightarrow> string list \<Rightarrow> string \<Rightarrow> contract_error + unit" where
  "reject_unknown m allowed pfx =
     each_ok (\<lambda>p. if fst p \<in> set allowed then Inr () else Inl (UnknownField (pfx @ fst p))) m"

definition require_present :: "json_obj \<Rightarrow> string list \<Rightarrow> contract_error + unit" where
  "require_present m keys =
     each_ok (\<lambda>k. if map_of m k = None then Inl (MissingField k) else Inr ()) keys"

definition require_string :: "json_obj \<Rightarrow> string \<Rightarrow> contract_error + string" where
  "require_string m key =
     (case map_of m key of
        None \<Rightarrow> Inl (MissingField key)
      | Some (JStr s) \<Rightarrow> Inr s
      | Some _ \<Rightarrow> Inl (InvalidField key ''expected a string''))"

definition optional_string :: "json_obj \<Rightarrow> string \<Rightarrow> string \<Rightarrow> contract_error + string" where
  "optional_string m label key =
     (case map_of m key of
        None \<Rightarrow> Inr ''''
      | Some (JStr s) \<Rightarrow> Inr s
      | Some _ \<Rightarrow> Inl (InvalidField label ''expected a string''))"

definition filter_blank_chars :: string where
  "filter_blank_chars = [CHR 0x20, CHR 0x09, CHR 0x0A, CHR 0x0B, CHR 0x0C, CHR 0x0D]"

definition reject_blank_filter :: "json_obj \<Rightarrow> string \<Rightarrow> string \<Rightarrow> contract_error + unit" where
  "reject_blank_filter scope key value =
     (if map_of scope key = None then Inr ()
      else if trim_cutset value filter_blank_chars = ''''
        then Inl (InvalidField key ''must not be blank when present'')
      else Inr ())"

definition require_bool :: "json_obj \<Rightarrow> string \<Rightarrow> string \<Rightarrow> contract_error + bool" where
  "require_bool m label key =
     (case map_of m key of
        None \<Rightarrow> Inl (MissingField label)
      | Some (JBool b) \<Rightarrow> Inr b
      | Some _ \<Rightarrow> Inl (InvalidField key ''expected a boolean''))"

definition require_positive_int :: "json_obj \<Rightarrow> string \<Rightarrow> contract_error + int" where
  "require_positive_int m key =
     (case map_of m key of
        None \<Rightarrow> Inl (MissingField key)
      | Some (JNum n) \<Rightarrow>
          if contains_any n ''.eE'' then Inl (InvalidField key (''expected an integer, got '' @ n))
          else (case parse_int64 n of
            None \<Rightarrow> Inl (InvalidField key ''expected an integer'')
          | Some v \<Rightarrow>
              if v \<le> 0 then Inl (InvalidField key (''must be a positive integer, got '' @ itoa v)) else Inr v)
      | Some _ \<Rightarrow> Inl (InvalidField key ''expected an integer''))"

section \<open>Timestamps\<close>

definition match_shape :: "string \<Rightarrow> string \<Rightarrow> bool" where
  "match_shape pat s = list_all2 (\<lambda>p c. if p = CHR ''d'' then is_digit c else c = p) pat s"

text \<open>The fraction and zone after the seconds: \<open>(\.\d+)?(Z|[+-]\d{2}:\d{2})\<close>.\<close>

definition split_fraction :: "string \<Rightarrow> (string \<times> string) option" where
  "split_fraction s =
     (case s of
        c # cs \<Rightarrow>
          if c = CHR ''.'' then
            (if takeWhile is_digit cs = [] then None
             else Some (takeWhile is_digit cs, dropWhile is_digit cs))
          else Some ([], s)
      | [] \<Rightarrow> Some ([], []))"

definition zone_shape :: "string \<Rightarrow> bool" where
  "zone_shape z \<longleftrightarrow> z = ''Z'' \<or> match_shape ''+dd:dd'' z \<or> match_shape ''-dd:dd'' z"

definition rfc3339_match :: "string \<Rightarrow> bool" where
  "rfc3339_match s \<longleftrightarrow>
     match_shape ''dddd-dd-ddTdd:dd:dd'' (take 19 s)
     \<and> (case split_fraction (drop 19 s) of None \<Rightarrow> False | Some (_, z) \<Rightarrow> zone_shape z)"

definition leap_year :: "nat \<Rightarrow> bool" where
  "leap_year y \<longleftrightarrow> y mod 4 = 0 \<and> (y mod 100 \<noteq> 0 \<or> y mod 400 = 0)"

definition days_in_month :: "nat \<Rightarrow> nat \<Rightarrow> nat" where
  "days_in_month y m =
     (if m = 2 then (if leap_year y then 29 else 28)
      else if m = 4 \<or> m = 6 \<or> m = 9 \<or> m = 11 then 30 else 31)"

definition days_before_year :: "nat \<Rightarrow> nat" where
  "days_before_year y = 365 * y + (y + 3) div 4 - (y + 99) div 100 + (y + 399) div 400"

definition day_number :: "nat \<Rightarrow> nat \<Rightarrow> nat \<Rightarrow> nat" where
  "day_number y m d = days_before_year y + sum_list (map (days_in_month y) [1..<m]) + (d - 1)"

text \<open>
  An instant: seconds counted from the first day of year 0 in UTC, and nanoseconds. A fraction is
  read to nine digits.
\<close>

record instant =
  in_seconds :: int
  in_nanos :: nat
  in_year :: nat

definition fraction_nanos :: "string \<Rightarrow> nat" where
  "fraction_nanos ds = digits_value (take 9 (ds @ replicate 9 CHR ''0''))"

definition field2 :: "nat \<Rightarrow> string \<Rightarrow> nat" where
  "field2 i s = digits_value (take 2 (drop i s))"

text \<open>\<open>time.Parse(time.RFC3339, s)\<close> on text of the shape above.\<close>

definition parse_rfc3339 :: "string \<Rightarrow> instant option" where
  "parse_rfc3339 s =
     (let y = digits_value (take 4 s); mo = field2 5 s; d = field2 8 s;
          h = field2 11 s; mi = field2 14 s; sec = field2 17 s
      in (case split_fraction (drop 19 s) of
            None \<Rightarrow> None
          | Some (frac, z) \<Rightarrow>
             (let zh = field2 1 z; zm = field2 4 z;
                  off = (if z = ''Z'' then 0
                         else if hd z = CHR ''-'' then - int (zh * 3600 + zm * 60)
                         else int (zh * 3600 + zm * 60))
              in if 1 \<le> mo \<and> mo \<le> 12 \<and> 1 \<le> d \<and> d \<le> days_in_month y mo \<and> h < 24 \<and> mi < 60 \<and> sec < 60
                    \<and> (z = ''Z'' \<or> zh \<le> 24 \<and> zm \<le> 60)
                 then Some \<lparr>in_seconds = int (day_number y mo d * 86400 + h * 3600 + mi * 60 + sec) - off,
                            in_nanos = fraction_nanos frac, in_year = y\<rparr>
                 else None)))"

definition require_timestamp :: "json_obj \<Rightarrow> string \<Rightarrow> contract_error + instant" where
  "require_timestamp m key =
     bindr (require_string m key) (\<lambda>s.
       if \<not> rfc3339_match s
         then Inl (InvalidField key (go_quote s @ '' is not an RFC3339 timestamp with a timezone''))
       else (case parse_rfc3339 s of
          None \<Rightarrow> Inl (BadTime key)
        | Some t \<Rightarrow> if in_year t < 1 then Inl (InvalidField key ''year is out of range'') else Inr t))"

definition instant_before :: "instant \<Rightarrow> instant \<Rightarrow> bool" where
  "instant_before a b \<longleftrightarrow>
     in_seconds a < in_seconds b \<or> (in_seconds a = in_seconds b \<and> in_nanos a < in_nanos b)"

section \<open>Nested checks\<close>

definition check_host_ref :: "json_obj \<Rightarrow> string \<Rightarrow> contract_error + unit" where
  "check_host_ref m key =
     (case map_of m key of
        None \<Rightarrow> Inl (MissingField key)
      | Some (JObj h) \<Rightarrow>
          each_ok (\<lambda>member.
            case map_of h member of
              None \<Rightarrow> Inl (MissingField (key @ ''.'' @ member))
            | Some (JStr _) \<Rightarrow> Inr ()
            | Some _ \<Rightarrow> Inl (InvalidField (key @ ''.'' @ member) ''expected a string''))
            [''ip'', ''user'']
      | Some _ \<Rightarrow> Inl (InvalidField key ''expected an object''))"

definition redacted_ok :: "json \<Rightarrow> bool" where
  "redacted_ok v =
     (case v of
        JNull \<Rightarrow> True
      | JStr s \<Rightarrow> s = '''' \<or> s = redacted_placeholder
      | _ \<Rightarrow> False)"

text \<open>\<open>checkRedacted\<close> walks objects and arrays; the path names the place for the message.\<close>

function check_redacted :: "json \<Rightarrow> string \<Rightarrow> contract_error + unit" where
  "check_redacted v path =
     (case v of
        JObj m \<Rightarrow>
          each_ok (\<lambda>p.
            let q = (if path \<noteq> '''' then path @ ''.'' @ fst p else fst p) in
            if is_sensitive_key (fst p) \<and> \<not> redacted_ok (snd p) then Inl (SensitiveNotRedacted q)
            else check_redacted (snd p) q) m
      | JArr xs \<Rightarrow>
          each_ok (\<lambda>p. check_redacted (snd p) (path @ ''['' @ digits_of (fst p) @ '']''))
            (enumerate 0 xs)
      | _ \<Rightarrow> Inr ())"
  by pat_completeness auto
termination
proof (relation "measure (\<lambda>(v, p). size v)")
  fix v path m p q
  assume v: "v = JObj m" and p: "p \<in> set m"
  have "size (snd p) \<le> size_prod (\<lambda>_. 0) size p" by (cases p) simp
  then have "size (snd p) \<le> size_list (size_prod (\<lambda>_. 0) size) m"
    using p by (rule size_list_estimation' [rotated])
  then show "((snd p, q), (v, path)) \<in> measure (\<lambda>(v, p). size v)"
    using v by (simp add: split_beta)
next
  fix v path xs p
  assume v: "v = JArr xs" and p: "p \<in> set (enumerate 0 xs)"
  then have "snd p \<in> set xs" by (auto simp: in_set_enumerate_eq) (metis nth_mem)
  then show "((snd p, path @ ''['' @ digits_of (fst p) @ '']''), (v, path)) \<in> measure (\<lambda>(v, p). size v)"
    using v by (auto dest: size_list_estimation' [where f = size, OF _ order_refl] simp: less_Suc_eq_le)
qed simp

declare check_redacted.simps [simp del]

text \<open>\<open>strings.ReplaceAll(p, `\`, "/")\<close>.\<close>

definition slash_norm :: "string \<Rightarrow> string" where
  "slash_norm p = map (\<lambda>c. if c = CHR 0x5C then CHR ''/'' else c) p"

definition check_artifact_path :: "string \<Rightarrow> string + unit" where
  "check_artifact_path p =
     (if p = '''' then Inl ''must not be empty''
      else if contains_byte p CHR 0x00 then Inl ''must not contain NUL bytes''
      else if has_prefix (slash_norm p) ''/'' then Inl ''must be relative to the workspace''
      else if contains_byte p CHR '':'' then Inl ''must not contain a colon''
      else if list_ex (\<lambda>seg. seg = ''..'') (split_byte CHR ''/'' (slash_norm p))
        then Inl ''must not contain parent segments''
      else Inr ())"

interpretation artp: confined_path slash_norm "\<lambda>p. check_artifact_path p = Inr ()"
  by unfold_locales (auto simp: check_artifact_path_def list_ex_iff split: if_splits)

section \<open>The three validators\<close>

record spec_scope =
  sc_mail :: bool
  sc_files :: bool
  sc_databases :: bool
  sc_domain_filter :: string
  sc_mailbox_filter :: string

record execution_spec =
  es_format_version :: int
  es_run_id :: string
  es_plan_id :: int
  es_source_snapshot_id :: int
  es_destination_snapshot_id :: int
  es_comparison_report_id :: int
  es_mode :: string
  es_scope :: spec_scope

definition spec_top_keys :: "string list" where
  "spec_top_keys =
     [''format_version'', ''run_id'', ''plan_id'', ''source_snapshot_id'',
      ''destination_snapshot_id'', ''comparison_report_id'', ''mode'', ''scope'']"

definition spec_scope_keys :: "string list" where
  "spec_scope_keys = [''mail'', ''files'', ''databases'', ''domain_filter'', ''mailbox_filter'']"

definition check_run_id :: "string \<Rightarrow> contract_error + unit" where
  "check_run_id i = (case validate_run_id i of Inl e \<Rightarrow> Inl (InvalidRunID e) | Inr _ \<Rightarrow> Inr ())"

definition require_object :: "json_obj \<Rightarrow> string \<Rightarrow> contract_error + json_obj" where
  "require_object m key =
     (case map_of m key of
        None \<Rightarrow> Inl (MissingField key)
      | Some (JObj h) \<Rightarrow> Inr h
      | Some _ \<Rightarrow> Inl (InvalidField key ''expected an object''))"

definition parse_scope :: "json_obj \<Rightarrow> contract_error + spec_scope" where
  "parse_scope scope =
     bindr (reject_unknown scope spec_scope_keys ''scope.'') (\<lambda>_.
     bindr (require_bool scope ''scope.mail'' ''mail'') (\<lambda>mail.
     bindr (require_bool scope ''scope.files'' ''files'') (\<lambda>files.
     bindr (require_bool scope ''scope.databases'' ''databases'') (\<lambda>databases.
     if \<not> mail \<and> \<not> files \<and> \<not> databases
       then Inl (InvalidField ''scope'' ''at least one of mail, files, databases must be true'')
     else
     bindr (optional_string scope ''scope.domain_filter'' ''domain_filter'') (\<lambda>dom.
     bindr (reject_blank_filter scope ''domain_filter'' dom) (\<lambda>_.
     bindr (optional_string scope ''scope.mailbox_filter'' ''mailbox_filter'') (\<lambda>mbox.
     bindr (reject_blank_filter scope ''mailbox_filter'' mbox) (\<lambda>_.
     if mbox \<noteq> '''' \<and> \<not> mail
       then Inl (InvalidField ''mailbox_filter'' ''allowed only when scope.mail is true'')
     else if dom \<noteq> '''' \<and> \<not> mail \<and> \<not> files
       then Inl (InvalidField ''domain_filter'' ''allowed only when scope.mail or scope.files is true'')
     else Inr \<lparr>sc_mail = mail, sc_files = files, sc_databases = databases,
               sc_domain_filter = dom, sc_mailbox_filter = mbox\<rparr>))))))))"

definition parse_spec_object :: "json_obj \<Rightarrow> contract_error + execution_spec" where
  "parse_spec_object m =
     bindr (reject_unknown m spec_top_keys '''') (\<lambda>_.
     bindr (check_format_version m) (\<lambda>_.
     bindr (require_string m ''run_id'') (\<lambda>run_id.
     bindr (check_run_id run_id) (\<lambda>_.
     bindr (require_positive_int m ''plan_id'') (\<lambda>plan.
     bindr (require_positive_int m ''source_snapshot_id'') (\<lambda>srcs.
     bindr (require_positive_int m ''destination_snapshot_id'') (\<lambda>dsts.
     bindr (require_positive_int m ''comparison_report_id'') (\<lambda>cmp.
     bindr (require_string m ''mode'') (\<lambda>mode.
     if mode \<noteq> ''dry_run'' then Inl (InvalidField ''mode'' (go_quote mode @ '' is not supported''))
     else
     bindr (require_object m ''scope'') (\<lambda>scope.
     bindr (parse_scope scope) (\<lambda>sc.
     Inr \<lparr>es_format_version = current_format_version, es_run_id = run_id, es_plan_id = plan,
          es_source_snapshot_id = srcs, es_destination_snapshot_id = dsts,
          es_comparison_report_id = cmp, es_mode = mode, es_scope = sc\<rparr>)))))))))))"

definition parse_spec ::
    "(string \<Rightarrow> json_stream) \<Rightarrow> string \<Rightarrow> contract_error + execution_spec" where
  "parse_spec dec raw = bindr (decode_single_object dec raw) parse_spec_object"

definition validate_spec_json :: "(string \<Rightarrow> json_stream) \<Rightarrow> string \<Rightarrow> contract_error + unit" where
  "validate_spec_json dec raw = bindr (parse_spec dec raw) (\<lambda>_. Inr ())"

definition event_required :: "string list" where
  "event_required =
     [''format_version'', ''run_id'', ''ts'', ''level'', ''phase'', ''event'', ''message'',
      ''source'', ''destination'']"

definition validate_event_object :: "json_obj \<Rightarrow> contract_error + unit" where
  "validate_event_object m =
     bindr (check_format_version m) (\<lambda>_.
     bindr (require_present m event_required) (\<lambda>_.
     bindr (require_string m ''run_id'') (\<lambda>run_id.
     bindr (check_run_id run_id) (\<lambda>_.
     bindr (require_timestamp m ''ts'') (\<lambda>_.
     bindr (require_string m ''level'') (\<lambda>level.
     if level \<notin> set level_names then Inl (InvalidField ''level'' (''unknown level '' @ go_quote level))
     else
     bindr (require_string m ''event'') (\<lambda>evtype.
     if evtype \<notin> set event_type_names
       then Inl (InvalidField ''event'' (''unknown event type '' @ go_quote evtype))
     else
     bindr (require_string m ''phase'') (\<lambda>phase.
     if phase \<noteq> '''' \<and> phase \<notin> set phase_names
       then Inl (InvalidField ''phase'' (''unknown phase '' @ go_quote phase))
     else
     bindr (require_string m ''message'') (\<lambda>_.
     bindr (each_ok (check_host_ref m) [''source'', ''destination'']) (\<lambda>_.
     check_redacted (JObj m) ''''))))))))))"

definition validate_event_json :: "(string \<Rightarrow> json_stream) \<Rightarrow> string \<Rightarrow> contract_error + unit" where
  "validate_event_json dec raw = bindr (decode_single_object dec raw) validate_event_object"

definition result_required :: "string list" where
  "result_required =
     [''format_version'', ''run_id'', ''version'', ''mode'', ''scope'', ''source'', ''destination'',
      ''started_at'', ''finished_at'', ''exit_status'', ''phases_completed'', ''warnings'', ''errors'']"

definition result_modes :: "string list" where
  "result_modes = [''dry-run'', ''apply'', ''account-inventory'']"

definition require_array :: "json_obj \<Rightarrow> string \<Rightarrow> contract_error + json list" where
  "require_array m key =
     (case map_of m key of
        Some (JArr xs) \<Rightarrow> Inr xs
      | _ \<Rightarrow> Inl (InvalidField key ''expected an array''))"

definition require_object_lax :: "json_obj \<Rightarrow> string \<Rightarrow> contract_error + json_obj" where
  "require_object_lax m key =
     (case map_of m key of
        Some (JObj h) \<Rightarrow> Inr h
      | _ \<Rightarrow> Inl (InvalidField key ''expected an object''))"

definition indexed :: "string \<Rightarrow> nat \<Rightarrow> string" where
  "indexed key i = key @ ''['' @ digits_of i @ '']''"

definition check_phases :: "json list \<Rightarrow> contract_error + unit" where
  "check_phases xs =
     each_ok (\<lambda>(i, p).
       case p of
         JStr s \<Rightarrow>
           if s \<in> set phase_names then Inr ()
           else Inl (InvalidField (indexed ''phases_completed'' i) (''unknown phase '' @ go_quote s))
       | _ \<Rightarrow> Inl (InvalidField (indexed ''phases_completed'' i) ''expected a string''))
       (enumerate 0 xs)"

definition check_strings :: "string \<Rightarrow> json list \<Rightarrow> contract_error + unit" where
  "check_strings key xs =
     each_ok (\<lambda>(i, v).
       case v of
         JStr _ \<Rightarrow> Inr ()
       | _ \<Rightarrow> Inl (InvalidField (indexed key i) ''expected a string''))
       (enumerate 0 xs)"

definition check_artifacts :: "json_obj \<Rightarrow> contract_error + unit" where
  "check_artifacts m =
     (case map_of m ''artifacts'' of
        None \<Rightarrow> Inr ()
      | Some (JObj arts) \<Rightarrow>
          each_ok (\<lambda>(name, v).
            case v of
              JStr p \<Rightarrow>
                (case check_artifact_path p of
                   Inl e \<Rightarrow> Inl (InvalidArtifactPath name e)
                 | Inr _ \<Rightarrow> Inr ())
            | _ \<Rightarrow> Inl (InvalidArtifactPath name ''expected a string'')) arts
      | Some _ \<Rightarrow> Inl (InvalidField ''artifacts'' ''expected an object''))"

definition validate_result_object :: "json_obj \<Rightarrow> contract_error + unit" where
  "validate_result_object m =
     bindr (check_format_version m) (\<lambda>_.
     bindr (require_present m result_required) (\<lambda>_.
     bindr (require_string m ''run_id'') (\<lambda>run_id.
     bindr (check_run_id run_id) (\<lambda>_.
     bindr (require_string m ''version'') (\<lambda>ver.
     if trim_space ver = '''' then Inl (InvalidField ''version'' ''must not be empty'') else
     bindr (require_string m ''mode'') (\<lambda>mode.
     if mode \<notin> set result_modes then Inl (InvalidField ''mode'' (''unknown mode '' @ go_quote mode)) else
     bindr (require_string m ''exit_status'') (\<lambda>status.
     if status \<notin> set exit_status_names
       then Inl (InvalidField ''exit_status'' (''unknown exit status '' @ go_quote status)) else
     bindr (require_timestamp m ''started_at'') (\<lambda>started.
     bindr (require_timestamp m ''finished_at'') (\<lambda>finished.
     if instant_before finished started
       then Inl (InvalidField ''finished_at'' ''finished_at is before started_at'') else
     bindr (require_object_lax m ''scope'') (\<lambda>scope.
     bindr (each_ok (\<lambda>k. bindr (require_bool scope (''scope.'' @ k) k) (\<lambda>_. Inr ()))
              [''mail'', ''files'', ''databases'']) (\<lambda>_.
     bindr (each_ok (check_host_ref m) [''source'', ''destination'']) (\<lambda>_.
     bindr (require_array m ''phases_completed'') (\<lambda>completed.
     bindr (check_phases completed) (\<lambda>_.
     bindr (each_ok (\<lambda>k. bindr (require_array m k) (check_strings k)) [''warnings'', ''errors'']) (\<lambda>_.
     bindr (check_artifacts m) (\<lambda>_.
     check_redacted (JObj m) ''''))))))))))))))))"

definition validate_result_json :: "(string \<Rightarrow> json_stream) \<Rightarrow> string \<Rightarrow> contract_error + unit" where
  "validate_result_json dec raw = bindr (decode_single_object dec raw) validate_result_object"

section \<open>What an accepted document guarantees\<close>

lemma require_string_ok: "require_string m k = Inr s \<longleftrightarrow> map_of m k = Some (JStr s)"
  by (auto simp: require_string_def split: option.splits json.splits)

lemma optional_string_ok:
  "optional_string m l k = Inr s \<longleftrightarrow> map_of m k = Some (JStr s) \<or> (map_of m k = None \<and> s = '''')"
  by (auto simp: optional_string_def split: option.splits json.splits)

lemma require_bool_ok: "require_bool m l k = Inr b \<longleftrightarrow> map_of m k = Some (JBool b)"
  by (auto simp: require_bool_def split: option.splits json.splits)

lemma require_object_ok: "require_object m k = Inr h \<longleftrightarrow> map_of m k = Some (JObj h)"
  by (auto simp: require_object_def split: option.splits json.splits)

lemma require_positive_int_ok:
  "require_positive_int m k = Inr v \<Longrightarrow>
     0 < v \<and> v < 2 ^ 63 \<and> (\<exists>n. map_of m k = Some (JNum n) \<and> parse_int64 n = Some v)"
  using parse_int64_range
  by (auto simp: require_positive_int_def split: option.splits json.splits if_splits)

lemma reject_unknown_ok: "reject_unknown m ks p = Inr u \<longleftrightarrow> fst ` set m \<subseteq> set ks"
  by (cases u) (auto simp: reject_unknown_def each_ok_iff split: if_splits)

lemma reject_blank_filter_ok:
  "reject_blank_filter m k v = Inr u \<longleftrightarrow>
     map_of m k = None \<or> \<not> set v \<subseteq> set filter_blank_chars"
  using trim_cutset_empty_iff [of v filter_blank_chars]
  by (cases u) (simp add: reject_blank_filter_def)

lemma parse_scope_ok:
  assumes "parse_scope scope = Inr sc"
  shows "fst ` set scope \<subseteq> set spec_scope_keys"
    and "sc_mail sc \<or> sc_files sc \<or> sc_databases sc"
    and "map_of scope ''mail'' = Some (JBool (sc_mail sc))"
    and "map_of scope ''files'' = Some (JBool (sc_files sc))"
    and "map_of scope ''databases'' = Some (JBool (sc_databases sc))"
    and "map_of scope ''domain_filter'' \<noteq> None \<Longrightarrow>
           \<not> set (sc_domain_filter sc) \<subseteq> set filter_blank_chars \<and> (sc_mail sc \<or> sc_files sc)"
    and "map_of scope ''mailbox_filter'' \<noteq> None \<Longrightarrow>
           \<not> set (sc_mailbox_filter sc) \<subseteq> set filter_blank_chars \<and> sc_mail sc"
proof -
  note facts = assms [unfolded parse_scope_def bindr_ok_iff guard_ok_iff
      reject_unknown_ok require_bool_ok optional_string_ok reject_blank_filter_ok]
  obtain mail files dbs dom mbox where sc: "\<lparr>sc_mail = mail, sc_files = files,
        sc_databases = dbs, sc_domain_filter = dom, sc_mailbox_filter = mbox\<rparr> = sc"
    and keys: "fst ` set scope \<subseteq> set spec_scope_keys"
    and mail: "map_of scope ''mail'' = Some (JBool mail)"
    and files: "map_of scope ''files'' = Some (JBool files)"
    and dbs: "map_of scope ''databases'' = Some (JBool dbs)"
    and some: "\<not> (\<not> mail \<and> \<not> files \<and> \<not> dbs)"
    and df: "map_of scope ''domain_filter'' = None \<or> \<not> set dom \<subseteq> set filter_blank_chars"
    and mf: "map_of scope ''mailbox_filter'' = None \<or> \<not> set mbox \<subseteq> set filter_blank_chars"
    and mg: "\<not> (mbox \<noteq> '''' \<and> \<not> mail)"
    and dg: "\<not> (dom \<noteq> '''' \<and> \<not> mail \<and> \<not> files)"
    using facts unfolding sum.inject by (elim exE conjE) (rule that; assumption)
  have sel: "sc_mail sc = mail" "sc_files sc = files" "sc_databases sc = dbs"
    "sc_domain_filter sc = dom" "sc_mailbox_filter sc = mbox"
    unfolding sc [symmetric] spec_scope.simps by (rule refl)+
  have ne: "\<not> set v \<subseteq> set filter_blank_chars \<Longrightarrow> v \<noteq> ''''" for v by auto
  show "fst ` set scope \<subseteq> set spec_scope_keys" by (rule keys)
  show "sc_mail sc \<or> sc_files sc \<or> sc_databases sc" unfolding sel using some by blast
  show "map_of scope ''mail'' = Some (JBool (sc_mail sc))" unfolding sel by (rule mail)
  show "map_of scope ''files'' = Some (JBool (sc_files sc))" unfolding sel by (rule files)
  show "map_of scope ''databases'' = Some (JBool (sc_databases sc))" unfolding sel by (rule dbs)
  show "\<not> set (sc_domain_filter sc) \<subseteq> set filter_blank_chars \<and> (sc_mail sc \<or> sc_files sc)"
    if "map_of scope ''domain_filter'' \<noteq> None"
    unfolding sel using df dg ne that by blast
  show "\<not> set (sc_mailbox_filter sc) \<subseteq> set filter_blank_chars \<and> sc_mail sc"
    if "map_of scope ''mailbox_filter'' \<noteq> None"
    unfolding sel using mf mg ne that by blast
qed

lemma parse_spec_object_ok:
  assumes "parse_spec_object m = Inr s"
  shows "fst ` set m \<subseteq> set spec_top_keys"
    and "es_mode s = ''dry_run''" and "validate_run_id (es_run_id s) = Inr ()"
    and "\<forall>i\<in>{es_plan_id s, es_source_snapshot_id s, es_destination_snapshot_id s,
           es_comparison_report_id s}. 0 < i \<and> i < 2 ^ 63"
    and "\<exists>scope. map_of m ''scope'' = Some (JObj scope) \<and> parse_scope scope = Inr (es_scope s)"
proof -
  have rid: "check_run_id i = Inr u \<longleftrightarrow> validate_run_id i = Inr ()" for i u
    by (auto simp: check_run_id_def split: sum.splits)
  note facts = assms [unfolded parse_spec_object_def bindr_ok_iff guard_ok_iff reject_unknown_ok
      require_string_ok require_object_ok rid]
  show "fst ` set m \<subseteq> set spec_top_keys" using facts by blast
  show "es_mode s = ''dry_run''" using facts by (elim exE conjE) auto
  show "validate_run_id (es_run_id s) = Inr ()" using facts by (elim exE conjE) auto
  show "\<forall>i\<in>{es_plan_id s, es_source_snapshot_id s, es_destination_snapshot_id s,
           es_comparison_report_id s}. 0 < i \<and> i < 2 ^ 63"
    using facts by (auto dest!: require_positive_int_ok)
  show "\<exists>scope. map_of m ''scope'' = Some (JObj scope) \<and> parse_scope scope = Inr (es_scope s)"
    using facts by auto
qed

lemma decode_single_object_ok:
  "decode_single_object dec raw = Inr m \<longleftrightarrow>
     valid_utf8 raw \<and> dec raw = DecodeValue (JObj m) DecodeEOF"
  by (auto simp: decode_single_object_def split: json_stream.splits json.splits)


definition demo_spec :: json_obj where
  "demo_spec =
     [(''format_version'', JNum ''1''), (''run_id'', JStr ''run-20260101-000000''),
      (''plan_id'', JNum ''7''), (''source_snapshot_id'', JNum ''1''),
      (''destination_snapshot_id'', JNum ''2''), (''comparison_report_id'', JNum ''3''),
      (''mode'', JStr ''dry_run''),
      (''scope'', JObj [(''mail'', JBool True), (''files'', JBool False), (''databases'', JBool False),
                        (''mailbox_filter'', JStr ''a@b.c'')])]"


section \<open>The writer and the validator agree on redaction\<close>

lemma redacted_ok_redact_value:
  "is_sensitive_key k \<Longrightarrow> redacted_ok (redact_value k v)"
  by (auto simp: redact_value.simps [of k v] is_empty_value_def redacted_ok_def split: json.splits)

lemma check_redacted_scalar:
  "check_redacted (redact_value k JNull) path = Inr ()"
  "check_redacted (redact_value k (JBool b)) path = Inr ()"
  "check_redacted (redact_value k (JNum n)) path = Inr ()"
  "check_redacted (redact_value k (JStr s)) path = Inr ()"
  by (simp_all add: redact_value.simps [of k "JBool b"] redact_value.simps [of k "JNum n"]
      redact_value.simps [of k "JStr s"] redact_value.simps [of k JNull] check_redacted.simps)

lemma in_image_enumerate: "p \<in> set (enumerate n (map f xs)) \<Longrightarrow> snd p \<in> f ` set xs"
  by (metis enumerate_eq_zip list.set_map set_zip_rightD prod.collapse)

lemma check_redacted_redact_value: "check_redacted (redact_value k v) path = Inr ()"
proof (induction k v arbitrary: path rule: redact_value.induct)
  case (1 k v)
  show ?case
  proof (cases "is_sensitive_key k \<and> \<not> is_empty_value v")
    case True
    then show ?thesis by (simp add: redact_value.simps [of k v] check_redacted.simps)
  next
    case False
    show ?thesis
    proof (cases v)
      case (JArr xs)
      have "check_redacted (redact_value '''' x) q = Inr ()" if "x \<in> set xs" for x q
        using 1 False JArr that by blast
      then have all: "\<forall>p\<in>set (enumerate 0 (map (redact_value '''') xs)).
          check_redacted (snd p) (path @ ''['' @ digits_of (fst p) @ '']'') = Inr ()"
        by (auto dest!: in_image_enumerate)
      have rv: "redact_value k v = JArr (map (redact_value '''') xs)"
        using False JArr by (simp add: redact_value.simps [of k "JArr xs"] is_empty_value_def)
      show ?thesis
        unfolding rv check_redacted.simps [of "JArr _"] json.case each_ok_iff by (rule all)
    next
      case (JObj m)
      have "check_redacted (redact_value (fst p) (snd p)) q = Inr ()" if "p \<in> set m" for p q
        using 1 False JObj that by blast
      moreover have rv: "redact_value k v = JObj (map (\<lambda>p. (fst p, redact_value (fst p) (snd p))) m)"
        using False JObj by (simp add: redact_value.simps [of k "JObj m"] is_empty_value_def)
      ultimately show ?thesis
        unfolding rv check_redacted.simps [of "JObj _"] json.case each_ok_iff
        by (simp add: redacted_ok_redact_value Let_def)
    qed (simp_all add: check_redacted_scalar)
  qed
qed

lemma check_redacted_redact_map: "check_redacted (JObj (redact_map m)) path = Inr ()"
  unfolding redact_map_def check_redacted.simps [of "JObj _"] json.case each_ok_iff
  by (simp add: redacted_ok_redact_value check_redacted_redact_value Let_def)

lemma sensitive_names:
  "\<not> is_sensitive_key ''format_version''" "\<not> is_sensitive_key ''run_id''" "\<not> is_sensitive_key ''ts''"
  "\<not> is_sensitive_key ''level''" "\<not> is_sensitive_key ''phase''" "\<not> is_sensitive_key ''event''"
  "\<not> is_sensitive_key ''message''" "\<not> is_sensitive_key ''source''"
  "\<not> is_sensitive_key ''destination''" "\<not> is_sensitive_key ''data''" "\<not> is_sensitive_key ''ip''"
  "\<not> is_sensitive_key ''user''"
  by code_simp+

lemma check_redacted_leaf [simp]:
  "check_redacted (JStr s) p = Inr ()" "check_redacted (JNum n) p = Inr ()"
  "check_redacted JNull p = Inr ()" "check_redacted (JBool b) p = Inr ()"
  by (simp_all add: check_redacted.simps)

lemma check_redacted_host_ref: "check_redacted (host_ref_json h) p = Inr ()"
  by (simp add: host_ref_json_def check_redacted.simps [of "JObj _"] sensitive_names Let_def)

lemma check_redacted_event:
  assumes "\<And>q. check_redacted (e_data ev) q = Inr ()"
  shows "check_redacted (JObj (event_json ev)) '''' = Inr ()"
  using assms
  by (simp add: event_json_def check_redacted.simps [of "JObj _"] sensitive_names Let_def
        check_redacted_host_ref)

definition event_wf :: "event \<Rightarrow> bool" where
  "event_wf ev \<longleftrightarrow>
     validate_run_id (e_run_id ev) = Inr ()
     \<and> is_ok (require_timestamp [(''ts'', JStr (e_ts ev))] ''ts'')
     \<and> e_level ev \<in> set level_names \<and> e_type ev \<in> set event_type_names
     \<and> (e_phase ev = '''' \<or> e_phase ev \<in> set phase_names)"

lemma require_timestamp_key:
  "map_of m k = map_of m' k \<Longrightarrow> require_timestamp m k = require_timestamp m' k"
  by (simp add: require_timestamp_def require_string_def)

lemma stamped_format_version: "check_format_version (event_json (stamp_event ev)) = Inr ()"
proof -
  have "itoa current_format_version = ''1''" by code_simp
  then show ?thesis
    by (simp add: check_format_version_def event_json_def stamp_event_def contains_any_def
          parse_int64_def is_digit_def byte_def digits_value_def current_format_version_def)
qed

text \<open>No secret gets past the gate by key. Whatever object a payload is, and however deep, the
  object \<open>RedactMap\<close> makes of it passes the validator's recursive scan (\<open>checkRedacted\<close>), wherever
  in a document it is put; and redacting twice is redacting once.
\<close>

theorem redacted_map_passes_gate:
  "check_redacted (JObj (redact_map m)) path = Inr ()
   \<and> redact_map (redact_map m) = redact_map m"
  by (simp add: check_redacted_redact_map redact_map_idem)

text \<open>A well-formed event that went through the writer is judged by the redaction scan alone.\<close>

lemma validate_written_event:
  assumes "event_wf ev"
  shows "validate_event_object (write_event ev) = check_redacted (JObj (event_json (stamp_event ev))) []"
proof -
  let ?m = "event_json (stamp_event ev)"
  have keys: "map_of ?m ''run_id'' = Some (JStr (e_run_id ev))" "map_of ?m ''ts'' = Some (JStr (e_ts ev))"
    "map_of ?m ''level'' = Some (JStr (e_level ev))" "map_of ?m ''phase'' = Some (JStr (e_phase ev))"
    "map_of ?m ''event'' = Some (JStr (e_type ev))" "map_of ?m ''message'' = Some (JStr (e_message ev))"
    "map_of ?m ''source'' = Some (host_ref_json (e_source ev))"
    "map_of ?m ''destination'' = Some (host_ref_json (e_dest ev))" "map_of ?m ''format_version'' \<noteq> None"
    by (simp_all add: event_json_def stamp_event_def)
  have present: "require_present ?m event_required = Inr ()"
    by (simp add: require_present_def event_required_def keys)
  have rid: "check_run_id (e_run_id ev) = Inr ()"
    using assms by (simp add: event_wf_def check_run_id_def)
  have "require_timestamp ?m ''ts'' = require_timestamp [(''ts'', JStr (e_ts ev))] ''ts''"
    by (rule require_timestamp_key) (simp add: keys)
  then obtain t where ts: "require_timestamp ?m ''ts'' = Inr t"
    using assms by (auto simp: event_wf_def is_ok_iff)
  have strs: "require_string ?m ''run_id'' = Inr (e_run_id ev)"
    "require_string ?m ''level'' = Inr (e_level ev)" "require_string ?m ''event'' = Inr (e_type ev)"
    "require_string ?m ''phase'' = Inr (e_phase ev)" "require_string ?m ''message'' = Inr (e_message ev)"
    by (simp_all only: require_string_ok keys)
  have hosts: "each_ok (check_host_ref ?m) [''source'', ''destination''] = Inr ()"
    by (simp add: check_host_ref_def keys host_ref_json_def)
  have ranges: "e_level ev \<in> set level_names" "e_type ev \<in> set event_type_names"
    "\<not> (e_phase ev \<noteq> '''' \<and> e_phase ev \<notin> set phase_names)"
    using assms by (auto simp: event_wf_def)
  show ?thesis
    unfolding write_event_def validate_event_object_def stamped_format_version present strs rid ts hosts
      bindr.simps
    using ranges by (simp only: if_False simp_thms if_not_P)
qed

text \<open>Every event the writer stamps and redacts is accepted by the event validator, provided the
  emitter used the event vocabulary, a valid run id and an RFC 3339 time, and the payload is a JSON
  object or absent.
\<close>

theorem written_events_validate:
  assumes "event_wf ev" and "e_data ev = JNull \<or> (\<exists>m. e_data ev = JObj m)"
  shows "validate_event_object (write_event ev) = Inr ()"
proof -
  have "check_redacted (e_data (stamp_event ev)) q = Inr ()" for q
    using assms(2) by (auto simp: stamp_event_def redact_data_def check_redacted_redact_map)
  then show ?thesis
    by (simp add: validate_written_event [OF assms(1)] check_redacted_event)
qed

definition demo_event :: event where
  "demo_event =
     \<lparr>e_format_version = 0, e_run_id = ''run-20260704-100000'', e_ts = ''2026-07-04T10:00:00Z'',
      e_level = ''info'', e_phase = ''connect'', e_type = ''phase_started'', e_message = ''connecting'',
      e_source = \<lparr>hr_ip = ''192.0.2.1'', hr_user = ''old''\<rparr>,
      e_dest = \<lparr>hr_ip = ''192.0.2.2'', hr_user = ''new''\<rparr>,
      e_data = JObj [(''api_token'', JStr ''s3cret'')]\<rparr>"

lemma demo_timestamp: "is_ok (require_timestamp [(''ts'', JStr ''2026-07-04T10:00:00Z'')] ''ts'')"
  by (simp add: require_timestamp_def require_string_def rfc3339_match_def match_shape_def
        split_fraction_def zone_shape_def parse_rfc3339_def field2_def digits_value_def byte_def
        is_digit_def days_in_month_def)

lemma demo_event_wf: "event_wf demo_event"
  by (simp add: event_wf_def demo_event_def validate_run_id_def contains_any_def level_names_def
        event_type_names_def phase_names_def demo_timestamp)

lemma written_events_validate_witness:
  "validate_event_object (write_event demo_event) = Inr ()"
proof (rule written_events_validate)
  show "event_wf demo_event" by (rule demo_event_wf)
  show "e_data demo_event = JNull \<or> (\<exists>m. e_data demo_event = JObj m)"
    by (simp add: demo_event_def)
qed

text \<open>The proviso of C9 on the payload is needed: \<open>redactData\<close> passes an array on as it is, so for
  every secret there is an event (a payload that is an array of objects) which the writer emits
  with the secret in clear and the validator then rejects for it.
\<close>

theorem array_payload_leaks:
  assumes "secret \<notin> {'''', redacted_placeholder}"
  shows "\<exists>ev. e_data (stamp_event ev) = JArr [JObj [(''password'', JStr secret)]]
    \<and> validate_event_object (write_event ev) = Inl (SensitiveNotRedacted ''data[0].password'')"
proof -
  let ?d = "JArr [JObj [(''password'', JStr secret)]]"
  let ?ev = "demo_event\<lparr>e_data := ?d\<rparr>"
  let ?m = "event_json (stamp_event ?ev)"
  have sens: "is_sensitive_key ''password''" by code_simp
  have zero: "digits_of 0 = [CHR 0x30]" by code_simp
  have d: "e_data (stamp_event ?ev) = ?d"
    by (simp add: stamp_event_def redact_data_def)
  have "check_redacted ?d ''data'' = Inl (SensitiveNotRedacted ''data[0].password'')"
    using assms sens
    by (simp add: check_redacted.simps [of ?d] check_redacted.simps [of "JObj _"] Let_def redacted_ok_def
          zero)
  then have gate: "check_redacted (JObj ?m) '''' = Inl (SensitiveNotRedacted ''data[0].password'')"
    using d
    by (simp add: event_json_def check_redacted.simps [of "JObj _"] sensitive_names Let_def
          check_redacted_host_ref)
  have "event_wf demo_event" by (rule demo_event_wf)
  then have wf: "event_wf ?ev" by (simp add: event_wf_def)
  have "validate_event_object (write_event ?ev) = Inl (SensitiveNotRedacted ''data[0].password'')"
    unfolding validate_written_event [OF wf] by (rule gate)
  then show ?thesis using d by (intro exI conjI)
qed

lemma array_payload_leaks_witness:
  "\<exists>ev. e_data (stamp_event ev) = JArr [JObj [(''password'', JStr ''hunter2'')]]
    \<and> validate_event_object (write_event ev) = Inl (SensitiveNotRedacted ''data[0].password'')"
  by (rule array_payload_leaks) (simp add: redacted_placeholder_def)

lemma check_artifacts_ok:
  assumes "check_artifacts m = Inr u" and "map_of m ''artifacts'' = Some (JObj arts)"
    and "(name, v) \<in> set arts"
  shows "\<exists>p. v = JStr p \<and> check_artifact_path p = Inr ()"
proof -
  have "\<forall>x\<in>set arts. (case x of (name, v) \<Rightarrow>
      (case v of JStr p \<Rightarrow>
         (case check_artifact_path p of Inl e \<Rightarrow> Inl (InvalidArtifactPath name e) | Inr _ \<Rightarrow> Inr ())
       | _ \<Rightarrow> Inl (InvalidArtifactPath name ''expected a string''))) = Inr ()"
    using assms(1,2) unfolding check_artifacts_def by (cases u) (simp add: each_ok_iff)
  from bspec [OF this assms(3)] show ?thesis
    by (auto split: json.splits sum.splits)
qed

lemma check_phases_ok:
  assumes "check_phases xs = Inr u" and "v \<in> set xs"
  shows "\<exists>s\<in>set phase_names. v = JStr s"
proof -
  obtain i where "i < length xs" "xs ! i = v" using assms(2) by (auto simp: in_set_conv_nth)
  then have mem: "(i, v) \<in> set (enumerate 0 xs)" by (simp add: in_set_enumerate_eq)
  have "\<forall>x\<in>set (enumerate 0 xs). (case x of (i, p) \<Rightarrow>
       (case p of
         JStr s \<Rightarrow>
           if s \<in> set phase_names then Inr ()
           else Inl (InvalidField (indexed ''phases_completed'' i) (''unknown phase '' @ go_quote s))
       | _ \<Rightarrow> Inl (InvalidField (indexed ''phases_completed'' i) ''expected a string''))) = Inr ()"
    using assms(1) unfolding check_phases_def by (cases u) (simp only: each_ok_iff)
  from bspec [OF this mem] show ?thesis
    by (auto split: json.splits if_splits)
qed

lemma require_array_ok: "require_array m k = Inr xs \<longleftrightarrow> map_of m k = Some (JArr xs)"
  by (auto simp: require_array_def split: option.splits json.splits)

text \<open>An accepted result can be acted on: every artifact path in it, resolved against any
  workspace directory after both separators are read as separators, stays inside that directory;
  the run did not finish before it started; the completed phases are phases of the engine; and no
  sensitive key carries a value in clear.
\<close>

theorem accepted_result_is_safe:
  assumes "validate_result_json dec raw = Inr ()"
  shows "\<exists>m started finished completed. dec raw = DecodeValue (JObj m) DecodeEOF
    \<and> require_timestamp m ''started_at'' = Inr started
    \<and> require_timestamp m ''finished_at'' = Inr finished
    \<and> \<not> instant_before finished started
    \<and> map_of m ''phases_completed'' = Some (JArr completed)
    \<and> (\<forall>v\<in>set completed. \<exists>s\<in>set phase_names. v = JStr s)
    \<and> (\<forall>arts name v dir. map_of m ''artifacts'' = Some (JObj arts) \<longrightarrow> (name, v) \<in> set arts \<longrightarrow>
         (\<exists>p. v = JStr p \<and> prefix dir (resolve dir (slash_norm p))))
    \<and> check_redacted (JObj m) '''' = Inr ()"
proof -
  obtain m where m: "dec raw = DecodeValue (JObj m) DecodeEOF" "validate_result_object m = Inr ()"
    using assms by (auto simp: validate_result_json_def bindr_ok_iff decode_single_object_ok)
  note facts = m(2) [unfolded validate_result_object_def bindr_ok_iff guard_ok_iff require_array_ok]
  obtain started finished completed u1 u2 where
    ts: "require_timestamp m ''started_at'' = Inr started" "require_timestamp m ''finished_at'' = Inr finished"
      "\<not> instant_before finished started"
    and ph: "map_of m ''phases_completed'' = Some (JArr completed)" "check_phases completed = Inr u1"
    and arts: "check_artifacts m = Inr u2" and red: "check_redacted (JObj m) '''' = Inr ()"
    using facts by (elim exE conjE) (rule that; assumption)
  have "\<exists>p. v = JStr p \<and> prefix dir (resolve dir (slash_norm p))"
    if "map_of m ''artifacts'' = Some (JObj as)" "(name, v) \<in> set as" for as name v dir
    using check_artifacts_ok [OF arts that] artp.confined by blast
  moreover have "\<forall>v\<in>set completed. \<exists>s\<in>set phase_names. v = JStr s"
    using check_phases_ok [OF ph(2)] by blast
  ultimately show ?thesis using m(1) ts ph(1) red by blast
qed

definition demo_result :: json_obj where
  "demo_result =
     [(''format_version'', JNum ''1''), (''run_id'', JStr ''run-1''), (''version'', JStr ''v1''),
      (''mode'', JStr ''dry-run''),
      (''scope'', JObj [(''mail'', JBool True), (''files'', JBool False), (''databases'', JBool False)]),
      (''source'', JObj [(''ip'', JStr ''''), (''user'', JStr '''')]),
      (''destination'', JObj [(''ip'', JStr ''''), (''user'', JStr '''')]),
      (''started_at'', JStr ''2026-07-04T10:00:00Z''), (''finished_at'', JStr ''2026-07-04T10:00:00Z''),
      (''exit_status'', JStr ''success''), (''phases_completed'', JArr [JStr ''connect'']),
      (''warnings'', JArr []), (''errors'', JArr []),
      (''artifacts'', JObj [(''events'', JStr ''logs/events.jsonl'')])]"

lemma demo_result_valid:
  "validate_result_json (\<lambda>_. DecodeValue (JObj demo_result) DecodeEOF) ''{}'' = Inr ()"
proof -
  obtain t where t: "require_timestamp [(''ts'', JStr ''2026-07-04T10:00:00Z'')] ''ts'' = Inr t"
    using demo_timestamp by (auto simp: is_ok_iff)
  have "map_of demo_result k = map_of [(''ts'', JStr ''2026-07-04T10:00:00Z'')] ''ts''"
    if "k = ''started_at'' \<or> k = ''finished_at''" for k
    using that by (auto simp: demo_result_def)
  then have rs: "require_string demo_result ''started_at'' = Inr ''2026-07-04T10:00:00Z''"
    "require_string demo_result ''finished_at'' = Inr ''2026-07-04T10:00:00Z''"
    by (simp_all add: require_string_def)
  have ts: "\<exists>t. require_timestamp demo_result ''started_at'' = Inr t
      \<and> require_timestamp demo_result ''finished_at'' = Inr t"
    using t unfolding require_timestamp_def rs by (auto simp: require_string_def split: option.splits if_splits)
  have red: "check_redacted (JObj demo_result) '''' = Inr ()" by code_simp
  have dec: "decode_single_object (\<lambda>_. DecodeValue (JObj demo_result) DecodeEOF) ''{}'' = Inr demo_result"
    unfolding decode_single_object_ok by code_simp
  have parts: "check_format_version demo_result = Inr ()"
    "require_present demo_result result_required = Inr ()"
    "require_string demo_result ''run_id'' = Inr ''run-1''" "check_run_id ''run-1'' = Inr ()"
    "require_string demo_result ''version'' = Inr ''v1''" "trim_space ''v1'' = ''v1''"
    "require_string demo_result ''mode'' = Inr ''dry-run''"
    "require_string demo_result ''exit_status'' = Inr ''success''"
    "''dry-run'' \<in> set result_modes" "''success'' \<in> set exit_status_names"
    "is_ok (require_object_lax demo_result ''scope'')"
    "each_ok (check_host_ref demo_result) [''source'', ''destination''] = Inr ()"
    "require_array demo_result ''phases_completed'' = Inr [JStr ''connect'']"
    "check_phases [JStr ''connect''] = Inr ()"
    "each_ok (\<lambda>k. bindr (require_array demo_result k) (check_strings k)) [''warnings'', ''errors''] = Inr ()"
    "check_artifacts demo_result = Inr ()"
    by code_simp+
  have scope: "require_object_lax demo_result ''scope'' =
      Inr [(''mail'', JBool True), (''files'', JBool False), (''databases'', JBool False)]"
    by code_simp
  have sb: "each_ok (\<lambda>k. bindr (require_bool [(''mail'', JBool True), (''files'', JBool False),
      (''databases'', JBool False)] (''scope.'' @ k) k) (\<lambda>_. Inr ())) [''mail'', ''files'', ''databases''] = Inr ()"
    by code_simp
  from ts obtain u where u: "require_timestamp demo_result ''started_at'' = Inr u"
    "require_timestamp demo_result ''finished_at'' = Inr u" by blast
  have "\<not> instant_before u u" by (simp add: instant_before_def)
  then show ?thesis
    unfolding validate_result_json_def dec bindr.simps validate_result_object_def parts u scope sb red
    using parts(9,10) by simp
qed

lemma accepted_result_is_safe_witness:
  "\<exists>dir. prefix [''run'', ''42''] dir \<and> dir = resolve [''run'', ''42''] (slash_norm ''logs/events.jsonl'')"
proof -
  obtain m where m: "JObj demo_result = JObj m"
    "\<forall>arts name v dir. map_of m ''artifacts'' = Some (JObj arts) \<longrightarrow> (name, v) \<in> set arts \<longrightarrow>
         (\<exists>p. v = JStr p \<and> prefix dir (resolve dir (slash_norm p)))"
    using accepted_result_is_safe [OF demo_result_valid] by auto
  have arts: "map_of m ''artifacts'' = Some (JObj [(''events'', JStr ''logs/events.jsonl'')])"
    using m(1) by (auto simp: demo_result_def)
  have "\<exists>p. JStr ''logs/events.jsonl'' = JStr p \<and>
      prefix [''run'', ''42''] (resolve [''run'', ''42''] (slash_norm p))"
    using m(2) [rule_format, OF arts] by simp
  then show ?thesis by simp
qed

end
