(* ===== verification/InvTypes.thy ===== *)
theory InvTypes
  imports Prelude
begin

text \<open>
  The normalized inventory of one cPanel account, \<open>internal/accountinventory/types.go\<close>: a record
  per struct, with the fields in the order of the source. Go's \<open>int\<close> and \<open>int64\<close> fields only
  travel from the collector to comparisons and are kept as \<open>int\<close>. An embedded
  \<open>ConfigSection\<close> is the field \<open>..._cfg\<close>. \<open>json.RawMessage\<close> and \<open>any\<close> payloads that no modelled
  operation reads are texts.
\<close>

section \<open>Entries\<close>

record account_info =
  ai_user :: string
  ai_host :: string
  ai_collected_at :: string
  ai_side :: string

record domain_entry =
  dom_name :: string
  dom_type :: string
  dom_root :: string

record mailbox_entry =
  mbx_email :: string
  mbx_domain :: string
  mbx_user :: string
  mbx_disk_usage :: int

record database_entry =
  db_entry_name :: string
  db_disk_usage :: int
  db_users :: "string list"

record forwarder_entry =
  fw_source :: string
  fw_destination :: string
  fw_domain :: string

record autoresponder_entry =
  ar_email :: string
  ar_domain :: string
  ar_subject :: string
  ar_interval :: int
  ar_from :: string
  ar_body :: string
  ar_is_html :: int
  ar_start :: int
  ar_stop :: int
  ar_charset :: string
  ar_body_collected :: bool

record ftp_entry =
  ftp_login :: string
  ftp_type :: string
  ftp_dir :: string
  ftp_disk_used :: int

record ssl_entry =
  ssl_domains :: string
  ssl_issuer :: string
  ssl_valid_from :: int
  ssl_valid_until :: int
  ssl_self_signed :: bool
  ssl_validation_type :: string

record php_entry =
  php_domain :: string
  php_version :: string

record config_section =
  cfg_available :: bool
  cfg_method :: string
  cfg_source_function :: string
  cfg_warnings :: "string list"

record ftp_section =
  ftp_cfg :: config_section
  ftp_items :: "ftp_entry list"

record ssl_section =
  ssl_cfg :: config_section
  ssl_items :: "ssl_entry list"

record php_section =
  php_cfg :: config_section
  php_items :: "php_entry list"

section \<open>DNS\<close>

record dns_record =
  dr_type :: string
  dr_name :: string
  dr_ttl :: int
  dr_value :: string
  dr_priority :: int
  dr_exchange :: string
  dr_address :: string
  dr_target :: string
  dr_txtdata :: string
  dr_class :: string
  dr_line :: int
  dr_raw :: string

record dns_zone =
  dz_available :: bool
  dz_zone :: string
  dz_method :: string
  dz_source_function :: string
  dz_records :: "dns_record list"
  dz_warnings :: "string list"
  dz_errors :: "string list"
  dz_raw_included :: bool

record dns_section =
  dns_cfg :: config_section
  dns_zones :: "dns_zone list"

section \<open>Cron\<close>

record cron_job =
  cj_type :: string
  cj_minute :: string
  cj_hour :: string
  cj_day_of_month :: string
  cj_month :: string
  cj_day_of_week :: string
  cj_macro :: string
  cj_redacted :: string
  cj_clear :: string
  cj_sha :: string
  cj_raw_sha :: string
  cj_raw_line :: string
  cj_enabled :: bool
  cj_line :: int
  cj_warnings :: "string list"
  cj_collected :: bool

record cron_env =
  ce_name :: string
  ce_redacted :: string
  ce_clear :: string
  ce_line :: int
  ce_collected :: bool

record cron_section =
  cs_available :: bool
  cs_method :: string
  cs_source_command :: string
  cs_jobs :: "cron_job list"
  cs_environment :: "cron_env list"
  cs_comments_count :: int
  cs_disabled_count :: int
  cs_warnings :: "string list"
  cs_errors :: "string list"

section \<open>Mail routing, default addresses, filters, redirects\<close>

record mx_entry =
  mx_priority :: int
  mx_exchange :: string

record email_routing_entry =
  er_domain :: string
  er_routing :: string
  er_detected :: string
  er_always_accept :: bool
  er_mx :: "mx_entry list"

record default_address_entry =
  da_domain :: string
  da_address :: string

record filter_rule =
  fr_part :: string
  fr_match :: string
  fr_opt :: "string option"
  fr_val :: string

record filter_action =
  fa_action :: string
  fa_dest :: "string option"

record email_filter_entry =
  ef_account :: string
  ef_name :: string
  ef_enabled :: bool
  ef_rule_count :: int
  ef_action_count :: int
  ef_rules :: "filter_rule list"
  ef_actions :: "filter_action list"
  ef_rules_collected :: bool

record redirect_entry =
  rd_domain :: string
  rd_source :: string
  rd_destination :: string
  rd_kind :: string
  rd_type :: string
  rd_status_code :: int
  rd_wildcard :: bool
  rd_match_www :: bool

record email_routing_section =
  er_cfg :: config_section
  er_items :: "email_routing_entry list"

record default_address_section =
  da_cfg :: config_section
  da_items :: "default_address_entry list"

record email_filter_section =
  ef_cfg :: config_section
  ef_items :: "email_filter_entry list"

record redirect_section =
  rd_cfg :: config_section
  rd_items :: "redirect_entry list"

section \<open>The inventory\<close>

record inventory =
  inv_account :: account_info
  inv_domains :: "domain_entry list"
  inv_mailboxes :: "mailbox_entry list"
  inv_databases :: "database_entry list"
  inv_forwarders :: "forwarder_entry list"
  inv_autoresponders :: "autoresponder_entry list"
  inv_ftp :: ftp_section
  inv_ssl :: ssl_section
  inv_php :: php_section
  inv_dns :: dns_section
  inv_cron :: cron_section
  inv_routing :: email_routing_section
  inv_default_addresses :: default_address_section
  inv_filters :: email_filter_section
  inv_redirects :: redirect_section
  inv_warnings :: "string list"

text \<open>
  \<open>NewEmptyCronSection\<close> and \<open>NewEmptyInventory\<close>; the time of collection is an argument. The slices
  made empty rather than nil are the empty list.
\<close>

definition new_empty_cron_section :: cron_section where
  "new_empty_cron_section =
     \<lparr>cs_available = False, cs_method = '''', cs_source_command = ''crontab -l'', cs_jobs = [],
      cs_environment = [], cs_comments_count = 0, cs_disabled_count = 0, cs_warnings = [],
      cs_errors = []\<rparr>"

definition empty_config_section :: config_section where
  "empty_config_section =
     \<lparr>cfg_available = False, cfg_method = '''', cfg_source_function = '''', cfg_warnings = []\<rparr>"

definition new_empty_inventory :: "string \<Rightarrow> string \<Rightarrow> string \<Rightarrow> string \<Rightarrow> inventory" where
  "new_empty_inventory now user host side =
     \<lparr>inv_account = \<lparr>ai_user = user, ai_host = host, ai_collected_at = now, ai_side = side\<rparr>,
      inv_domains = [], inv_mailboxes = [], inv_databases = [], inv_forwarders = [],
      inv_autoresponders = [],
      inv_ftp = \<lparr>ftp_cfg = empty_config_section, ftp_items = []\<rparr>,
      inv_ssl = \<lparr>ssl_cfg = empty_config_section, ssl_items = []\<rparr>,
      inv_php = \<lparr>php_cfg = empty_config_section, php_items = []\<rparr>,
      inv_dns = \<lparr>dns_cfg = empty_config_section, dns_zones = []\<rparr>,
      inv_cron = new_empty_cron_section,
      inv_routing = \<lparr>er_cfg = empty_config_section, er_items = []\<rparr>,
      inv_default_addresses = \<lparr>da_cfg = empty_config_section, da_items = []\<rparr>,
      inv_filters = \<lparr>ef_cfg = empty_config_section, ef_items = []\<rparr>,
      inv_redirects = \<lparr>rd_cfg = empty_config_section, rd_items = []\<rparr>,
      inv_warnings = []\<rparr>"

end
