(* ===== verification/Diff.thy ===== *)
theory Diff
  imports InvTypes GoStrings
begin

text \<open>
  \<open>internal/accountinventory/diff.go\<close>: the comparison of two inventories, section by section.
  "Removed" is what only the source has, "added" what only the destination has. A \<open>range\<close> over a
  map is a pass over an association list; the comparisons take these lists as arguments, so the
  theorems can say that the visiting order does not reach the result.
\<close>

section \<open>Results\<close>

record diff_entry =
  de_key :: string
  de_detail :: string

record field_change =
  fc_key :: string
  fc_field :: string
  fc_source :: string
  fc_destination :: string

record section_diff =
  sd_added :: "diff_entry list"
  sd_removed :: "diff_entry list"
  sd_changed :: "field_change list"
  sd_skipped :: "string list"
  sd_warnings :: "string list"

definition new_section_diff :: section_diff where
  "new_section_diff =
     \<lparr>sd_added = [], sd_removed = [], sd_changed = [], sd_skipped = [], sd_warnings = []\<rparr>"

record diff_summary =
  ds_sections :: nat
  ds_added :: nat
  ds_removed :: nat
  ds_changed :: nat
  ds_warnings :: nat

text \<open>File names, hashes and the time stamp of \<open>InventoryDiff\<close> are set by the caller.\<close>

record inventory_diff =
  id_mode :: string
  id_summary :: diff_summary
  id_sections :: "(string, section_diff) gomap"
  id_warnings :: "string list"

definition diff_section_names :: "string list" where
  "diff_section_names =
     [''domains'', ''mailboxes'', ''databases'', ''forwarders'', ''autoresponders'',
      ''ftp'', ''ssl'', ''php'', ''dns'', ''cron'',
      ''email_routing'', ''default_address'', ''email_filters'', ''redirects'']"

definition entry_order :: "diff_entry \<Rightarrow> string \<times> string" where
  "entry_order e = (de_key e, de_detail e)"

definition change_order :: "field_change \<Rightarrow> string \<times> string" where
  "change_order c = (fc_key c, fc_field c)"

definition sort_section_diff :: "section_diff \<Rightarrow> section_diff" where
  "sort_section_diff s =
     \<lparr>sd_added = sort_key entry_order (sd_added s),
      sd_removed = sort_key entry_order (sd_removed s),
      sd_changed = sort_key change_order (sd_changed s),
      sd_skipped = sort (sd_skipped s),
      sd_warnings = sort (sd_warnings s)\<rparr>"

section \<open>Keyed comparison\<close>

record keyed_item =
  ki_key :: string
  ki_detail :: string
  ki_fields :: "(string, string) gomap"

text \<open>A missing key of a Go \<open>map[string]string\<close> reads as the empty text.\<close>

definition field_of :: "keyed_item \<Rightarrow> string \<Rightarrow> string" where
  "field_of it f = (case map_of (ki_fields it) f of None \<Rightarrow> [] | Some v \<Rightarrow> v)"

definition index_items :: "keyed_item list \<Rightarrow> (string, keyed_item) gomap" where
  "index_items its = foldl (\<lambda>m it. AList.update (ki_key it) it m) [] its"

fun duplicate_warnings :: "string \<Rightarrow> string list \<Rightarrow> keyed_item list \<Rightarrow> string list" where
  "duplicate_warnings side seen [] = []"
| "duplicate_warnings side seen (it # its) =
     (if ki_key it \<in> set seen
      then [''duplicate key '' @ go_quote (ki_key it) @ '' in '' @ side @ '' '' @ emdash
              @ '' last occurrence wins'']
      else []) @ duplicate_warnings side (ki_key it # seen) its"

definition changed_fields :: "string \<Rightarrow> keyed_item \<Rightarrow> keyed_item \<Rightarrow> field_change list" where
  "changed_fields key it other =
     map (\<lambda>f. \<lparr>fc_key = key, fc_field = f, fc_source = field_of it f,
               fc_destination = field_of other f\<rparr>)
       (filter (\<lambda>f. field_of it f \<noteq> field_of other f) (sort (map fst (ki_fields it))))"

definition only_in ::
  "(string, keyed_item) gomap \<Rightarrow> (string, keyed_item) gomap \<Rightarrow> diff_entry list" where
  "only_in m other =
     map (\<lambda>(k, it). \<lparr>de_key = k, de_detail = ki_detail it\<rparr>)
       (filter (\<lambda>(k, it). map_of other k = None) m)"

definition diff_keyed_maps ::
  "(string, keyed_item) gomap \<Rightarrow> (string, keyed_item) gomap \<Rightarrow> string list \<Rightarrow> section_diff" where
  "diff_keyed_maps srcm destm ws = sort_section_diff
     \<lparr>sd_added = only_in destm srcm,
      sd_removed = only_in srcm destm,
      sd_changed = concat (map (\<lambda>(k, it). case map_of destm k of
          None \<Rightarrow> [] | Some other \<Rightarrow> changed_fields k it other) srcm),
      sd_skipped = [], sd_warnings = ws\<rparr>"

definition diff_keyed :: "keyed_item list \<Rightarrow> keyed_item list \<Rightarrow> section_diff" where
  "diff_keyed src dest = diff_keyed_maps (index_items src) (index_items dest)
     (duplicate_warnings ''source'' [] src @ duplicate_warnings ''destination'' [] dest)"

definition skip_unavailable :: "string \<Rightarrow> bool \<Rightarrow> bool \<Rightarrow> section_diff \<times> bool" where
  "skip_unavailable name src_avail dest_avail =
     (if \<not> src_avail \<or> \<not> dest_avail then
       (let side = (if src_avail then ''destination''
                    else if \<not> dest_avail then ''source and destination'' else ''source'')
        in (new_section_diff\<lparr>sd_skipped :=
              [name @ '' unavailable on '' @ side @ '' '' @ emdash @ '' comparison skipped'']\<rparr>, True))
      else (new_section_diff, False))"

definition diff_config_keyed ::
  "string \<Rightarrow> config_section \<Rightarrow> config_section \<Rightarrow> keyed_item list \<Rightarrow> keyed_item list \<Rightarrow> section_diff" where
  "diff_config_keyed name src_cfg dest_cfg src dest =
     (case skip_unavailable name (cfg_available src_cfg) (cfg_available dest_cfg) of
        (sec, skipped) \<Rightarrow> if skipped then sec else diff_keyed src dest)"

section \<open>Per-section adapters\<close>

definition domain_item :: "domain_entry \<Rightarrow> keyed_item" where
  "domain_item e = \<lparr>ki_key = dom_name e, ki_detail = dom_type e,
     ki_fields = [(''type'', dom_type e), (''document_root'', dom_root e)]\<rparr>"

definition mailbox_item :: "mailbox_entry \<Rightarrow> keyed_item" where
  "mailbox_item e = \<lparr>ki_key = mbx_email e, ki_detail = [], ki_fields = []\<rparr>"

definition database_item :: "database_entry \<Rightarrow> keyed_item" where
  "database_item e = \<lparr>ki_key = db_entry_name e, ki_detail = [],
     ki_fields = [(''users'', join '','' (sort (db_users e)))]\<rparr>"

definition forwarder_item :: "forwarder_entry \<Rightarrow> keyed_item" where
  "forwarder_item e =
     \<lparr>ki_key = fw_domain e @ '' | '' @ fw_source e @ '' -> '' @ fw_destination e,
      ki_detail = [], ki_fields = []\<rparr>"

text \<open>\<open>normalizeAutoresponderBody\<close> and \<open>autoresponderCharset\<close> of \<open>emailplan.go\<close>.\<close>

definition normalize_autoresponder_body :: "string \<Rightarrow> string" where
  "normalize_autoresponder_body b =
     rev (dropWhile (\<lambda>c. c = CHR 0x0A) (rev b)) @ [CHR 0x0A]"

definition autoresponder_charset :: "string \<Rightarrow> string" where
  "autoresponder_charset c =
     (let c1 = to_lower (trim_space c) in if c1 = [] then ''utf-8'' else c1)"

definition autoresponder_item :: "autoresponder_entry \<Rightarrow> keyed_item" where
  "autoresponder_item e =
     \<lparr>ki_key = ar_domain e @ '' | '' @ ar_email e, ki_detail = [],
      ki_fields =
        [(''subject'', ar_subject e),
         (''interval'', itoa (ar_interval e)),
         (''from'', ar_from e),
         (''body'', if ar_body_collected e then normalize_autoresponder_body (ar_body e) else ar_body e),
         (''is_html'', itoa (ar_is_html e)),
         (''start'', itoa (ar_start e)),
         (''stop'', itoa (ar_stop e)),
         (''charset'', autoresponder_charset (ar_charset e)),
         (''body_collected'', format_bool (ar_body_collected e))]\<rparr>"

definition ftp_item :: "ftp_entry \<Rightarrow> keyed_item" where
  "ftp_item e = \<lparr>ki_key = ftp_login e, ki_detail = [],
     ki_fields = [(''type'', ftp_type e), (''dir'', ftp_dir e)]\<rparr>"

definition ssl_item :: "ssl_entry \<Rightarrow> keyed_item" where
  "ssl_item e = \<lparr>ki_key = ssl_domains e, ki_detail = ssl_issuer e,
     ki_fields =
       [(''issuer'', ssl_issuer e),
        (''validation_type'', ssl_validation_type e),
        (''is_self_signed'', format_bool (ssl_self_signed e)),
        (''valid_until'', itoa (ssl_valid_until e))]\<rparr>"

definition php_item :: "php_entry \<Rightarrow> keyed_item" where
  "php_item e = \<lparr>ki_key = php_domain e, ki_detail = php_version e,
     ki_fields = [(''version'', php_version e)]\<rparr>"

definition email_routing_item :: "email_routing_entry \<Rightarrow> keyed_item" where
  "email_routing_item e = \<lparr>ki_key = er_domain e,
     ki_detail = ''detected='' @ er_detected e @ ''; mx='' @
       join '', '' (map (\<lambda>m. itoa (mx_priority m) @ '' '' @ mx_exchange m) (er_mx e)),
     ki_fields =
       [(''routing'', er_routing e), (''always_accept'', format_bool (er_always_accept e))]\<rparr>"

definition default_address_item :: "default_address_entry \<Rightarrow> keyed_item" where
  "default_address_item e = \<lparr>ki_key = da_domain e, ki_detail = [],
     ki_fields = [(''default_address'', da_address e)]\<rparr>"

definition email_filter_item :: "email_filter_entry \<Rightarrow> keyed_item" where
  "email_filter_item e =
     \<lparr>ki_key = (if ef_account e = [] then ''(account-level)'' else ef_account e) @ ''/'' @ ef_name e,
      ki_detail = [],
      ki_fields =
        [(''enabled'', format_bool (ef_enabled e)),
         (''rule_count'', itoa (ef_rule_count e)),
         (''action_count'', itoa (ef_action_count e))]\<rparr>"

definition redirect_status :: "redirect_entry \<Rightarrow> string" where
  "redirect_status e = (if rd_status_code e \<noteq> 0 then itoa (rd_status_code e) else ''-'')"

definition redirect_item :: "redirect_entry \<Rightarrow> keyed_item" where
  "redirect_item e = \<lparr>ki_key = rd_domain e @ '' '' @ rd_source e,
     ki_detail = rd_kind e @ ''/'' @ rd_type e @ ''/'' @ redirect_status e @ '' '' @ rarrow @ '' ''
       @ rd_destination e,
     ki_fields =
       [(''destination'', rd_destination e), (''kind'', rd_kind e), (''type'', rd_type e),
        (''status_code'', redirect_status e)]\<rparr>"

section \<open>DNS\<close>

definition dns_compare :: "dns_record \<Rightarrow> string" where
  "dns_compare r = itoa (dr_priority r) @ nul @ itoa (dr_ttl r) @ nul @ dr_value r"

definition dns_display :: "dns_record \<Rightarrow> string" where
  "dns_display r =
     (if dr_priority r \<noteq> 0 then ''prio='' @ itoa (dr_priority r) @ '' '' @ dr_value r else dr_value r)
     @ '' ttl='' @ itoa (dr_ttl r)"

definition canonical_dns_value :: "dns_record \<Rightarrow> string \<times> string" where
  "canonical_dns_value r = (dns_compare r, dns_display r)"

definition group_zone_records :: "dns_record list \<Rightarrow> (string, (string \<times> string) list) gomap" where
  "group_zone_records rs =
     map (\<lambda>(k, vs). (k, sort_key fst (map canonical_dns_value vs)))
       (group_by (\<lambda>r. dr_type r @ '' '' @ dr_name r) rs)"

definition compare_set :: "(string \<times> string) list \<Rightarrow> string" where
  "compare_set vs = join [CHR 0x01] (map fst vs)"

definition display_set :: "(string \<times> string) list \<Rightarrow> string" where
  "display_set vs = join ''; '' (map snd vs)"

definition diff_zone_groups ::
  "string \<Rightarrow> (string, (string \<times> string) list) gomap \<Rightarrow> (string, (string \<times> string) list) gomap
   \<Rightarrow> section_diff \<Rightarrow> section_diff" where
  "diff_zone_groups zone sg dg sec =
     sec\<lparr>sd_added := sd_added sec @
           map (\<lambda>(k, vs). \<lparr>de_key = ''zone '' @ zone @ '' '' @ k, de_detail = display_set vs\<rparr>)
             (filter (\<lambda>(k, vs). map_of sg k = None) dg),
         sd_removed := sd_removed sec @
           map (\<lambda>(k, vs). \<lparr>de_key = ''zone '' @ zone @ '' '' @ k, de_detail = display_set vs\<rparr>)
             (filter (\<lambda>(k, vs). map_of dg k = None) sg),
         sd_changed := sd_changed sec @
           concat (map (\<lambda>(k, vs). case map_of dg k of
               None \<Rightarrow> []
             | Some ws \<Rightarrow>
                 if compare_set vs \<noteq> compare_set ws
                 then [\<lparr>fc_key = ''zone '' @ zone @ '' '' @ k, fc_field = ''records'',
                        fc_source = display_set vs, fc_destination = display_set ws\<rparr>]
                 else []) sg)\<rparr>"

definition diff_zone_records ::
  "string \<Rightarrow> dns_record list \<Rightarrow> dns_record list \<Rightarrow> section_diff \<Rightarrow> section_diff" where
  "diff_zone_records zone src dest sec =
     diff_zone_groups zone (group_zone_records src) (group_zone_records dest) sec"

definition index_zones :: "dns_zone list \<Rightarrow> (string, dns_zone) gomap" where
  "index_zones zs = foldl (\<lambda>m z. AList.update (dz_zone z) z m) [] zs"

definition zone_entry :: "string \<times> dns_zone \<Rightarrow> diff_entry" where
  "zone_entry p = \<lparr>de_key = ''zone '' @ fst p,
     de_detail = itoa (int (length (dz_records (snd p)))) @ '' record(s)''\<rparr>"

definition diff_dns_zone ::
  "(string, dns_zone) gomap \<Rightarrow> string \<times> dns_zone \<Rightarrow> section_diff \<Rightarrow> section_diff" where
  "diff_dns_zone destz p sec =
     (case map_of destz (fst p) of
        None \<Rightarrow> sec\<lparr>sd_removed := sd_removed sec @ [zone_entry p]\<rparr>
      | Some dz \<Rightarrow>
          if \<not> dz_available (snd p) \<or> \<not> dz_available dz then
            sec\<lparr>sd_skipped := sd_skipped sec @
              [''zone '' @ fst p @ '' unavailable on one side '' @ emdash
                 @ '' records not compared'']\<rparr>
          else diff_zone_records (fst p) (dz_records (snd p)) (dz_records dz) sec)"

definition diff_dns_maps ::
  "(string, dns_zone) gomap \<Rightarrow> (string, dns_zone) gomap \<Rightarrow> section_diff" where
  "diff_dns_maps srcz destz = sort_section_diff
     (fold (diff_dns_zone destz) srcz
       (new_section_diff\<lparr>sd_added := map zone_entry (filter (\<lambda>p. map_of srcz (fst p) = None) destz)\<rparr>))"

definition diff_dns :: "dns_section \<Rightarrow> dns_section \<Rightarrow> section_diff" where
  "diff_dns src dest =
     (case skip_unavailable ''dns'' (cfg_available (dns_cfg src)) (cfg_available (dns_cfg dest)) of
        (sec, skipped) \<Rightarrow>
          if skipped then sec
          else diff_dns_maps (index_zones (dns_zones src)) (index_zones (dns_zones dest)))"

section \<open>Cron\<close>

definition cron_schedule :: "cron_job \<Rightarrow> string" where
  "cron_schedule j =
     (if cj_type j = ''macro'' then cj_macro j
      else join '' '' [cj_minute j, cj_hour j, cj_day_of_month j, cj_month j, cj_day_of_week j])"

definition slot_detail :: "cron_job \<Rightarrow> string" where
  "slot_detail j = cron_schedule j @ '' enabled='' @ format_bool (cj_enabled j)"

definition slot_counts :: "cron_job list \<Rightarrow> (string, nat) gomap" where
  "slot_counts js = map (\<lambda>(s, ss). (s, length ss)) (group_by (\<lambda>s. s) (map slot_detail js))"

definition slot_count :: "(string, nat) gomap \<Rightarrow> string \<Rightarrow> nat" where
  "slot_count m s = (case map_of m s of None \<Rightarrow> 0 | Some n \<Rightarrow> n)"

text \<open>The entries of one side's slots beyond those of the other side.\<close>

definition surplus :: "string \<Rightarrow> (string, nat) gomap \<Rightarrow> (string, nat) gomap \<Rightarrow> diff_entry list" where
  "surplus key m other =
     concat (map (\<lambda>(s, n). replicate (n - slot_count other s) \<lparr>de_key = key, de_detail = s\<rparr>) m)"

definition cron_key :: "cron_job list \<Rightarrow> string" where
  "cron_key js = cj_redacted (hd js)"

definition cron_entries :: "cron_job list \<Rightarrow> diff_entry list" where
  "cron_entries js = map (\<lambda>j. \<lparr>de_key = cron_key js, de_detail = slot_detail j\<rparr>) js"

definition diff_one_slot :: "string \<Rightarrow> cron_job \<Rightarrow> cron_job \<Rightarrow> field_change list" where
  "diff_one_slot key s d =
     (if cron_schedule s \<noteq> cron_schedule d
      then [\<lparr>fc_key = key, fc_field = ''schedule'', fc_source = cron_schedule s,
             fc_destination = cron_schedule d\<rparr>] else []) @
     (if cj_enabled s \<noteq> cj_enabled d
      then [\<lparr>fc_key = key, fc_field = ''enabled'', fc_source = format_bool (cj_enabled s),
             fc_destination = format_bool (cj_enabled d)\<rparr>] else [])"

definition diff_command ::
  "(string, cron_job list) gomap \<Rightarrow> string \<times> cron_job list \<Rightarrow> section_diff \<Rightarrow> section_diff" where
  "diff_command dg p sec =
     (case map_of dg (fst p) of
        None \<Rightarrow> sec\<lparr>sd_removed := sd_removed sec @ cron_entries (snd p)\<rparr>
      | Some dj \<Rightarrow>
         (let sj = snd p; key = cron_key sj in
          if length sj = 1 \<and> length dj = 1 then
            sec\<lparr>sd_changed := sd_changed sec @ diff_one_slot key (hd sj) (hd dj)\<rparr>
          else
            sec\<lparr>sd_added := sd_added sec @ surplus key (slot_counts dj) (slot_counts sj),
                sd_removed := sd_removed sec @ surplus key (slot_counts sj) (slot_counts dj)\<rparr>))"

definition diff_cron_maps ::
  "(string, cron_job list) gomap \<Rightarrow> (string, cron_job list) gomap \<Rightarrow> section_diff" where
  "diff_cron_maps sg dg = sort_section_diff
     (fold (diff_command dg) sg
       (new_section_diff\<lparr>sd_added :=
          concat (map (cron_entries \<circ> snd) (filter (\<lambda>p. map_of sg (fst p) = None) dg))\<rparr>))"

definition diff_cron :: "cron_section \<Rightarrow> cron_section \<Rightarrow> section_diff" where
  "diff_cron src dest =
     (case skip_unavailable ''cron'' (cs_available src) (cs_available dest) of
        (sec, skipped) \<Rightarrow>
          if skipped then sec
          else diff_cron_maps (group_by cj_sha (cs_jobs src)) (group_by cj_sha (cs_jobs dest)))"

section \<open>The inventory diff\<close>

definition diff_sections :: "inventory \<Rightarrow> inventory \<Rightarrow> (string, section_diff) gomap" where
  "diff_sections s d =
     [(''domains'', diff_keyed (map domain_item (inv_domains s)) (map domain_item (inv_domains d))),
      (''mailboxes'', diff_keyed (map mailbox_item (inv_mailboxes s)) (map mailbox_item (inv_mailboxes d))),
      (''databases'', diff_keyed (map database_item (inv_databases s)) (map database_item (inv_databases d))),
      (''forwarders'', diff_keyed (map forwarder_item (inv_forwarders s)) (map forwarder_item (inv_forwarders d))),
      (''autoresponders'', diff_keyed (map autoresponder_item (inv_autoresponders s))
         (map autoresponder_item (inv_autoresponders d))),
      (''ftp'', diff_config_keyed ''ftp'' (ftp_cfg (inv_ftp s)) (ftp_cfg (inv_ftp d))
         (map ftp_item (ftp_items (inv_ftp s))) (map ftp_item (ftp_items (inv_ftp d)))),
      (''ssl'', diff_config_keyed ''ssl'' (ssl_cfg (inv_ssl s)) (ssl_cfg (inv_ssl d))
         (map ssl_item (ssl_items (inv_ssl s))) (map ssl_item (ssl_items (inv_ssl d)))),
      (''php'', diff_config_keyed ''php'' (php_cfg (inv_php s)) (php_cfg (inv_php d))
         (map php_item (php_items (inv_php s))) (map php_item (php_items (inv_php d)))),
      (''dns'', diff_dns (inv_dns s) (inv_dns d)),
      (''cron'', diff_cron (inv_cron s) (inv_cron d)),
      (''email_routing'', diff_config_keyed ''email_routing'' (er_cfg (inv_routing s)) (er_cfg (inv_routing d))
         (map email_routing_item (er_items (inv_routing s))) (map email_routing_item (er_items (inv_routing d)))),
      (''default_address'', diff_config_keyed ''default_address'' (da_cfg (inv_default_addresses s))
         (da_cfg (inv_default_addresses d))
         (map default_address_item (da_items (inv_default_addresses s)))
         (map default_address_item (da_items (inv_default_addresses d)))),
      (''email_filters'', diff_config_keyed ''email_filters'' (ef_cfg (inv_filters s)) (ef_cfg (inv_filters d))
         (map email_filter_item (ef_items (inv_filters s))) (map email_filter_item (ef_items (inv_filters d)))),
      (''redirects'', diff_config_keyed ''redirects'' (rd_cfg (inv_redirects s)) (rd_cfg (inv_redirects d))
         (map redirect_item (rd_items (inv_redirects s))) (map redirect_item (rd_items (inv_redirects d))))]"

definition diff_inventories :: "inventory \<Rightarrow> inventory \<Rightarrow> inventory_diff" where
  "diff_inventories s d =
     (let secs = diff_sections s d; ss = map snd secs; ws = [] in
      \<lparr>id_mode = ''inventory-diff'',
       id_summary =
         \<lparr>ds_sections = length secs,
          ds_added = sum_list (map (length \<circ> sd_added) ss),
          ds_removed = sum_list (map (length \<circ> sd_removed) ss),
          ds_changed = sum_list (map (length \<circ> sd_changed) ss),
          ds_warnings = sum_list (map (\<lambda>x. length (sd_warnings x) + length (sd_skipped x)) ss) + length ws\<rparr>,
       id_sections = secs, id_warnings = ws\<rparr>)"

end
