(* ===== verification/Policy.thy ===== *)
theory Policy
  imports Diff
begin

text \<open>
  \<open>internal/accountinventory/policy.go\<close>: the rule table that turns an inventory diff into findings
  and an overall migration readiness. The rules of a section are a function from its diff to the
  findings in the order the code emits them; \<open>emit\<close> stamps the status that goes with a severity.
  A severity that is none of the four constants (a report is also read back from a file) is
  \<open>OtherSeverity\<close>.
\<close>

datatype severity = Info | Warning | Review | Blocker | OtherSeverity string

datatype policy_status = Ready | ReviewRequired | Blocked

definition show_severity :: "severity \<Rightarrow> string" where
  "show_severity s =
     (case s of Info \<Rightarrow> ''info'' | Warning \<Rightarrow> ''warning'' | Review \<Rightarrow> ''review''
      | Blocker \<Rightarrow> ''blocker'' | OtherSeverity t \<Rightarrow> t)"

record finding =
  pf_id :: string
  pf_section :: string
  pf_severity :: severity
  pf_status :: policy_status
  pf_title :: string
  pf_detail :: string
  pf_recommendation :: string
  pf_source_ref :: string
  pf_destination_ref :: string

record policy_summary =
  ps_blockers :: nat
  ps_reviews :: nat
  ps_warnings :: nat
  ps_info :: nat

record policy_report =
  pr_mode :: string
  pr_overall :: policy_status
  pr_summary :: policy_summary
  pr_findings :: "finding list"
  pr_warnings :: "string list"

definition severity_status :: "severity \<Rightarrow> policy_status" where
  "severity_status s = (case s of Blocker \<Rightarrow> Blocked | Review \<Rightarrow> ReviewRequired | _ \<Rightarrow> Ready)"

definition severity_rank :: "severity \<Rightarrow> nat" where
  "severity_rank s = (case s of Blocker \<Rightarrow> 0 | Review \<Rightarrow> 1 | Warning \<Rightarrow> 2 | _ \<Rightarrow> 3)"

definition emit :: "string \<Rightarrow> string \<Rightarrow> severity \<Rightarrow> string \<Rightarrow> string \<Rightarrow> string \<Rightarrow> string \<Rightarrow> string \<Rightarrow> finding" where
  "emit section fid sev title detail recommendation src dst =
     \<lparr>pf_id = fid, pf_section = section, pf_severity = sev, pf_status = severity_status sev,
      pf_title = title, pf_detail = detail, pf_recommendation = recommendation,
      pf_source_ref = src, pf_destination_ref = dst\<rparr>"

definition arrow :: "string \<Rightarrow> string \<Rightarrow> string" where
  "arrow a b = a @ '' '' @ rarrow @ '' '' @ b"

section \<open>Rules that several sections share\<close>

definition no_action :: string where
  "no_action = ''No action needed unless unexpected.''"

definition eval_section_warnings :: "string \<Rightarrow> section_diff \<Rightarrow> finding list" where
  "eval_section_warnings section sec =
     map (\<lambda>s. emit section ''POL-SECTION-UNAVAILABLE'' Review (section @ '' comparison incomplete'') s
            ''Re-run the inventory so both sides expose this section, then diff again.'' [] [])
       (sd_skipped sec) @
     map (\<lambda>w. emit section ''POL-DIFF-WARNING'' Warning (section @ '' diff warning'') w
            ''Inspect the diff warning; it may hide data-quality issues.'' [] [])
       (sd_warnings sec)"

definition eval_simple ::
  "string \<Rightarrow> string \<Rightarrow> string \<Rightarrow> severity \<Rightarrow> string \<Rightarrow> section_diff \<Rightarrow> finding list" where
  "eval_simple section id_prefix noun removed_severity removed_recommendation sec =
     map (\<lambda>e. emit section (id_prefix @ ''-REMOVED'') removed_severity (noun @ '' missing on destination'')
            (de_detail e) removed_recommendation (de_key e) []) (sd_removed sec) @
     map (\<lambda>c. emit section (id_prefix @ ''-CHANGED'') Review (noun @ '' '' @ fc_field c @ '' differs'')
            (fc_field c @ '': '' @ arrow (fc_source c) (fc_destination c))
            ''Confirm the destination value is intended.'' (fc_key c) (fc_key c)) (sd_changed sec) @
     map (\<lambda>e. emit section (id_prefix @ ''-ADDED'') Info (noun @ '' present only on destination'')
            (de_detail e) no_action [] (de_key e)) (sd_added sec)"

section \<open>Domains, databases, certificates, PHP\<close>

definition eval_domains :: "section_diff \<Rightarrow> finding list" where
  "eval_domains sec =
     map (\<lambda>e. if de_detail e = ''main'' then
            emit ''domains'' ''POL-DOMAIN-MAIN-REMOVED'' Blocker ''Main domain missing on destination''
              ''type: main'' ''The destination account must serve the main domain before any cutover.''
              (de_key e) []
          else
            emit ''domains'' ''POL-DOMAIN-REMOVED'' Review ''Domain missing on destination''
              (''type: '' @ de_detail e)
              ''Create the domain on the destination or confirm it is being dropped.'' (de_key e) [])
       (sd_removed sec) @
     map (\<lambda>c. if fc_field c = ''document_root'' then
            emit ''domains'' ''POL-DOMAIN-DOCROOT-CHANGED'' Info ''Document root differs''
              (arrow (fc_source c) (fc_destination c))
              ''Expected across hosts; verify only if the layout matters to the site.''
              (fc_key c) (fc_key c)
          else
            emit ''domains'' ''POL-DOMAIN-TYPE-CHANGED'' Review ''Domain type differs''
              (fc_field c @ '': '' @ arrow (fc_source c) (fc_destination c))
              ''A domain served with a different type may behave differently; verify.''
              (fc_key c) (fc_key c))
       (sd_changed sec) @
     map (\<lambda>e. emit ''domains'' ''POL-DOMAIN-ADDED'' Info ''Domain present only on destination''
            (''type: '' @ de_detail e) no_action [] (de_key e)) (sd_added sec)"

definition eval_databases :: "section_diff \<Rightarrow> finding list" where
  "eval_databases sec =
     map (\<lambda>e. emit ''databases'' ''POL-DB-REMOVED'' Blocker ''Database missing on destination''
            (de_detail e) ''Migrate the database before cutover.'' (de_key e) []) (sd_removed sec) @
     map (\<lambda>c. emit ''databases'' ''POL-DB-USERS-CHANGED'' Review ''Database grants differ''
            (fc_field c @ '': '' @ arrow (fc_source c) (fc_destination c))
            (''Verify the application'' @ [CHR 0x27] @ ''s DB user still has the grants it needs.'') (fc_key c) (fc_key c))
       (sd_changed sec) @
     map (\<lambda>e. emit ''databases'' ''POL-DB-ADDED'' Info ''Database present only on destination''
            (de_detail e) no_action [] (de_key e)) (sd_added sec)"

definition removed_domains :: "inventory_diff \<Rightarrow> string list" where
  "removed_domains d =
     (case map_of (id_sections d) ''domains'' of
        None \<Rightarrow> []
      | Some domains \<Rightarrow> map de_key (sd_removed domains))"

definition all_domains_gone :: "string list \<Rightarrow> string \<Rightarrow> bool" where
  "all_domains_gone gone key \<longleftrightarrow> (\<forall>dom\<in>set (split_byte CHR '','' key). trim_space dom \<in> set gone)"

definition eval_ssl :: "inventory_diff \<Rightarrow> section_diff \<Rightarrow> finding list" where
  "eval_ssl d sec =
     map (\<lambda>e. if de_key e = [] then
            emit ''ssl'' ''POL-SSL-REMOVED'' Blocker ''Certificate missing for a domain still present''
              (''certificate entry carries no domain list '' @ emdash @ '' verify manually'')
              ''Issue or install a certificate on the destination before cutover.''
              ''(no domain list)'' []
          else if all_domains_gone (removed_domains d) (de_key e) then
            emit ''ssl'' ''POL-SSL-REMOVED-WITH-DOMAIN'' Info
              ''Certificate removed together with its domains'' (de_detail e)
              ''Coherent with the domain removal; no separate action.'' (de_key e) []
          else
            emit ''ssl'' ''POL-SSL-REMOVED'' Blocker ''Certificate missing for a domain still present''
              (de_detail e) ''Issue or install a certificate on the destination before cutover.''
              (de_key e) [])
       (sd_removed sec) @
     map (\<lambda>c. emit ''ssl'' ''POL-SSL-CHANGED'' Review (''Certificate '' @ fc_field c @ '' differs'')
            (fc_field c @ '': '' @ arrow (fc_source c) (fc_destination c))
            ''Verify the destination certificate covers the cutover window.'' (fc_key c) (fc_key c))
       (sd_changed sec) @
     map (\<lambda>e. emit ''ssl'' ''POL-SSL-ADDED'' Info ''Certificate present only on destination''
            (de_detail e) no_action [] (de_key e)) (sd_added sec)"

definition eval_php :: "section_diff \<Rightarrow> finding list" where
  "eval_php sec =
     map (\<lambda>e. emit ''php'' ''POL-PHP-REMOVED'' Review ''PHP vhost configuration missing on destination''
            (de_detail e)
            ''Confirm the destination serves this vhost with an intended PHP version.'' (de_key e) [])
       (sd_removed sec) @
     map (\<lambda>c. emit ''php'' ''POL-PHP-CHANGED'' Review ''PHP version differs''
            (arrow (fc_source c) (fc_destination c))
            ''Test the site against the destination PHP version before cutover.'' (fc_key c) (fc_key c))
       (sd_changed sec) @
     map (\<lambda>e. emit ''php'' ''POL-PHP-ADDED'' Info ''PHP vhost present only on destination''
            (de_detail e) no_action [] (de_key e)) (sd_added sec)"

section \<open>DNS\<close>

definition dns_key_type :: "string \<Rightarrow> string" where
  "dns_key_type key =
     (let fs = str_fields key in
      if length fs \<ge> 3 \<and> fs ! 0 = ''zone'' then fs ! 2 else [])"

definition is_mail_routing_type :: "string \<Rightarrow> bool" where
  "is_mail_routing_type t \<longleftrightarrow> t = ''MX'' \<or> t = ''NS''"

definition dns_removed :: "diff_entry \<Rightarrow> finding" where
  "dns_removed e =
     (let typ = dns_key_type (de_key e) in
      if typ = [] then
        emit ''dns'' ''POL-DNS-ZONE-REMOVED'' Blocker ''DNS zone missing on destination'' (de_detail e)
          ''The destination must serve this zone before any cutover.'' (de_key e) []
      else if is_mail_routing_type typ then
        emit ''dns'' (''POL-DNS-'' @ typ @ ''-REMOVED'') Blocker (typ @ '' record missing on destination'')
          (de_detail e) ''Mail/delegation routing would break; recreate the record before cutover.''
          (de_key e) []
      else
        emit ''dns'' ''POL-DNS-RECORD-REMOVED'' Review (typ @ '' record missing on destination'')
          (de_detail e) ''Recreate the record or confirm it is obsolete.'' (de_key e) [])"

definition dns_changed :: "field_change \<Rightarrow> finding" where
  "dns_changed c =
     (let typ = dns_key_type (fc_key c) in
      if is_mail_routing_type typ then
        emit ''dns'' (''POL-DNS-'' @ typ @ ''-CHANGED'') Blocker (typ @ '' record differs'')
          (arrow (fc_source c) (fc_destination c)) ''Review mail/delegation routing before cutover.''
          (fc_key c) (fc_key c)
      else if typ = ''SOA'' then
        emit ''dns'' ''POL-DNS-SOA-CHANGED'' Info ''SOA record differs''
          (arrow (fc_source c) (fc_destination c))
          ''Expected when a zone is regenerated on a new host; no action needed.'' (fc_key c) (fc_key c)
      else
        emit ''dns'' ''POL-DNS-RECORD-CHANGED'' Review (typ @ '' record differs'')
          (arrow (fc_source c) (fc_destination c))
          ''Verify the destination value (SPF/DKIM/DMARC and app records especially).''
          (fc_key c) (fc_key c))"

definition dns_added :: "diff_entry \<Rightarrow> finding" where
  "dns_added e =
     (let typ = dns_key_type (de_key e) in
      if typ = [] then
        emit ''dns'' ''POL-DNS-ZONE-ADDED'' Info ''DNS zone present only on destination'' (de_detail e)
          no_action [] (de_key e)
      else if is_mail_routing_type typ then
        emit ''dns'' ''POL-DNS-MAIL-RECORD-ADDED'' Review (typ @ '' record present only on destination'')
          (de_detail e)
          ''New mail/delegation routing appears on the destination; confirm it is intended.'' [] (de_key e)
      else
        emit ''dns'' ''POL-DNS-RECORD-ADDED'' Info (typ @ '' record present only on destination'')
          (de_detail e) no_action [] (de_key e))"

definition eval_dns :: "section_diff \<Rightarrow> finding list" where
  "eval_dns sec =
     map dns_removed (sd_removed sec) @ map dns_changed (sd_changed sec) @ map dns_added (sd_added sec)"

section \<open>Cron and redirects\<close>

definition eval_cron :: "section_diff \<Rightarrow> finding list" where
  "eval_cron sec =
     map (\<lambda>e. if contains (de_detail e) ''enabled=false'' then
            emit ''cron'' ''POL-CRON-DISABLED-REMOVED'' Info ''Disabled cron job missing on destination''
              (de_detail e) ''The job was disabled; recreate only if you plan to re-enable it.''
              (de_key e) []
          else
            emit ''cron'' ''POL-CRON-ENABLED-REMOVED'' Blocker ''Active cron job missing on destination''
              (de_detail e) ''Recreate the job on the destination before cutover.'' (de_key e) [])
       (sd_removed sec) @
     map (\<lambda>c. emit ''cron''
            (if fc_field c = ''enabled'' then ''POL-CRON-ENABLED-CHANGED'' else ''POL-CRON-SCHEDULE-CHANGED'')
            Review
            (if fc_field c = ''enabled'' then ''Cron enabled state differs'' else ''Cron schedule differs'')
            (fc_field c @ '': '' @ arrow (fc_source c) (fc_destination c))
            ''Confirm the destination scheduling is intended.'' (fc_key c) (fc_key c))
       (sd_changed sec) @
     map (\<lambda>e. emit ''cron'' ''POL-CRON-ADDED'' Info ''Cron job present only on destination''
            (de_detail e) no_action [] (de_key e)) (sd_added sec)"

definition cms_rewrite_detail_prefix :: string where
  "cms_rewrite_detail_prefix = ''rewrite/temporary/- ''"

definition is_cms_rewrite_detail :: "string \<Rightarrow> bool" where
  "is_cms_rewrite_detail detail \<longleftrightarrow>
     has_prefix detail cms_rewrite_detail_prefix \<and>
     (let dest = trim_prefix detail (cms_rewrite_detail_prefix @ rarrow @ '' '') in
      \<not> has_prefix dest ''http://'' \<and> \<not> has_prefix dest ''https://'' \<and> \<not> has_prefix dest ''//'')"

definition eval_redirects :: "section_diff \<Rightarrow> finding list" where
  "eval_redirects sec =
     map (\<lambda>e. if is_cms_rewrite_detail (de_detail e) then
            emit ''redirects'' ''POL-REDIRECT-CMS-REMOVED'' Info ''CMS rewrite not on destination yet''
              (de_detail e) ''No action: .htaccess RewriteRules travel with the web files migration.''
              (de_key e) []
          else
            emit ''redirects'' ''POL-REDIRECT-REMOVED'' Review ''Redirect missing on destination''
              (de_detail e)
              ''Recreate the redirect on the destination (or confirm the web files migration carries its .htaccess rule).''
              (de_key e) [])
       (sd_removed sec) @
     map (\<lambda>c. emit ''redirects'' ''POL-REDIRECT-CHANGED'' Review (''Redirect '' @ fc_field c @ '' differs'')
            (fc_field c @ '': '' @ arrow (fc_source c) (fc_destination c))
            ''Confirm the destination redirect is intended.'' (fc_key c) (fc_key c))
       (sd_changed sec) @
     map (\<lambda>e. emit ''redirects'' ''POL-REDIRECT-ADDED'' Info ''Redirect present only on destination''
            (de_detail e) no_action [] (de_key e)) (sd_added sec)"

section \<open>The report\<close>

definition missing_finding :: "string \<Rightarrow> finding" where
  "missing_finding name = emit name ''POL-SECTION-MISSING'' Review (name @ '' missing from the diff'')
     (''the diff artifact has no '' @ [CHR 0x22] @ name @ [CHR 0x22] @ '' section '' @ emdash
        @ '' produced by an older tool version or incomplete'')
     ''Regenerate the diff with the current binary, then re-run the policy.'' [] []"

definition eval_rules :: "inventory_diff \<Rightarrow> string \<Rightarrow> section_diff \<Rightarrow> finding list" where
  "eval_rules d name sec =
     (if name = ''domains'' then eval_domains sec
      else if name = ''mailboxes'' then eval_simple ''mailboxes'' ''POL-MAILBOX'' ''Mailbox'' Blocker
        ''Recreate the mailbox on the destination before cutover.'' sec
      else if name = ''databases'' then eval_databases sec
      else if name = ''forwarders'' then eval_simple ''forwarders'' ''POL-FORWARDER'' ''Forwarder'' Review
        ''Recreate the forwarder on the destination or confirm it is obsolete.'' sec
      else if name = ''autoresponders'' then
        eval_simple ''autoresponders'' ''POL-AUTORESPONDER'' ''Autoresponder'' Review
        ''Recreate the autoresponder on the destination or confirm it is obsolete.'' sec
      else if name = ''ftp'' then eval_simple ''ftp'' ''POL-FTP'' ''FTP account'' Review
        ''Recreate the FTP account on the destination or confirm it is obsolete.'' sec
      else if name = ''ssl'' then eval_ssl d sec
      else if name = ''php'' then eval_php sec
      else if name = ''dns'' then eval_dns sec
      else if name = ''cron'' then eval_cron sec
      else if name = ''email_routing'' then
        eval_simple ''email_routing'' ''POL-MAILROUTE'' ''Mail routing'' Review
        (''Confirm the destination mail routing (local/remote) matches where this domain'' @ [CHR 0x27]
         @ ''s mail is really hosted; a wrong value silently breaks delivery.'') sec
      else if name = ''default_address'' then
        eval_simple ''default_address'' ''POL-DEFAULTADDR'' ''Default address'' Review
        (''Recreate the default (catch-all) address on the destination or confirm the difference is ''
         @ ''intended; a lost catch-all silently drops mail.'') sec
      else if name = ''email_filters'' then
        eval_simple ''email_filters'' ''POL-EMAILFILTER'' ''Email filter'' Review
        ''Recreate the filter on the destination or confirm it is obsolete.'' sec
      else if name = ''redirects'' then eval_redirects sec
      else [])"

definition eval_section :: "inventory_diff \<Rightarrow> string \<Rightarrow> finding list" where
  "eval_section d name =
     (case map_of (id_sections d) name of
        None \<Rightarrow> [missing_finding name]
      | Some sec \<Rightarrow> eval_rules d name sec @ eval_section_warnings name sec)"

definition all_findings :: "inventory_diff \<Rightarrow> finding list" where
  "all_findings d = concat (map (eval_section d) diff_section_names)"

definition summarize :: "finding list \<Rightarrow> policy_summary" where
  "summarize fs =
     \<lparr>ps_blockers = count_if (\<lambda>f. pf_severity f = Blocker) fs,
      ps_reviews = count_if (\<lambda>f. pf_severity f = Review) fs,
      ps_warnings = count_if (\<lambda>f. pf_severity f = Warning) fs,
      ps_info = count_if (\<lambda>f. pf_severity f \<notin> {Blocker, Review, Warning}) fs\<rparr>"

definition overall_status :: "policy_summary \<Rightarrow> policy_status" where
  "overall_status s =
     (if ps_blockers s > 0 then Blocked else if ps_reviews s > 0 then ReviewRequired else Ready)"

definition finding_order :: "finding \<Rightarrow> nat \<times> string \<times> string \<times> string \<times> string \<times> string" where
  "finding_order f = (severity_rank (pf_severity f), pf_section f, pf_id f, pf_detail f,
     pf_source_ref f, pf_destination_ref f)"

definition evaluate_policy :: "inventory_diff \<Rightarrow> policy_report" where
  "evaluate_policy d =
     (let fs = all_findings d; s = summarize fs in
      \<lparr>pr_mode = ''inventory-policy'', pr_overall = overall_status s, pr_summary = s,
       pr_findings = sort_key finding_order fs, pr_warnings = []\<rparr>)"

end
