(* ===== verification/DiffLaws.thy ===== *)
theory DiffLaws
  imports Diff
begin

text \<open>
  What the inventory diff promises: its result does not depend on the order in which Go visits the
  maps, a keyed section reports exactly the keys of one side only and the fields that differ, the
  two directions of a comparison mirror each other, and the duplicates of a cron command are
  compared as multisets.
\<close>

section \<open>Sorting a section\<close>

lemma inj_entry_order: "inj entry_order"
  by (rule injI) (simp add: entry_order_def)

lemma sort_entries_cong: "mset xs = mset ys \<Longrightarrow> sort_key entry_order xs = sort_key entry_order ys"
  by (rule sort_key_order_irrelevant) (auto intro: inj_on_subset [OF inj_entry_order])

lemma sort_section_cong:
  assumes "mset (sd_added a) = mset (sd_added b)" "mset (sd_removed a) = mset (sd_removed b)"
    and "mset (sd_changed a) = mset (sd_changed b)" "inj_on change_order (set (sd_changed a))"
    and "mset (sd_skipped a) = mset (sd_skipped b)" "mset (sd_warnings a) = mset (sd_warnings b)"
  shows "sort_section_diff a = sort_section_diff b"
  unfolding sort_section_diff_def
  using sort_entries_cong [OF assms(1)] sort_entries_cong [OF assms(2)]
    sort_key_order_irrelevant [OF assms(3,4)] sort_order_irrelevant [OF assms(5)]
    sort_order_irrelevant [OF assms(6)]
  by simp

lemma mset_concat_map_cong:
  "mset xs = mset ys \<Longrightarrow> mset (concat (map f xs)) = mset (concat (map f ys))"
  by (metis mset_concat mset_map sum_mset_sum_list)

lemma mset_filter_map_cong:
  "mset xs = mset ys \<Longrightarrow> mset (map f (filter P xs)) = mset (map f (filter P ys))"
  by simp

section \<open>Indexing by key\<close>

fun last_item :: "keyed_item list \<Rightarrow> string \<Rightarrow> keyed_item option" where
  "last_item [] k = None"
| "last_item (it # its) k =
     (case last_item its k of Some x \<Rightarrow> Some x | None \<Rightarrow> if ki_key it = k then Some it else None)"

lemma last_item_snoc:
  "last_item (its @ [it]) k = (if ki_key it = k then Some it else last_item its k)"
  by (induction its) auto

lemma index_items_snoc: "index_items (its @ [it]) = AList.update (ki_key it) it (index_items its)"
  by (simp add: index_items_def)

lemma map_of_index_items: "map_of (index_items its) = last_item its"
proof (induction its rule: rev_induct)
  case Nil
  then show ?case by (simp add: index_items_def fun_eq_iff)
next
  case (snoc it its)
  then show ?case by (auto simp: index_items_snoc update_conv' fun_eq_iff last_item_snoc)
qed

lemma index_items_distinct: "distinct (map fst (index_items its))"
  by (induction its rule: rev_induct) (simp_all add: index_items_snoc distinct_update, simp add: index_items_def)

lemma last_item_key: "last_item its k = Some it \<Longrightarrow> ki_key it = k \<and> it \<in> set its"
  by (induction its) (auto split: option.splits if_splits)

lemma last_item_None: "last_item its k = None \<longleftrightarrow> k \<notin> ki_key ` set its"
  by (induction its) (auto split: option.splits)

lemma mem_index_items: "(k, it) \<in> set (index_items its) \<longleftrightarrow> last_item its k = Some it"
  using map_of_index_items index_items_distinct by (metis map_of_eq_Some_iff)

section \<open>The keyed comparison\<close>

definition key_changes ::
  "(string, keyed_item) gomap \<Rightarrow> (string, keyed_item) gomap \<Rightarrow> field_change list" where
  "key_changes srcm destm = concat (map (\<lambda>(k, it). case map_of destm k of
      None \<Rightarrow> [] | Some other \<Rightarrow> changed_fields k it other) srcm)"

lemma mem_changed_fields:
  "c \<in> set (changed_fields k it other) \<longleftrightarrow>
     fc_key c = k \<and> fc_field c \<in> fst ` set (ki_fields it) \<and>
     fc_source c = field_of it (fc_field c) \<and> fc_destination c = field_of other (fc_field c) \<and>
     fc_source c \<noteq> fc_destination c"
  by (cases c) (auto simp: changed_fields_def)

lemma changed_fields_key: "c \<in> set (changed_fields k it other) \<Longrightarrow> fc_key c = k"
  by (simp add: mem_changed_fields)

lemma mem_key_changes:
  assumes "distinct (map fst srcm)"
  shows "c \<in> set (key_changes srcm destm) \<longleftrightarrow>
    (\<exists>it other. map_of srcm (fc_key c) = Some it \<and> map_of destm (fc_key c) = Some other \<and>
       c \<in> set (changed_fields (fc_key c) it other))"
proof -
  have "c \<in> set (key_changes srcm destm) \<longleftrightarrow>
      (\<exists>k it other. (k, it) \<in> set srcm \<and> map_of destm k = Some other \<and>
         c \<in> set (changed_fields k it other))"
    by (simp add: key_changes_def Bex_def split_paired_Ex mem_case_option) metis
  then show ?thesis
    using changed_fields_key map_of_eq_Some_iff [OF assms] by metis
qed

lemma key_changes_inj:
  assumes "distinct (map fst srcm)"
  shows "inj_on change_order (set (key_changes srcm destm))"
  by (rule inj_onI) (auto simp: mem_key_changes [OF assms] mem_changed_fields change_order_def)

lemma diff_keyed_maps_order:
  assumes "same_map s s'" "same_map d d'"
  shows "diff_keyed_maps s d ws = diff_keyed_maps s' d' ws"
proof -
  note m = same_map_map_of [OF assms(1)] same_map_map_of [OF assms(2)]
  have ms: "mset s = mset s'" "mset d = mset d'" and ds: "distinct (map fst s)"
    using assms by (auto simp: same_map_def)
  show ?thesis
    unfolding diff_keyed_maps_def key_changes_def [symmetric]
  proof (rule sort_section_cong, goal_cases)
    case 3
    show ?case by (simp add: key_changes_def m(2) mset_concat_map_cong [OF ms(1)])
  qed (simp_all add: only_in_def m ms key_changes_inj [OF ds])
qed

lemma diff_keyed_parts:
  "sd_added (diff_keyed s d) = sort_key entry_order (only_in (index_items d) (index_items s))"
  "sd_removed (diff_keyed s d) = sort_key entry_order (only_in (index_items s) (index_items d))"
  "sd_changed (diff_keyed s d) = sort_key change_order (key_changes (index_items s) (index_items d))"
  "sd_skipped (diff_keyed s d) = []"
  by (simp_all add: diff_keyed_def diff_keyed_maps_def sort_section_diff_def key_changes_def)

lemma mem_only_in:
  "e \<in> set (only_in (index_items a) (index_items b)) \<longleftrightarrow>
     (\<exists>it. last_item a (de_key e) = Some it \<and> de_detail e = ki_detail it) \<and>
     last_item b (de_key e) = None"
  by (cases e) (auto simp: only_in_def map_of_index_items mem_index_items intro!: rev_image_eqI)

lemma distinct_only_in:
  assumes "distinct (map fst m)"
  shows "distinct (only_in m other)"
proof -
  have "map de_key (only_in m other) = map fst (filter (\<lambda>(k, it). map_of other k = None) m)"
    by (simp add: only_in_def case_prod_beta)
  then have "distinct (map de_key (only_in m other))"
    using assms by (simp add: distinct_map_filter)
  then show ?thesis by (simp add: distinct_map)
qed

definition flip_change :: "field_change \<Rightarrow> field_change" where
  "flip_change c = c\<lparr>fc_source := fc_destination c, fc_destination := fc_source c\<rparr>"

definition same_fields :: "keyed_item list \<Rightarrow> keyed_item list \<Rightarrow> bool" where
  "same_fields s d \<longleftrightarrow> (\<exists>ns. distinct ns \<and> (\<forall>it\<in>set s \<union> set d. map fst (ki_fields it) = ns))"

lemma distinct_changed_fields:
  "distinct (map fst (ki_fields it)) \<Longrightarrow> distinct (map change_order (changed_fields k it other))"
  by (auto simp: changed_fields_def change_order_def distinct_map o_def inj_on_def)

lemma distinct_key_changes:
  assumes "distinct (map fst srcm)" "\<And>k it. (k, it) \<in> set srcm \<Longrightarrow> distinct (map fst (ki_fields it))"
  shows "distinct (map change_order (key_changes srcm destm))"
  using assms
proof (induction srcm)
  case Nil
  then show ?case by (simp add: key_changes_def)
next
  case (Cons p srcm)
  obtain k it where p: "p = (k, it)" by force
  have IH: "distinct (map change_order (key_changes srcm destm))"
    by (rule Cons.IH) (use Cons.prems in auto)
  define hd_part where "hd_part = (case map_of destm k of None \<Rightarrow> [] | Some other \<Rightarrow> changed_fields k it other)"
  have "distinct (map change_order hd_part)"
    unfolding hd_part_def using Cons.prems(2) [of k it] p
    by (auto split: option.splits intro: distinct_changed_fields)
  moreover have "fst ` change_order ` set hd_part \<subseteq> {k}"
    by (auto simp: hd_part_def change_order_def mem_changed_fields split: option.splits)
  moreover have "k \<notin> fst ` change_order ` set (key_changes srcm destm)"
  proof
    assume "k \<in> fst ` change_order ` set (key_changes srcm destm)"
    then obtain c where "c \<in> set (key_changes srcm destm)" "fc_key c = k"
      by (auto simp: change_order_def)
    then have "k \<in> fst ` set srcm"
      using mem_key_changes [of srcm c destm] Cons.prems(1)
      by (auto dest!: map_of_SomeD intro: rev_image_eqI)
    then show False using Cons.prems(1) p by simp
  qed
  moreover have "key_changes (p # srcm) destm = hd_part @ key_changes srcm destm"
    by (simp add: key_changes_def hd_part_def p)
  moreover have "change_order ` set hd_part \<inter> change_order ` set (key_changes srcm destm) = {}"
    using calculation(2,3) by blast
  ultimately show ?case using IH by simp
qed

lemma field_of_flip:
  assumes "map fst (ki_fields it) = map fst (ki_fields other)"
  shows "c \<in> set (changed_fields k it other) \<longleftrightarrow> flip_change c \<in> set (changed_fields k other it)"
proof -
  have "fst ` set (ki_fields it) = fst ` set (ki_fields other)"
    using assms by (metis set_map)
  then show ?thesis
    by (auto simp: mem_changed_fields flip_change_def)
qed

lemma flip_flip [simp]: "flip_change (flip_change c) = c"
  by (simp add: flip_change_def)

lemma change_order_flip [simp]: "change_order (flip_change c) = change_order c"
  by (simp add: flip_change_def change_order_def)

lemma mset_eq_of_distinct_keys:
  assumes "distinct (map f xs)" "distinct (map g ys)" "set xs = set ys"
  shows "mset xs = mset ys"
  using assms by (metis distinct_map set_eq_iff_mset_eq_distinct)

lemma diff_keyed_mirror:
  assumes "same_fields s d"
  shows "sd_added (diff_keyed d s) = sd_removed (diff_keyed s d)"
    and "sd_removed (diff_keyed d s) = sd_added (diff_keyed s d)"
    and "sd_changed (diff_keyed d s) = map flip_change (sd_changed (diff_keyed s d))"
proof -
  obtain ns where ns: "distinct ns" "\<And>it. it \<in> set s \<union> set d \<Longrightarrow> map fst (ki_fields it) = ns"
    using assms by (auto simp: same_fields_def)
  let ?S = "index_items s" and ?D = "index_items d"
  have names: "map fst (ki_fields it) = ns" if "last_item xs k = Some it" "set xs \<subseteq> set s \<union> set d" for xs k it
    using ns(2) last_item_key [OF that(1)] that(2) by blast
  have fields: "distinct (map fst (ki_fields it))" if "(k, it) \<in> set (index_items xs)" "set xs \<subseteq> set s \<union> set d" for xs k it
    using names [of xs k it] that ns(1) by (simp add: mem_index_items)
  have set_eq: "set (key_changes ?D ?S) = set (map flip_change (key_changes ?S ?D))"
  proof (rule set_eqI)
    fix c
    have "c \<in> set (key_changes ?D ?S) \<longleftrightarrow> (\<exists>it other. last_item d (fc_key c) = Some it \<and>
        last_item s (fc_key c) = Some other \<and> c \<in> set (changed_fields (fc_key c) it other))"
      by (simp add: mem_key_changes [OF index_items_distinct] map_of_index_items)
    also have "\<dots> \<longleftrightarrow> (\<exists>it other. last_item s (fc_key c) = Some it \<and>
        last_item d (fc_key c) = Some other \<and> flip_change c \<in> set (changed_fields (fc_key c) it other))"
      using field_of_flip names by (metis Un_upper1 Un_upper2)
    also have "\<dots> \<longleftrightarrow> flip_change c \<in> set (key_changes ?S ?D)"
      by (simp add: mem_key_changes [OF index_items_distinct] map_of_index_items flip_change_def)
    also have "\<dots> \<longleftrightarrow> c \<in> set (map flip_change (key_changes ?S ?D))"
      by (auto simp: image_iff intro!: bexI [of _ "flip_change c"])
    finally show "c \<in> set (key_changes ?D ?S) \<longleftrightarrow> c \<in> set (map flip_change (key_changes ?S ?D))" .
  qed
  have d1: "distinct (map change_order (key_changes ?D ?S))"
    by (rule distinct_key_changes [OF index_items_distinct]) (use fields in blast)
  have d2: "distinct (map change_order (key_changes ?S ?D))"
    by (rule distinct_key_changes [OF index_items_distinct]) (use fields in blast)
  have ms: "mset (key_changes ?D ?S) = mset (map flip_change (key_changes ?S ?D))"
    by (rule mset_eq_of_distinct_keys [OF d1 _ set_eq, of change_order])
      (use d2 in \<open>simp add: o_def\<close>)
  have "sort_key change_order (key_changes ?D ?S) = map flip_change (sort_key change_order (key_changes ?S ?D))"
  proof (rule sort_key_inj_key_eq)
    show "mset (key_changes ?D ?S) = mset (map flip_change (sort_key change_order (key_changes ?S ?D)))"
      using ms by simp
    show "inj_on change_order (set (key_changes ?D ?S))"
      by (rule key_changes_inj [OF index_items_distinct])
    show "sorted (map change_order (map flip_change (sort_key change_order (key_changes ?S ?D))))"
      by (simp add: o_def)
  qed
  then show "sd_changed (diff_keyed d s) = map flip_change (sd_changed (diff_keyed s d))"
    by (simp add: diff_keyed_parts)
qed (simp_all add: diff_keyed_parts)

lemma diff_config_keyed_mirror:
  assumes "same_fields s d"
  shows "sd_added (diff_config_keyed n b a d s) = sd_removed (diff_config_keyed n a b s d)"
    and "sd_removed (diff_config_keyed n b a d s) = sd_added (diff_config_keyed n a b s d)"
    and "sd_changed (diff_config_keyed n b a d s) = map flip_change (sd_changed (diff_config_keyed n a b s d))"
  using diff_keyed_mirror [OF assms]
  by (auto simp: diff_config_keyed_def skip_unavailable_def new_section_diff_def)

lemma same_fields_map:
  assumes "distinct ns" "\<And>e. map fst (ki_fields (item e)) = ns"
  shows "same_fields (map item xs) (map item ys)"
  using assms by (auto simp: same_fields_def)

section \<open>Loops that append to a section\<close>

definition append_diff :: "section_diff \<Rightarrow> section_diff \<Rightarrow> section_diff" where
  "append_diff a b =
     \<lparr>sd_added = sd_added a @ sd_added b, sd_removed = sd_removed a @ sd_removed b,
      sd_changed = sd_changed a @ sd_changed b, sd_skipped = sd_skipped a @ sd_skipped b,
      sd_warnings = sd_warnings a @ sd_warnings b\<rparr>"

text \<open>A loop body that only appends to the section it is given.\<close>

locale section_step =
  fixes step :: "'p \<Rightarrow> section_diff \<Rightarrow> section_diff"
  assumes step_appends: "step p sec = append_diff sec (step p new_section_diff)"
begin

definition part :: "'p \<Rightarrow> section_diff" where
  "part p = step p new_section_diff"

lemma fold_parts:
  "sd_added (fold step ps sec) = sd_added sec @ concat (map (sd_added \<circ> part) ps)"
  "sd_removed (fold step ps sec) = sd_removed sec @ concat (map (sd_removed \<circ> part) ps)"
  "sd_changed (fold step ps sec) = sd_changed sec @ concat (map (sd_changed \<circ> part) ps)"
  "sd_skipped (fold step ps sec) = sd_skipped sec @ concat (map (sd_skipped \<circ> part) ps)"
  "sd_warnings (fold step ps sec) = sd_warnings sec @ concat (map (sd_warnings \<circ> part) ps)"
proof (induction ps arbitrary: sec)
  case (Cons p ps)
  {
    case 1 show ?case
      using Cons.IH(1) step_appends [of p sec] by (simp add: part_def append_diff_def)
  next
    case 2 show ?case
      using Cons.IH(2) step_appends [of p sec] by (simp add: part_def append_diff_def)
  next
    case 3 show ?case
      using Cons.IH(3) step_appends [of p sec] by (simp add: part_def append_diff_def)
  next
    case 4 show ?case
      using Cons.IH(4) step_appends [of p sec] by (simp add: part_def append_diff_def)
  next
    case 5 show ?case
      using Cons.IH(5) step_appends [of p sec] by (simp add: part_def append_diff_def)
  }
qed simp_all

text \<open>The visiting order does not reach the sorted section, when the changes can be told apart.\<close>

lemma sorted_fold_order:
  assumes "mset ps = mset qs" "mset (sd_added a) = mset (sd_added b)"
    and "sd_removed b = sd_removed a" "sd_changed b = sd_changed a"
      "sd_skipped b = sd_skipped a" "sd_warnings b = sd_warnings a"
    and "inj_on change_order (set (sd_changed (fold step ps a)))"
  shows "sort_section_diff (fold step ps a) = sort_section_diff (fold step qs b)"
  by (rule sort_section_cong)
    (use assms mset_concat_map_cong [OF assms(1)] in \<open>simp_all add: fold_parts o_def\<close>)

end

interpretation zones: section_step "diff_dns_zone destz" for destz
  by unfold_locales
    (auto simp: diff_dns_zone_def diff_zone_records_def diff_zone_groups_def append_diff_def
      new_section_diff_def split: option.splits)

interpretation commands: section_step "diff_command dg" for dg
  by unfold_locales
    (auto simp: diff_command_def append_diff_def new_section_diff_def Let_def split: option.splits)

section \<open>DNS\<close>

lemma mem_group_zone_records:
  "(k, vs) \<in> set (group_zone_records rs) \<Longrightarrow> \<exists>r\<in>set rs. k = dr_type r @ '' '' @ dr_name r"
proof -
  assume "(k, vs) \<in> set (group_zone_records rs)"
  then have "k \<in> fst ` set (group_by (\<lambda>r. dr_type r @ '' '' @ dr_name r) rs)"
    by (force simp: group_zone_records_def)
  then show ?thesis by (auto simp: group_by_keys)
qed

lemma distinct_group_zone_records: "distinct (map fst (group_zone_records rs))"
proof -
  have "map fst (group_zone_records rs) = map fst (group_by (\<lambda>r. dr_type r @ '' '' @ dr_name r) rs)"
    by (simp add: group_zone_records_def case_prod_beta)
  then show ?thesis by (simp add: group_by_distinct)
qed

text \<open>A blank after the zone name separates it from the group key.\<close>

lemma cut_at_blank:
  assumes "CHR '' '' \<notin> set a" "CHR '' '' \<notin> set b" "a @ '' '' @ s = b @ '' '' @ t"
  shows "a = b \<and> s = t"
proof -
  have "takeWhile (\<lambda>c. c \<noteq> CHR '' '') (a @ '' '' @ s) = a"
    using assms(1) by (subst takeWhile_append2) auto
  moreover have "takeWhile (\<lambda>c. c \<noteq> CHR '' '') (b @ '' '' @ t) = b"
    using assms(2) by (subst takeWhile_append2) auto
  ultimately have "a = b" using assms(3) by simp
  then show ?thesis using assms(3) by simp
qed

lemma mem_group_changes:
  assumes "distinct (map fst sg)"
  shows "c \<in> set (sd_changed (diff_zone_groups zone sg dg new_section_diff)) \<longleftrightarrow>
     (\<exists>k vs ws. map_of sg k = Some vs \<and> map_of dg k = Some ws \<and> compare_set vs \<noteq> compare_set ws \<and>
        c = \<lparr>fc_key = ''zone '' @ zone @ '' '' @ k, fc_field = ''records'',
             fc_source = display_set vs, fc_destination = display_set ws\<rparr>)"
proof -
  have "c \<in> set (sd_changed (diff_zone_groups zone sg dg new_section_diff)) \<longleftrightarrow>
     (\<exists>k vs. (k, vs) \<in> set sg \<and> (\<exists>ws. map_of dg k = Some ws \<and> compare_set vs \<noteq> compare_set ws \<and>
        c = \<lparr>fc_key = ''zone '' @ zone @ '' '' @ k, fc_field = ''records'',
             fc_source = display_set vs, fc_destination = display_set ws\<rparr>))"
    unfolding diff_zone_groups_def new_section_diff_def
    by (simp add: Bex_def split_paired_Ex mem_case_option) metis
  then show ?thesis
    using map_of_eq_Some_iff [OF assms] by simp
qed

lemma mem_zone_changes:
  "c \<in> set (sd_changed (zones.part destz p)) \<longleftrightarrow>
     (\<exists>dz k vs ws. map_of destz (fst p) = Some dz \<and> dz_available (snd p) \<and> dz_available dz \<and>
        map_of (group_zone_records (dz_records (snd p))) k = Some vs \<and>
        map_of (group_zone_records (dz_records dz)) k = Some ws \<and>
        compare_set vs \<noteq> compare_set ws \<and>
        c = \<lparr>fc_key = ''zone '' @ fst p @ '' '' @ k, fc_field = ''records'',
             fc_source = display_set vs, fc_destination = display_set ws\<rparr>)"
proof (cases "map_of destz (fst p)")
  case None
  then show ?thesis by (simp add: zones.part_def diff_dns_zone_def new_section_diff_def)
next
  case (Some dz)
  show ?thesis
  proof (cases "dz_available (snd p) \<and> dz_available dz")
    case True
    have "zones.part destz p = diff_zone_groups (fst p) (group_zone_records (dz_records (snd p)))
        (group_zone_records (dz_records dz)) new_section_diff"
      using True Some by (simp add: zones.part_def diff_dns_zone_def diff_zone_records_def)
    then show ?thesis using True Some
      by (simp add: mem_group_changes [OF distinct_group_zone_records])
  next
    case False
    then show ?thesis using Some
      by (auto simp: zones.part_def diff_dns_zone_def new_section_diff_def)
  qed
qed

lemma dns_changes_inj:
  assumes "distinct (map fst srcz)" "\<And>p. p \<in> set srcz \<Longrightarrow> CHR '' '' \<notin> set (fst p)"
  shows "inj_on change_order (set (concat (map (sd_changed \<circ> zones.part destz) srcz)))"
proof (rule inj_onI)
  fix c c'
  assume cc: "c \<in> set (concat (map (sd_changed \<circ> zones.part destz) srcz))"
    "c' \<in> set (concat (map (sd_changed \<circ> zones.part destz) srcz))"
    and eq: "change_order c = change_order c'"
  obtain p where p: "p \<in> set srcz" "c \<in> set (sd_changed (zones.part destz p))"
    using cc(1) by auto
  obtain q where q: "q \<in> set srcz" "c' \<in> set (sd_changed (zones.part destz q))"
    using cc(2) by auto
  obtain k where k: "fc_key c = ''zone '' @ fst p @ '' '' @ k"
    using p(2) by (auto simp: mem_zone_changes)
  obtain k' where k': "fc_key c' = ''zone '' @ fst q @ '' '' @ k'"
    using q(2) by (auto simp: mem_zone_changes)
  have "fst p @ '' '' @ k = fst q @ '' '' @ k'"
    using eq k k' by (simp add: change_order_def)
  then have "fst p = fst q"
    using cut_at_blank assms(2) p(1) q(1) by blast
  then have "p = q" using assms(1) p(1) q(1) by (metis distinct_map inj_onD)
  then show "c = c'" using p(2) q(2) eq
    by (auto simp: mem_zone_changes change_order_def)
qed

lemma diff_dns_maps_order:
  assumes "same_map s s'" "same_map d d'" "\<And>p. p \<in> set s \<Longrightarrow> CHR '' '' \<notin> set (fst p)"
  shows "diff_dns_maps s d = diff_dns_maps s' d'"
proof -
  note m = same_map_map_of [OF assms(1)] same_map_map_of [OF assms(2)]
  have ms: "mset s = mset s'" "mset d = mset d'" and ds: "distinct (map fst s)"
    using assms by (auto simp: same_map_def)
  have step: "diff_dns_zone d = diff_dns_zone d'"
    by (simp add: fun_eq_iff diff_dns_zone_def m)
  show ?thesis
    unfolding diff_dns_maps_def step [symmetric]
  proof (rule zones.sorted_fold_order [OF ms(1)], goal_cases)
    case 1
    show ?case using ms(2) by (simp add: new_section_diff_def m)
  next
    case 6
    show ?case using dns_changes_inj [OF ds assms(3)]
      by (simp add: zones.fold_parts new_section_diff_def)
  qed (simp_all add: new_section_diff_def)
qed

section \<open>Cron\<close>

text \<open>One command, one text: what makes the redacted command usable as the key of a report.\<close>

definition redaction_faithful :: "(string, cron_job list) gomap \<Rightarrow> bool" where
  "redaction_faithful g \<longleftrightarrow>
     (\<forall>p\<in>set g. \<forall>q\<in>set g. cron_key (snd p) = cron_key (snd q) \<longrightarrow> fst p = fst q)"

lemma command_changes:
  "\<exists>s d. set (sd_changed (commands.part dg p)) \<subseteq> set (diff_one_slot (cron_key (snd p)) s d)"
  by (cases "map_of dg (fst p)")
    (auto simp: commands.part_def diff_command_def new_section_diff_def Let_def)

lemma one_slot_key: "c \<in> set (diff_one_slot key s d) \<Longrightarrow> fc_key c = key"
  by (simp add: diff_one_slot_def split: if_splits) auto

lemma one_slot_inj: "inj_on change_order (set (diff_one_slot key s d))"
  by (cases "cron_schedule s = cron_schedule d"; cases "cj_enabled s = cj_enabled d")
    (simp_all add: diff_one_slot_def change_order_def inj_on_def)

lemma mem_command_changes:
  "c \<in> set (sd_changed (commands.part dg p)) \<Longrightarrow> fc_key c = cron_key (snd p)"
  using command_changes [of dg p] one_slot_key by blast

lemma command_changes_inj: "inj_on change_order (set (sd_changed (commands.part dg p)))"
  using command_changes [of dg p] one_slot_inj inj_on_subset by metis

lemma cron_changes_inj:
  assumes "distinct (map fst sg)" "redaction_faithful sg"
  shows "inj_on change_order (set (concat (map (sd_changed \<circ> commands.part dg) sg)))"
proof (rule inj_onI)
  fix c c'
  assume cc: "c \<in> set (concat (map (sd_changed \<circ> commands.part dg) sg))"
    "c' \<in> set (concat (map (sd_changed \<circ> commands.part dg) sg))"
    and eq: "change_order c = change_order c'"
  obtain p where p: "p \<in> set sg" "c \<in> set (sd_changed (commands.part dg p))"
    using cc(1) by auto
  obtain q where q: "q \<in> set sg" "c' \<in> set (sd_changed (commands.part dg q))"
    using cc(2) by auto
  have "cron_key (snd p) = cron_key (snd q)"
    using mem_command_changes [OF p(2)] mem_command_changes [OF q(2)] eq by (simp add: change_order_def)
  then have "fst p = fst q"
    using assms(2) p(1) q(1) unfolding redaction_faithful_def by blast
  then have "p = q" using assms(1) p(1) q(1) by (metis distinct_map inj_onD)
  then show "c = c'"
    using inj_onD [OF command_changes_inj eq, of dg p] p(2) q(2) by simp
qed

lemma diff_cron_maps_order:
  assumes "same_map s s'" "same_map d d'" "redaction_faithful s"
  shows "diff_cron_maps s d = diff_cron_maps s' d'"
proof -
  note m = same_map_map_of [OF assms(1)] same_map_map_of [OF assms(2)]
  have ms: "mset s = mset s'" "mset d = mset d'" and ds: "distinct (map fst s)"
    using assms by (auto simp: same_map_def)
  have step: "diff_command d = diff_command d'"
    by (simp add: fun_eq_iff diff_command_def m)
  show ?thesis
    unfolding diff_cron_maps_def step [symmetric]
  proof (rule commands.sorted_fold_order [OF ms(1)], goal_cases)
    case 1
    show ?case using ms(2)
      by (simp add: new_section_diff_def m mset_concat_map_cong)
  next
    case 6
    show ?case using cron_changes_inj [OF ds assms(3)]
      by (simp add: commands.fold_parts new_section_diff_def)
  qed (simp_all add: new_section_diff_def)
qed

lemma slot_detail_iff:
  "slot_detail s = slot_detail d \<longleftrightarrow> cron_schedule s = cron_schedule d \<and> cj_enabled s = cj_enabled d"
proof -
  have "a @ '' enabled='' @ format_bool x = b @ '' enabled='' @ format_bool y \<longleftrightarrow> a = b \<and> x = y" for a b x y
  proof -
    have rv: "rev (a @ '' enabled='' @ format_bool x) = rev (b @ '' enabled='' @ format_bool y) \<longleftrightarrow> a = b \<and> x = y"
      by (cases x; cases y) (simp_all add: format_bool_def)
    then show ?thesis by (simp only: rev_is_rev_conv)
  qed
  then show ?thesis by (simp add: slot_detail_def)
qed

lemma count_mset_length_filter: "count (mset xs) x = length (filter (\<lambda>y. y = x) xs)"
  by (induction xs) auto

lemma slot_count_of: "slot_count (slot_counts js) s = count (mset (map slot_detail js)) s"
proof -
  have "map_of (slot_counts js) s = map_option length (map_of (group_by (\<lambda>s. s) (map slot_detail js)) s)"
    by (simp add: slot_counts_def map_of_map)
  also have "\<dots> = (if s \<in> set (map slot_detail js)
      then Some (length (filter (\<lambda>x. x = s) (map slot_detail js))) else None)"
    by (auto simp: map_of_group_by)
  finally have "slot_count (slot_counts js) s = length (filter (\<lambda>x. x = s) (map slot_detail js))"
    by (auto simp: slot_count_def filter_empty_conv)
  also have "\<dots> = count (mset (map slot_detail js)) s"
    unfolding count_mset_length_filter by (rule refl)
  finally show ?thesis .
qed

lemma count_concat_replicate:
  assumes "distinct (map fst m)"
  shows "count (mset (concat (map (\<lambda>(s, n). replicate (n - f s) s) m))) x =
    (case map_of m x of None \<Rightarrow> 0 | Some n \<Rightarrow> n - f x)"
  using assms
proof (induction m)
  case (Cons p m)
  obtain s n where p: "p = (s, n)" by force
  have "map_of m s = None" using Cons.prems p by (simp add: map_of_eq_None_iff)
  then show ?case using Cons p by (auto simp: count_mset split: option.splits)
qed simp

lemma mset_surplus:
  "mset (map de_detail (surplus key (slot_counts a) (slot_counts b))) =
     mset (map slot_detail a) - mset (map slot_detail b)"
proof (rule multiset_eqI)
  fix x
  have ds: "distinct (map fst (slot_counts a))"
    using group_by_distinct [of "\<lambda>s. s" "map slot_detail a"]
    by (simp add: slot_counts_def case_prod_beta o_def)
  have "map de_detail (surplus key (slot_counts a) (slot_counts b)) =
      concat (map (\<lambda>(s, n). replicate (n - slot_count (slot_counts b) s) s) (slot_counts a))"
    by (simp add: surplus_def map_concat o_def case_prod_unfold)
  then have "count (mset (map de_detail (surplus key (slot_counts a) (slot_counts b)))) x =
      slot_count (slot_counts a) x - slot_count (slot_counts b) x"
    by (simp add: count_concat_replicate [OF ds] slot_count_def [of "slot_counts a"] split: option.splits)
  then show "count (mset (map de_detail (surplus key (slot_counts a) (slot_counts b)))) x =
      count (mset (map slot_detail a) - mset (map slot_detail b)) x"
    by (simp add: slot_count_of)
qed

definition no_entries :: "section_diff \<Rightarrow> bool" where
  "no_entries sec \<longleftrightarrow> sd_added sec = [] \<and> sd_removed sec = [] \<and> sd_changed sec = []"

lemma no_entries_sort [simp]: "no_entries (sort_section_diff sec) = no_entries sec"
  by (simp add: no_entries_def sort_section_diff_def)

lemma surplus_empty_iff:
  "surplus key (slot_counts a) (slot_counts b) = [] \<longleftrightarrow>
     mset (map slot_detail a) \<subseteq># mset (map slot_detail b)"
proof -
  have "surplus key (slot_counts a) (slot_counts b) = [] \<longleftrightarrow>
      mset (map de_detail (surplus key (slot_counts a) (slot_counts b))) = {#}"
    by simp
  then show ?thesis by (simp only: mset_surplus Diff_eq_empty_iff_mset)
qed

lemma one_slot_empty_iff: "diff_one_slot key s d = [] \<longleftrightarrow> slot_detail s = slot_detail d"
  by (simp add: diff_one_slot_def slot_detail_iff)

lemma command_clean_iff:
  assumes "map_of dg (fst p) = Some dj" "snd p \<noteq> []" "dj \<noteq> []"
  shows "no_entries (commands.part dg p) \<longleftrightarrow>
    mset (map slot_detail (snd p)) = mset (map slot_detail dj)"
proof (cases "length (snd p) = 1 \<and> length dj = 1")
  case True
  then obtain s d where sd: "snd p = [s]" "dj = [d]"
    by (metis One_nat_def Suc_length_conv length_0_conv)
  show ?thesis using assms sd
    by (simp add: commands.part_def diff_command_def new_section_diff_def no_entries_def
        one_slot_empty_iff)
next
  case False
  have "commands.part dg p = new_section_diff
      \<lparr>sd_added := surplus (cron_key (snd p)) (slot_counts dj) (slot_counts (snd p)),
       sd_removed := surplus (cron_key (snd p)) (slot_counts (snd p)) (slot_counts dj)\<rparr>"
    using assms(1) False by (auto simp: commands.part_def diff_command_def new_section_diff_def Let_def)
  then have "no_entries (commands.part dg p) \<longleftrightarrow>
      mset (map slot_detail dj) \<subseteq># mset (map slot_detail (snd p)) \<and>
      mset (map slot_detail (snd p)) \<subseteq># mset (map slot_detail dj)"
    by (simp only: no_entries_def surplus_empty_iff section_diff.simps new_section_diff_def
        surplus_empty_iff simp_thms)
  then show ?thesis using subset_mset.antisym subset_mset.order_refl by auto
qed

definition jobs_with :: "string \<Rightarrow> cron_section \<Rightarrow> cron_job list" where
  "jobs_with h cs = filter (\<lambda>j. cj_sha j = h) (cs_jobs cs)"

lemma map_of_jobs:
  "map_of (group_by cj_sha (cs_jobs cs)) h = (if jobs_with h cs = [] then None else Some (jobs_with h cs))"
  by (auto simp: map_of_group_by jobs_with_def filter_empty_conv)

lemma mem_jobs:
  "p \<in> set (group_by cj_sha (cs_jobs cs)) \<longleftrightarrow> snd p = jobs_with (fst p) cs \<and> snd p \<noteq> []"
  using group_by_mem_iff [of "fst p" "snd p"] by (simp add: jobs_with_def)

lemma ball_jobs:
  "(\<forall>p\<in>set (group_by cj_sha (cs_jobs cs)). P p) \<longleftrightarrow>
     (\<forall>h. jobs_with h cs \<noteq> [] \<longrightarrow> P (h, jobs_with h cs))"
proof
  assume L: "\<forall>p\<in>set (group_by cj_sha (cs_jobs cs)). P p"
  show "\<forall>h. jobs_with h cs \<noteq> [] \<longrightarrow> P (h, jobs_with h cs)"
  proof (intro allI impI)
    fix h assume "jobs_with h cs \<noteq> []"
    then have "(h, jobs_with h cs) \<in> set (group_by cj_sha (cs_jobs cs))" by (simp add: mem_jobs)
    then show "P (h, jobs_with h cs)" using L by blast
  qed
next
  assume R: "\<forall>h. jobs_with h cs \<noteq> [] \<longrightarrow> P (h, jobs_with h cs)"
  show "\<forall>p\<in>set (group_by cj_sha (cs_jobs cs)). P p"
    using R by (metis mem_jobs prod.collapse)
qed

lemma cron_maps_clean_iff:
  "no_entries (diff_cron_maps (group_by cj_sha (cs_jobs s)) (group_by cj_sha (cs_jobs d))) \<longleftrightarrow>
     (\<forall>h. mset (map slot_detail (jobs_with h s)) = mset (map slot_detail (jobs_with h d)))"
    (is "no_entries (diff_cron_maps ?S ?D) \<longleftrightarrow> ?R")
proof -
  have "no_entries (diff_cron_maps ?S ?D) \<longleftrightarrow>
      (\<forall>p\<in>set ?D. map_of ?S (fst p) \<noteq> None) \<and>
      (\<forall>p\<in>set ?S. no_entries (commands.part ?D p))"
  proof -
    have ne: "cron_entries (snd p) \<noteq> []" if "p \<in> set ?D" for p
      using that by (auto simp: cron_entries_def mem_jobs)
    have "concat (map (cron_entries \<circ> snd) (filter (\<lambda>p. map_of ?S (fst p) = None) ?D)) = [] \<longleftrightarrow>
        (\<forall>p\<in>set ?D. map_of ?S (fst p) \<noteq> None)"
      using ne by auto
    then show ?thesis
      unfolding diff_cron_maps_def no_entries_sort
      by (auto simp: no_entries_def commands.fold_parts new_section_diff_def)
  qed
  also have "(\<forall>p\<in>set ?D. map_of ?S (fst p) \<noteq> None) \<longleftrightarrow>
      (\<forall>h. jobs_with h d \<noteq> [] \<longrightarrow> jobs_with h s \<noteq> [])"
    by (auto simp: ball_jobs map_of_jobs)
  also have "(\<forall>p\<in>set ?S. no_entries (commands.part ?D p)) \<longleftrightarrow>
      (\<forall>h. jobs_with h s \<noteq> [] \<longrightarrow> jobs_with h d \<noteq> [] \<and>
         mset (map slot_detail (jobs_with h s)) = mset (map slot_detail (jobs_with h d)))"
  proof -
    have "no_entries (commands.part ?D (h, jobs_with h s)) \<longleftrightarrow> jobs_with h d \<noteq> [] \<and>
        mset (map slot_detail (jobs_with h s)) = mset (map slot_detail (jobs_with h d))"
      if "jobs_with h s \<noteq> []" for h
    proof (cases "jobs_with h d = []")
      case True
      then show ?thesis using that
        by (simp add: commands.part_def diff_command_def map_of_jobs no_entries_def cron_entries_def)
    next
      case False
      then show ?thesis using command_clean_iff [of ?D "(h, jobs_with h s)"] that
        by (simp add: map_of_jobs)
    qed
    then show ?thesis by (auto simp: mem_jobs)
  qed
  also have "(\<forall>h. jobs_with h d \<noteq> [] \<longrightarrow> jobs_with h s \<noteq> []) \<and>
      (\<forall>h. jobs_with h s \<noteq> [] \<longrightarrow> jobs_with h d \<noteq> [] \<and>
         mset (map slot_detail (jobs_with h s)) = mset (map slot_detail (jobs_with h d))) \<longleftrightarrow> ?R"
    by (metis list.map_disc_iff mset_zero_iff)
  finally show ?thesis .
qed

section \<open>DNS values\<close>

lemma nul_not_itoa: "CHR 0x00 \<notin> set (itoa i)"
  using itoa_no_control [of "CHR 0x00" i] by (auto simp: byte_def)

lemma soh_not_itoa: "CHR 0x01 \<notin> set (itoa i)"
  using itoa_no_control [of "CHR 0x01" i] by (auto simp: byte_def)

lemma cut_at_nul:
  assumes "a @ nul @ s = b @ nul @ t" "CHR 0x00 \<notin> set a" "CHR 0x00 \<notin> set b"
  shows "a = b \<and> s = t"
proof -
  have "takeWhile (\<lambda>c. c \<noteq> CHR 0x00) (a @ nul @ s) = a"
    using assms(2) by (subst takeWhile_append2) (auto simp: nul_def)
  moreover have "takeWhile (\<lambda>c. c \<noteq> CHR 0x00) (b @ nul @ t) = b"
    using assms(3) by (subst takeWhile_append2) (auto simp: nul_def)
  ultimately have "a = b" using assms(1) by simp
  then show ?thesis using assms(1) by simp
qed

definition dns_content :: "dns_record \<Rightarrow> int \<times> int \<times> string" where
  "dns_content r = (dr_priority r, dr_ttl r, dr_value r)"

lemma dns_compare_iff: "dns_compare r = dns_compare r' \<longleftrightarrow> dns_content r = dns_content r'"
proof
  assume eq: "dns_compare r = dns_compare r'"
  have 1: "itoa (dr_priority r) = itoa (dr_priority r') \<and>
      itoa (dr_ttl r) @ nul @ dr_value r = itoa (dr_ttl r') @ nul @ dr_value r'"
    by (rule cut_at_nul) (use eq nul_not_itoa in \<open>simp_all add: dns_compare_def\<close>)
  have 2: "itoa (dr_ttl r) = itoa (dr_ttl r') \<and> dr_value r = dr_value r'"
    by (rule cut_at_nul [OF conjunct2 [OF 1]]) (simp_all add: nul_not_itoa)
  show "dns_content r = dns_content r'"
    using 1 2 by (simp add: dns_content_def itoa_inject)
qed (simp add: dns_content_def dns_compare_def)

lemma split_byte_join:
  assumes "xs \<noteq> []" "\<And>x. x \<in> set xs \<Longrightarrow> sep \<notin> set x"
  shows "split_byte sep (join [sep] xs) = xs"
  using assms
proof (induction xs rule: induct_list012)
  case (3 x y zs)
  have "split_byte sep (x @ sep # join [sep] (y # zs)) = x # split_byte sep (join [sep] (y # zs))"
    if "sep \<notin> set x" for x
    using that by (induction x) (auto split: list.splits simp: split_byte_nonempty)
  then show ?case using 3 by simp
qed (simp_all add: split_byte_no_sep)

lemma group_zone_records_lookup:
  "map_of (group_zone_records rs) k =
     (let g = filter (\<lambda>r. dr_type r @ '' '' @ dr_name r = k) rs in
      if g = [] then None else Some (sort_key fst (map canonical_dns_value g)))"
  by (auto simp: group_zone_records_def map_of_map map_of_group_by filter_empty_conv Let_def)

lemma compare_set_sorted:
  "compare_set (sort_key fst (map canonical_dns_value g)) = join [CHR 0x01] (sort (map dns_compare g))"
proof -
  have "map fst (sort_key fst (map canonical_dns_value g)) = sort (map fst (map canonical_dns_value g))"
    by (rule properties_for_sort [symmetric]) (simp_all add: sorted_sort_key multiset.map_comp)
  then show ?thesis by (simp add: compare_set_def canonical_dns_value_def o_def)
qed

lemma mset_map_eq_iff:
  "mset (map k xs) = mset (map k ys) \<longleftrightarrow>
     (\<forall>z. count (mset (map k xs)) (k z) = count (mset (map k ys)) (k z))"
proof
  assume R: "\<forall>z. count (mset (map k xs)) (k z) = count (mset (map k ys)) (k z)"
  show "mset (map k xs) = mset (map k ys)"
  proof (rule multiset_eqI)
    fix v
    show "count (mset (map k xs)) v = count (mset (map k ys)) v"
    proof (cases "v \<in> range k")
      case True
      then show ?thesis using R by auto
    next
      case False
      then have "v \<notin> set (map k xs)" "v \<notin> set (map k ys)" by auto
      then show ?thesis by (metis count_mset_0_iff)
    qed
  qed
qed simp

lemma mset_map_iff_factor:
  assumes "\<And>x y. f x = f y \<longleftrightarrow> h x = h y"
  shows "mset (map f xs) = mset (map f ys) \<longleftrightarrow> mset (map h xs) = mset (map h ys)"
proof -
  have "count (mset (map f zs)) (f x) = count (mset (map h zs)) (h x)" for zs x
    using assms by (induction zs) auto
  then show ?thesis unfolding mset_map_eq_iff [of f] mset_map_eq_iff [of h] by (simp only:)
qed

lemma compare_set_iff:
  assumes "g \<noteq> []" "h \<noteq> []" "\<And>r. r \<in> set g \<union> set h \<Longrightarrow> CHR 0x01 \<notin> set (dr_value r)"
  shows "compare_set (sort_key fst (map canonical_dns_value g)) =
      compare_set (sort_key fst (map canonical_dns_value h)) \<longleftrightarrow>
    mset (map dns_content g) = mset (map dns_content h)"
proof -
  have no_sep: "CHR 0x01 \<notin> set x" if "x \<in> set (sort (map dns_compare k))" "set k \<subseteq> set g \<union> set h" for x k
    using that assms(3) soh_not_itoa by (auto simp: dns_compare_def nul_def)
  have parts: "split_byte (CHR 0x01) (join [CHR 0x01] (sort (map dns_compare k))) = sort (map dns_compare k)"
    if "k \<noteq> []" "set k \<subseteq> set g \<union> set h" for k
  proof (rule split_byte_join)
    show "sort (map dns_compare k) \<noteq> []" using that(1) by simp
    show "CHR 0x01 \<notin> set x" if "x \<in> set (sort (map dns_compare k))" for x
      by (rule no_sep [OF that \<open>set k \<subseteq> set g \<union> set h\<close>])
  qed
  have "join [CHR 0x01] (sort (map dns_compare g)) = join [CHR 0x01] (sort (map dns_compare h)) \<longleftrightarrow>
      sort (map dns_compare g) = sort (map dns_compare h)"
  proof
    assume "join [CHR 0x01] (sort (map dns_compare g)) = join [CHR 0x01] (sort (map dns_compare h))"
    then have "split_byte (CHR 0x01) (join [CHR 0x01] (sort (map dns_compare g))) =
        split_byte (CHR 0x01) (join [CHR 0x01] (sort (map dns_compare h)))" by (rule arg_cong)
    then show "sort (map dns_compare g) = sort (map dns_compare h)"
      by (simp only: parts [OF assms(1) Un_upper1] parts [OF assms(2) Un_upper2])
  qed (rule arg_cong)
  also have "\<dots> \<longleftrightarrow> mset (map dns_compare g) = mset (map dns_compare h)"
  proof
    assume "sort (map dns_compare g) = sort (map dns_compare h)"
    then have "mset (sort (map dns_compare g)) = mset (sort (map dns_compare h))" by (rule arg_cong)
    then show "mset (map dns_compare g) = mset (map dns_compare h)" by (simp only: mset_sort)
  qed (rule sort_order_irrelevant)
  also have "\<dots> \<longleftrightarrow> mset (map dns_content g) = mset (map dns_content h)"
    by (rule mset_map_iff_factor) (rule dns_compare_iff)
  finally show ?thesis by (simp only: compare_set_sorted)
qed

definition rrset :: "dns_record list \<Rightarrow> string \<Rightarrow> dns_record list" where
  "rrset rs k = filter (\<lambda>r. dr_type r @ '' '' @ dr_name r = k) rs"

definition same_content :: "dns_record list \<Rightarrow> dns_record list \<Rightarrow> bool" where
  "same_content a b \<longleftrightarrow> (\<forall>k. mset (map dns_content (rrset a k)) = mset (map dns_content (rrset b k)))"

lemma groups_lookup:
  "map_of (group_zone_records rs) k =
     (if rrset rs k = [] then None else Some (sort_key fst (map canonical_dns_value (rrset rs k))))"
  by (simp add: group_zone_records_lookup rrset_def Let_def)

lemma groups_filter_empty:
  "filter (\<lambda>(k, vs). map_of (group_zone_records b) k = None) (group_zone_records a) = [] \<longleftrightarrow>
     (\<forall>k. rrset a k \<noteq> [] \<longrightarrow> rrset b k \<noteq> [])"
proof -
  have "filter (\<lambda>(k, vs). map_of (group_zone_records b) k = None) (group_zone_records a) = [] \<longleftrightarrow>
      (\<forall>k\<in>fst ` set (group_zone_records a). map_of (group_zone_records b) k \<noteq> None)"
    by (auto simp: filter_empty_conv)
  also have "\<dots> \<longleftrightarrow> (\<forall>k. map_of (group_zone_records a) k \<noteq> None \<longrightarrow> map_of (group_zone_records b) k \<noteq> None)"
    by (simp only: map_of_eq_None_iff) blast
  finally show ?thesis by (simp add: groups_lookup)
qed

lemma zone_records_clean_iff:
  assumes "\<And>r. r \<in> set a \<union> set b \<Longrightarrow> CHR 0x01 \<notin> set (dr_value r)"
  shows "no_entries (diff_zone_records zone a b new_section_diff) \<longleftrightarrow> same_content a b"
proof -
  let ?r = "diff_zone_records zone a b new_section_diff"
  have eq: "compare_set (sort_key fst (map canonical_dns_value (rrset a k))) =
      compare_set (sort_key fst (map canonical_dns_value (rrset b k))) \<longleftrightarrow>
      mset (map dns_content (rrset a k)) = mset (map dns_content (rrset b k))"
    if "rrset a k \<noteq> []" "rrset b k \<noteq> []" for k
    by (rule compare_set_iff [OF that]) (use assms in \<open>auto simp: rrset_def\<close>)
  have "sd_changed ?r = [] \<longleftrightarrow> (\<forall>c. c \<notin> set (sd_changed ?r))"
    by (metis ex_in_conv set_empty)
  also have "\<dots> \<longleftrightarrow> (\<forall>k. rrset a k \<noteq> [] \<longrightarrow> rrset b k \<noteq> [] \<longrightarrow>
      mset (map dns_content (rrset a k)) = mset (map dns_content (rrset b k)))"
    using eq by (auto simp: diff_zone_records_def mem_group_changes [OF distinct_group_zone_records] groups_lookup)
  finally have ch: "sd_changed ?r = [] \<longleftrightarrow> (\<forall>k. rrset a k \<noteq> [] \<longrightarrow> rrset b k \<noteq> [] \<longrightarrow>
      mset (map dns_content (rrset a k)) = mset (map dns_content (rrset b k)))" .
  have "sd_added ?r = [] \<longleftrightarrow> (\<forall>k. rrset b k \<noteq> [] \<longrightarrow> rrset a k \<noteq> [])"
    and "sd_removed ?r = [] \<longleftrightarrow> (\<forall>k. rrset a k \<noteq> [] \<longrightarrow> rrset b k \<noteq> [])"
    using groups_filter_empty by (simp_all add: diff_zone_records_def diff_zone_groups_def new_section_diff_def)
  then have "no_entries ?r \<longleftrightarrow> (\<forall>k. rrset b k \<noteq> [] \<longrightarrow> rrset a k \<noteq> []) \<and>
      (\<forall>k. rrset a k \<noteq> [] \<longrightarrow> rrset b k \<noteq> []) \<and>
      (\<forall>k. rrset a k \<noteq> [] \<longrightarrow> rrset b k \<noteq> [] \<longrightarrow>
        mset (map dns_content (rrset a k)) = mset (map dns_content (rrset b k)))"
    by (simp only: no_entries_def ch)
  also have "\<dots> \<longleftrightarrow> same_content a b"
  proof -
    have "(rrset b k \<noteq> [] \<longrightarrow> rrset a k \<noteq> []) \<and> (rrset a k \<noteq> [] \<longrightarrow> rrset b k \<noteq> []) \<and>
        (rrset a k \<noteq> [] \<longrightarrow> rrset b k \<noteq> [] \<longrightarrow>
          mset (map dns_content (rrset a k)) = mset (map dns_content (rrset b k))) \<longleftrightarrow>
        mset (map dns_content (rrset a k)) = mset (map dns_content (rrset b k))" for k
      by (cases "rrset a k = []"; cases "rrset b k = []") simp_all
    then show ?thesis unfolding same_content_def by blast
  qed
  finally show ?thesis .
qed

text \<open>The zone a name stands for: the last one of that name.\<close>

definition zone_named :: "dns_section \<Rightarrow> string \<Rightarrow> dns_zone option" where
  "zone_named sec n = find (\<lambda>z. dz_zone z = n) (rev (dns_zones sec))"

lemma find_append: "find P (xs @ ys) = (case find P xs of None \<Rightarrow> find P ys | Some x \<Rightarrow> Some x)"
  by (induction xs) auto

lemma map_of_index_zones: "map_of (index_zones (dns_zones sec)) n = zone_named sec n"
proof -
  have "map_of (index_zones zs) n = find (\<lambda>z. dz_zone z = n) (rev zs)" for zs
    by (induction zs rule: rev_induct) (auto simp: index_zones_def update_conv')
  then show ?thesis by (simp add: zone_named_def)
qed

lemma index_zones_distinct: "distinct (map fst (index_zones zs))"
  by (induction zs rule: rev_induct) (simp_all add: index_zones_def distinct_update)

lemma zone_named_mem: "zone_named sec n = Some z \<Longrightarrow> z \<in> set (dns_zones sec) \<and> dz_zone z = n"
  by (auto simp: zone_named_def find_Some_iff rev_nth)

section \<open>Clean sections\<close>

definition zones_agree :: "dns_section \<Rightarrow> dns_section \<Rightarrow> string \<Rightarrow> bool" where
  "zones_agree s d n =
     (case (zone_named s n, zone_named d n) of
        (None, None) \<Rightarrow> True
      | (Some a, Some b) \<Rightarrow> dz_available a \<and> dz_available b \<and> same_content (dz_records a) (dz_records b)
      | _ \<Rightarrow> False)"

definition no_framing_byte :: "dns_section \<Rightarrow> bool" where
  "no_framing_byte sec \<longleftrightarrow> (\<forall>z\<in>set (dns_zones sec). \<forall>r\<in>set (dz_records z). CHR 0x01 \<notin> set (dr_value r))"

definition clean :: "section_diff \<Rightarrow> bool" where
  "clean sec \<longleftrightarrow> no_entries sec \<and> sd_skipped sec = []"

lemma clean_sort [simp]: "clean (sort_section_diff sec) = clean sec"
  by (simp add: clean_def) (simp add: sort_section_diff_def)

lemma zone_part_clean_iff:
  assumes "no_framing_byte s" "no_framing_byte d" "zone_named s n = Some a"
  shows "clean (zones.part (index_zones (dns_zones d)) (n, a)) \<longleftrightarrow> zones_agree s d n"
proof (cases "zone_named d n")
  case None
  then show ?thesis using assms(3)
    by (simp add: zones.part_def diff_dns_zone_def map_of_index_zones clean_def no_entries_def
        zones_agree_def)
next
  case (Some b)
  show ?thesis
  proof (cases "dz_available a \<and> dz_available b")
    case True
    have ctrl: "CHR 0x01 \<notin> set (dr_value r)" if "r \<in> set (dz_records a) \<union> set (dz_records b)" for r
      using that assms(1,2) zone_named_mem [OF assms(3)] zone_named_mem [OF Some]
      unfolding no_framing_byte_def by blast
    have "zones.part (index_zones (dns_zones d)) (n, a) =
        diff_zone_records n (dz_records a) (dz_records b) new_section_diff"
      using True Some by (simp add: zones.part_def diff_dns_zone_def map_of_index_zones)
    moreover have "sd_skipped (diff_zone_records n (dz_records a) (dz_records b) new_section_diff) = []"
      by (simp add: diff_zone_records_def diff_zone_groups_def new_section_diff_def)
    ultimately show ?thesis
      using True Some assms(3) zone_records_clean_iff [OF ctrl]
      by (simp add: clean_def zones_agree_def)
  next
    case False
    then show ?thesis using Some assms(3)
      by (auto simp: zones.part_def diff_dns_zone_def map_of_index_zones clean_def zones_agree_def
          new_section_diff_def)
  qed
qed

lemma dns_maps_clean_iff:
  assumes "no_framing_byte s" "no_framing_byte d"
  shows "clean (diff_dns_maps (index_zones (dns_zones s)) (index_zones (dns_zones d))) \<longleftrightarrow>
    (\<forall>n. zones_agree s d n)"
proof -
  let ?S = "index_zones (dns_zones s)" and ?D = "index_zones (dns_zones d)"
  have "clean (diff_dns_maps ?S ?D) \<longleftrightarrow>
      (\<forall>p\<in>set ?D. map_of ?S (fst p) \<noteq> None) \<and> (\<forall>p\<in>set ?S. clean (zones.part ?D p))"
    unfolding diff_dns_maps_def clean_sort
    by (auto simp: clean_def no_entries_def zones.fold_parts new_section_diff_def filter_empty_conv)
  also have "(\<forall>p\<in>set ?D. map_of ?S (fst p) \<noteq> None) \<longleftrightarrow>
      (\<forall>n. zone_named d n \<noteq> None \<longrightarrow> zone_named s n \<noteq> None)"
  proof -
    have "(\<forall>p\<in>set ?D. map_of ?S (fst p) \<noteq> None) \<longleftrightarrow> (\<forall>n\<in>fst ` set ?D. map_of ?S n \<noteq> None)" by simp
    also have "\<dots> \<longleftrightarrow> (\<forall>n. map_of ?D n \<noteq> None \<longrightarrow> map_of ?S n \<noteq> None)"
      by (simp only: map_of_eq_None_iff) blast
    finally show ?thesis by (simp add: map_of_index_zones)
  qed
  also have "(\<forall>p\<in>set ?S. clean (zones.part ?D p)) \<longleftrightarrow>
      (\<forall>n a. zone_named s n = Some a \<longrightarrow> zones_agree s d n)"
  proof -
    have "p \<in> set ?S \<longleftrightarrow> zone_named s (fst p) = Some (snd p)" for p
      using map_of_eq_Some_iff [OF index_zones_distinct, of "dns_zones s" "fst p" "snd p"]
      by (simp add: map_of_index_zones)
    then show ?thesis using zone_part_clean_iff [OF assms]
      by (metis fst_conv prod.collapse snd_conv)
  qed
  also have "(\<forall>n. zone_named d n \<noteq> None \<longrightarrow> zone_named s n \<noteq> None) \<and>
      (\<forall>n a. zone_named s n = Some a \<longrightarrow> zones_agree s d n) \<longleftrightarrow> (\<forall>n. zones_agree s d n)"
  proof -
    have "(zone_named d n \<noteq> None \<longrightarrow> zone_named s n \<noteq> None) \<and>
        (\<forall>a. zone_named s n = Some a \<longrightarrow> zones_agree s d n) \<longleftrightarrow> zones_agree s d n" for n
      by (cases "zone_named s n"; cases "zone_named d n") (simp_all add: zones_agree_def)
    then show ?thesis by blast
  qed
  finally show ?thesis .
qed

section \<open>Properties\<close>

text \<open>C23. The DNS section of a comparison is clean (nothing added, removed, changed or skipped)
  exactly when both sections are available and hold the same zones, all available, in which every
  (type, name) group has the same records (priority, TTL, value) the same number of times, in any
  order. No value may contain the byte 0x01, with which the code joins a group.\<close>

theorem dns_clean_iff:
  assumes "no_framing_byte s" "no_framing_byte d"
  shows "clean (diff_dns s d) \<longleftrightarrow>
    cfg_available (dns_cfg s) \<and> cfg_available (dns_cfg d) \<and> (\<forall>n. zones_agree s d n)"
  using dns_maps_clean_iff [OF assms]
  by (auto simp: diff_dns_def skip_unavailable_def clean_def new_section_diff_def)

definition txt_record :: "string \<Rightarrow> dns_record" where
  "txt_record v = \<lparr>dr_type = ''TXT'', dr_name = ''@'', dr_ttl = 300, dr_value = v, dr_priority = 0,
     dr_exchange = [], dr_address = [], dr_target = [], dr_txtdata = v, dr_class = ''IN'', dr_line = 0,
     dr_raw = []\<rparr>"

definition one_zone :: "dns_record list \<Rightarrow> dns_section" where
  "one_zone rs =
     \<lparr>dns_cfg = \<lparr>cfg_available = True, cfg_method = [], cfg_source_function = [], cfg_warnings = []\<rparr>,
      dns_zones = [\<lparr>dz_available = True, dz_zone = ''a.it'', dz_method = [], dz_source_function = [],
        dz_records = rs, dz_warnings = [], dz_errors = [], dz_raw_included = False\<rparr>]\<rparr>"

lemma one_zone_agree: "zones_agree (one_zone a) (one_zone b) ''a.it'' \<longleftrightarrow> same_content a b"
  by (simp add: zones_agree_def zone_named_def one_zone_def)

theorem dns_clean_iff_witness:
  "\<not> clean (diff_dns (one_zone [txt_record ''a'', txt_record ''b'']) (one_zone [txt_record ''a'']))"
proof -
  have "\<not> zones_agree (one_zone [txt_record ''a'', txt_record ''b'']) (one_zone [txt_record ''a'']) ''a.it''"
  proof -
    have "mset (map dns_content (rrset [txt_record ''a'', txt_record ''b''] ''TXT @'')) \<noteq>
        mset (map dns_content (rrset [txt_record ''a''] ''TXT @''))"
      by (simp add: rrset_def txt_record_def)
    then show ?thesis unfolding one_zone_agree same_content_def by blast
  qed
  moreover have "no_framing_byte (one_zone [txt_record ''a'', txt_record ''b''])"
    and "no_framing_byte (one_zone [txt_record ''a''])"
    by (simp_all add: no_framing_byte_def one_zone_def txt_record_def)
  ultimately show ?thesis using dns_clean_iff by blast
qed

text \<open>Without that condition a difference can disappear: the comparison that the comment calls
  unambiguous joins the framed records with the byte 0x01, so one record holding that byte compares
  equal to two records.\<close>

theorem framing_byte_hides_difference:
  "\<exists>s d. clean (diff_dns s d) \<and> \<not> zones_agree s d ''a.it''"
proof (intro exI conjI)
  let ?a = "[txt_record (''a'' @ [CHR 0x01] @ ''0'' @ nul @ ''300'' @ nul @ ''b'')]"
  let ?b = "[txt_record ''a'', txt_record ''b'']"
  show "clean (diff_dns (one_zone ?a) (one_zone ?b))"
    by code_simp
  have "mset (map dns_content (rrset ?a ''TXT @'')) \<noteq> mset (map dns_content (rrset ?b ''TXT @''))"
    by (simp add: rrset_def txt_record_def)
  then show "\<not> zones_agree (one_zone ?a) (one_zone ?b) ''a.it''"
    unfolding one_zone_agree same_content_def by blast
qed

text \<open>The cron section of a comparison is clean exactly when both sections are available and
  every command (by its hash) has the same slots (schedule and enabled flag) the same number of
  times on both sides.\<close>

theorem cron_clean_iff:
  "clean (diff_cron s d) \<longleftrightarrow> cs_available s \<and> cs_available d \<and>
     (\<forall>h. mset (map slot_detail (jobs_with h s)) = mset (map slot_detail (jobs_with h d)))"
proof -
  have "sd_skipped (diff_cron_maps (group_by cj_sha (cs_jobs s)) (group_by cj_sha (cs_jobs d))) = []"
  proof -
    have "sd_skipped (commands.part dg p) = []" for dg p
      by (cases "map_of dg (fst p)")
        (auto simp: commands.part_def diff_command_def new_section_diff_def Let_def)
    then show ?thesis
      by (simp add: diff_cron_maps_def sort_section_diff_def commands.fold_parts new_section_diff_def)
  qed
  then show ?thesis
    using cron_maps_clean_iff [of s d]
    by (auto simp: diff_cron_def skip_unavailable_def clean_def new_section_diff_def)
qed

text \<open>A keyed section reports exactly what it should: an added entry for every key only the
  destination has, a removed one for every key only the source has (with the detail of the last
  item of that key), and one change per compared field whose value differs; nothing twice.\<close>

theorem keyed_diff_exact:
  "(e \<in> set (sd_added (diff_keyed s d)) \<longleftrightarrow>
     (\<exists>it. last_item d (de_key e) = Some it \<and> de_detail e = ki_detail it) \<and>
     last_item s (de_key e) = None) \<and>
   (e \<in> set (sd_removed (diff_keyed s d)) \<longleftrightarrow>
     (\<exists>it. last_item s (de_key e) = Some it \<and> de_detail e = ki_detail it) \<and>
     last_item d (de_key e) = None) \<and>
   (c \<in> set (sd_changed (diff_keyed s d)) \<longleftrightarrow>
     (\<exists>it other. last_item s (fc_key c) = Some it \<and> last_item d (fc_key c) = Some other \<and>
        fc_field c \<in> fst ` set (ki_fields it) \<and>
        fc_source c = field_of it (fc_field c) \<and> fc_destination c = field_of other (fc_field c) \<and>
        fc_source c \<noteq> fc_destination c)) \<and>
   distinct (sd_added (diff_keyed s d)) \<and> distinct (sd_removed (diff_keyed s d))"
  by (simp_all add: diff_keyed_parts mem_only_in mem_key_changes [OF index_items_distinct]
      mem_changed_fields map_of_index_items distinct_only_in index_items_distinct)


lemma no_entries_keyed_self: "no_entries (diff_keyed s s)"
proof -
  have "only_in (index_items s) (index_items s) = []"
    by (auto simp: only_in_def filter_empty_conv mem_index_items map_of_index_items)
  moreover have "key_changes (index_items s) (index_items s) = []"
  proof -
    have "c \<notin> set (key_changes (index_items s) (index_items s))" for c
      unfolding mem_key_changes [OF index_items_distinct] mem_changed_fields by auto
    then show ?thesis by (metis ex_in_conv set_empty)
  qed
  ultimately show ?thesis by (simp add: no_entries_def diff_keyed_parts)
qed

lemma no_entries_new [simp]: "no_entries (new_section_diff\<lparr>sd_skipped := x\<rparr>)" "no_entries new_section_diff"
  by (simp_all add: no_entries_def new_section_diff_def)

lemma no_entries_config_self: "no_entries (diff_config_keyed n a b s s)"
  by (simp add: diff_config_keyed_def skip_unavailable_def no_entries_keyed_self)

lemma no_entries_zone_self: "no_entries (diff_zone_groups z g g new_section_diff)" if "distinct (map fst g)"
proof -
  have "filter (\<lambda>(k, vs). map_of g k = None) g = []"
    by (auto simp: filter_empty_conv map_of_eq_None_iff intro: rev_image_eqI)
  moreover have "sd_changed (diff_zone_groups z g g new_section_diff) = []"
  proof -
    have "c \<notin> set (sd_changed (diff_zone_groups z g g new_section_diff))" for c
      unfolding mem_group_changes [OF that] by auto
    then show ?thesis by (metis ex_in_conv set_empty)
  qed
  ultimately show ?thesis
    by (simp add: no_entries_def diff_zone_groups_def new_section_diff_def)
qed

lemma no_entries_dns_self: "no_entries (diff_dns s s)"
proof -
  let ?S = "index_zones (dns_zones s)"
  have part: "no_entries (zones.part ?S p)" if "p \<in> set ?S" for p
  proof -
    have "map_of ?S (fst p) = Some (snd p)"
      using that index_zones_distinct by (metis map_of_eq_Some_iff prod.collapse)
    then show ?thesis
      by (simp add: zones.part_def diff_dns_zone_def diff_zone_records_def
          no_entries_zone_self [OF distinct_group_zone_records])
  qed
  have "filter (\<lambda>p. map_of ?S (fst p) = None) ?S = []"
    by (auto simp: filter_empty_conv map_of_eq_None_iff)
  then have "no_entries (diff_dns_maps ?S ?S)"
    unfolding diff_dns_maps_def no_entries_sort using part
    by (simp add: no_entries_def zones.fold_parts new_section_diff_def)
  then show ?thesis by (simp add: diff_dns_def skip_unavailable_def)
qed

lemma no_entries_cron_self: "no_entries (diff_cron s s)"
  using cron_maps_clean_iff [of s s] by (simp add: diff_cron_def skip_unavailable_def)

text \<open>Comparing an inventory with itself reports no difference in any of the fourteen sections,
  whatever is unavailable, duplicated or out of order in it.\<close>

theorem self_comparison_is_empty:
  "map fst (id_sections (diff_inventories x x)) = diff_section_names \<and>
   list_all (no_entries \<circ> snd) (id_sections (diff_inventories x x)) \<and>
   ds_added (id_summary (diff_inventories x x)) = 0 \<and>
   ds_removed (id_summary (diff_inventories x x)) = 0 \<and>
   ds_changed (id_summary (diff_inventories x x)) = 0"
proof -
  have all: "list_all (no_entries \<circ> snd) (diff_sections x x)"
    by (simp add: diff_sections_def no_entries_keyed_self no_entries_config_self
        no_entries_dns_self no_entries_cron_self)
  have zero: "sum_list (map (length \<circ> f) (map snd secs)) = 0"
    if "list_all (no_entries \<circ> snd) secs" "\<And>sec. no_entries sec \<Longrightarrow> f sec = []"
    for f :: "section_diff \<Rightarrow> 'b list" and secs :: "(string \<times> section_diff) list"
    using that by (induction secs) auto
  have "map fst (diff_sections x x) = diff_section_names"
    by (simp add: diff_sections_def diff_section_names_def)
  then show ?thesis
    using all zero [OF all, of sd_added] zero [OF all, of sd_removed] zero [OF all, of sd_changed]
    by (simp add: diff_inventories_def Let_def no_entries_def)
qed

definition mirrored :: "section_diff \<Rightarrow> section_diff \<Rightarrow> bool" where
  "mirrored a b \<longleftrightarrow> sd_added b = sd_removed a \<and> sd_removed b = sd_added a \<and>
     sd_changed b = map flip_change (sd_changed a)"

lemma keyed_mirrored:
  assumes "distinct ns" "\<And>e. map fst (ki_fields (item e)) = ns"
  shows "mirrored (diff_keyed (map item s) (map item d)) (diff_keyed (map item d) (map item s))"
    and "mirrored (diff_config_keyed n a b (map item s) (map item d))
      (diff_config_keyed n b a (map item d) (map item s))"
proof -
  have sf: "same_fields (map item s) (map item d)"
    by (rule same_fields_map [OF assms])
  show "mirrored (diff_keyed (map item s) (map item d)) (diff_keyed (map item d) (map item s))"
    using diff_keyed_mirror [OF sf] by (simp add: mirrored_def)
  show "mirrored (diff_config_keyed n a b (map item s) (map item d))
      (diff_config_keyed n b a (map item d) (map item s))"
    using diff_config_keyed_mirror [OF sf, of n b a] by (simp add: mirrored_def)
qed

definition section_of :: "inventory_diff \<Rightarrow> string \<Rightarrow> section_diff" where
  "section_of r n = (case map_of (id_sections r) n of None \<Rightarrow> new_section_diff | Some sec \<Rightarrow> sec)"

definition keyed_section_names :: "string list" where
  "keyed_section_names = filter (\<lambda>n. n \<noteq> ''dns'' \<and> n \<noteq> ''cron'') diff_section_names"

text \<open>In the twelve keyed sections the two directions of a comparison mirror each other: what
  is added one way is removed the other way, and a change lists the same key and field with its two
  values exchanged.\<close>

theorem directions_mirror:
  "list_all (\<lambda>n. mirrored (section_of (diff_inventories s d) n) (section_of (diff_inventories d s) n))
     keyed_section_names"
proof -
  note m = keyed_mirrored [where item = domain_item and ns = "[''type'', ''document_root'']"]
    keyed_mirrored [where item = mailbox_item and ns = "[]"]
    keyed_mirrored [where item = database_item and ns = "[''users'']"]
    keyed_mirrored [where item = forwarder_item and ns = "[]"]
    keyed_mirrored [where item = autoresponder_item and ns = "[''subject'', ''interval'', ''from'',
      ''body'', ''is_html'', ''start'', ''stop'', ''charset'', ''body_collected'']"]
    keyed_mirrored [where item = ftp_item and ns = "[''type'', ''dir'']"]
    keyed_mirrored [where item = ssl_item and
      ns = "[''issuer'', ''validation_type'', ''is_self_signed'', ''valid_until'']"]
    keyed_mirrored [where item = php_item and ns = "[''version'']"]
    keyed_mirrored [where item = email_routing_item and ns = "[''routing'', ''always_accept'']"]
    keyed_mirrored [where item = default_address_item and ns = "[''default_address'']"]
    keyed_mirrored [where item = email_filter_item and ns = "[''enabled'', ''rule_count'', ''action_count'']"]
    keyed_mirrored [where item = redirect_item and
      ns = "[''destination'', ''kind'', ''type'', ''status_code'']"]
  have items [simp]:
    "map fst (ki_fields (domain_item a)) = [''type'', ''document_root'']"
    "map fst (ki_fields (mailbox_item b)) = []"
    "map fst (ki_fields (database_item c)) = [''users'']"
    "map fst (ki_fields (forwarder_item e)) = []"
    "map fst (ki_fields (autoresponder_item f)) = [''subject'', ''interval'', ''from'',
      ''body'', ''is_html'', ''start'', ''stop'', ''charset'', ''body_collected'']"
    "map fst (ki_fields (ftp_item g)) = [''type'', ''dir'']"
    "map fst (ki_fields (ssl_item h)) = [''issuer'', ''validation_type'', ''is_self_signed'', ''valid_until'']"
    "map fst (ki_fields (php_item i)) = [''version'']"
    "map fst (ki_fields (email_routing_item j)) = [''routing'', ''always_accept'']"
    "map fst (ki_fields (default_address_item k)) = [''default_address'']"
    "map fst (ki_fields (email_filter_item l)) = [''enabled'', ''rule_count'', ''action_count'']"
    "map fst (ki_fields (redirect_item o')) = [''destination'', ''kind'', ''type'', ''status_code'']"
    for a b c e f g h i j k l o'
    by (simp_all add: domain_item_def mailbox_item_def database_item_def forwarder_item_def
        autoresponder_item_def ftp_item_def ssl_item_def php_item_def email_routing_item_def
        default_address_item_def email_filter_item_def redirect_item_def)
  show ?thesis
    by (simp add: keyed_section_names_def diff_section_names_def section_of_def diff_inventories_def
        Let_def diff_sections_def m)
qed

text \<open>The order in which Go visits the maps does not reach the report. For the DNS section this
  needs zone names without a blank, for the cron section that one redacted command stands for one
  hash: otherwise two changes can have the same sort key.\<close>

theorem visiting_order_irrelevant:
  assumes "same_map s s'" "same_map d d'"
    and "same_map zs zs'" "same_map zd zd'" "\<And>p. p \<in> set zs \<Longrightarrow> CHR '' '' \<notin> set (fst p)"
    and "same_map gs gs'" "same_map gd gd'" "redaction_faithful gs"
  shows "diff_keyed_maps s d ws = diff_keyed_maps s' d' ws \<and>
    diff_dns_maps zs zd = diff_dns_maps zs' zd' \<and>
    diff_cron_maps gs gd = diff_cron_maps gs' gd'"
  using diff_keyed_maps_order [OF assms(1,2)] diff_dns_maps_order [OF assms(3,4,5)]
    diff_cron_maps_order [OF assms(6,7,8)] by blast

definition demo_job :: "string \<Rightarrow> cron_job" where
  "demo_job c = \<lparr>cj_type = ''schedule'', cj_minute = ''0'', cj_hour = ''5'', cj_day_of_month = ''*'',
     cj_month = ''*'', cj_day_of_week = ''*'', cj_macro = [], cj_redacted = c, cj_clear = c, cj_sha = c,
     cj_raw_sha = c, cj_raw_line = c, cj_enabled = True, cj_line = 1, cj_warnings = [],
     cj_collected = True\<rparr>"

theorem visiting_order_irrelevant_witness:
  "let it = (\<lambda>k v. \<lparr>ki_key = k, ki_detail = [], ki_fields = [(''f'', v)]\<rparr>);
       z = hd (dns_zones (one_zone []));
       s = [(''a'', it ''a'' ''1''), (''b'', it ''b'' ''2'')]; zs = [(''x'', z), (''y'', z)];
       gs = [(''p'', [demo_job ''p'']), (''q'', [demo_job ''q''])]
   in diff_keyed_maps s (rev s) [] = diff_keyed_maps (rev s) s [] \<and>
      diff_dns_maps zs [] = diff_dns_maps (rev zs) [] \<and>
      diff_cron_maps gs [] = diff_cron_maps (rev gs) []"
  unfolding Let_def
  by (rule visiting_order_irrelevant) (auto simp: same_map_def redaction_faithful_def cron_key_def demo_job_def)

end
