(* ===== verification/NetIP.thy ===== *)
theory NetIP
  imports GoStrings
begin

text \<open>
  The part of Go's \<open>net/netip\<close> the DNS plan rests on: \<open>ParseAddr\<close> and \<open>Addr.String\<close>, and
  \<open>canonIPString\<close> of \<open>internal/accountinventory/dnsplan.go\<close>, which compares addresses by identity
  rather than by spelling. An address is its bytes; an IPv6 address has a zone.
\<close>

datatype addr =
    IPv4 "nat list"
  | IPv6 "nat list" string

section \<open>Parsing\<close>

text \<open>
  \<open>parseIPv4Fields\<close>: the value and the number of digits of the current field, the fields read so
  far, and whether the character before was a dot (or there was none).
\<close>

fun ipv4_fields :: "string \<Rightarrow> nat \<Rightarrow> nat \<Rightarrow> nat list \<Rightarrow> bool \<Rightarrow> nat list option" where
  "ipv4_fields [] val n fs at_start =
     (if length fs < 3 then None else Some (fs @ [val]))"
| "ipv4_fields (c # s) val n fs at_start =
     (if is_digit c then
        (if n = 1 \<and> val = 0 then None
         else if val * 10 + (byte c - 48) > 255 then None
         else ipv4_fields s (val * 10 + (byte c - 48)) (n + 1) fs False)
      else if c = CHR ''.'' then
        (if at_start \<or> s = [] then None
         else if length fs = 3 then None
         else ipv4_fields s 0 0 (fs @ [val]) True)
      else None)"

definition parse_ipv4 :: "string \<Rightarrow> nat list option" where
  "parse_ipv4 s = ipv4_fields s 0 0 [] True"

definition is_hex :: "char \<Rightarrow> bool" where
  "is_hex c \<longleftrightarrow> is_digit c \<or> (97 \<le> byte c \<and> byte c \<le> 102) \<or> (65 \<le> byte c \<and> byte c \<le> 70)"

definition hex_value :: "char \<Rightarrow> nat" where
  "hex_value c =
     (if is_digit c then byte c - 48 else if 97 \<le> byte c then byte c - 87 else byte c - 55)"

definition hex_number :: "string \<Rightarrow> nat" where
  "hex_number s = foldl (\<lambda>v c. 16 * v + hex_value c) 0 s"

text \<open>
  The loop of \<open>parseIPv6\<close>: the text left, the bytes written so far and the position of the
  ellipsis. The result is the text left over, the bytes and the ellipsis. Every round writes two
  bytes, so nine rounds are enough for sixteen.
\<close>

fun ipv6_loop :: "nat \<Rightarrow> string \<Rightarrow> nat list \<Rightarrow> nat option \<Rightarrow> (string \<times> nat list \<times> nat option) option" where
  "ipv6_loop 0 s ip ell = None"
| "ipv6_loop (Suc k) s ip ell =
     (if length ip \<ge> 16 then Some (s, ip, ell)
      else
       (let hs = takeWhile is_hex s; rest = dropWhile is_hex s in
        if hs = [] \<or> length hs > 4 then None
        else if rest \<noteq> [] \<and> hd rest = CHR ''.'' then
          (if ell = None \<and> length ip \<noteq> 12 then None
           else if length ip + 4 > 16 then None
           else (case parse_ipv4 s of None \<Rightarrow> None | Some fs \<Rightarrow> Some ([], ip @ fs, ell)))
        else
         (let ip2 = ip @ [hex_number hs div 256, hex_number hs mod 256] in
          if rest = [] then Some ([], ip2, ell)
          else if hd rest \<noteq> CHR '':'' then None
          else if length rest = 1 then None
          else
           (let s1 = tl rest in
            if hd s1 = CHR '':'' then
              (if ell \<noteq> None then None
               else if length s1 = 1 then Some ([], ip2, Some (length ip2))
               else ipv6_loop k (tl s1) ip2 (Some (length ip2)))
            else ipv6_loop k s1 ip2 ell))))"

definition parse_ipv6 :: "string \<Rightarrow> addr option" where
  "parse_ipv6 inp =
     (let (s, zone, bad) =
        (case cut_byte CHR ''%'' inp of
           None \<Rightarrow> (inp, [], False)
         | Some (a, z) \<Rightarrow> (a, z, z = []))
      in if bad then None
      else
       (let lead = has_prefix s ''::'';
            s1 = (if lead then drop 2 s else s);
            ell0 = (if lead then Some 0 else None)
        in if lead \<and> s1 = [] then Some (IPv6 (replicate 16 0) zone)
        else
         (case ipv6_loop 9 s1 [] ell0 of
            None \<Rightarrow> None
          | Some (left, ip, ell) \<Rightarrow>
              if left \<noteq> [] then None
              else if length ip < 16 then
                (case ell of
                   None \<Rightarrow> None
                 | Some e \<Rightarrow> Some (IPv6 (take e ip @ replicate (16 - length ip) 0 @ drop e ip) zone))
              else if ell \<noteq> None then None
              else Some (IPv6 ip zone))))"

definition parse_addr :: "string \<Rightarrow> addr option" where
  "parse_addr s =
     (case find (\<lambda>c. c = CHR ''.'' \<or> c = CHR '':'' \<or> c = CHR ''%'') s of
        None \<Rightarrow> None
      | Some c \<Rightarrow>
          if c = CHR ''.'' then map_option IPv4 (parse_ipv4 s)
          else if c = CHR '':'' then parse_ipv6 s
          else None)"

section \<open>Printing\<close>

definition show_ipv4 :: "nat list \<Rightarrow> string" where
  "show_ipv4 fs = join ''.'' (map digits_of fs)"

fun hex_of :: "nat \<Rightarrow> string" where
  "hex_of n = (if n < 16 then [hex_digit n] else hex_of (n div 16) @ [hex_digit (n mod 16)])"

declare hex_of.simps [simp del]

definition groups16 :: "nat list \<Rightarrow> nat list" where
  "groups16 bs = map (\<lambda>i. bs ! (2 * i) * 256 + bs ! (2 * i + 1)) [0..<8]"

text \<open>Start and end of the first longest run of at least two zero groups.\<close>

definition zero_run :: "nat list \<Rightarrow> (nat \<times> nat) option" where
  "zero_run gs =
     foldl (\<lambda>best i.
       let l = length (takeWhile (\<lambda>g. g = 0) (drop i gs));
           b = (case best of None \<Rightarrow> 0 | Some (s, e) \<Rightarrow> e - s)
       in if l \<ge> 2 \<and> l > b then Some (i, i + l) else best) None [0..<8]"

definition show_groups :: "nat list \<Rightarrow> string" where
  "show_groups gs =
     (case zero_run gs of
        None \<Rightarrow> join '':'' (map hex_of gs)
      | Some (s, e) \<Rightarrow>
          join '':'' (map hex_of (take s gs)) @ ''::'' @ join '':'' (map hex_of (drop e gs)))"

definition show_addr :: "addr \<Rightarrow> string" where
  "show_addr a =
     (case a of
        IPv4 fs \<Rightarrow> show_ipv4 fs
      | IPv6 bs zone \<Rightarrow>
          (if take 12 bs = replicate 10 0 @ [255, 255]
           then ''::ffff:'' @ show_ipv4 (drop 12 bs) else show_groups (groups16 bs))
          @ (if zone = [] then [] else CHR ''%'' # zone))"

section \<open>canonIPString (dnsplan.go)\<close>

definition canon_ip_string :: "string \<Rightarrow> string" where
  "canon_ip_string s =
     (case parse_addr (trim_space s) of
        Some a \<Rightarrow> show_addr a
      | None \<Rightarrow> to_lower (trim_space s))"

end
