(* ===== verification/DnsPlan.thy ===== *)
theory DnsPlan
  imports NetIP Policy
begin

text \<open>
  \<open>internal/accountinventory/dnsplan.go\<close>: the plan of what a DNS import would write into the zones
  of the destination. An rrset is the records of one (type, name); the two maps of rrsets are
  association lists, and \<open>build_zone_plan_sets\<close> takes them as arguments, in any visiting order.
  \<open>substituteOnce\<close> does not return when the address map has an empty key that matches: \<open>None\<close> is the
  value of a computation that does not return, up to \<open>build_dns_plan\<close>.
\<close>

section \<open>The plan\<close>

datatype plan_action = Add | Replace | Manual | Skip | OtherAction string

definition show_action :: "plan_action \<Rightarrow> string" where
  "show_action a =
     (case a of Add \<Rightarrow> ''add'' | Replace \<Rightarrow> ''replace'' | Manual \<Rightarrow> ''manual'' | Skip \<Rightarrow> ''skip''
      | OtherAction s \<Rightarrow> s)"

record plan_record =
  pl_name :: string
  pl_type :: string
  pl_ttl :: int
  pl_data :: "string list"

record plan_op =
  op_action :: plan_action
  op_type :: string
  op_name :: string
  op_reason :: string
  op_records :: "plan_record list"
  op_source_values :: "string list"
  op_destination_values :: "string list"
  op_ttl_capped :: bool

record rrset_info =
  ri_type :: string
  ri_name :: string
  ri_values :: "string list"

record plan_zone =
  pz_zone :: string
  pz_ops :: "plan_op list"
  pz_informational :: "rrset_info list"
  pz_policy_findings :: "string list"

record manual_zone =
  mz_zone :: string
  mz_reason :: string

record plan_summary =
  sm_add :: nat
  sm_replace :: nat
  sm_manual :: nat
  sm_skip :: nat
  sm_informational :: nat

text \<open>File names, hashes and the time stamp of \<open>DNSPlan\<close> are set by the caller.\<close>

record dns_plan =
  dp_mode :: string
  dp_format_version :: int
  dp_ip_map :: "(string, string) gomap"
  dp_zones :: "plan_zone list"
  dp_manual_zones :: "manual_zone list"
  dp_non_dns_blockers :: "string list"
  dp_summary :: plan_summary

definition plan_write_ttl_cap :: int where
  "plan_write_ttl_cap = 3600"

definition txt_segment_len :: nat where
  "txt_segment_len = 255"

definition host_validation_prefixes :: "string list" where
  "host_validation_prefixes = [''_acme-challenge'', ''_cpanel-dcv-test-record'']"

definition actionable_types :: "string list" where
  "actionable_types = [''A'', ''AAAA'', ''CNAME'', ''MX'', ''TXT'']"

section \<open>Names and values\<close>

definition canon_dns_name :: "string \<Rightarrow> string \<Rightarrow> string" where
  "canon_dns_name name zone =
     (let n = to_lower (trim_space name);
          z = trim_suffix (to_lower (trim_space zone)) ''.'' @ ''.''
      in if n = [] \<or> n = ''@'' then z
         else if has_suffix n ''.'' then n
         else if n = trim_suffix z ''.'' then z
         else n @ ''.'' @ z)"

definition leftmost_label :: "string \<Rightarrow> string" where
  "leftmost_label name = (case cut_byte CHR ''.'' name of Some (a, b) \<Rightarrow> a | None \<Rightarrow> name)"

definition is_host_validation_name :: "string \<Rightarrow> bool" where
  "is_host_validation_name name \<longleftrightarrow> leftmost_label name \<in> set host_validation_prefixes"

text \<open>The largest position up to \<open>cut\<close> at which a rune starts, 0 when there is none.\<close>

fun cut_point :: "string \<Rightarrow> nat \<Rightarrow> nat" where
  "cut_point s 0 = 0"
| "cut_point s (Suc k) = (if rune_start (s ! Suc k) then Suc k else cut_point s k)"

definition segment_cut :: "string \<Rightarrow> nat" where
  "segment_cut s =
     (let k = cut_point s txt_segment_len in if k = 0 then txt_segment_len else k)"

lemma segment_cut_pos: "0 < segment_cut s"
  by (simp add: segment_cut_def txt_segment_len_def Let_def)

function txt_segments :: "string \<Rightarrow> string list" where
  "txt_segments s =
     (if length s > txt_segment_len
      then take (segment_cut s) s # txt_segments (drop (segment_cut s) s)
      else [s])"
  by auto
termination
proof (relation "measure length", goal_cases)
  case (2 s)
  then show ?case using segment_cut_pos [of s] by (cases s) simp_all
qed simp

declare txt_segments.simps [simp del]

definition split_txt_segments :: "string \<Rightarrow> string list" where
  "split_txt_segments s = (if s = [] then [[]] else txt_segments s)"

text \<open>The switch of \<open>planValue\<close> is on the type as collected, not on the upper-case type of the key.\<close>

definition plan_value :: "string \<Rightarrow> dns_record \<Rightarrow> string" where
  "plan_value zone r =
     (if dr_type r = ''A'' \<or> dr_type r = ''AAAA'' then canon_ip_string (dr_address r)
      else if dr_type r = ''CNAME'' \<or> dr_type r = ''NS'' then canon_dns_name (dr_target r) zone
      else if dr_type r = ''MX'' then itoa (dr_priority r) @ nul @ canon_dns_name (dr_exchange r) zone
      else if dr_type r = ''TXT'' then dr_txtdata r
      else dr_value r)"

type_synonym rrset_key = "string \<times> string"
type_synonym rrsets = "(rrset_key, dns_record list) gomap"

definition rrset_key_of :: "string \<Rightarrow> dns_record \<Rightarrow> rrset_key" where
  "rrset_key_of zone r = (to_upper (dr_type r), canon_dns_name (dr_name r) zone)"

definition group_rrsets :: "string \<Rightarrow> dns_record list \<Rightarrow> rrsets" where
  "group_rrsets zone rs = group_by (rrset_key_of zone) rs"

definition sorted_values :: "string \<Rightarrow> dns_record list \<Rightarrow> string list" where
  "sorted_values zone rs = sort (map (plan_value zone) rs)"

definition cap_ttl :: "int \<Rightarrow> int \<times> bool" where
  "cap_ttl ttl =
     (if ttl \<le> 0 \<or> ttl > plan_write_ttl_cap then (plan_write_ttl_cap, True) else (ttl, False))"

section \<open>Translation\<close>

record translated_record =
  tr_record :: plan_record
  tr_value :: string
  tr_capped :: bool

text \<open>One round of the loop of \<open>translateRecords\<close>: an address without a mapping, or the record.\<close>

definition translate_record ::
  "string \<Rightarrow> (string, string) gomap \<Rightarrow> string \<Rightarrow> dns_record \<Rightarrow> string + translated_record" where
  "translate_record typ ipm zone r =
     (let (ttl, capped) = cap_ttl (dr_ttl r);
          mk = (\<lambda>data value. Inr \<lparr>tr_record = \<lparr>pl_name = canon_dns_name (dr_name r) zone, pl_type = typ,
                  pl_ttl = ttl, pl_data = data\<rparr>, tr_value = value, tr_capped = capped\<rparr>)
      in if typ = ''A'' \<or> typ = ''AAAA'' then
           (let addr = canon_ip_string (dr_address r) in
            case map_of ipm addr of
              None \<Rightarrow> Inl addr
            | Some to \<Rightarrow> mk [canon_ip_string to] (canon_ip_string to))
         else if typ = ''CNAME'' then
           mk [canon_dns_name (dr_target r) zone] (canon_dns_name (dr_target r) zone)
         else if typ = ''MX'' then
           mk [itoa (dr_priority r), canon_dns_name (dr_exchange r) zone]
              (itoa (dr_priority r) @ nul @ canon_dns_name (dr_exchange r) zone)
         else if typ = ''TXT'' then
           mk (split_txt_segments (dr_txtdata r)) (dr_txtdata r)
         else mk [] [])"

definition translate_records ::
  "string \<Rightarrow> (string, string) gomap \<Rightarrow> string \<Rightarrow> dns_record list
   \<Rightarrow> translated_record list \<times> string list" where
  "translate_records typ ipm zone rs =
     (let xs = map (translate_record typ ipm zone) rs in
      (List.map_filter (\<lambda>x. case x of Inr t \<Rightarrow> Some t | Inl _ \<Rightarrow> None) xs,
       sort (remdups (List.map_filter (\<lambda>x. case x of Inl a \<Rightarrow> Some a | Inr _ \<Rightarrow> None) xs))))"

text \<open>One left-to-right pass: at each position the first matching address of the list is replaced.
  An empty address that matches keeps the loop where it is: it does not return.\<close>

function substitute_once :: "(string, string) gomap \<Rightarrow> string list \<Rightarrow> string \<Rightarrow> string option" where
  "substitute_once ipm froms [] = Some []"
| "substitute_once ipm froms (c # s) =
     (case find (\<lambda>f. has_prefix (c # s) f) froms of
        Some f \<Rightarrow>
          if f = [] then None
          else map_option (\<lambda>t. (case map_of ipm f of None \<Rightarrow> [] | Some v \<Rightarrow> v) @ t)
                 (substitute_once ipm froms (drop (length f) (c # s)))
      | None \<Rightarrow> map_option (\<lambda>t. c # t) (substitute_once ipm froms s))"
  by pat_completeness auto
termination
  by (relation "measure (\<lambda>(m, fs, s). length s)") (auto simp: neq_Nil_conv)

text \<open>Longer addresses first, then alphabetically.\<close>

definition ordered_froms :: "(string, string) gomap \<Rightarrow> string list" where
  "ordered_froms ipm = sort_key (\<lambda>f. (- int (length f), f)) (map fst ipm)"

definition translate_txt_values ::
  "(string, string) gomap \<Rightarrow> dns_record list \<Rightarrow> string list option" where
  "translate_txt_values ipm rs =
     map_option sort (those (map (\<lambda>r. substitute_once ipm (ordered_froms ipm) (dr_txtdata r)) rs))"

section \<open>Classification\<close>

definition cross_type_conflict :: "rrsets \<Rightarrow> rrsets \<Rightarrow> rrset_key \<Rightarrow> bool" where
  "cross_type_conflict ss ds k =
     (let ks = map fst ss @ map fst ds in
      list_ex (\<lambda>k'. fst k' = ''CNAME'' \<and> snd k' = snd k) ks \<and>
      list_ex (\<lambda>k'. snd k' = snd k \<and> fst k' \<noteq> fst k) ks)"

definition decide :: "plan_op \<Rightarrow> plan_action \<Rightarrow> string \<Rightarrow> plan_op option" where
  "decide opn a reason = Some (opn\<lparr>op_action := a, op_reason := reason\<rparr>)"

text \<open>The mapped addresses that occur in some TXT value of the rrset.\<close>

definition matched_addresses :: "(string, string) gomap \<Rightarrow> dns_record list \<Rightarrow> string list" where
  "matched_addresses ipm rs =
     sort (filter (\<lambda>from. list_ex (\<lambda>r. contains (dr_txtdata r) from) rs) (map fst ipm))"

text \<open>The tail of \<open>classify\<close>: compare the desired values, fill in the records.\<close>

definition classify_values ::
  "plan_op \<Rightarrow> rrset_key \<Rightarrow> translated_record list \<Rightarrow> rrsets \<Rightarrow> string \<Rightarrow> plan_op option" where
  "classify_values opn k translated ds zone =
     (let desired = sort (map tr_value translated);
          filled = (\<lambda>a. opn\<lparr>op_action := a,
            op_records := sort_key (\<lambda>r. join nul (pl_data r)) (map tr_record translated),
            op_ttl_capped := list_ex tr_capped translated\<rparr>)
      in case map_of ds k of
           Some dv \<Rightarrow>
             if desired = sorted_values zone dv then Some (opn\<lparr>op_action := Skip\<rparr>)
             else Some (filled Replace)
         | None \<Rightarrow> Some (filled Add))"

definition classify_txt ::
  "plan_op \<Rightarrow> rrset_key \<Rightarrow> dns_record list \<Rightarrow> translated_record list \<Rightarrow> rrsets
   \<Rightarrow> (string, string) gomap \<Rightarrow> string \<Rightarrow> plan_op option" where
  "classify_txt opn k rs translated ds ipm zone =
     (if \<not> list_all (\<lambda>r. valid_utf8 (dr_txtdata r)) rs then
        decide opn Manual (''TXT value is not valid UTF-8 '' @ emdash
          @ '' it cannot be represented faithfully in the plan file'')
      else
       (let matched = matched_addresses ipm rs;
            refuse = decide opn Manual (''TXT value contains mapped source address(es) ''
              @ join '', '' matched @ '' (SPF?) '' @ emdash @ '' rewrite by hand'')
        in if matched = [] then classify_values opn k translated ds zone
           else (case map_of ds k of
               None \<Rightarrow> refuse
             | Some dv \<Rightarrow>
                (case translate_txt_values ipm rs of
                   None \<Rightarrow> None
                 | Some vs \<Rightarrow>
                     if vs = sorted_values zone dv then
                       decide opn Skip (''destination already matches the ip-map translation '' @ emdash
                         @ '' nothing to rewrite'')
                     else refuse))))"

definition classify ::
  "plan_op \<Rightarrow> rrset_key \<Rightarrow> dns_record list \<Rightarrow> rrsets \<Rightarrow> (string, string) gomap \<Rightarrow> string \<Rightarrow> bool
   \<Rightarrow> plan_op option" where
  "classify opn k rs ds ipm zone conflict =
     (if fst k = ''SOA'' then
        decide opn Skip (''SOA is server-managed '' @ emdash @ '' never compared or written'')
      else if is_host_validation_name (snd k) then
        decide opn Skip (''host-specific validation record (AutoSSL/DCV) '' @ emdash @ '' not migrated'')
      else if fst k = ''NS'' then
        (if (case map_of ds k of None \<Rightarrow> False
             | Some dv \<Rightarrow> op_source_values opn = sorted_values zone dv)
         then Some (opn\<lparr>op_action := Skip\<rparr>)
         else decide opn Manual (''NS/delegation is registrar/WHM territory '' @ emdash @ '' never written''))
      else if fst k \<notin> set actionable_types then
        decide opn Manual (''record type '' @ fst k @ '' is not supported for import'')
      else if conflict then
        decide opn Manual (''CNAME cannot coexist with other types at the same name '' @ emdash
          @ '' resolve by hand'')
      else
       (let (translated, unmapped) = translate_records (fst k) ipm zone rs
        in if unmapped \<noteq> [] then
             decide opn Manual (''unmapped address(es) '' @ join '', '' unmapped @ '' '' @ emdash
               @ '' add --ip-map entries (identity mapping to copy verbatim)'')
           else if fst k = ''TXT'' then classify_txt opn k rs translated ds ipm zone
           else classify_values opn k translated ds zone))"

section \<open>Zones\<close>

definition new_op :: "rrset_key \<Rightarrow> dns_record list \<Rightarrow> rrsets \<Rightarrow> string \<Rightarrow> plan_op" where
  "new_op k rs ds zone =
     \<lparr>op_action = OtherAction [], op_type = fst k, op_name = snd k, op_reason = [], op_records = [],
      op_source_values = sorted_values zone rs,
      op_destination_values = (case map_of ds k of None \<Rightarrow> [] | Some dv \<Rightarrow> sorted_values zone dv),
      op_ttl_capped = False\<rparr>"

definition plan_op_for ::
  "rrsets \<Rightarrow> rrsets \<Rightarrow> (string, string) gomap \<Rightarrow> string \<Rightarrow> rrset_key \<times> dns_record list \<Rightarrow> plan_op option" where
  "plan_op_for ss ds ipm zone p =
     classify (new_op (fst p) (snd p) ds zone) (fst p) (snd p) ds ipm zone (cross_type_conflict ss ds (fst p))"

definition rrset_info_of :: "string \<Rightarrow> rrset_key \<times> dns_record list \<Rightarrow> rrset_info" where
  "rrset_info_of zone p =
     \<lparr>ri_type = fst (fst p), ri_name = snd (fst p), ri_values = sorted_values zone (snd p)\<rparr>"

definition op_order :: "plan_op \<Rightarrow> string \<times> string" where
  "op_order x = (op_name x, op_type x)"

definition info_order :: "rrset_info \<Rightarrow> string \<times> string" where
  "info_order x = (ri_name x, ri_type x)"

definition build_zone_plan_sets ::
  "string \<Rightarrow> rrsets \<Rightarrow> rrsets \<Rightarrow> (string, string) gomap \<Rightarrow> plan_zone option" where
  "build_zone_plan_sets zone ss ds ipm =
     map_option (\<lambda>ops. \<lparr>pz_zone = zone, pz_ops = sort_key op_order ops,
         pz_informational = sort_key info_order
           (map (rrset_info_of zone) (filter (\<lambda>p. map_of ss (fst p) = None) ds)),
         pz_policy_findings = []\<rparr>)
       (those (map (plan_op_for ss ds ipm zone) ss))"

definition build_zone_plan ::
  "string \<Rightarrow> dns_record list \<Rightarrow> dns_record list \<Rightarrow> (string, string) gomap \<Rightarrow> plan_zone option" where
  "build_zone_plan zone src dest ipm =
     build_zone_plan_sets zone (group_rrsets zone src) (group_rrsets zone dest) ipm"

section \<open>The whole plan\<close>

definition finding_ref :: "finding \<Rightarrow> string" where
  "finding_ref f =
     (if pf_source_ref f \<noteq> [] then pf_source_ref f
      else if pf_destination_ref f \<noteq> [] then pf_destination_ref f else pf_detail f)"

definition zone_policy_findings :: "policy_report option \<Rightarrow> string \<Rightarrow> string list" where
  "zone_policy_findings policy zone =
     (case policy of None \<Rightarrow> []
      | Some p \<Rightarrow>
         sort (map (\<lambda>f. pf_id f @ '' ['' @ show_severity (pf_severity f) @ ''] '' @ finding_ref f)
           (filter (\<lambda>f. pf_section f = ''dns'' \<and>
              (finding_ref f = ''zone '' @ zone \<or> has_prefix (finding_ref f) (''zone '' @ zone @ '' '')))
            (pr_findings p))))"

definition non_dns_blockers :: "policy_report option \<Rightarrow> string list" where
  "non_dns_blockers policy =
     (case policy of None \<Rightarrow> []
      | Some p \<Rightarrow>
         sort (map (\<lambda>f. pf_id f @ '' ('' @ pf_section f @ '')'')
           (filter (\<lambda>f. pf_severity f = Blocker \<and> pf_section f \<noteq> ''dns'') (pr_findings p))))"

text \<open>Both sides of every mapping in canonical form, the pairs in some visiting order of the map.\<close>

definition canon_ip_map :: "(string, string) gomap \<Rightarrow> (string, string) gomap" where
  "canon_ip_map m =
     foldl (\<lambda>acc p. AList.update (canon_ip_string (fst p)) (canon_ip_string (snd p)) acc) [] m"

definition index_dest_zones :: "dns_zone list \<Rightarrow> (string, dns_zone) gomap" where
  "index_dest_zones zs = foldl (\<lambda>m z. AList.update (to_lower (dz_zone z)) z m) [] zs"

text \<open>One source zone: refused with a reason, or planned.\<close>

definition plan_source_zone ::
  "(string, dns_zone) gomap \<Rightarrow> policy_report option \<Rightarrow> (string, string) gomap \<Rightarrow> dns_zone
   \<Rightarrow> (manual_zone + plan_zone) option" where
  "plan_source_zone destz policy ipm sz =
     (let name = to_lower (dz_zone sz);
          refuse = (\<lambda>reason. Some (Inl \<lparr>mz_zone = name, mz_reason = reason\<rparr>))
      in if \<not> dz_available sz then
           refuse (''zone unavailable on source '' @ emdash @ '' re-run the source inventory'')
         else (case map_of destz name of
             None \<Rightarrow> refuse (''zone missing on destination '' @ emdash
               @ '' create it via WHM/park first, then re-run'')
           | Some dz \<Rightarrow>
               if \<not> dz_available dz then
                 refuse (''zone unavailable on destination '' @ emdash
                   @ '' re-run the destination inventory'')
               else map_option (\<lambda>pz. Inr (pz\<lparr>pz_policy_findings := zone_policy_findings policy name\<rparr>))
                      (build_zone_plan name (dz_records sz) (dz_records dz) ipm)))"

definition summarize_plan :: "plan_zone list \<Rightarrow> plan_summary" where
  "summarize_plan zs =
     (let ops = concat (map pz_ops zs); n = (\<lambda>a. count_if (\<lambda>x. op_action x = a) ops) in
      \<lparr>sm_add = n Add, sm_replace = n Replace, sm_manual = n Manual, sm_skip = n Skip,
       sm_informational = sum_list (map (length \<circ> pz_informational) zs)\<rparr>)"

definition build_dns_plan ::
  "inventory \<Rightarrow> inventory \<Rightarrow> policy_report option \<Rightarrow> (string, string) gomap \<Rightarrow> (string + dns_plan) option" where
  "build_dns_plan src dest policy ipmap =
     (if \<not> cfg_available (dns_cfg (inv_dns src)) then
        Some (Inl (''source DNS section unavailable '' @ emdash @ '' re-run the inventory''))
      else if \<not> cfg_available (dns_cfg (inv_dns dest)) then
        Some (Inl (''destination DNS section unavailable '' @ emdash @ '' re-run the inventory''))
      else
       (let ipm = canon_ip_map ipmap; destz = index_dest_zones (dns_zones (inv_dns dest)) in
        map_option (\<lambda>zs.
            let zones = sort_key pz_zone (List.map_filter (\<lambda>x. case x of Inr z \<Rightarrow> Some z | Inl _ \<Rightarrow> None) zs) in
            Inr \<lparr>dp_mode = ''dns-import-plan'', dp_format_version = 1, dp_ip_map = ipm, dp_zones = zones,
              dp_manual_zones =
                sort_key mz_zone (List.map_filter (\<lambda>x. case x of Inl z \<Rightarrow> Some z | Inr _ \<Rightarrow> None) zs),
              dp_non_dns_blockers = non_dns_blockers policy, dp_summary = summarize_plan zones\<rparr>)
          (those (map (plan_source_zone destz policy ipm) (dns_zones (inv_dns src))))))"

end
