(* ===== verification/DnsVerify.thy ===== *)
theory DnsVerify
  imports DnsPlan
begin

text \<open>
  \<open>internal/accountinventory/dnsverify.go\<close>: the comparison of a DNS plan with the live zones of the
  destination. The verdict of an operation depends on the plan and on the live rrset of its name and
  type only; values are compared with the functions of the plan.
\<close>

datatype verify_status = Applied | Unchanged | Pending | Drift | ManualReview | NotChecked

record verify_result =
  vr_action :: plan_action
  vr_type :: string
  vr_name :: string
  vr_status :: verify_status
  vr_reason :: string
  vr_expected :: "string list"
  vr_observed :: "string list"

record verify_zone =
  vz_zone :: string
  vz_available :: bool
  vz_method :: string
  vz_fetch_error :: string
  vz_ops :: "verify_result list"
  vz_untracked :: "rrset_info list"

record verify_summary =
  vs_applied :: nat
  vs_unchanged :: nat
  vs_pending :: nat
  vs_drift :: nat
  vs_manual_review :: nat
  vs_not_checked :: nat
  vs_untracked :: nat
  vs_unavailable_zones :: nat
  vs_manual_zones :: nat

record verify_report =
  vp_mode :: string
  vp_format_version :: int
  vp_zones :: "verify_zone list"
  vp_manual_zones :: "manual_zone list"
  vp_summary :: verify_summary
  vp_clean :: bool

definition zone_fetch_error :: "dns_zone option \<Rightarrow> string" where
  "zone_fetch_error lz =
     (case lz of
        None \<Rightarrow> ''zone was not fetched from the destination''
      | Some z \<Rightarrow>
          if dz_warnings z \<noteq> [] then join ''; '' (dz_warnings z)
          else if dz_errors z \<noteq> [] then join ''; '' (dz_errors z)
          else ''zone unavailable on the destination'')"

section \<open>Desired values\<close>

definition malformed :: string where
  "malformed = '' '' @ emdash @ '' malformed or hand-edited plan''"

definition desired_value :: "plan_record \<Rightarrow> string + string" where
  "desired_value r =
     (if pl_data r = [] then Inl (''desired '' @ pl_type r @ '' record has empty data'' @ malformed)
      else if pl_type r = ''MX'' then
        (if length (pl_data r) \<noteq> 2 then
           Inl (''desired MX record has '' @ itoa (int (length (pl_data r)))
                @ '' data fields, want 2 (preference, exchange)'')
         else Inr (pl_data r ! 0 @ nul @ pl_data r ! 1))
      else if pl_type r = ''TXT'' then Inr (join [] (pl_data r))
      else if length (pl_data r) \<noteq> 1 then
        Inl (''desired '' @ pl_type r @ '' record has '' @ itoa (int (length (pl_data r)))
             @ '' data fields, want 1'')
      else Inr (pl_data r ! 0))"

fun collect_values :: "plan_record list \<Rightarrow> string + string list" where
  "collect_values [] = Inr []"
| "collect_values (r # rs) =
     bindr (desired_value r) (\<lambda>v. bindr (collect_values rs) (\<lambda>vs. Inr (v # vs)))"

definition desired_values :: "plan_op \<Rightarrow> string + string list" where
  "desired_values opn =
     (if op_records opn = [] then
        Inl (show_action (op_action opn) @ '' op carries no desired records'' @ malformed)
      else bindr (collect_values (op_records opn)) (\<lambda>vs. Inr (sort vs)))"

section \<open>One operation\<close>

definition verdict :: "plan_op \<Rightarrow> verify_status \<Rightarrow> string \<Rightarrow> string list \<Rightarrow> string list \<Rightarrow> verify_result" where
  "verdict opn st reason expected observed =
     \<lparr>vr_action = op_action opn, vr_type = op_type opn, vr_name = op_name opn, vr_status = st,
      vr_reason = reason, vr_expected = expected, vr_observed = observed\<rparr>"

definition verify_write :: "plan_op \<Rightarrow> string list option \<Rightarrow> verify_result" where
  "verify_write opn live =
     (let observed = (case live of None \<Rightarrow> [] | Some v \<Rightarrow> v) in
      case desired_values opn of
        Inl e \<Rightarrow> verdict opn Drift e [] observed
      | Inr desired \<Rightarrow>
          if live = Some desired then verdict opn Applied [] desired observed
          else if op_action opn = Add \<and> live = None then
            verdict opn Pending ''rrset still missing on the destination (plan-time state)'' desired observed
          else if op_action opn = Replace \<and> live = Some (op_destination_values opn) then
            verdict opn Pending ''rrset still carries the plan-time destination values'' desired observed
          else verdict opn Drift ''live rrset matches neither the desired nor the plan-time state''
            desired observed)"

text \<open>The values of the live rrset, in order, or \<open>None\<close> when there is no such rrset.\<close>

definition live_values :: "string \<Rightarrow> rrsets \<Rightarrow> rrset_key \<Rightarrow> string list option" where
  "live_values zone live k = map_option (sorted_values zone) (map_of live k)"

definition verify_op :: "plan_op \<Rightarrow> rrsets \<Rightarrow> string \<Rightarrow> verify_result" where
  "verify_op opn livesets zone =
     (let live = live_values zone livesets (op_type opn, op_name opn);
          observed = (case live of None \<Rightarrow> [] | Some v \<Rightarrow> v)
      in case op_action opn of
           Manual \<Rightarrow> verdict opn ManualReview (op_reason opn) [] observed
         | Skip \<Rightarrow>
             if op_type opn = ''SOA'' \<or> is_host_validation_name (op_name opn) then
               verdict opn NotChecked [] [] observed
             else if op_destination_values opn = [] then
               verdict opn Drift (''skip op carries no plan-time destination values'' @ malformed) [] observed
             else if live = Some (op_destination_values opn) then
               verdict opn Unchanged [] (op_destination_values opn) observed
             else verdict opn Drift ''live rrset no longer matches the plan-time destination state''
               (op_destination_values opn) observed
         | Add \<Rightarrow> verify_write opn live
         | Replace \<Rightarrow> verify_write opn live
         | OtherAction a \<Rightarrow>
             verdict opn Drift (''unknown plan action '' @ go_quote a @ malformed) [] observed)"

section \<open>The report\<close>

definition known_keys :: "plan_zone \<Rightarrow> rrset_key list" where
  "known_keys pz =
     map (\<lambda>x. (op_type x, op_name x)) (pz_ops pz) @
     map (\<lambda>i. (ri_type i, ri_name i)) (pz_informational pz)"

definition untracked :: "plan_zone \<Rightarrow> rrsets \<Rightarrow> rrset_info list" where
  "untracked pz livesets =
     sort_key info_order (map (rrset_info_of (pz_zone pz))
       (filter (\<lambda>p. \<not> (fst p \<in> set (known_keys pz) \<or> fst (fst p) \<notin> set actionable_types
                        \<or> is_host_validation_name (snd (fst p)))) livesets))"

definition verify_zone_sets :: "plan_zone \<Rightarrow> dns_zone \<Rightarrow> rrsets \<Rightarrow> verify_zone" where
  "verify_zone_sets pz lz livesets =
     \<lparr>vz_zone = pz_zone pz, vz_available = True, vz_method = dz_method lz, vz_fetch_error = [],
      vz_ops = map (\<lambda>x. verify_op x livesets (pz_zone pz)) (pz_ops pz),
      vz_untracked = untracked pz livesets\<rparr>"

definition verify_plan_zone :: "(string, dns_zone) gomap \<Rightarrow> plan_zone \<Rightarrow> verify_zone" where
  "verify_plan_zone live pz =
     (let lz = map_of live (to_lower (pz_zone pz)) in
      if (case lz of None \<Rightarrow> True | Some z \<Rightarrow> \<not> dz_available z) then
        \<lparr>vz_zone = pz_zone pz, vz_available = False, vz_method = ''unavailable'',
         vz_fetch_error = zone_fetch_error lz, vz_ops = [], vz_untracked = []\<rparr>
      else verify_zone_sets pz (the lz) (group_rrsets (pz_zone pz) (dz_records (the lz))))"

definition summarize_verify :: "verify_zone list \<Rightarrow> nat \<Rightarrow> verify_summary" where
  "summarize_verify zs manual =
     (let ops = concat (map vz_ops zs); n = (\<lambda>st. count_if (\<lambda>r. vr_status r = st) ops) in
      \<lparr>vs_applied = n Applied, vs_unchanged = n Unchanged, vs_pending = n Pending, vs_drift = n Drift,
       vs_manual_review = n ManualReview, vs_not_checked = n NotChecked,
       vs_untracked = sum_list (map (length \<circ> vz_untracked) zs),
       vs_unavailable_zones = count_if (\<lambda>z. \<not> vz_available z) zs, vs_manual_zones = manual\<rparr>)"

definition verify_dns_plan :: "dns_plan \<Rightarrow> (string, dns_zone) gomap \<Rightarrow> verify_report" where
  "verify_dns_plan plan live =
     (let zs = map (verify_plan_zone live) (dp_zones plan);
          s = summarize_verify zs (length (dp_manual_zones plan))
      in \<lparr>vp_mode = ''dns-verify'', vp_format_version = 1, vp_zones = zs,
          vp_manual_zones = dp_manual_zones plan, vp_summary = s,
          vp_clean = (vs_pending s = 0 \<and> vs_drift s = 0 \<and> vs_unavailable_zones s = 0
                      \<and> vs_manual_zones s = 0)\<rparr>)"

end
