(* ===== verification/DnsPlanLaws.thy ===== *)
theory DnsPlanLaws
  imports DnsPlan
begin

text \<open>
  What the DNS plan promises: it returns, whatever is in the zones; it does not depend on the order
  in which Go visits the maps; every source rrset gets one operation and nothing is deleted; only
  rrsets whose every address is mapped are written, with the mapped addresses and a bounded TTL; and
  the segments a TXT value is cut into are short, valid and give the value back.
\<close>

section \<open>UTF-8 and segments\<close>

lemma rune_len_take:
  assumes "0 < rune_len s" "rune_len s \<le> k"
  shows "rune_len (take k s) = rune_len s"
proof -
  have "rune_len (take k (a # t)) = rune_len (a # t)" if "0 < rune_len (a # t)" "rune_len (a # t) \<le> k" for a t
    using that
    by (cases t; cases "tl t"; cases "tl (tl t)"; cases k; cases "k - 1"; cases "k - 2"; cases "k - 3")
      (auto simp: rune_len_def Let_def split: if_splits)
  then show ?thesis using assms by (cases s) auto
qed

lemma rune_len_bounds: "rune_len s \<le> length s \<and> rune_len s \<le> 4"
  by (auto simp: rune_len_def Let_def split: list.splits)

lemma rune_len_cont:
  assumes "0 < i" "i < rune_len s"
  shows "\<not> rune_start (s ! i)"
proof -
  have "i < 4" using assms rune_len_bounds [of s] by linarith
  then have "i = 1 \<or> i = 2 \<or> i = 3" using assms(1) by linarith
  then show ?thesis using assms(2)
    by (auto simp: rune_len_def Let_def rune_start_def cont_byte_def split: list.splits if_splits)
qed

lemma rune_len_start: "0 < rune_len s \<Longrightarrow> rune_start (s ! 0)"
  by (auto simp: rune_len_def Let_def rune_start_def split: list.splits if_splits)

lemma valid_utf8_step: "valid_utf8 s \<Longrightarrow> s \<noteq> [] \<Longrightarrow> 0 < rune_len s \<and> valid_utf8 (drop (rune_len s) s)"
  by (subst (asm) valid_utf8.simps) (auto split: if_splits)

lemma valid_utf8_Nil [simp]: "valid_utf8 []"
  by (simp add: valid_utf8.simps)

lemma valid_utf8_cut:
  assumes "valid_utf8 s" "k < length s" "rune_start (s ! k) \<or> k = 0"
  shows "valid_utf8 (take k s) \<and> valid_utf8 (drop k s)"
  using assms
proof (induction s arbitrary: k rule: valid_utf8.induct)
  case (1 s)
  show ?case
  proof (cases "k = 0")
    case True
    then show ?thesis using "1.prems" by simp
  next
    case False
    let ?l = "rune_len s"
    have s: "s \<noteq> []" using "1.prems"(2) by auto
    have step: "0 < ?l" "valid_utf8 (drop ?l s)" using valid_utf8_step [OF "1.prems"(1) s] by auto
    have le: "?l \<le> k" using rune_len_cont [of k s] "1.prems"(3) False by (meson not_le_imp_less not_gr_zero)
    have IH: "valid_utf8 (take (k - ?l) (drop ?l s)) \<and> valid_utf8 (drop (k - ?l) (drop ?l s))"
      by (rule "1.IH") (use "1.prems" step s le in auto)
    have ne: "take k s \<noteq> []" using s False by simp
    have "rune_len (take k s) = ?l" by (rule rune_len_take [OF step(1) le])
    moreover have "drop ?l (take k s) = take (k - ?l) (drop ?l s)" by (simp add: drop_take)
    ultimately have "valid_utf8 (take k s)"
      using IH step(1) ne by (subst valid_utf8.simps) simp
    then show ?thesis using IH le by simp
  qed
qed

text \<open>No run of continuation bytes in a valid text is longer than three.\<close>

lemma valid_utf8_start_near:
  assumes "valid_utf8 s" "k < length s"
  shows "\<exists>j\<le>k. k < j + 4 \<and> rune_start (s ! j)"
  using assms
proof (induction s arbitrary: k rule: valid_utf8.induct)
  case (1 s)
  let ?l = "rune_len s"
  have s: "s \<noteq> []" using "1.prems"(2) by auto
  have step: "0 < ?l" "valid_utf8 (drop ?l s)" using valid_utf8_step [OF "1.prems"(1) s] by auto
  show ?case
  proof (cases "k < ?l")
    case True
    then show ?thesis using rune_len_start [OF step(1)] rune_len_bounds [of s]
      by (intro exI [of _ 0]) simp
  next
    case False
    obtain j where j: "j \<le> k - ?l" "k - ?l < j + 4" "rune_start (drop ?l s ! j)"
      using "1.IH" [OF s _ step(2), of "k - ?l"] "1.prems"(2) False step(1) by (metis diff_less_mono length_drop not_less not_gr_zero)
    then show ?thesis using False rune_len_bounds [of s] by (intro exI [of _ "?l + j"]) auto
  qed
qed

lemma cut_point_spec:
  "cut_point s k \<le> k \<and> (cut_point s k \<noteq> 0 \<longrightarrow> rune_start (s ! cut_point s k)) \<and>
   (\<forall>j. 0 < j \<longrightarrow> j \<le> k \<longrightarrow> rune_start (s ! j) \<longrightarrow> j \<le> cut_point s k)"
  by (induction k) (auto simp: le_Suc_eq)

lemma segment_cut_le: "segment_cut s \<le> txt_segment_len"
  using cut_point_spec [of s txt_segment_len] by (simp add: segment_cut_def Let_def)

lemma segment_cut_valid:
  assumes "valid_utf8 s" "txt_segment_len < length s"
  shows "valid_utf8 (take (segment_cut s) s) \<and> valid_utf8 (drop (segment_cut s) s)"
proof -
  obtain j where j: "j \<le> txt_segment_len" "txt_segment_len < j + 4" "rune_start (s ! j)"
    using valid_utf8_start_near [OF assms] by blast
  have "0 < j" using j(2) by (simp add: txt_segment_len_def)
  have "j \<le> cut_point s txt_segment_len"
    using cut_point_spec [of s txt_segment_len] j(1,3) \<open>0 < j\<close> by blast
  then have "cut_point s txt_segment_len \<noteq> 0" using \<open>0 < j\<close> by linarith
  then have "segment_cut s = cut_point s txt_segment_len" "rune_start (s ! segment_cut s)"
    using cut_point_spec [of s txt_segment_len] by (simp_all add: segment_cut_def Let_def)
  then show ?thesis
    by (intro valid_utf8_cut [OF assms(1)]) (use segment_cut_le [of s] assms(2) in auto)
qed

lemma txt_segments_props:
  "concat (txt_segments s) = s \<and> list_all (\<lambda>x. length x \<le> txt_segment_len) (txt_segments s) \<and>
   (valid_utf8 s \<longrightarrow> list_all valid_utf8 (txt_segments s))"
proof (induction s rule: txt_segments.induct)
  case IH: (1 s)
  show ?case
  proof (cases "txt_segment_len < length s")
    case True
    have "txt_segments s = take (segment_cut s) s # txt_segments (drop (segment_cut s) s)"
      using True by (simp add: txt_segments.simps [of s])
    moreover have "concat (txt_segments (drop (segment_cut s) s)) = drop (segment_cut s) s"
      and "list_all (\<lambda>x. length x \<le> txt_segment_len) (txt_segments (drop (segment_cut s) s))"
      and "valid_utf8 (drop (segment_cut s) s) \<longrightarrow>
        list_all valid_utf8 (txt_segments (drop (segment_cut s) s))"
      using IH [OF True] by blast+
    ultimately show ?thesis
      using segment_cut_le [of s] segment_cut_valid [OF _ True] by simp
  next
    case False
    then have "txt_segments s = [s]" by (simp add: txt_segments.simps)
    then show ?thesis using False by simp
  qed
qed

lemma concat_split_txt [simp]: "concat (split_txt_segments s) = s"
  using txt_segments_props [of s] by (simp add: split_txt_segments_def)

lemma split_txt_nonempty: "split_txt_segments s \<noteq> []"
  by (simp add: split_txt_segments_def txt_segments.simps [of s])

text \<open>C27. The segments a TXT value is cut into concatenate to the value, none is longer than the 255
  bytes of a DNS character string, and when the value is valid UTF-8 so is every segment: encoding
  the plan as JSON cannot alter it.\<close>

theorem txt_segments_faithful:
  "concat (split_txt_segments s) = s \<and>
   list_all (\<lambda>seg. length seg \<le> 255 \<and> (valid_utf8 s \<longrightarrow> valid_utf8 seg)) (split_txt_segments s)"
  using txt_segments_props [of s]
  by (auto simp: split_txt_segments_def list_all_iff txt_segment_len_def)

theorem txt_segments_faithful_witness:
  "let s = replicate 254 CHR ''a'' @ [CHR 0xC3, CHR 0xA8] @ ''b'' in
   valid_utf8 s \<and> list_all valid_utf8 (split_txt_segments s) \<and> 1 < length (split_txt_segments s)"
proof -
  let ?s = "replicate 254 CHR ''a'' @ [CHR 0xC3, CHR 0xA8] @ ''b''"
  have v: "valid_utf8 ?s" by code_simp
  have "list_all valid_utf8 (split_txt_segments ?s)"
    using txt_segments_faithful [of ?s] v by (simp add: list_all_iff)
  moreover have "1 < length (split_txt_segments ?s)" by code_simp
  ultimately show ?thesis using v by (simp only: Let_def simp_thms)
qed

section \<open>Lists of results\<close>

lemma those_Some_iff: "those xs = Some ys \<longleftrightarrow> xs = map Some ys"
  by (induction xs arbitrary: ys) (auto split: option.splits)

lemma those_map:
  "those (map f xs) = (if \<forall>x\<in>set xs. f x \<noteq> None then Some (map (the \<circ> f) xs) else None)"
  by (induction xs) (auto split: option.splits)

lemma those_None_iff: "those xs = None \<longleftrightarrow> None \<in> set xs"
  by (induction xs) (auto split: option.splits)

section \<open>One rrset\<close>

text \<open>What an operation that writes stands for.\<close>

definition write_allowed ::
  "rrset_key \<Rightarrow> dns_record list \<Rightarrow> rrsets \<Rightarrow> (string, string) gomap \<Rightarrow> string \<Rightarrow> bool \<Rightarrow> bool" where
  "write_allowed k rs ds ipm zone conflict \<longleftrightarrow>
     fst k \<in> set actionable_types \<and> \<not> is_host_validation_name (snd k) \<and> \<not> conflict \<and>
     snd (translate_records (fst k) ipm zone rs) = [] \<and>
     (fst k = ''TXT'' \<longrightarrow> list_all (\<lambda>r. valid_utf8 (dr_txtdata r)) rs \<and> matched_addresses ipm rs = []) \<and>
     (\<forall>dv. map_of ds k = Some dv \<longrightarrow>
        sort (map tr_value (fst (translate_records (fst k) ipm zone rs))) \<noteq> sorted_values zone dv)"

definition filled_op :: "plan_op \<Rightarrow> plan_action \<Rightarrow> translated_record list \<Rightarrow> plan_op" where
  "filled_op opn a translated = opn\<lparr>op_action := a,
     op_records := sort_key (\<lambda>r. join nul (pl_data r)) (map tr_record translated),
     op_ttl_capped := list_ex tr_capped translated\<rparr>"

definition decided_op :: "plan_op \<Rightarrow> plan_op \<Rightarrow> bool" where
  "decided_op opn x \<longleftrightarrow>
     (op_action x = Skip \<or> op_action x = Manual) \<and> (\<exists>r. x = opn\<lparr>op_action := op_action x, op_reason := r\<rparr>)"

lemma decided_opI:
  "decided_op opn (opn\<lparr>op_action := Skip, op_reason := r\<rparr>)"
  "decided_op opn (opn\<lparr>op_action := Manual, op_reason := r\<rparr>)"
  "decided_op opn (opn\<lparr>op_action := Skip\<rparr>)"
proof -
  have "opn\<lparr>op_action := Skip\<rparr> = opn\<lparr>op_action := Skip, op_reason := op_reason opn\<rparr>" by simp
  then show "decided_op opn (opn\<lparr>op_action := Skip\<rparr>)"
    unfolding decided_op_def by (intro conjI exI [of _ "op_reason opn"]) simp_all
qed (auto simp: decided_op_def)

lemma decideI:
  "decide opn Skip r = Some x \<Longrightarrow> decided_op opn x"
  "decide opn Manual r = Some x \<Longrightarrow> decided_op opn x"
  "Some (opn\<lparr>op_action := Skip\<rparr>) = Some x \<Longrightarrow> decided_op opn x"
  using decided_opI by (auto simp: decide_def)

lemma classify_values_cases:
  assumes "classify_values opn k tr ds zone = Some x"
  shows "decided_op opn x \<or>
    (x = filled_op opn (if map_of ds k = None then Add else Replace) tr \<and>
     (\<forall>dv. map_of ds k = Some dv \<longrightarrow> sort (map tr_value tr) \<noteq> sorted_values zone dv))"
proof (cases "map_of ds k")
  case None
  then show ?thesis using assms by (simp add: classify_values_def filled_op_def Let_def)
next
  case (Some dv)
  then show ?thesis using assms decideI(3) [of opn x]
    by (cases "sort (map tr_value tr) = sorted_values zone dv")
      (simp_all add: classify_values_def filled_op_def Let_def)
qed

lemma classify_txt_cases:
  assumes "classify_txt opn k rs tr ds ipm zone = Some x"
  shows "decided_op opn x \<or>
    (list_all (\<lambda>r. valid_utf8 (dr_txtdata r)) rs \<and> matched_addresses ipm rs = [] \<and>
     classify_values opn k tr ds zone = Some x)"
proof (cases "list_all (\<lambda>r. valid_utf8 (dr_txtdata r)) rs \<and> matched_addresses ipm rs = []")
  case True
  then show ?thesis using assms by (simp add: classify_txt_def)
next
  case False
  have "decided_op opn x"
  proof (cases "list_all (\<lambda>r. valid_utf8 (dr_txtdata r)) rs")
    case True
    with False have m: "matched_addresses ipm rs \<noteq> []" by simp
    show ?thesis
      using assms True m unfolding classify_txt_def Let_def
      by (cases "map_of ds k"; cases "translate_txt_values ipm rs")
        (auto intro: decideI split: if_splits)
  next
    case False
    then show ?thesis using assms unfolding classify_txt_def by (auto intro: decideI)
  qed
  then show ?thesis by blast
qed

lemma classify_cases:
  assumes "classify opn k rs ds ipm zone conflict = Some x"
  shows "decided_op opn x \<or>
    (x = filled_op opn (if map_of ds k = None then Add else Replace)
       (fst (translate_records (fst k) ipm zone rs)) \<and>
     write_allowed k rs ds ipm zone conflict)"
proof -
  consider (early) "fst k = ''SOA'' \<or> is_host_validation_name (snd k) \<or> fst k = ''NS'' \<or>
      fst k \<notin> set actionable_types \<or> conflict \<or> snd (translate_records (fst k) ipm zone rs) \<noteq> []"
    | (txtcase) "fst k = ''TXT''" "\<not> is_host_validation_name (snd k)" "\<not> conflict"
      "snd (translate_records (fst k) ipm zone rs) = []"
    | (other) "fst k \<noteq> ''TXT''" "fst k \<noteq> ''SOA''" "fst k \<noteq> ''NS''" "fst k \<in> set actionable_types"
      "\<not> is_host_validation_name (snd k)" "\<not> conflict"
      "snd (translate_records (fst k) ipm zone rs) = []"
    by blast
  then show ?thesis
  proof cases
    case early
    then have "decided_op opn x"
      using assms unfolding classify_def
      by (auto intro: decideI simp: case_prod_beta split: if_splits option.splits)
    then show ?thesis by blast
  next
    case txtcase
    then have "classify_txt opn k rs (fst (translate_records (fst k) ipm zone rs)) ds ipm zone = Some x"
      using assms by (simp add: classify_def actionable_types_def case_prod_beta)
    then show ?thesis
      using classify_txt_cases [of opn k rs _ ds ipm zone x] classify_values_cases [of opn k _ ds zone x] txtcase
      by (fastforce simp: write_allowed_def actionable_types_def)
  next
    case other
    then have "classify_values opn k (fst (translate_records (fst k) ipm zone rs)) ds zone = Some x"
      using assms by (simp add: classify_def case_prod_beta)
    then show ?thesis
      using classify_values_cases [of opn k _ ds zone x] other by (auto simp: write_allowed_def)
  qed
qed

section \<open>One zone\<close>

lemma op_identity:
  assumes "plan_op_for ss ds ipm zone p = Some x"
  shows "op_type x = fst (fst p) \<and> op_name x = snd (fst p) \<and>
    op_source_values x = sorted_values zone (snd p) \<and>
    op_destination_values x = (case map_of ds (fst p) of None \<Rightarrow> [] | Some dv \<Rightarrow> sorted_values zone dv)"
  using classify_cases [OF assms [unfolded plan_op_for_def]]
  by (auto simp: decided_op_def filled_op_def new_op_def)

lemma op_cases:
  assumes "plan_op_for ss ds ipm zone p = Some x"
  shows "((op_action x = Skip \<or> op_action x = Manual) \<and> op_records x = []) \<or>
    (x = filled_op (new_op (fst p) (snd p) ds zone) (if map_of ds (fst p) = None then Add else Replace)
       (fst (translate_records (fst (fst p)) ipm zone (snd p))) \<and>
     write_allowed (fst p) (snd p) ds ipm zone (cross_type_conflict ss ds (fst p)))"
proof -
  have "op_records x = []" if "decided_op (new_op (fst p) (snd p) ds zone) x"
    using that unfolding decided_op_def by (auto simp: new_op_def)
  then show ?thesis
    using classify_cases [OF assms [unfolded plan_op_for_def]] unfolding decided_op_def by blast
qed

lemma build_zone_ops:
  assumes "build_zone_plan_sets zone ss ds ipm = Some pz"
  shows "pz_ops pz = sort_key op_order (map (the \<circ> plan_op_for ss ds ipm zone) ss) \<and>
    (\<forall>p\<in>set ss. plan_op_for ss ds ipm zone p \<noteq> None) \<and> pz_zone pz = zone \<and>
    pz_informational pz = sort_key info_order
      (map (rrset_info_of zone) (filter (\<lambda>p. map_of ss (fst p) = None) ds))"
  using assms by (auto simp: build_zone_plan_sets_def those_map split: if_splits)

lemma mem_zone_ops:
  assumes "build_zone_plan_sets zone ss ds ipm = Some pz"
  shows "x \<in> set (pz_ops pz) \<longleftrightarrow> (\<exists>p\<in>set ss. plan_op_for ss ds ipm zone p = Some x)"
  using build_zone_ops [OF assms] by force

lemma distinct_group_rrsets: "distinct (map fst (group_rrsets zone rs))"
  by (simp add: group_rrsets_def group_by_distinct)

definition records_of :: "string \<Rightarrow> dns_record list \<Rightarrow> rrset_key \<Rightarrow> dns_record list" where
  "records_of zone rs k = filter (\<lambda>r. rrset_key_of zone r = k) rs"

lemma mem_group_rrsets:
  "p \<in> set (group_rrsets zone rs) \<longleftrightarrow> snd p = records_of zone rs (fst p) \<and> snd p \<noteq> []"
  using group_by_mem_iff [of "fst p" "snd p"] by (simp add: group_rrsets_def records_of_def)

lemma lookup_group_rrsets:
  "map_of (group_rrsets zone rs) k = (if records_of zone rs k = [] then None else Some (records_of zone rs k))"
  by (auto simp: group_rrsets_def map_of_group_by records_of_def filter_empty_conv)

lemma keys_group_rrsets: "fst ` set (group_rrsets zone rs) = rrset_key_of zone ` set rs"
  by (simp add: group_rrsets_def group_by_keys)

definition op_key :: "plan_op \<Rightarrow> rrset_key" where
  "op_key x = (op_type x, op_name x)"

definition info_key :: "rrset_info \<Rightarrow> rrset_key" where
  "info_key i = (ri_type i, ri_name i)"

lemma op_keys:
  assumes "build_zone_plan_sets zone ss ds ipm = Some pz"
  shows "mset (map op_key (pz_ops pz)) = mset (map fst ss)"
proof -
  have "op_key (the (plan_op_for ss ds ipm zone p)) = fst p" if "p \<in> set ss" for p
  proof -
    have "plan_op_for ss ds ipm zone p \<noteq> None" using build_zone_ops [OF assms] that by blast
    then obtain x where "plan_op_for ss ds ipm zone p = Some x" by blast
    then show ?thesis using op_identity [of ss ds ipm zone p x] by (simp add: op_key_def)
  qed
  then have "map (op_key \<circ> (the \<circ> plan_op_for ss ds ipm zone)) ss = map fst ss" by simp
  then have "mset (map op_key (map (the \<circ> plan_op_for ss ds ipm zone) ss)) = mset (map fst ss)"
    by (simp only: map_map)
  then show ?thesis using build_zone_ops [OF assms] by (simp add: multiset.map_comp)
qed

text \<open>C25. The plan of a zone accounts for every rrset once: its operations are those of the source
  rrsets, one each, with the source values in order; the informational entries are the destination
  rrsets the source does not have; and every operation is one of the four actions, none of which
  deletes.\<close>

theorem plan_covers_zone:
  assumes "build_zone_plan zone src dest ipm = Some pz"
  shows "distinct (map op_key (pz_ops pz)) \<and>
    set (map op_key (pz_ops pz)) = rrset_key_of zone ` set src \<and>
    set (map info_key (pz_informational pz)) = rrset_key_of zone ` set dest - rrset_key_of zone ` set src \<and>
    (\<forall>x\<in>set (pz_ops pz). op_action x \<in> {Add, Replace, Manual, Skip} \<and>
       op_source_values x = sorted_values zone (records_of zone src (op_key x)) \<and>
       op_destination_values x = sorted_values zone (records_of zone dest (op_key x)))"
proof -
  let ?S = "group_rrsets zone src" and ?D = "group_rrsets zone dest"
  note b = assms [unfolded build_zone_plan_def]
  have ms: "mset (map op_key (pz_ops pz)) = mset (map fst ?S)" by (rule op_keys [OF b])
  have 1: "distinct (map op_key (pz_ops pz))"
    using distinct_group_rrsets mset_eq_imp_distinct_iff [OF ms] by blast
  have 2: "set (map op_key (pz_ops pz)) = rrset_key_of zone ` set src"
    using mset_eq_setD [OF ms] keys_group_rrsets by (metis set_map)
  have "set (map info_key (pz_informational pz)) = fst ` {p \<in> set ?D. map_of ?S (fst p) = None}"
    using build_zone_ops [OF b] by (force simp: info_key_def rrset_info_of_def image_iff)
  also have "\<dots> = rrset_key_of zone ` set dest - rrset_key_of zone ` set src"
  proof -
    have "fst ` {p \<in> A. fst p \<notin> B} = fst ` A - B" for A :: "(rrset_key \<times> dns_record list) set" and B
      by auto
    then show ?thesis unfolding map_of_eq_None_iff keys_group_rrsets by (simp add: keys_group_rrsets)
  qed
  finally have 3: "set (map info_key (pz_informational pz)) =
      rrset_key_of zone ` set dest - rrset_key_of zone ` set src" .
  have 4: "op_action x \<in> {Add, Replace, Manual, Skip} \<and>
       op_source_values x = sorted_values zone (records_of zone src (op_key x)) \<and>
       op_destination_values x = sorted_values zone (records_of zone dest (op_key x))"
    if "x \<in> set (pz_ops pz)" for x
  proof -
    obtain p where p: "p \<in> set ?S" "plan_op_for ?S ?D ipm zone p = Some x"
      using bexE [OF mem_zone_ops [OF b, THEN iffD1, OF \<open>x \<in> set (pz_ops pz)\<close>]] by metis
    have "op_action x \<in> {Add, Replace, Manual, Skip}"
    proof -
      have "op_action (filled_op a b c) = b" for a b c by (simp add: filled_op_def)
      then show ?thesis using op_cases [OF p(2)] by (elim disjE conjE) simp_all
    qed
    moreover have "op_key x = fst p" using op_identity [OF p(2)] by (simp add: op_key_def)
    moreover have "snd p = records_of zone src (fst p)" using p(1) by (simp add: mem_group_rrsets)
    moreover have "(case map_of ?D (fst p) of None \<Rightarrow> [] | Some dv \<Rightarrow> sorted_values zone dv) =
        sorted_values zone (records_of zone dest (fst p))"
      by (simp add: lookup_group_rrsets sorted_values_def)
    ultimately show ?thesis using op_identity [OF p(2)] by (simp only: simp_thms)
  qed
  show ?thesis using 1 2 3 4 by blast
qed

lemma op_key_simp: "plan_op_for ss ds ipm zone p = Some x \<Longrightarrow> op_key x = fst p"
  using op_identity by (simp add: op_key_def)

lemma zone_op_origin:
  assumes "build_zone_plan zone src dest ipm = Some pz" "x \<in> set (pz_ops pz)"
  shows "plan_op_for (group_rrsets zone src) (group_rrsets zone dest) ipm zone
      (op_key x, records_of zone src (op_key x)) = Some x \<and> records_of zone src (op_key x) \<noteq> []"
proof -
  obtain p where p: "p \<in> set (group_rrsets zone src)"
    "plan_op_for (group_rrsets zone src) (group_rrsets zone dest) ipm zone p = Some x"
    using bexE [OF mem_zone_ops [OF assms(1) [unfolded build_zone_plan_def], THEN iffD1, OF assms(2)]] by metis
  have "p = (op_key x, records_of zone src (op_key x))"
    using op_key_simp [OF p(2)] p(1) by (cases p) (simp add: mem_group_rrsets)
  then show ?thesis using p by (simp add: mem_group_rrsets)
qed

lemma translate_record_Inr:
  assumes "translate_record typ ipm zone r = Inr t"
  shows "pl_name (tr_record t) = canon_dns_name (dr_name r) zone \<and> pl_type (tr_record t) = typ \<and>
    1 \<le> pl_ttl (tr_record t) \<and> pl_ttl (tr_record t) \<le> plan_write_ttl_cap \<and>
    (typ = ''A'' \<or> typ = ''AAAA'' \<longrightarrow>
       (\<exists>to. map_of ipm (canon_ip_string (dr_address r)) = Some to \<and> pl_data (tr_record t) = [canon_ip_string to]))"
proof -
  have ttl: "1 \<le> fst (cap_ttl i) \<and> fst (cap_ttl i) \<le> plan_write_ttl_cap" for i
    by (simp add: cap_ttl_def plan_write_ttl_cap_def)
  obtain n c where nc: "cap_ttl (dr_ttl r) = (n, c)" by force
  have "1 \<le> n" "n \<le> plan_write_ttl_cap" using ttl [of "dr_ttl r"] nc by simp_all
  moreover have "tr_record t = \<lparr>pl_name = canon_dns_name (dr_name r) zone, pl_type = typ,
      pl_ttl = n, pl_data = pl_data (tr_record t)\<rparr>"
    using assms unfolding translate_record_def
    by (auto simp: nc Let_def split: if_splits option.splits)
  moreover have "\<exists>to. map_of ipm (canon_ip_string (dr_address r)) = Some to \<and>
      pl_data (tr_record t) = [canon_ip_string to]" if "typ = ''A'' \<or> typ = ''AAAA''"
    using assms that unfolding translate_record_def
    by (auto simp: nc Let_def split: option.splits)
  ultimately show ?thesis by (metis plan_record.select_convs(1-3))
qed

lemma mem_translated:
  "t \<in> set (fst (translate_records typ ipm zone rs)) \<longleftrightarrow>
     (\<exists>r\<in>set rs. translate_record typ ipm zone r = Inr t)"
  by (induction rs) (auto simp: translate_records_def Let_def List.map_filter_simps split: sum.splits)

lemma unmapped_iff:
  "a \<in> set (snd (translate_records typ ipm zone rs)) \<longleftrightarrow>
     (\<exists>r\<in>set rs. translate_record typ ipm zone r = Inl a)"
  by (induction rs) (auto simp: translate_records_def Let_def List.map_filter_simps split: sum.splits)

lemma all_translated:
  assumes "snd (translate_records typ ipm zone rs) = []" "r \<in> set rs"
  shows "\<exists>t. translate_record typ ipm zone r = Inr t"
proof (cases "translate_record typ ipm zone r")
  case (Inl a)
  then have "a \<in> set (snd (translate_records typ ipm zone rs))"
    unfolding unmapped_iff using assms(2) by blast
  then show ?thesis using assms(1) by simp
qed blast

text \<open>C4. What a plan writes is safe. An operation carries records only when it adds an rrset the
  destination does not have or replaces one it has; its type can be round-tripped, its name is not a
  host validation name, no CNAME conflicts with it; its records have its name and type and a TTL
  between 1 and 3600; and for an address type every source address is mapped and every written
  record is the mapped address of a source record, without exception.\<close>

theorem plan_writes_are_safe:
  assumes "build_zone_plan zone src dest ipm = Some pz" "x \<in> set (pz_ops pz)"
    and "op_action x = Add \<or> op_action x = Replace \<or> op_records x \<noteq> []"
  shows "(op_action x = Add \<and> records_of zone dest (op_key x) = [] \<or>
      op_action x = Replace \<and> records_of zone dest (op_key x) \<noteq> []) \<and>
    op_type x \<in> set actionable_types \<and> \<not> is_host_validation_name (op_name x) \<and>
    \<not> cross_type_conflict (group_rrsets zone src) (group_rrsets zone dest) (op_key x) \<and>
    (\<forall>rec\<in>set (op_records x). pl_name rec = op_name x \<and> pl_type rec = op_type x \<and>
       1 \<le> pl_ttl rec \<and> pl_ttl rec \<le> 3600) \<and>
    (op_type x = ''A'' \<or> op_type x = ''AAAA'' \<longrightarrow>
      (\<forall>r\<in>set (records_of zone src (op_key x)). map_of ipm (canon_ip_string (dr_address r)) \<noteq> None) \<and>
      (\<forall>rec\<in>set (op_records x). \<exists>r\<in>set (records_of zone src (op_key x)). \<exists>to.
         map_of ipm (canon_ip_string (dr_address r)) = Some to \<and> pl_data rec = [canon_ip_string to]))"
proof -
  let ?S = "group_rrsets zone src" and ?D = "group_rrsets zone dest"
  let ?k = "op_key x" and ?rs = "records_of zone src (op_key x)"
  let ?tr = "fst (translate_records (fst ?k) ipm zone ?rs)"
  note origin = conjunct1 [OF zone_op_origin [OF assms(1,2)]]
  have filled: "x = filled_op (new_op ?k ?rs ?D zone) (if map_of ?D ?k = None then Add else Replace) ?tr"
    and ok: "write_allowed ?k ?rs ?D ipm zone (cross_type_conflict ?S ?D ?k)"
    using op_cases [OF origin] assms(3) by auto
  have act: "op_action x = (if map_of ?D ?k = None then Add else Replace)"
    by (subst filled) (simp add: filled_op_def)
  have recs: "set (op_records x) = tr_record ` set ?tr"
    by (subst filled) (simp add: filled_op_def)
  have key: "fst ?k = op_type x" "snd ?k = op_name x" by (simp_all add: op_key_def)
  have unm: "snd (translate_records (fst ?k) ipm zone ?rs) = []"
    using ok by (simp add: write_allowed_def)
  have names: "canon_dns_name (dr_name r) zone = op_name x" if "r \<in> set ?rs" for r
    using that key by (auto simp: records_of_def rrset_key_of_def op_key_def)
  have rec: "\<exists>r\<in>set ?rs. \<exists>t. rec = tr_record t \<and> translate_record (fst ?k) ipm zone r = Inr t"
    if "rec \<in> set (op_records x)" for rec
  proof -
    obtain t where "t \<in> set ?tr" "rec = tr_record t" using \<open>rec \<in> set (op_records x)\<close> unfolding recs by blast
    then show ?thesis unfolding mem_translated by blast
  qed
  have 1: "op_action x = Add \<and> records_of zone dest ?k = [] \<or>
      op_action x = Replace \<and> records_of zone dest ?k \<noteq> []"
    using act by (simp add: lookup_group_rrsets split: if_splits)
  have 2: "pl_name rec = op_name x \<and> pl_type rec = op_type x \<and> 1 \<le> pl_ttl rec \<and> pl_ttl rec \<le> 3600"
    if r: "rec \<in> set (op_records x)" for rec
  proof -
    obtain r t where rt: "r \<in> set ?rs" "rec = tr_record t" "translate_record (fst ?k) ipm zone r = Inr t"
      using rec [OF r] by blast
    show ?thesis using translate_record_Inr [OF rt(3)] names [OF rt(1)] rt(2) key
      by (simp add: plan_write_ttl_cap_def)
  qed
  have 3: "map_of ipm (canon_ip_string (dr_address r)) \<noteq> None"
    if t: "op_type x = ''A'' \<or> op_type x = ''AAAA''" and r: "r \<in> set ?rs" for r
  proof -
    obtain tr where tr: "translate_record (fst ?k) ipm zone r = Inr tr"
      using all_translated [OF unm r] by blast
    have "fst ?k = ''A'' \<or> fst ?k = ''AAAA''" using t key(1) by (simp only:)
    then show ?thesis using translate_record_Inr [OF tr] by auto
  qed
  have 4: "\<exists>r\<in>set ?rs. \<exists>to. map_of ipm (canon_ip_string (dr_address r)) = Some to \<and> pl_data rec = [canon_ip_string to]"
    if t: "op_type x = ''A'' \<or> op_type x = ''AAAA''" and r: "rec \<in> set (op_records x)" for rec
  proof -
    obtain r t where rt: "r \<in> set ?rs" "rec = tr_record t" "translate_record (fst ?k) ipm zone r = Inr t"
      using rec [OF r] by blast
    have "fst ?k = ''A'' \<or> fst ?k = ''AAAA''" using t key(1) by (simp only:)
    then show ?thesis using translate_record_Inr [OF rt(3)] rt(1,2) by blast
  qed
  have 5: "op_type x \<in> set actionable_types \<and> \<not> is_host_validation_name (op_name x) \<and>
      \<not> cross_type_conflict ?S ?D ?k"
    using ok key unfolding write_allowed_def by simp
  show ?thesis
    by (intro conjI ballI impI) (use 1 2 3 4 5 in \<open>simp_all only: simp_thms not_False_eq_True\<close>)
qed

section \<open>Visiting order\<close>

lemma cross_type_conflict_order:
  assumes "set ss = set ss'" "set ds = set ds'"
  shows "cross_type_conflict ss ds k = cross_type_conflict ss' ds' k"
proof -
  have "list_ex P (map fst ss @ map fst ds) = list_ex P (map fst ss' @ map fst ds')" for P
    using assms by (simp add: list_ex_iff)
  then show ?thesis by (simp only: cross_type_conflict_def Let_def)
qed

lemma build_zone_plan_sets_order:
  assumes "same_map ss ss'" "same_map ds ds'"
  shows "build_zone_plan_sets zone ss ds ipm = build_zone_plan_sets zone ss' ds' ipm"
proof -
  note m = same_map_map_of [OF assms(1)] same_map_map_of [OF assms(2)]
  have sets: "set ss = set ss'" "set ds = set ds'" using assms same_map_set by auto
  have f: "plan_op_for ss ds ipm zone = plan_op_for ss' ds' ipm zone"
  proof -
    have c: "cross_type_conflict ss ds = cross_type_conflict ss' ds'"
      by (rule ext) (rule cross_type_conflict_order [OF sets])
    have v: "classify_values x k tr ds zone = classify_values x k tr ds' zone" for x k tr
      by (simp only: classify_values_def m)
    have t: "classify_txt x k rs tr ds ipm zone = classify_txt x k rs tr ds' ipm zone" for x k rs tr
      by (simp only: classify_txt_def v m)
    have "classify x k rs ds ipm zone b = classify x k rs ds' ipm zone b" for x k rs b
      by (simp only: classify_def v t m)
    moreover have "new_op k rs ds zone = new_op k rs ds' zone" for k rs
      by (simp only: new_op_def m)
    ultimately show ?thesis by (simp only: fun_eq_iff plan_op_for_def c simp_thms)
  qed
  have dist: "distinct (map fst ss)" "distinct (map fst ds)" using assms by (auto simp: same_map_def)
  have infos: "sort_key info_order (map (rrset_info_of zone) (filter (\<lambda>p. map_of ss (fst p) = None) ds)) =
      sort_key info_order (map (rrset_info_of zone) (filter (\<lambda>p. map_of ss' (fst p) = None) ds'))"
  proof (rule sort_key_order_irrelevant)
    show "mset (map (rrset_info_of zone) (filter (\<lambda>p. map_of ss (fst p) = None) ds)) =
        mset (map (rrset_info_of zone) (filter (\<lambda>p. map_of ss' (fst p) = None) ds'))"
      using assms m by (simp add: same_map_def)
    have "inj_on info_order (rrset_info_of zone ` set ds)"
      by (rule inj_on_snd_of_keys [where h = prod.swap]) (auto simp: dist info_order_def rrset_info_of_def)
    then show "inj_on info_order (set (map (rrset_info_of zone) (filter (\<lambda>p. map_of ss (fst p) = None) ds)))"
      by (rule inj_on_subset) auto
  qed
  have ops: "sort_key op_order (map (the \<circ> plan_op_for ss ds ipm zone) ss) =
      sort_key op_order (map (the \<circ> plan_op_for ss ds ipm zone) ss')"
    if all: "\<forall>p\<in>set ss. plan_op_for ss ds ipm zone p \<noteq> None"
  proof (rule sort_key_order_irrelevant)
    show "mset (map (the \<circ> plan_op_for ss ds ipm zone) ss) = mset (map (the \<circ> plan_op_for ss ds ipm zone) ss')"
      using assms by (simp add: same_map_def)
    have "inj_on op_order ((the \<circ> plan_op_for ss ds ipm zone) ` set ss)"
    proof (rule inj_on_snd_of_keys [where h = prod.swap, OF dist(1)])
      fix p assume "p \<in> set ss"
      then obtain x where "plan_op_for ss ds ipm zone p = Some x" using all by blast
      then show "op_order ((the \<circ> plan_op_for ss ds ipm zone) p) = prod.swap (fst p)"
        using op_identity [of ss ds ipm zone p x] by (simp add: op_order_def prod.swap_def)
    qed simp
    then show "inj_on op_order (set (map (the \<circ> plan_op_for ss ds ipm zone) ss))" by simp
  qed
  show ?thesis
    unfolding build_zone_plan_sets_def those_map f [symmetric]
    using infos ops sets by simp
qed

lemma substitute_once_cong: "map_of m = map_of m' \<Longrightarrow> substitute_once m fs s = substitute_once m' fs s"
  by (induction m fs s rule: substitute_once.induct) (simp_all split: option.split)

lemma map_keys_same: "same_map m m' \<Longrightarrow> mset (map fst m) = mset (map fst m')"
  by (simp add: same_map_def)

lemma ordered_froms_order: "same_map m m' \<Longrightarrow> ordered_froms m = ordered_froms m'"
  unfolding ordered_froms_def
  by (rule sort_key_order_irrelevant [OF map_keys_same]) (auto simp: inj_on_def)

lemma matched_addresses_order: "same_map m m' \<Longrightarrow> matched_addresses m rs = matched_addresses m' rs"
  unfolding matched_addresses_def
  by (rule sort_order_irrelevant) (use map_keys_same [of m m'] in \<open>simp only: mset_filter\<close>)

lemma build_zone_plan_map_order:
  assumes "same_map m m'"
  shows "build_zone_plan_sets zone ss ds m = build_zone_plan_sets zone ss ds m'"
proof -
  note eq = same_map_map_of [OF assms]
  have tv: "translate_txt_values m rs = translate_txt_values m' rs" for rs
    unfolding translate_txt_values_def ordered_froms_order [OF assms]
    using substitute_once_cong [OF eq] by simp
  have tr: "translate_records t m zone rs = translate_records t m' zone rs" for t rs
  proof -
    have "translate_record t m zone = translate_record t m' zone"
      by (rule ext) (simp only: translate_record_def eq)
    then show ?thesis by (simp only: translate_records_def)
  qed
  have "classify x k rs ds m zone b = classify x k rs ds m' zone b" for x k rs b
    by (simp only: classify_def classify_txt_def tv tr matched_addresses_order [OF assms])
  then have "plan_op_for ss ds m zone = plan_op_for ss ds m' zone"
    by (simp only: fun_eq_iff plan_op_for_def simp_thms)
  then show ?thesis by (simp only: build_zone_plan_sets_def)
qed

text \<open>The order in which Go visits the maps of the plan (the rrsets of both sides and the address
  map) does not reach the plan of a zone.\<close>

theorem plan_order_irrelevant:
  assumes "same_map (group_rrsets zone src) ss" "same_map (group_rrsets zone dest) ds" "same_map ipm m"
  shows "build_zone_plan zone src dest ipm = build_zone_plan_sets zone ss ds m"
  unfolding build_zone_plan_def
  using build_zone_plan_sets_order [OF assms(1,2)] build_zone_plan_map_order [OF assms(3)] by simp

section \<open>The plan returns\<close>

lemma substitute_once_returns: "[] \<notin> set froms \<Longrightarrow> substitute_once m froms s \<noteq> None"
proof (induction m froms s rule: substitute_once.induct)
  case (2 m froms c s)
  show ?case
  proof (cases "find (\<lambda>f. has_prefix (c # s) f) froms")
    case None
    then show ?thesis using 2 by simp
  next
    case (Some f)
    then have "f \<in> set froms" by (auto simp: find_Some_iff)
    then have "f \<noteq> []" using "2.prems" by auto
    then show ?thesis using 2 Some by simp
  qed
qed simp

lemma translate_txt_values_returns:
  assumes "[] \<notin> fst ` set m"
  shows "translate_txt_values m rs \<noteq> None"
proof -
  have "[] \<notin> set (ordered_froms m)" using assms by (simp add: ordered_froms_def)
  then have "None \<notin> set (map (\<lambda>r. substitute_once m (ordered_froms m) (dr_txtdata r)) rs)"
    using substitute_once_returns by (metis (no_types, lifting) imageE list.set_map)
  then have "those (map (\<lambda>r. substitute_once m (ordered_froms m) (dr_txtdata r)) rs) \<noteq> None"
    by (simp only: those_None_iff simp_thms)
  then show ?thesis by (simp add: translate_txt_values_def)
qed

lemma classify_returns:
  assumes "[] \<notin> fst ` set m"
  shows "classify x k rs ds m zone b \<noteq> None"
proof -
  have v: "classify_values x k tr ds zone \<noteq> None" for tr
    by (simp add: classify_values_def Let_def split: option.split)
  have t: "classify_txt x k rs tr ds m zone \<noteq> None" for tr
    using v translate_txt_values_returns [OF assms, of rs]
    unfolding classify_txt_def Let_def decide_def
    by (cases "map_of ds k"; cases "translate_txt_values m rs") simp_all
  show ?thesis
    unfolding classify_def decide_def using v t by (simp add: case_prod_beta)
qed

lemma build_zone_plan_returns: "[] \<notin> fst ` set m \<Longrightarrow> build_zone_plan zone src dest m \<noteq> None"
  using classify_returns
  by (simp add: build_zone_plan_def build_zone_plan_sets_def those_map plan_op_for_def)

lemma ipv4_fields_length: "ipv4_fields s v n fs b = Some r \<Longrightarrow> length fs \<le> 3 \<Longrightarrow> length r = 4"
  by (induction s v n fs b rule: ipv4_fields.induct) (auto split: if_splits)

lemma join_map_nonempty:
  assumes "xs \<noteq> []" "\<And>x. f x \<noteq> []"
  shows "join sep (map f xs) \<noteq> []"
proof -
  have "join sep (y # ys) \<noteq> []" if "y \<noteq> []" for y ys using that by (cases ys) simp_all
  then show ?thesis using assms by (cases xs) simp_all
qed

lemma hex_of_nonempty: "hex_of n \<noteq> []"
  by (subst hex_of.simps) simp

lemma show_groups_nonempty: "show_groups (groups16 bs) \<noteq> []"
proof (cases "zero_run (groups16 bs)")
  case None
  have "map hex_of (groups16 bs) \<noteq> []" by (simp add: groups16_def)
  then show ?thesis
    using None join_map_nonempty [of "groups16 bs" hex_of] hex_of_nonempty
    by (simp add: show_groups_def)
next
  case (Some p)
  then show ?thesis by (cases p) (simp add: show_groups_def)
qed

lemma canon_ip_nonempty:
  assumes "trim_space s \<noteq> []"
  shows "canon_ip_string s \<noteq> []"
proof (cases "parse_addr (trim_space s)")
  case None
  then show ?thesis using assms by (simp add: canon_ip_string_def to_lower_def)
next
  case (Some a)
  have "show_addr a \<noteq> []"
  proof (cases a)
    case (IPv4 fs)
    then have "parse_ipv4 (trim_space s) = Some fs"
      using Some by (auto simp: parse_addr_def parse_ipv6_def Let_def split: option.splits if_splits)
    then have "length fs = 4" using ipv4_fields_length by (simp add: parse_ipv4_def)
    then have "fs \<noteq> []" by auto
    then show ?thesis
      using IPv4 join_map_nonempty [of fs digits_of] digits_of_nonempty
      by (simp add: show_addr_def show_ipv4_def)
  next
    case (IPv6 bs z)
    then show ?thesis using show_groups_nonempty by (simp add: show_addr_def)
  qed
  then show ?thesis using Some by (simp add: canon_ip_string_def)
qed

lemma canon_ip_map_keys: "fst ` set (canon_ip_map m) = canon_ip_string ` fst ` set m"
proof (induction m rule: rev_induct)
  case Nil
  then show ?case by (simp add: canon_ip_map_def)
next
  case (snoc p m)
  then show ?case by (auto simp: canon_ip_map_def dom_update)
qed

text \<open>C26. Planning always returns: whatever the inventories, the policy report and the address map
  hold, as long as no source address of the map is blank (the command line refuses those), the scan
  of every TXT value ends and a plan or an error comes back.\<close>

theorem planning_returns:
  assumes "\<And>p. p \<in> set ipmap \<Longrightarrow> trim_space (fst p) \<noteq> []"
  shows "\<exists>r. build_dns_plan src dest policy ipmap = Some r"
proof -
  have ne: "[] \<notin> fst ` set (canon_ip_map ipmap)"
    using assms canon_ip_nonempty unfolding canon_ip_map_keys by force
  have "plan_source_zone dz policy (canon_ip_map ipmap) z \<noteq> None" for dz z
    using build_zone_plan_returns [OF ne] unfolding plan_source_zone_def Let_def
    by (simp split: option.split)
  then show ?thesis by (auto simp: build_dns_plan_def Let_def those_map)
qed

section \<open>Examples\<close>

definition demo_a :: dns_record where
  "demo_a = \<lparr>dr_type = ''A'', dr_name = ''@'', dr_ttl = 14400, dr_value = ''1.2.3.4'', dr_priority = 0,
     dr_exchange = [], dr_address = ''1.2.3.4'', dr_target = [], dr_txtdata = [], dr_class = ''IN'',
     dr_line = 0, dr_raw = []\<rparr>"

definition demo_ip_map :: "(string, string) gomap" where
  "demo_ip_map = [(''1.2.3.4'', ''5.6.7.8'')]"

definition demo_zone_plan :: plan_zone where
  "demo_zone_plan =
     \<lparr>pz_zone = ''a.it'',
      pz_ops = [\<lparr>op_action = Add, op_type = ''A'', op_name = ''a.it.'', op_reason = [],
        op_records = [\<lparr>pl_name = ''a.it.'', pl_type = ''A'', pl_ttl = 3600, pl_data = [''5.6.7.8'']\<rparr>],
        op_source_values = [''1.2.3.4''], op_destination_values = [], op_ttl_capped = True\<rparr>],
      pz_informational = [], pz_policy_findings = []\<rparr>"

lemma demo_zone_plan_eq: "build_zone_plan ''a.it'' [demo_a] [] demo_ip_map = Some demo_zone_plan"
  by code_simp

theorem plan_covers_zone_witness:
  "set (map op_key (pz_ops demo_zone_plan)) = {(''A'', ''a.it.'')}"
  using plan_covers_zone [OF demo_zone_plan_eq]
  by (simp add: op_key_def demo_zone_plan_def)

theorem plan_writes_are_safe_witness:
  "\<exists>x\<in>set (pz_ops demo_zone_plan). op_action x = Add \<and>
     (\<forall>rec\<in>set (op_records x). 1 \<le> pl_ttl rec \<and> pl_ttl rec \<le> 3600)"
proof
  let ?x = "hd (pz_ops demo_zone_plan)"
  show "?x \<in> set (pz_ops demo_zone_plan)" by (simp add: demo_zone_plan_def)
  then show "op_action ?x = Add \<and> (\<forall>rec\<in>set (op_records ?x). 1 \<le> pl_ttl rec \<and> pl_ttl rec \<le> 3600)"
    using plan_writes_are_safe [OF demo_zone_plan_eq, of ?x] by (simp add: demo_zone_plan_def)
qed

theorem plan_order_irrelevant_witness:
  "build_zone_plan ''a.it'' [demo_a] [] demo_ip_map =
     build_zone_plan_sets ''a.it'' [((''A'', ''a.it.''), [demo_a])] [] demo_ip_map"
  by (rule plan_order_irrelevant) (simp add: same_map_def, code_simp, code_simp, simp add: same_map_def demo_ip_map_def)

theorem planning_returns_witness:
  "\<exists>r. build_dns_plan (new_empty_inventory [] [] [] []) (new_empty_inventory [] [] [] []) None demo_ip_map = Some r"
  by (rule planning_returns) (simp add: demo_ip_map_def, code_simp)

text \<open>An address map that names one address in two spellings has no single meaning: both
  spellings have the same canonical form, and which target wins depends on the order in which Go
  visits the map.\<close>

theorem two_spellings_are_ambiguous:
  "\<exists>m. distinct (map fst m) \<and> same_map m (rev m) \<and>
     map_of (canon_ip_map m) ''1::2'' \<noteq> map_of (canon_ip_map (rev m)) ''1::2''"
proof (intro exI conjI)
  let ?m = "[(''1::2'', ''10.0.0.1''), (''1:0::2'', ''10.0.0.2'')]"
  show "distinct (map fst ?m)" by simp
  then show "same_map ?m (rev ?m)" by (simp add: same_map_def)
  have "map_of (canon_ip_map ?m) ''1::2'' = Some ''10.0.0.2''" by code_simp
  moreover have "map_of (canon_ip_map (rev ?m)) ''1::2'' = Some ''10.0.0.1''" by code_simp
  ultimately show "map_of (canon_ip_map ?m) ''1::2'' \<noteq> map_of (canon_ip_map (rev ?m)) ''1::2''"
    by simp
qed

end
