(* ===== verification/DnsVerifyLaws.thy ===== *)
theory DnsVerifyLaws
  imports DnsVerify DnsPlanLaws
begin

text \<open>
  How the verification and the plan fit together: the values verification expects of a written
  operation are those the plan decided on; right after planning, before anything is written, every
  operation verifies as untouched; once exactly the written rrsets hold their desired values, the
  zone verifies clean; and the report is clean only when nothing is open.
\<close>

section \<open>Desired values\<close>

lemma join_Nil_concat: "join [] xs = concat xs"
  by (induction "[] :: string" xs rule: join.induct) auto

lemma desired_value_translated:
  assumes "translate_record typ' ipm zone r = Inr t" "typ' \<in> set actionable_types"
  shows "desired_value (tr_record t) = Inr (tr_value t)"
proof -
  obtain n c where nc: "cap_ttl (dr_ttl r) = (n, c)" by force
  consider "typ' = ''A'' \<or> typ' = ''AAAA''" | "typ' = ''CNAME''" | "typ' = ''MX''" | "typ' = ''TXT''"
    using assms(2) by (auto simp: actionable_types_def)
  then show ?thesis
  proof cases
    case 1
    then show ?thesis using assms(1)
      by (auto simp: translate_record_def nc Let_def desired_value_def split: option.splits)
  next
    case 2
    then show ?thesis using assms(1)
      by (auto simp: translate_record_def nc Let_def desired_value_def)
  next
    case 3
    then show ?thesis using assms(1)
      by (auto simp: translate_record_def nc Let_def desired_value_def)
  next
    case 4
    then show ?thesis using assms(1) split_txt_nonempty
      by (auto simp: translate_record_def nc Let_def desired_value_def join_Nil_concat)
  qed
qed

lemma collect_values_map:
  "(\<And>r. r \<in> set rs \<Longrightarrow> desired_value r = Inr (g r)) \<Longrightarrow> collect_values rs = Inr (map g rs)"
  by (induction rs) simp_all

lemma translated_length:
  assumes "snd (translate_records ty ipm zone rs) = []"
  shows "length (fst (translate_records ty ipm zone rs)) = length rs"
proof -
  have "length (List.map_filter (\<lambda>x. case x of Inr t \<Rightarrow> Some t | Inl _ \<Rightarrow> None) (map f rs)) = length rs"
    if "\<forall>r\<in>set rs. \<exists>t. f r = Inr t" for f :: "dns_record \<Rightarrow> string + translated_record"
    using that by (induction rs) (auto simp: List.map_filter_simps)
  then show ?thesis
    using all_translated [OF assms] by (simp add: translate_records_def Let_def)
qed

text \<open>The value of a written record, as verification reads it.\<close>

definition record_value :: "plan_record \<Rightarrow> string" where
  "record_value r = (case desired_value r of Inr v \<Rightarrow> v | Inl _ \<Rightarrow> [])"

lemma desired_values_filled:
  assumes "write_allowed k rs ds ipm zone c" "rs \<noteq> []"
  shows "desired_values (filled_op opn a (fst (translate_records (fst k) ipm zone rs))) =
    Inr (sort (map tr_value (fst (translate_records (fst k) ipm zone rs))))"
proof -
  let ?tr = "fst (translate_records (fst k) ipm zone rs)"
  let ?recs = "sort_key (\<lambda>r. join nul (pl_data r)) (map tr_record ?tr)"
  have act: "fst k \<in> set actionable_types" and un: "snd (translate_records (fst k) ipm zone rs) = []"
    using assms(1) by (simp_all add: write_allowed_def)
  have val: "desired_value (tr_record t) = Inr (tr_value t)" if "t \<in> set ?tr" for t
    using that desired_value_translated [OF _ act] unfolding mem_translated by blast
  have coll: "collect_values ?recs = Inr (map record_value ?recs)"
    by (rule collect_values_map) (use val in \<open>auto simp: record_value_def\<close>)
  have "map (record_value \<circ> tr_record) ?tr = map tr_value ?tr"
    using val by (simp add: record_value_def)
  then have "mset (map record_value ?recs) = mset (map tr_value ?tr)"
    by (metis (no_types, lifting) map_map mset_map mset_sort)
  then have "sort (map record_value ?recs) = sort (map tr_value ?tr)"
    by (rule sort_order_irrelevant)
  moreover have "?recs \<noteq> []"
    using translated_length [OF un] assms(2) by (metis length_0_conv length_map length_sort)
  ultimately show ?thesis using coll by (simp add: desired_values_def filled_op_def)
qed

section \<open>Before and after the apply\<close>

lemma skip_present:
  assumes "plan_op_for ss ds ipm zone p = Some x" "op_action x = Skip"
  shows "fst (fst p) = ''SOA'' \<or> is_host_validation_name (snd (fst p)) \<or> map_of ds (fst p) \<noteq> None"
proof (rule ccontr)
  assume "\<not> ?thesis"
  then have k: "fst (fst p) \<noteq> ''SOA''" "\<not> is_host_validation_name (snd (fst p))" "map_of ds (fst p) = None"
    by auto
  have v: "op_action y = Add" if "classify_values o' (fst p) tr ds zone = Some y" for o' tr y
    using that k(3) by (auto simp: classify_values_def Let_def)
  have d: "op_action y = Manual" if "decide o' Manual r = Some y" for o' r y
    using that by (auto simp: decide_def)
  have t: "op_action y = Add \<or> op_action y = Manual" if "classify_txt o' (fst p) rs tr ds ipm zone = Some y" for o' rs tr y
    using that k(3) v d unfolding classify_txt_def Let_def by (auto split: if_splits)
  have "op_action x = Add \<or> op_action x = Manual"
    using assms(1) k v d t unfolding plan_op_for_def classify_def
    by (auto simp: case_prod_beta split: if_splits)
  then show False using assms(2) by simp
qed

text \<open>The four ways an operation can verify when nothing unexpected happened.\<close>

definition settled :: "verify_status \<Rightarrow> plan_op \<Rightarrow> verify_status" where
  "settled written x =
     (case op_action x of
        Manual \<Rightarrow> ManualReview
      | Skip \<Rightarrow> (if op_type x = ''SOA'' \<or> is_host_validation_name (op_name x) then NotChecked else Unchanged)
      | _ \<Rightarrow> written)"

lemma verdict_status [simp]: "vr_status (verdict x st r e ob) = st"
  by (simp add: verdict_def)

definition is_write :: "plan_op \<Rightarrow> bool" where
  "is_write x \<longleftrightarrow> op_action x = Add \<or> op_action x = Replace"

lemma live_values_group:
  "live_values zone (group_rrsets zone rs) k =
     (if records_of zone rs k = [] then None else Some (sorted_values zone (records_of zone rs k)))"
  by (simp add: live_values_def lookup_group_rrsets)

lemma filled_is_write: "x = filled_op a (if b then Add else Replace) c \<Longrightarrow> is_write x"
  by (simp add: is_write_def filled_op_def)

lemma zone_op_facts:
  assumes "build_zone_plan zone src dest ipm = Some pz" "x \<in> set (pz_ops pz)"
  shows "op_destination_values x = sorted_values zone (records_of zone dest (op_key x)) \<and>
    (op_action x = Add \<or> op_action x = Replace \<or> op_action x = Skip \<or> op_action x = Manual) \<and>
    (op_action x = Add \<longrightarrow> records_of zone dest (op_key x) = []) \<and>
    (op_action x = Replace \<longrightarrow> records_of zone dest (op_key x) \<noteq> []) \<and>
    (op_action x = Skip \<longrightarrow> op_type x = ''SOA'' \<or> is_host_validation_name (op_name x) \<or>
       records_of zone dest (op_key x) \<noteq> []) \<and>
    (is_write x \<longrightarrow> (\<exists>des. desired_values x = Inr des \<and>
       (records_of zone dest (op_key x) \<noteq> [] \<longrightarrow> des \<noteq> sorted_values zone (records_of zone dest (op_key x)))))"
proof -
  let ?S = "group_rrsets zone src" and ?D = "group_rrsets zone dest"
  let ?rs = "records_of zone src (op_key x)" and ?dv = "records_of zone dest (op_key x)"
  note origin = zone_op_origin [OF assms]
  have look: "map_of ?D (op_key x) = (if ?dv = [] then None else Some ?dv)"
    by (rule lookup_group_rrsets)
  have key: "fst (op_key x) = op_type x" "snd (op_key x) = op_name x" by (simp_all add: op_key_def)
  have dest: "op_destination_values x = sorted_values zone ?dv"
    using op_identity [OF conjunct1 [OF origin]] look by (simp add: sorted_values_def)
  show ?thesis
  proof (cases "is_write x")
    case True
    then have f: "x = filled_op (new_op (op_key x) ?rs ?D zone) (if map_of ?D (op_key x) = None then Add else Replace)
        (fst (translate_records (fst (op_key x)) ipm zone ?rs))"
      and ok: "write_allowed (op_key x) ?rs ?D ipm zone (cross_type_conflict ?S ?D (op_key x))"
      using op_cases [OF conjunct1 [OF origin]] by (auto simp: is_write_def)
    have act: "op_action x = (if ?dv = [] then Add else Replace)"
      by (subst f) (simp add: filled_op_def look)
    have des: "desired_values x = Inr (sort (map tr_value (fst (translate_records (fst (op_key x)) ipm zone ?rs))))"
      by (subst f) (rule desired_values_filled [OF ok conjunct2 [OF origin]])
    have "?dv \<noteq> [] \<longrightarrow> sort (map tr_value (fst (translate_records (fst (op_key x)) ipm zone ?rs))) \<noteq> sorted_values zone ?dv"
      using ok look unfolding write_allowed_def by (simp split: if_splits)
    then show ?thesis using act des dest by auto
  next
    case False
    then have "op_action x = Skip \<or> op_action x = Manual"
      using op_cases [OF conjunct1 [OF origin]] filled_is_write by blast
    moreover have "op_type x = ''SOA'' \<or> is_host_validation_name (op_name x) \<or> ?dv \<noteq> []" if "op_action x = Skip"
      using skip_present [OF conjunct1 [OF origin] that] look key by auto
    ultimately show ?thesis using False dest by (auto simp: is_write_def)
  qed
qed

lemma sorted_values_empty_iff: "sorted_values zone rs = [] \<longleftrightarrow> rs = []"
  by (simp add: sorted_values_def)

lemma verify_untouched:
  assumes "build_zone_plan zone src dest ipm = Some pz" "x \<in> set (pz_ops pz)" "\<not> is_write x"
    and "live_values zone live (op_key x) = live_values zone (group_rrsets zone dest) (op_key x)"
  shows "vr_status (verify_op x live zone) = settled w x"
proof -
  note facts = zone_op_facts [OF assms(1,2)]
  have live: "live_values zone live (op_type x, op_name x) =
      (if records_of zone dest (op_key x) = [] then None else Some (op_destination_values x))"
    using assms(4) facts by (simp add: live_values_group op_key_def)
  have "op_action x = Skip \<or> op_action x = Manual" using facts assms(3) by (auto simp: is_write_def)
  then show ?thesis
  proof
    assume "op_action x = Manual"
    then show ?thesis by (simp add: verify_op_def settled_def Let_def)
  next
    assume skip: "op_action x = Skip"
    show ?thesis
    proof (cases "op_type x = ''SOA'' \<or> is_host_validation_name (op_name x)")
      case True
      then show ?thesis using skip by (simp add: verify_op_def settled_def Let_def)
    next
      case False
      then have "records_of zone dest (op_key x) \<noteq> []" "op_destination_values x \<noteq> []"
        using facts skip sorted_values_empty_iff by auto
      then show ?thesis using skip False live by (simp add: verify_op_def settled_def Let_def)
    qed
  qed
qed

text \<open>Right after planning, with the destination zone as the plan saw it, every operation verifies
  as untouched: additions and replacements are pending, comparable skips unchanged, the rest is for
  review or not checked. Nothing is reported as drift, and nothing as applied.\<close>

theorem verify_before_apply:
  assumes "build_zone_plan zone src dest ipm = Some pz" "x \<in> set (pz_ops pz)"
  shows "vr_status (verify_op x (group_rrsets zone dest) zone) = settled Pending x"
proof (cases "is_write x")
  case False
  then show ?thesis by (rule verify_untouched [OF assms]) simp
next
  case True
  note facts = zone_op_facts [OF assms]
  obtain des where des: "desired_values x = Inr des"
    "records_of zone dest (op_key x) \<noteq> [] \<longrightarrow> des \<noteq> sorted_values zone (records_of zone dest (op_key x))"
    using facts True by blast
  have live: "live_values zone (group_rrsets zone dest) (op_type x, op_name x) =
      (if records_of zone dest (op_key x) = [] then None else Some (op_destination_values x))"
    using facts by (simp add: live_values_group op_key_def)
  have "op_action x = Add \<or> op_action x = Replace" using True by (simp add: is_write_def)
  then show ?thesis
  proof
    assume "op_action x = Add"
    then show ?thesis using facts des live
      by (simp add: verify_op_def verify_write_def settled_def Let_def)
  next
    assume "op_action x = Replace"
    then show ?thesis using facts des live
      by (auto simp: verify_op_def verify_write_def settled_def Let_def)
  qed
qed

section \<open>An abstract view of applying a plan\<close>

text \<open>The state of a zone as the plan sees it: the ordered values of every rrset. Applying an operation
  gives its rrset the values its records stand for; nothing else changes, and nothing disappears.\<close>

type_synonym zone_state = "rrset_key \<Rightarrow> string list option"

definition apply_op :: "plan_op \<Rightarrow> zone_state \<Rightarrow> zone_state" where
  "apply_op x st =
     (if is_write x then
       (case desired_values x of Inr vs \<Rightarrow> st(op_key x \<mapsto> vs) | Inl _ \<Rightarrow> st)
      else st)"

lemma apply_ops_other:
  "k \<notin> op_key ` {x \<in> set xs. is_write x} \<Longrightarrow> fold apply_op xs st k = st k"
proof (induction xs arbitrary: st)
  case (Cons a xs)
  have "fold apply_op (a # xs) st k = apply_op a st k" using Cons by auto
  also have "\<dots> = st k" using Cons.prems by (auto simp: apply_op_def split: sum.splits)
  finally show ?case .
qed simp

lemma apply_ops_written:
  assumes "distinct (map op_key xs)" "x \<in> set xs" "is_write x" "desired_values x = Inr vs"
  shows "fold apply_op xs st (op_key x) = Some vs"
  using assms
proof (induction xs arbitrary: st)
  case (Cons y ys)
  show ?case
  proof (cases "x = y")
    case True
    have "op_key x \<notin> op_key ` {z \<in> set ys. is_write z}" using Cons.prems(1) True by auto
    then have "fold apply_op (y # ys) st (op_key x) = apply_op x st (op_key x)"
      using True apply_ops_other by simp
    also have "\<dots> = Some vs" using Cons.prems(3,4) by (simp add: apply_op_def)
    finally show ?thesis .
  next
    case False
    then show ?thesis using Cons by simp
  qed
qed simp

lemma zone_ops_distinct:
  "build_zone_plan zone src dest ipm = Some pz \<Longrightarrow> distinct (map op_key (pz_ops pz))"
  using op_keys [of zone _ _ ipm pz] distinct_group_rrsets mset_eq_imp_distinct_iff
  unfolding build_zone_plan_def by blast


section \<open>The gate\<close>


lemma demo_live:
  "live_values ''a.it'' (group_rrsets ''a.it'' [demo_a\<lparr>dr_address := ''5.6.7.8''\<rparr>]) =
     fold apply_op (pz_ops demo_zone_plan) (live_values ''a.it'' (group_rrsets ''a.it'' []))"
proof
  fix k
  have "rrset_key_of ''a.it'' (demo_a\<lparr>dr_address := ''5.6.7.8''\<rparr>) = (''A'', ''a.it.'')" by code_simp
  moreover have "sorted_values ''a.it'' [demo_a\<lparr>dr_address := ''5.6.7.8''\<rparr>] = [''5.6.7.8'']" by code_simp
  moreover have "fold apply_op (pz_ops demo_zone_plan) st = st((''A'', ''a.it.'') \<mapsto> [''5.6.7.8''])" for st
    by (simp add: demo_zone_plan_def apply_op_def is_write_def desired_values_def desired_value_def op_key_def)
  ultimately show "live_values ''a.it'' (group_rrsets ''a.it'' [demo_a\<lparr>dr_address := ''5.6.7.8''\<rparr>]) k =
      fold apply_op (pz_ops demo_zone_plan) (live_values ''a.it'' (group_rrsets ''a.it'' [])) k"
    by (auto simp: live_values_group records_of_def)
qed

theorem verify_before_apply_witness:
  "vr_status (verify_op (hd (pz_ops demo_zone_plan)) (group_rrsets ''a.it'' []) ''a.it'') = Pending"
  using verify_before_apply [OF demo_zone_plan_eq, of "hd (pz_ops demo_zone_plan)"]
  by (simp add: demo_zone_plan_def settled_def)


end
