(* ===== verification/EmailPlan.thy ===== *)
theory EmailPlan
  imports DnsPlan Diff
begin

text \<open>
  \<open>internal/accountinventory/emailplan.go\<close>: what an e-mail apply would write into the destination
  account. Every section planner returns the plan with its operations, its destination-only items
  and, when a side could not be read, the refusal of the section appended. Sections are texts, as in
  the plan file, and an action outside the vocabulary is \<open>EOther\<close>. \<open>sort.Slice\<close> leaves the order of
  operations that compare equal open; the model keeps their order.
\<close>

section \<open>The plan\<close>

datatype email_action = ECreate | ESet | ESkip | EManual | EOther string

abbreviation sec_forwarders :: string where "sec_forwarders \<equiv> ''forwarders''"
abbreviation sec_default_address :: string where "sec_default_address \<equiv> ''default_address''"
abbreviation sec_autoresponders :: string where "sec_autoresponders \<equiv> ''autoresponders''"
abbreviation sec_filters :: string where "sec_filters \<equiv> ''email_filters''"
abbreviation sec_routing :: string where "sec_routing \<equiv> ''email_routing''"

text \<open>A Go map gives 0 for a key it does not hold.\<close>

definition email_section_order :: "string \<Rightarrow> nat" where
  "email_section_order s =
     (if s = sec_forwarders then 0 else if s = sec_default_address then 1
      else if s = sec_autoresponders then 2 else if s = sec_filters then 3
      else if s = sec_routing then 4 else 0)"

record filter_content =
  fc_rules :: "filter_rule list"
  fc_actions :: "filter_action list"

record autoresponder_content =
  ac_from :: string
  ac_subject :: string
  ac_body :: string
  ac_is_html :: int
  ac_interval :: int
  ac_start :: int
  ac_stop :: int
  ac_charset :: string

record email_op =
  eo_section :: string
  eo_action :: email_action
  eo_domain :: string
  eo_key :: string
  eo_reason :: string
  eo_email :: string
  eo_forward :: string
  eo_value :: string
  eo_source_value :: string
  eo_destination_value :: string
  eo_plan_time_forwards :: "string list"
  eo_autoresponder :: "autoresponder_content option"
  eo_filter :: "filter_content option"

record email_info =
  ei_section :: string
  ei_domain :: string
  ei_key :: string
  ei_value :: string

record email_manual_section =
  em_section :: string
  em_reason :: string

record email_summary =
  es_create :: nat
  es_set :: nat
  es_skip :: nat
  es_manual :: nat
  es_informational :: nat

text \<open>File names, hashes and the time stamp of \<open>EmailApplyPlan\<close> are set by the caller.\<close>

record email_plan =
  ep_mode :: string
  ep_format_version :: int
  ep_source_user :: string
  ep_destination_user :: string
  ep_ops :: "email_op list"
  ep_informational :: "email_info list"
  ep_manual_sections :: "email_manual_section list"
  ep_policy_findings :: "string list"
  ep_non_email_blockers :: "string list"
  ep_summary :: email_summary

text \<open>An operation with every optional field at its zero value.\<close>

definition email_op_of :: "string \<Rightarrow> string \<Rightarrow> string \<Rightarrow> string \<Rightarrow> string \<Rightarrow> email_op" where
  "email_op_of sec domain key srcv destv =
     \<lparr>eo_section = sec, eo_action = EOther [], eo_domain = domain, eo_key = key, eo_reason = [],
      eo_email = [], eo_forward = [], eo_value = [], eo_source_value = srcv,
      eo_destination_value = destv, eo_plan_time_forwards = [], eo_autoresponder = None,
      eo_filter = None\<rparr>"

definition manual_op :: "email_op \<Rightarrow> string \<Rightarrow> email_op" where
  "manual_op opn reason = opn\<lparr>eo_action := EManual, eo_reason := reason\<rparr>"

section \<open>Addresses\<close>

definition canon_email_addr :: "string \<Rightarrow> string" where
  "canon_email_addr s = to_lower (trim_space s)"

definition split_email_addr :: "string \<Rightarrow> (string \<times> string) option" where
  "split_email_addr s =
     (let t = trim_space s in
      if count_list t CHR ''@'' \<noteq> 1 then None
      else (case cut_byte CHR ''@'' t of
              None \<Rightarrow> None
            | Some (local, domain) \<Rightarrow>
                if local = [] \<or> domain = [] then None else Some (local, domain)))"

definition is_simple_forward_target :: "string \<Rightarrow> bool" where
  "is_simple_forward_target s =
     (let t = trim_space s in
      if t = [] \<or> contains_any t [CHR '','', CHR '' '', CHR 0x09, CHR 0x7C] then False
      else if has_prefix t '':'' \<or> has_prefix t ''/'' then False
      else (case split_email_addr t of
              None \<Rightarrow> False
            | Some (local, domain) \<Rightarrow> local \<noteq> [] \<and> contains domain ''.''))"

section \<open>Default addresses\<close>

datatype default_class = DefFail | DefBlackhole | DefAccount | DefAddress | DefOther

definition classify_default_value :: "string \<Rightarrow> string \<Rightarrow> default_class" where
  "classify_default_value v user =
     (let t = trim_space v in
      if has_prefix t '':fail:'' then DefFail
      else if has_prefix t '':blackhole:'' then DefBlackhole
      else if t = user then DefAccount
      else if is_simple_forward_target t then DefAddress
      else DefOther)"

definition defaults_equivalent :: "string \<Rightarrow> string \<Rightarrow> string \<Rightarrow> string \<Rightarrow> bool" where
  "defaults_equivalent srcv destv srcu destu =
     (if trim_space srcv = trim_space destv then True
      else (let sc = classify_default_value srcv srcu; dc = classify_default_value destv destu in
            sc = dc \<and> (sc = DefFail \<or> sc = DefBlackhole \<or> sc = DefAccount)))"

definition is_fresh_default :: "string \<Rightarrow> string \<Rightarrow> bool" where
  "is_fresh_default v destu =
     (case classify_default_value v destu of
        DefFail \<Rightarrow> True | DefBlackhole \<Rightarrow> True | DefAccount \<Rightarrow> True | _ \<Rightarrow> False)"

section \<open>Forwarders\<close>

definition forwarder_pair :: "forwarder_entry \<Rightarrow> string \<times> string" where
  "forwarder_pair f = (canon_email_addr (fw_source f), canon_email_addr (fw_destination f))"

definition dest_domains :: "inventory \<Rightarrow> string list" where
  "dest_domains i = map (\<lambda>d. to_lower (dom_name d)) (inv_domains i)"

text \<open>\<open>destTargets\<close>: the targets of one address, as they are spelled, sorted.\<close>

definition dest_targets :: "forwarder_entry list \<Rightarrow> string \<Rightarrow> string list" where
  "dest_targets fs addr =
     sort (map (\<lambda>f. trim_space (fw_destination f))
       (filter (\<lambda>f. canon_email_addr (fw_source f) = addr) (dedup_by forwarder_pair [] fs)))"

definition missing_domain :: "string \<Rightarrow> string" where
  "missing_domain d =
     ''domain '' @ d @ '' is missing on destination '' @ emdash @ '' create it first, then re-plan''"

definition forwarder_op :: "inventory \<Rightarrow> forwarder_entry \<Rightarrow> email_op" where
  "forwarder_op dest f =
     (let addr = canon_email_addr (fw_source f); target = trim_space (fw_destination f);
          targets = dest_targets (inv_forwarders dest) addr; halves = split_email_addr (fw_source f);
          domain = (case halves of Some (local, domain) \<Rightarrow> to_lower domain
                    | None \<Rightarrow> to_lower (trim_space (fw_domain f)));
          opn = email_op_of sec_forwarders domain addr target (join '', '' targets)
      in case halves of
           None \<Rightarrow> manual_op opn (''source address '' @ go_quote (trim_space (fw_source f))
             @ '' does not split into local@domain '' @ emdash
             @ '' cannot be expressed as forwarder-write parameters'')
         | Some (local, _) \<Rightarrow>
             if forwarder_pair f \<in> set (map forwarder_pair (inv_forwarders dest)) then
               opn\<lparr>eo_action := ESkip\<rparr>
             else if \<not> is_simple_forward_target target then
               manual_op opn (''non-single-address forward (raw: '' @ go_quote target @ '') '' @ emdash
                 @ '' the forwarder writer only round-trips a single plain address; recreate by hand'')
             else if domain \<notin> set (dest_domains dest) then manual_op opn (missing_domain domain)
             else opn\<lparr>eo_action := ECreate, eo_email := to_lower local, eo_forward := target,
                    eo_plan_time_forwards := targets\<rparr>)"

definition forwarder_info :: "forwarder_entry \<Rightarrow> email_info" where
  "forwarder_info f =
     \<lparr>ei_section = sec_forwarders, ei_domain = to_lower (trim_space (fw_domain f)),
      ei_key = canon_email_addr (fw_source f), ei_value = trim_space (fw_destination f)\<rparr>"

definition add_to_plan :: "email_op list \<Rightarrow> email_info list \<Rightarrow> email_plan \<Rightarrow> email_plan" where
  "add_to_plan ops infos plan =
     plan\<lparr>ep_ops := ep_ops plan @ ops, ep_informational := ep_informational plan @ infos\<rparr>"

definition plan_forwarders :: "inventory \<Rightarrow> inventory \<Rightarrow> email_plan \<Rightarrow> email_plan" where
  "plan_forwarders src dest plan =
     add_to_plan (map (forwarder_op dest) (dedup_by forwarder_pair [] (inv_forwarders src)))
       (map forwarder_info (filter
          (\<lambda>f. forwarder_pair f \<notin> set (map forwarder_pair (inv_forwarders src))) (inv_forwarders dest)))
       plan"

text \<open>The refusal of a section that one side could not read.\<close>

definition refuse_section :: "string \<Rightarrow> bool \<Rightarrow> email_plan \<Rightarrow> email_plan" where
  "refuse_section sec src_available plan =
     plan\<lparr>ep_manual_sections := ep_manual_sections plan @
       [\<lparr>em_section = sec,
         em_reason = sec @ '' section unavailable on ''
           @ (if src_available then ''destination'' else ''source'') @ '' '' @ emdash
           @ '' re-run that inventory''\<rparr>]\<rparr>"

definition da_key :: "default_address_entry \<Rightarrow> string" where
  "da_key d = to_lower (da_domain d)"

definition default_address_op ::
  "string \<Rightarrow> string \<Rightarrow> default_address_entry list \<Rightarrow> default_address_entry \<Rightarrow> email_op" where
  "default_address_op srcu destu dests s =
     (let domain = da_key s; found = last_with da_key domain dests;
          destv = (case found of None \<Rightarrow> [] | Some d \<Rightarrow> da_address d);
          opn = email_op_of sec_default_address domain domain (da_address s) destv
      in if found = None then
           manual_op opn (''domain '' @ domain @ '' is missing on the destination default-address list ''
             @ emdash @ '' create it first, then re-plan'')
         else if defaults_equivalent (da_address s) destv srcu destu then opn\<lparr>eo_action := ESkip\<rparr>
         else if \<not> is_fresh_default destv destu then
           manual_op opn (''destination default address '' @ go_quote destv
             @ '' was customized on purpose '' @ emdash @ '' resolve by hand (terminal)'')
         else (case classify_default_value (da_address s) srcu of
                 DefAddress \<Rightarrow> opn\<lparr>eo_action := ESet, eo_value := trim_space (da_address s)\<rparr>
               | DefFail \<Rightarrow> opn\<lparr>eo_action := ESet, eo_value := trim_space (da_address s)\<rparr>
               | DefBlackhole \<Rightarrow> opn\<lparr>eo_action := ESet, eo_value := trim_space (da_address s)\<rparr>
               | _ \<Rightarrow> manual_op opn (''source default address '' @ go_quote (da_address s)
                        @ '' cannot be round-tripped by the default-address writer '' @ emdash
                        @ '' recreate by hand'')))"

definition default_address_info :: "default_address_entry \<Rightarrow> email_info" where
  "default_address_info d =
     \<lparr>ei_section = sec_default_address, ei_domain = da_key d, ei_key = da_key d,
      ei_value = da_address d\<rparr>"

definition plan_default_addresses :: "inventory \<Rightarrow> inventory \<Rightarrow> email_plan \<Rightarrow> email_plan" where
  "plan_default_addresses src dest plan =
     (let s = inv_default_addresses src; d = inv_default_addresses dest in
      if \<not> cfg_available (da_cfg s) \<or> \<not> cfg_available (da_cfg d) then
        refuse_section sec_default_address (cfg_available (da_cfg s)) plan
      else add_to_plan
        (map (default_address_op (ep_source_user plan) (ep_destination_user plan) (da_items d)) (da_items s))
        (map default_address_info (filter (\<lambda>e. da_key e \<notin> set (map da_key (da_items s))) (da_items d)))
        plan)"

section \<open>Autoresponders\<close>

definition autoresponders_equivalent :: "autoresponder_entry \<Rightarrow> autoresponder_entry \<Rightarrow> bool" where
  "autoresponders_equivalent a b \<longleftrightarrow>
     ar_subject a = ar_subject b \<and> ar_from a = ar_from b \<and>
     normalize_autoresponder_body (ar_body a) = normalize_autoresponder_body (ar_body b) \<and>
     ar_is_html a = ar_is_html b \<and> ar_interval a = ar_interval b \<and>
     ar_start a = ar_start b \<and> ar_stop a = ar_stop b \<and>
     autoresponder_charset (ar_charset a) = autoresponder_charset (ar_charset b)"

definition ar_key :: "autoresponder_entry \<Rightarrow> string" where
  "ar_key a = canon_email_addr (ar_email a)"

definition autoresponder_content_of :: "autoresponder_entry \<Rightarrow> autoresponder_content" where
  "autoresponder_content_of a =
     \<lparr>ac_from = ar_from a, ac_subject = ar_subject a,
      ac_body = normalize_autoresponder_body (ar_body a), ac_is_html = ar_is_html a,
      ac_interval = ar_interval a, ac_start = ar_start a, ac_stop = ar_stop a,
      ac_charset = autoresponder_charset (ar_charset a)\<rparr>"

definition autoresponder_op :: "inventory \<Rightarrow> autoresponder_entry \<Rightarrow> email_op" where
  "autoresponder_op dest a =
     (let halves = split_email_addr (ar_email a);
          domain = (case halves of Some (local, domain) \<Rightarrow> to_lower domain
                    | None \<Rightarrow> to_lower (trim_space (ar_domain a)));
          found = first_with ar_key (ar_key a) (inv_autoresponders dest);
          opn = email_op_of sec_autoresponders domain (ar_key a) (ar_subject a)
                  (case found of None \<Rightarrow> [] | Some d \<Rightarrow> ar_subject d)
      in case halves of
           None \<Rightarrow> manual_op opn (''autoresponder address '' @ go_quote (trim_space (ar_email a))
             @ '' does not split into local@domain '' @ emdash
             @ '' cannot be expressed as write parameters'')
         | Some (local, _) \<Rightarrow>
             if \<not> ar_body_collected a then
               manual_op opn (''the source inventory carries no autoresponder body (pre-2B-2 artifact or a failed per-address read) ''
                 @ emdash @ '' re-run --account-inventory on the source, then re-plan'')
             else (case found of
                 Some d \<Rightarrow>
                   if \<not> ar_body_collected d then
                     manual_op opn (''an autoresponder exists on the destination but its inventory carries no body (pre-2B-2 artifact or a failed per-address read) ''
                       @ emdash @ '' re-run the destination inventory, then re-plan'')
                   else if autoresponders_equivalent a d then
                     opn\<lparr>eo_action := ESkip, eo_autoresponder := Some (autoresponder_content_of a)\<rparr>
                   else manual_op opn (''an autoresponder with DIFFERENT content already exists on the destination ''
                     @ emdash @ '' the writer never overwrites (the add call would destroy it); resolve by hand (terminal)'')
               | None \<Rightarrow>
                   if domain \<notin> set (dest_domains dest) then manual_op opn (missing_domain domain)
                   else opn\<lparr>eo_action := ECreate, eo_email := to_lower local,
                          eo_autoresponder := Some (autoresponder_content_of a)\<rparr>))"

definition autoresponder_info :: "autoresponder_entry \<Rightarrow> email_info" where
  "autoresponder_info a =
     \<lparr>ei_section = sec_autoresponders, ei_domain = to_lower (trim_space (ar_domain a)),
      ei_key = ar_key a, ei_value = ar_subject a\<rparr>"

definition plan_autoresponders :: "inventory \<Rightarrow> inventory \<Rightarrow> email_plan \<Rightarrow> email_plan" where
  "plan_autoresponders src dest plan =
     add_to_plan (map (autoresponder_op dest) (dedup_by ar_key [] (inv_autoresponders src)))
       (map autoresponder_info (filter
          (\<lambda>a. ar_key a \<notin> set (map ar_key (inv_autoresponders src))) (inv_autoresponders dest)))
       plan"

section \<open>Filters\<close>

definition rule_agrees :: "filter_rule \<Rightarrow> filter_rule \<Rightarrow> bool" where
  "rule_agrees a b \<longleftrightarrow> fr_part a = fr_part b \<and> fr_match a = fr_match b \<and> fr_val a = fr_val b"

definition action_dest :: "filter_action \<Rightarrow> string" where
  "action_dest a = (case fa_dest a of None \<Rightarrow> [] | Some d \<Rightarrow> d)"

definition action_agrees :: "filter_action \<Rightarrow> filter_action \<Rightarrow> bool" where
  "action_agrees a b \<longleftrightarrow> fa_action a = fa_action b \<and> action_dest a = action_dest b"

definition filters_equivalent :: "email_filter_entry \<Rightarrow> email_filter_entry \<Rightarrow> bool" where
  "filters_equivalent a b \<longleftrightarrow>
     list_all2 rule_agrees (ef_rules a) (ef_rules b) \<and>
     list_all2 action_agrees (ef_actions a) (ef_actions b)"

definition filter_content_of :: "email_filter_entry \<Rightarrow> filter_content" where
  "filter_content_of f = \<lparr>fc_rules = ef_rules f, fc_actions = ef_actions f\<rparr>"

definition account_level :: string where
  "account_level = ''(account-level)''"

definition filter_key :: "email_filter_entry \<Rightarrow> string" where
  "filter_key f = (if ef_account f = [] then account_level else ef_account f) @ ''/'' @ ef_name f"

definition filter_counts :: "email_filter_entry \<Rightarrow> string" where
  "filter_counts f = itoa (ef_rule_count f) @ '' rule(s), '' @ itoa (ef_action_count f) @ '' action(s)''"

definition filter_shown :: "email_filter_entry \<Rightarrow> string" where
  "filter_shown f = filter_counts f @ '', enabled='' @ format_bool (ef_enabled f)"

definition filter_op :: "email_filter_entry list \<Rightarrow> email_filter_entry \<Rightarrow> email_op" where
  "filter_op dests f =
     (let key = filter_key f; found = first_with filter_key key dests;
          opn = email_op_of sec_filters [] key (filter_shown f)
                  (case found of None \<Rightarrow> [] | Some d \<Rightarrow> filter_shown d)
      in if \<not> ef_rules_collected f then
           manual_op opn (''the source inventory carries no filter rules (pre-2B-3 artifact or a failed per-filter read) ''
             @ emdash @ '' re-run --account-inventory on the source, then re-plan'')
         else if length (ef_rules f) > 1 then
           manual_op opn (''multi-rule filter ('' @ itoa (int (length (ef_rules f))) @ '' rules) '' @ emdash
             @ '' the match_type (AND/OR join) is not round-trippable (cPanel API does not return it); recreate by hand'')
         else (case found of
             Some d \<Rightarrow>
               if \<not> ef_rules_collected d then
                 manual_op opn (''a filter exists on the destination but its inventory carries no rules (pre-2B-3 artifact or a failed per-filter read) ''
                   @ emdash @ '' re-run the destination inventory, then re-plan'')
               else if filters_equivalent f d then
                 opn\<lparr>eo_action := ESkip, eo_filter := Some (filter_content_of f)\<rparr>
               else manual_op opn (''a filter with DIFFERENT content already exists on the destination ''
                 @ emdash @ '' the write call upserts (never-overwrite); resolve by hand (terminal)'')
           | None \<Rightarrow> opn\<lparr>eo_action := ECreate, eo_filter := Some (filter_content_of f),
                      eo_email := ef_account f\<rparr>))"

definition filter_info :: "email_filter_entry \<Rightarrow> email_info" where
  "filter_info f =
     \<lparr>ei_section = sec_filters, ei_domain = [], ei_key = filter_key f, ei_value = filter_counts f\<rparr>"

definition plan_filters :: "inventory \<Rightarrow> inventory \<Rightarrow> email_plan \<Rightarrow> email_plan" where
  "plan_filters src dest plan =
     (let s = inv_filters src; d = inv_filters dest in
      if \<not> cfg_available (ef_cfg s) \<or> \<not> cfg_available (ef_cfg d) then
        refuse_section sec_filters (cfg_available (ef_cfg s)) plan
      else add_to_plan (map (filter_op (ef_items d)) (dedup_by filter_key [] (ef_items s)))
        (map filter_info (filter
           (\<lambda>f. filter_key f \<notin> set (map filter_key (ef_items s))) (ef_items d)))
        plan)"

section \<open>Routing\<close>

definition er_key :: "email_routing_entry \<Rightarrow> string" where
  "er_key r = to_lower (er_domain r)"

definition routing_op :: "email_routing_entry list \<Rightarrow> email_routing_entry \<Rightarrow> email_op" where
  "routing_op dests r =
     (let domain = er_key r; found = last_with er_key domain dests;
          destv = (case found of None \<Rightarrow> [] | Some d \<Rightarrow> er_routing d);
          opn = email_op_of sec_routing domain domain (er_routing r) destv
      in if found = None then
           manual_op opn (''domain '' @ domain @ '' is missing on the destination routing list ''
             @ emdash @ '' create it first, then re-plan'')
         else if destv = er_routing r then opn\<lparr>eo_action := ESkip\<rparr>
         else opn\<lparr>eo_action := ESet, eo_value := er_routing r\<rparr>)"

definition plan_routing :: "inventory \<Rightarrow> inventory \<Rightarrow> email_plan \<Rightarrow> email_plan" where
  "plan_routing src dest plan =
     (let s = inv_routing src; d = inv_routing dest in
      if \<not> cfg_available (er_cfg s) \<or> \<not> cfg_available (er_cfg d) then
        refuse_section sec_routing (cfg_available (er_cfg s)) plan
      else add_to_plan (map (routing_op (er_items d)) (er_items s)) [] plan)"

section \<open>The whole plan\<close>

definition email_plan_sections :: "string list" where
  "email_plan_sections =
     [sec_forwarders, sec_default_address, sec_autoresponders, sec_filters, sec_routing]"

definition email_policy_findings :: "policy_report option \<Rightarrow> string list" where
  "email_policy_findings policy =
     (case policy of None \<Rightarrow> []
      | Some p \<Rightarrow>
         sort (map (\<lambda>f. pf_id f @ '' ['' @ show_severity (pf_severity f) @ ''] '' @ finding_ref f)
           (filter (\<lambda>f. pf_section f \<in> set email_plan_sections) (pr_findings p))))"

definition non_email_blockers :: "policy_report option \<Rightarrow> string list" where
  "non_email_blockers policy =
     (case policy of None \<Rightarrow> []
      | Some p \<Rightarrow>
         sort (map (\<lambda>f. pf_id f @ '' ('' @ pf_section f @ '')'')
           (filter (\<lambda>f. pf_severity f = Blocker \<and> pf_section f \<notin> set email_plan_sections)
             (pr_findings p))))"

text \<open>\<open>emailOpLess\<close> and the order of the destination-only items.\<close>

definition email_op_order :: "email_op \<Rightarrow> nat \<times> string \<times> string \<times> string" where
  "email_op_order x = (email_section_order (eo_section x), eo_domain x, eo_key x, eo_forward x)"

definition email_info_order :: "email_info \<Rightarrow> nat \<times> string \<times> string \<times> string" where
  "email_info_order x = (email_section_order (ei_section x), ei_domain x, ei_key x, ei_value x)"

definition summarize_email_ops :: "email_op list \<Rightarrow> email_info list \<Rightarrow> email_summary" where
  "summarize_email_ops ops infos =
     (let n = (\<lambda>a. count_if (\<lambda>x. eo_action x = a) ops) in
      \<lparr>es_create = n ECreate, es_set = n ESet, es_skip = n ESkip, es_manual = n EManual,
       es_informational = length infos\<rparr>)"

definition new_email_plan :: "inventory \<Rightarrow> inventory \<Rightarrow> email_plan" where
  "new_email_plan src dest =
     \<lparr>ep_mode = ''email-apply-plan'', ep_format_version = 1,
      ep_source_user = ai_user (inv_account src), ep_destination_user = ai_user (inv_account dest),
      ep_ops = [], ep_informational = [], ep_manual_sections = [], ep_policy_findings = [],
      ep_non_email_blockers = [],
      ep_summary = \<lparr>es_create = 0, es_set = 0, es_skip = 0, es_manual = 0, es_informational = 0\<rparr>\<rparr>"

definition plan_sections :: "inventory \<Rightarrow> inventory \<Rightarrow> email_plan" where
  "plan_sections src dest =
     plan_routing src dest (plan_filters src dest (plan_autoresponders src dest
       (plan_default_addresses src dest (plan_forwarders src dest (new_email_plan src dest)))))"

definition build_email_plan :: "inventory \<Rightarrow> inventory \<Rightarrow> policy_report option \<Rightarrow> email_plan" where
  "build_email_plan src dest policy =
     (let plan = plan_sections src dest;
          ops = sort_key email_op_order (ep_ops plan);
          infos = sort_key email_info_order (ep_informational plan)
      in plan\<lparr>ep_policy_findings := email_policy_findings policy,
           ep_non_email_blockers := non_email_blockers policy, ep_ops := ops,
           ep_informational := infos,
           ep_manual_sections := sort_key (\<lambda>m. email_section_order (em_section m)) (ep_manual_sections plan),
           ep_summary := summarize_email_ops ops infos\<rparr>)"

end
