(* ===== verification/EmailApply.thy ===== *)
theory EmailApply
  imports EmailPlan
begin

text \<open>
  \<open>internal/accountinventory/emailapply.go\<close>: the offline half of the e-mail apply. A live state is
  what a fresh listing of the destination returned; an operation of the plan is evaluated against it
  before anything is written, and a rollback is computed from the report and the backup of an apply.
  The raw answers that a backup archives are not read by any operation and are left out.
\<close>

section \<open>The live state\<close>

record email_live =
  el_forwarders :: "(string, forwarder_entry list) gomap"
  el_forwarder_errors :: "(string, string) gomap"
  el_defaults :: "default_address_entry list"
  el_defaults_listed :: bool
  el_defaults_error :: string
  el_autoresponders :: "(string, autoresponder_entry list) gomap"
  el_autoresponder_errors :: "(string, string) gomap"
  el_filters :: "(string, email_filter_entry list) gomap"
  el_filter_errors :: "(string, string) gomap"
  el_routing :: "email_routing_entry list"
  el_routing_listed :: bool
  el_routing_error :: string

text \<open>Reading a map of slices: a key that is not there is the nil slice.\<close>

definition slice_at :: "('k, 'v list) gomap \<Rightarrow> 'k \<Rightarrow> 'v list" where
  "slice_at m k = (case map_of m k of None \<Rightarrow> [] | Some vs \<Rightarrow> vs)"

definition dest_forward_targets :: "email_live \<Rightarrow> string \<Rightarrow> string \<Rightarrow> string list" where
  "dest_forward_targets l domain address =
     sort (map (\<lambda>f. canon_email_addr (fw_destination f))
       (filter (\<lambda>f. canon_email_addr (fw_source f) = canon_email_addr address)
         (slice_at (el_forwarders l) domain)))"

definition forward_pair_present :: "email_live \<Rightarrow> string \<Rightarrow> string \<Rightarrow> string \<Rightarrow> bool" where
  "forward_pair_present l domain address target =
     list_ex (\<lambda>f. canon_email_addr (fw_source f) = canon_email_addr address \<and>
         canon_email_addr (fw_destination f) = canon_email_addr target)
       (slice_at (el_forwarders l) domain)"

definition autoresponder_for :: "email_live \<Rightarrow> string \<Rightarrow> string \<Rightarrow> autoresponder_entry option" where
  "autoresponder_for l domain address =
     first_with ar_key (canon_email_addr address) (slice_at (el_autoresponders l) domain)"

text \<open>The entry with the content of a plan payload; the fields the comparison does not read are
  zero.\<close>

definition entry_of_autoresponder :: "autoresponder_content \<Rightarrow> autoresponder_entry" where
  "entry_of_autoresponder c =
     \<lparr>ar_email = [], ar_domain = [], ar_subject = ac_subject c, ar_interval = ac_interval c,
      ar_from = ac_from c, ar_body = ac_body c, ar_is_html = ac_is_html c, ar_start = ac_start c,
      ar_stop = ac_stop c, ar_charset = ac_charset c, ar_body_collected = True\<rparr>"

definition autoresponder_content_equivalent ::
  "autoresponder_content option \<Rightarrow> autoresponder_entry \<Rightarrow> bool" where
  "autoresponder_content_equivalent c e =
     (case c of None \<Rightarrow> False
      | Some c \<Rightarrow> ar_body_collected e \<and> autoresponders_equivalent (entry_of_autoresponder c) e)"

definition split_filter_key :: "string \<Rightarrow> string \<times> string" where
  "split_filter_key key =
     (case cut_byte CHR ''/'' key of
        None \<Rightarrow> ([], key)
      | Some (account, name) \<Rightarrow> (if account = account_level then [] else account, name))"

definition filter_for :: "email_live \<Rightarrow> string \<Rightarrow> string \<Rightarrow> email_filter_entry option" where
  "filter_for l account name = first_with ef_name name (slice_at (el_filters l) account)"

definition entry_of_filter :: "filter_content \<Rightarrow> email_filter_entry" where
  "entry_of_filter c =
     \<lparr>ef_account = [], ef_name = [], ef_enabled = False, ef_rule_count = 0, ef_action_count = 0,
      ef_rules = fc_rules c, ef_actions = fc_actions c, ef_rules_collected = True\<rparr>"

definition filter_content_equivalent :: "filter_content option \<Rightarrow> email_filter_entry \<Rightarrow> bool" where
  "filter_content_equivalent c e =
     (case c of None \<Rightarrow> False
      | Some c \<Rightarrow> ef_rules_collected e \<and> filters_equivalent (entry_of_filter c) e)"

definition routing_for :: "email_live \<Rightarrow> string \<Rightarrow> string option" where
  "routing_for l domain =
     map_option er_routing
       (first_with (\<lambda>r. canon_email_addr (er_domain r)) (canon_email_addr domain) (el_routing l))"

definition default_for :: "email_live \<Rightarrow> string \<Rightarrow> string option" where
  "default_for l domain =
     map_option da_address
       (first_with (\<lambda>d. canon_email_addr (da_domain d)) (canon_email_addr domain) (el_defaults l))"

section \<open>Evaluating an operation\<close>

definition email_outcome_present :: "email_op \<Rightarrow> email_live \<Rightarrow> string \<Rightarrow> bool" where
  "email_outcome_present opn l destu =
     (if eo_section opn = sec_forwarders \<and> eo_action opn = ECreate then
        forward_pair_present l (eo_domain opn) (eo_key opn) (eo_forward opn)
      else if eo_section opn = sec_default_address \<and> eo_action opn = ESet then
        (case default_for l (eo_domain opn) of
           None \<Rightarrow> False | Some cur \<Rightarrow> defaults_equivalent (eo_value opn) cur destu destu)
      else if eo_section opn = sec_autoresponders \<and> eo_action opn = ECreate then
        (case autoresponder_for l (eo_domain opn) (eo_key opn) of
           None \<Rightarrow> False | Some e \<Rightarrow> autoresponder_content_equivalent (eo_autoresponder opn) e)
      else if eo_section opn = sec_filters \<and> eo_action opn = ECreate then
        (let (account, name) = split_filter_key (eo_key opn) in
         case filter_for l account name of
           None \<Rightarrow> False | Some e \<Rightarrow> filter_content_equivalent (eo_filter opn) e)
      else if eo_section opn = sec_routing \<and> eo_action opn = ESet then
        routing_for l (eo_domain opn) = Some (eo_value opn)
      else False)"

datatype email_decision = DWrite | DAlready | DRefused string

text \<open>\<open>%v\<close> of a slice of strings.\<close>

definition show_strings :: "string list \<Rightarrow> string" where
  "show_strings xs = ''['' @ join '' '' xs @ '']''"

definition show_email_action :: "email_action \<Rightarrow> string" where
  "show_email_action a =
     (case a of ECreate \<Rightarrow> ''create'' | ESet \<Rightarrow> ''set'' | ESkip \<Rightarrow> ''skip'' | EManual \<Rightarrow> ''manual''
      | EOther s \<Rightarrow> s)"

definition replan :: string where
  "replan = '' '' @ emdash @ '' re-plan and review''"

definition plan_time_targets :: "email_op \<Rightarrow> string list" where
  "plan_time_targets opn = sort (map canon_email_addr (eo_plan_time_forwards opn))"

definition evaluate_forwarder :: "email_op \<Rightarrow> email_live \<Rightarrow> email_decision" where
  "evaluate_forwarder opn l =
     (case map_of (el_forwarder_errors l) (eo_domain opn) of
        Some msg \<Rightarrow> DRefused (''fresh forwarder re-list failed for '' @ eo_domain opn @ '': '' @ msg)
      | None \<Rightarrow>
          if forward_pair_present l (eo_domain opn) (eo_key opn) (eo_forward opn) then DAlready
          else (let want = plan_time_targets opn;
                    got = dest_forward_targets l (eo_domain opn) (eo_key opn) in
            if want = got then DWrite
            else DRefused (''destination forwarders for '' @ eo_key opn
              @ '' changed since the plan (plan-time '' @ show_strings want @ '', now ''
              @ show_strings got @ '')'' @ replan)))"

definition evaluate_default :: "email_op \<Rightarrow> email_live \<Rightarrow> string \<Rightarrow> email_decision" where
  "evaluate_default opn l destu =
     (if \<not> el_defaults_listed l then
        DRefused (''fresh default-address re-list failed: '' @ el_defaults_error l)
      else (case default_for l (eo_domain opn) of
          None \<Rightarrow> DRefused (''domain '' @ eo_domain opn
            @ '' no longer appears in the destination default-address list'')
        | Some cur \<Rightarrow>
            if defaults_equivalent (eo_value opn) cur destu destu then DAlready
            else if defaults_equivalent (eo_destination_value opn) cur destu destu then DWrite
            else DRefused (''destination default address changed since the plan (plan-time ''
              @ go_quote (eo_destination_value opn) @ '', now '' @ go_quote cur @ '')'' @ replan)))"

definition evaluate_autoresponder :: "email_op \<Rightarrow> email_live \<Rightarrow> email_decision" where
  "evaluate_autoresponder opn l =
     (if eo_autoresponder opn = None then
        DRefused (''autoresponder create op for '' @ eo_key opn @ '' carries no content payload ''
          @ emdash @ '' malformed or hand-edited plan'')
      else (case map_of (el_autoresponder_errors l) (eo_domain opn) of
          Some msg \<Rightarrow> DRefused (''fresh autoresponder re-list failed for '' @ eo_domain opn @ '': '' @ msg)
        | None \<Rightarrow>
           (case autoresponder_for l (eo_domain opn) (eo_key opn) of
              None \<Rightarrow> DWrite
            | Some e \<Rightarrow>
                if \<not> ar_body_collected e then
                  DRefused (''an autoresponder exists on '' @ eo_key opn
                    @ '' but its body could not be read '' @ emdash
                    @ '' cannot prove equality, refusing fail-closed'')
                else if autoresponder_content_equivalent (eo_autoresponder opn) e then DAlready
                else DRefused (''an autoresponder with different content appeared on '' @ eo_key opn
                    @ '' since the plan '' @ emdash
                    @ '' the writer never overwrites (the add call would destroy it); re-plan and review''))))"

definition evaluate_filter :: "email_op \<Rightarrow> email_live \<Rightarrow> email_decision" where
  "evaluate_filter opn l =
     (if eo_filter opn = None then
        DRefused (''filter create op for '' @ eo_key opn @ '' carries no content payload ''
          @ emdash @ '' malformed or hand-edited plan'')
      else (let (account, name) = split_filter_key (eo_key opn) in
        case map_of (el_filter_errors l) account of
          Some msg \<Rightarrow> DRefused (''fresh filter re-list failed for account '' @ go_quote account @ '': '' @ msg)
        | None \<Rightarrow>
           (case filter_for l account name of
              None \<Rightarrow> DWrite
            | Some e \<Rightarrow>
                if \<not> ef_rules_collected e then
                  DRefused (''a filter '' @ go_quote name
                    @ '' exists on the destination but its rules could not be read '' @ emdash
                    @ '' cannot prove equality, refusing fail-closed'')
                else if filter_content_equivalent (eo_filter opn) e then DAlready
                else DRefused (''a filter '' @ go_quote name
                    @ '' with different content appeared on the destination since the plan '' @ emdash
                    @ '' the write call upserts (never-overwrite); re-plan and review''))))"

definition evaluate_routing :: "email_op \<Rightarrow> email_live \<Rightarrow> email_decision" where
  "evaluate_routing opn l =
     (if \<not> el_routing_listed l then DRefused (''fresh routing re-list failed: '' @ el_routing_error l)
      else (case routing_for l (eo_domain opn) of
          None \<Rightarrow> DRefused (''domain '' @ eo_domain opn @ '' no longer appears in the routing list'')
        | Some cur \<Rightarrow>
            if cur = eo_value opn then DAlready
            else if cur = eo_destination_value opn then DWrite
            else DRefused (''routing for '' @ eo_domain opn @ '' changed since the plan (plan-time ''
              @ go_quote (eo_destination_value opn) @ '', now '' @ go_quote cur @ '')'' @ replan)))"

definition evaluate_email_op :: "email_op \<Rightarrow> email_live \<Rightarrow> string \<Rightarrow> email_decision" where
  "evaluate_email_op opn l destu =
     (if eo_section opn = sec_forwarders \<and> eo_action opn = ECreate then evaluate_forwarder opn l
      else if eo_section opn = sec_default_address \<and> eo_action opn = ESet then evaluate_default opn l destu
      else if eo_section opn = sec_autoresponders \<and> eo_action opn = ECreate then evaluate_autoresponder opn l
      else if eo_section opn = sec_filters \<and> eo_action opn = ECreate then evaluate_filter opn l
      else if eo_section opn = sec_routing \<and> eo_action opn = ESet then evaluate_routing opn l
      else DRefused (''op '' @ eo_section opn @ ''/'' @ eo_key opn @ '' is not actionable (action ''
             @ go_quote (show_email_action (eo_action opn)) @ '')''))"

section \<open>Report and backup\<close>

datatype email_status =
  EApplied | EAlready | ERefused | EFailed | ESkipped | EManualOp | EPlanned | EOtherStatus string

record email_op_result =
  eor_op :: email_op
  eor_status :: email_status
  eor_reason :: string

record email_apply_summary =
  eas_applied :: nat
  eas_already :: nat
  eas_refused :: nat
  eas_failed :: nat
  eas_skipped :: nat
  eas_manual :: nat

record email_apply_report =
  ear_run_mode :: string
  ear_destination_user :: string
  ear_results :: "email_op_result list"

definition summarize_email_results :: "email_op_result list \<Rightarrow> email_apply_summary" where
  "summarize_email_results rs =
     (let n = (\<lambda>s. count_if (\<lambda>r. eor_status r = s) rs) in
      \<lparr>eas_applied = n EApplied, eas_already = n EAlready, eas_refused = n ERefused,
       eas_failed = n EFailed, eas_skipped = n ESkipped, eas_manual = n EManualOp\<rparr>)"

record email_backup_section =
  ebs_forwarders :: "forwarder_entry list"
  ebs_defaults :: "default_address_entry list"
  ebs_autoresponders :: "autoresponder_entry list"
  ebs_filters :: "email_filter_entry list"
  ebs_routing :: "email_routing_entry list"

record email_backup =
  eb_destination_user :: string
  eb_forwarders :: "(string, email_backup_section) gomap"
  eb_defaults :: "email_backup_section option"
  eb_autoresponders :: "(string, email_backup_section) gomap"
  eb_filters :: "(string, email_backup_section) gomap"
  eb_routing :: "email_backup_section option"

text \<open>\<open>strings.EqualFold\<close> of trimmed texts, on ASCII, is equality of \<open>canon_email_addr\<close>.\<close>

definition backup_default_for :: "email_backup \<Rightarrow> string \<Rightarrow> string option" where
  "backup_default_for b domain =
     (case eb_defaults b of None \<Rightarrow> None
      | Some s \<Rightarrow> map_option da_address
          (first_with (\<lambda>d. canon_email_addr (da_domain d)) (canon_email_addr domain) (ebs_defaults s)))"

definition backup_routing_for :: "email_backup \<Rightarrow> string \<Rightarrow> string option" where
  "backup_routing_for b domain =
     (case eb_routing b of None \<Rightarrow> None
      | Some s \<Rightarrow> map_option er_routing
          (first_with (\<lambda>r. canon_email_addr (er_domain r)) (canon_email_addr domain) (ebs_routing s)))"

section \<open>Rollback\<close>

datatype rollback_kind =
  ForwarderRemove | DefaultRestore | AutoresponderRemove | FilterRemove | RoutingRestore

record email_rollback_op =
  rb_kind :: rollback_kind
  rb_domain :: string
  rb_address :: string
  rb_forwarder :: string
  rb_value :: string
  rb_expected :: string
  rb_autoresponder :: "autoresponder_content option"
  rb_filter :: "filter_content option"
  rb_account :: string

definition rollback_op :: "rollback_kind \<Rightarrow> string \<Rightarrow> email_rollback_op" where
  "rollback_op k domain =
     \<lparr>rb_kind = k, rb_domain = domain, rb_address = [], rb_forwarder = [], rb_value = [],
      rb_expected = [], rb_autoresponder = None, rb_filter = None, rb_account = []\<rparr>"

text \<open>The body of the loop of \<open>ComputeEmailRollback\<close> for an applied result.\<close>

definition invert_op :: "email_backup \<Rightarrow> email_op \<Rightarrow> string + email_rollback_op" where
  "invert_op b r =
     (if eo_section r = sec_forwarders \<and> eo_action r = ECreate then
        Inr ((rollback_op ForwarderRemove (eo_domain r))
               \<lparr>rb_address := eo_key r, rb_forwarder := eo_forward r\<rparr>)
      else if eo_section r = sec_default_address \<and> eo_action r = ESet then
        (case backup_default_for b (eo_domain r) of
           None \<Rightarrow> Inl (''backup carries no default address for domain '' @ eo_domain r @ '' '' @ emdash
             @ '' cannot compute its rollback (fail-closed)'')
         | Some v \<Rightarrow> Inr ((rollback_op DefaultRestore (eo_domain r))
                          \<lparr>rb_value := v, rb_expected := eo_value r\<rparr>))
      else if eo_section r = sec_autoresponders \<and> eo_action r = ECreate then
        (if eo_autoresponder r = None then
           Inl (''applied autoresponder create for '' @ eo_key r @ '' carries no content payload ''
             @ emdash @ '' cannot compute a guarded rollback (fail-closed)'')
         else Inr ((rollback_op AutoresponderRemove (eo_domain r))
                     \<lparr>rb_address := eo_key r, rb_autoresponder := eo_autoresponder r\<rparr>))
      else if eo_section r = sec_filters \<and> eo_action r = ECreate then
        (if eo_filter r = None then
           Inl (''applied filter create for '' @ eo_key r @ '' carries no content payload ''
             @ emdash @ '' cannot compute a guarded rollback (fail-closed)'')
         else (let (account, name) = split_filter_key (eo_key r) in
           Inr ((rollback_op FilterRemove [])
                  \<lparr>rb_address := name, rb_filter := eo_filter r, rb_account := account\<rparr>)))
      else if eo_section r = sec_routing \<and> eo_action r = ESet then
        (case backup_routing_for b (eo_domain r) of
           None \<Rightarrow> Inl (''backup carries no routing for domain '' @ eo_domain r @ '' '' @ emdash
             @ '' cannot compute its rollback (fail-closed)'')
         | Some v \<Rightarrow> Inr ((rollback_op RoutingRestore (eo_domain r))
                          \<lparr>rb_value := v, rb_expected := eo_value r\<rparr>))
      else Inl (''applied op '' @ eo_section r @ ''/'' @ eo_key r @ '' has unexpected shape (section ''
             @ eo_section r @ '', action '' @ show_email_action (eo_action r)
             @ '') '' @ emdash @ '' refusing to invert it''))"

fun invert_results :: "email_backup \<Rightarrow> email_op_result list \<Rightarrow> string + email_rollback_op list" where
  "invert_results b [] = Inr []"
| "invert_results b (r # rs) =
     (if eor_status r \<noteq> EApplied then invert_results b rs
      else bindr (invert_op b (eor_op r)) (\<lambda>x. bindr (invert_results b rs) (\<lambda>xs. Inr (x # xs))))"

definition compute_email_rollback ::
  "email_apply_report \<Rightarrow> email_backup \<Rightarrow> string + email_rollback_op list" where
  "compute_email_rollback rep b =
     (if ear_run_mode rep \<noteq> ''apply'' then
        Inl (''rollback needs an APPLY report, got run_mode '' @ go_quote (ear_run_mode rep)
          @ '' (rolling back a rollback is not supported)'')
      else invert_results b (ear_results rep))"

definition degraded_note :: "string \<Rightarrow> string \<Rightarrow> string" where
  "degraded_note what scope =
     what @ '' for '' @ scope @ '': rollback is MANUAL without the report '' @ emdash
     @ '' compare the live list against the backup and remove only '' @ what
     @ '' you know the tool created''"

definition compute_email_rollback_degraded ::
  "email_backup \<Rightarrow> email_rollback_op list \<times> string list" where
  "compute_email_rollback_degraded b =
     (let restore = (\<lambda>k domain v. (rollback_op k (to_lower (trim_space domain)))\<lparr>rb_value := v\<rparr>);
          defs = (case eb_defaults b of None \<Rightarrow> []
                  | Some s \<Rightarrow> map (\<lambda>d. restore DefaultRestore (da_domain d) (da_address d)) (ebs_defaults s));
          routes = (case eb_routing b of None \<Rightarrow> []
                  | Some s \<Rightarrow> map (\<lambda>r. restore RoutingRestore (er_domain r) (er_routing r)) (ebs_routing s))
      in (sort_key rb_domain (defs @ routes),
          map (degraded_note ''forwarders'') (sort (map fst (eb_forwarders b)))
          @ map (degraded_note ''autoresponders'') (sort (map fst (eb_autoresponders b)))
          @ map (\<lambda>a. degraded_note ''filters'' (if a = [] then account_level else a))
              (sort (map fst (eb_filters b)))))"

end
