(* ===== verification/Cpanel.thy ===== *)
theory Cpanel
  imports EmailApply
begin

text \<open>
  \<open>internal/cpanel\<close>: the calls of the mail commands to a cPanel host. A call is a shell snippet with its
  values in environment variables, run over SSH. The other side is a parameter, the record \<open>host\<close>:
  what a snippet answers, as a function of everything called before, and how \<open>encoding/json\<close> decodes an
  answer into the type of a call. Every operation returns the log of calls, extended by its own.
\<close>

section \<open>Calls\<close>

record api_call =
  ac_tool :: string
  ac_module :: string
  ac_fn :: string
  ac_args :: "(string, string) gomap"

type_synonym call_log = "api_call list"

definition percent :: char where "percent = CHR 0x25"

text \<open>\<open>strings.ReplaceAll\<close> of a single byte.\<close>

definition replace_byte :: "char \<Rightarrow> string \<Rightarrow> string \<Rightarrow> string" where
  "replace_byte c t s = concat (map (\<lambda>d. if d = c then t else [d]) s)"

definition encode_uapi_arg_value :: "string \<Rightarrow> string" where
  "encode_uapi_arg_value v =
     (if \<not> contains_any v [percent, CHR ''+''] then v
      else replace_byte CHR ''+'' (percent # ''2B'') (replace_byte percent (percent # ''25'') v))"

definition arg_var :: "nat \<Rightarrow> string" where
  "arg_var i = ''ARG_'' @ itoa (int i)"

text \<open>The snippet of a call and its environment: the keys of the arguments in order, the value of the
  i-th in the i-th variable.\<close>

definition args_script ::
  "string \<Rightarrow> (string \<Rightarrow> string) \<Rightarrow> string \<Rightarrow> string \<Rightarrow> (string, string) gomap \<Rightarrow> string \<times> (string, string) gomap" where
  "args_script tool enc modname fn args =
     (let ks = sort (map fst args); iks = zip [0..<length ks] ks in
      (tool @ '' --output=json '' @ modname @ '' '' @ fn
         @ concat (map (\<lambda>(i, k). '' '' @ k @ ''='' @ [CHR 0x22, CHR ''$''] @ arg_var i @ [CHR 0x22]) iks),
       map (\<lambda>(i, k). (arg_var i, enc (case map_of args k of None \<Rightarrow> [] | Some v \<Rightarrow> v))) iks))"

definition uapi_args_script ::
  "string \<Rightarrow> string \<Rightarrow> (string, string) gomap \<Rightarrow> string \<times> (string, string) gomap" where
  "uapi_args_script = args_script ''uapi'' encode_uapi_arg_value"

definition api2_args_script ::
  "string \<Rightarrow> string \<Rightarrow> (string, string) gomap \<Rightarrow> string \<times> (string, string) gomap" where
  "api2_args_script = args_script ''cpapi2'' (\<lambda>v. v)"

section \<open>Answers\<close>

record 'a envelope =
  en_data :: 'a
  en_errors :: "string list"
  en_status :: int

record 'a api2_envelope =
  a2_data :: 'a
  a2_result :: string
  a2_error :: string

record cp_forwarder =
  cf_dest :: string
  cf_forward :: string

record cp_autoresponder =
  ca_email :: string
  ca_subject :: string
  ca_interval :: int

record cp_autoresponder_detail =
  cd_from :: string
  cd_subject :: string
  cd_body :: string
  cd_charset :: string
  cd_interval :: int
  cd_is_html :: int
  cd_start :: int
  cd_stop :: int

record cp_default_address =
  cdef_domain :: string
  cdef_address :: string

text \<open>Rules and actions stay raw JSON until they are decoded one by one.\<close>

record cp_filter =
  cfl_name :: string
  cfl_enabled :: int
  cfl_rules :: "string list"
  cfl_actions :: "string list"

record cp_filter_detail =
  cfd_rules :: "string list"
  cfd_actions :: "string list"

record cp_mx =
  cm_mx :: string
  cm_priority :: int

record cp_routing =
  cr_domain :: string
  cr_mxcheck :: string
  cr_detected :: string
  cr_always_accept :: int
  cr_entries :: "cp_mx list"

record host =
  ho_run :: "call_log \<Rightarrow> string \<times> (string, string) gomap \<Rightarrow> string + string"
  ho_unit :: "string \<Rightarrow> string + unit envelope"
  ho_unit2 :: "string \<Rightarrow> string + unit api2_envelope"
  ho_forwarders :: "string \<Rightarrow> string + cp_forwarder list envelope"
  ho_autoresponders :: "string \<Rightarrow> string + cp_autoresponder list envelope"
  ho_autoresponder :: "string \<Rightarrow> string + cp_autoresponder_detail envelope"
  ho_defaults :: "string \<Rightarrow> string + cp_default_address list envelope"
  ho_filters :: "string \<Rightarrow> string + cp_filter list envelope"
  ho_filter :: "string \<Rightarrow> string + cp_filter_detail envelope"
  ho_routing :: "string \<Rightarrow> string + cp_routing list envelope"
  ho_rule :: "string \<Rightarrow> string + filter_rule"
  ho_action :: "string \<Rightarrow> string + filter_action"

definition parse_uapi ::
  "(string \<Rightarrow> string + 'a envelope) \<Rightarrow> string \<Rightarrow> string \<Rightarrow> string \<Rightarrow> string + 'a" where
  "parse_uapi dec modname fn out =
     (case dec out of
        Inl e \<Rightarrow> Inl (modname @ ''::'' @ fn @ '': parse JSON ('' @ itoa (int (length out)) @ '' bytes): '' @ e)
      | Inr env \<Rightarrow>
          if en_status env \<noteq> 1 then
            Inl (modname @ ''::'' @ fn @ '': status='' @ itoa (en_status env) @ '' errors=''
              @ show_strings (en_errors env))
          else Inr (en_data env))"

definition parse_api2 ::
  "(string \<Rightarrow> string + 'a api2_envelope) \<Rightarrow> string \<Rightarrow> string \<Rightarrow> string \<Rightarrow> string + 'a" where
  "parse_api2 dec modname fn out =
     (case dec out of
        Inl e \<Rightarrow> Inl (''cpapi2 '' @ modname @ ''::'' @ fn @ '': parse JSON ('' @ itoa (int (length out)) @ '' bytes): '' @ e)
      | Inr env \<Rightarrow>
          if a2_result env \<noteq> ''1'' then
            Inl (''cpapi2 '' @ modname @ ''::'' @ fn @ '': event.result='' @ a2_result env @ '' error=''
              @ (if a2_error env = [] then ''unknown API2 error'' else a2_error env))
          else Inr (a2_data env))"

definition run_uapi ::
  "(string \<Rightarrow> string + 'a envelope) \<Rightarrow> host \<Rightarrow> string \<Rightarrow> string \<Rightarrow> (string, string) gomap \<Rightarrow> call_log
   \<Rightarrow> (string + 'a) \<times> call_log" where
  "run_uapi dec ho modname fn args log =
     ((case ho_run ho log (uapi_args_script modname fn args) of
         Inl e \<Rightarrow> Inl (modname @ ''::'' @ fn @ '': '' @ e)
       | Inr out \<Rightarrow> parse_uapi dec modname fn out),
      log @ [\<lparr>ac_tool = ''uapi'', ac_module = modname, ac_fn = fn, ac_args = args\<rparr>])"

definition run_api2 ::
  "(string \<Rightarrow> string + 'a api2_envelope) \<Rightarrow> host \<Rightarrow> string \<Rightarrow> string \<Rightarrow> (string, string) gomap \<Rightarrow> call_log
   \<Rightarrow> (string + 'a) \<times> call_log" where
  "run_api2 dec ho modname fn args log =
     ((case ho_run ho log (api2_args_script modname fn args) of
         Inl e \<Rightarrow> Inl (''cpapi2 '' @ modname @ ''::'' @ fn @ '': '' @ e)
       | Inr out \<Rightarrow> parse_api2 dec modname fn out),
      log @ [\<lparr>ac_tool = ''cpapi2'', ac_module = modname, ac_fn = fn, ac_args = args\<rparr>])"

definition map_ok :: "('a \<Rightarrow> 'b) \<Rightarrow> ('e + 'a) \<times> 's \<Rightarrow> ('e + 'b) \<times> 's" where
  "map_ok f p = ((case fst p of Inl e \<Rightarrow> Inl e | Inr x \<Rightarrow> Inr (f x)), snd p)"

section \<open>Listing\<close>

text \<open>The variants that return the raw bytes as well make the same call.\<close>

definition list_forwarders :: "host \<Rightarrow> string \<Rightarrow> call_log \<Rightarrow> (string + cp_forwarder list) \<times> call_log" where
  "list_forwarders ho domain log =
     map_ok (sort_key cf_dest) (run_uapi (ho_forwarders ho) ho ''Email'' ''list_forwarders'' [(''domain'', domain)] log)"

definition list_autoresponders :: "host \<Rightarrow> string \<Rightarrow> call_log \<Rightarrow> (string + cp_autoresponder list) \<times> call_log" where
  "list_autoresponders ho domain log =
     map_ok (sort_key ca_email)
       (run_uapi (ho_autoresponders ho) ho ''Email'' ''list_auto_responders'' [(''domain'', domain)] log)"

definition get_autoresponder :: "host \<Rightarrow> string \<Rightarrow> call_log \<Rightarrow> (string + cp_autoresponder_detail) \<times> call_log" where
  "get_autoresponder ho email log =
     run_uapi (ho_autoresponder ho) ho ''Email'' ''get_auto_responder'' [(''email'', email)] log"

definition list_default_addresses :: "host \<Rightarrow> call_log \<Rightarrow> (string + cp_default_address list) \<times> call_log" where
  "list_default_addresses ho log =
     map_ok (sort_key cdef_domain) (run_uapi (ho_defaults ho) ho ''Email'' ''list_default_address'' [] log)"

definition account_args :: "string \<Rightarrow> (string, string) gomap" where
  "account_args account = (if account = [] then [] else [(''account'', account)])"

definition cp_filter_order :: "cp_filter \<Rightarrow> string \<times> int \<times> nat \<times> nat" where
  "cp_filter_order f = (cfl_name f, cfl_enabled f, length (cfl_rules f), length (cfl_actions f))"

definition list_email_filters :: "host \<Rightarrow> string \<Rightarrow> call_log \<Rightarrow> (string + cp_filter list) \<times> call_log" where
  "list_email_filters ho account log =
     map_ok (sort_key cp_filter_order)
       (run_uapi (ho_filters ho) ho ''Email'' ''list_filters'' (account_args account) log)"

text \<open>The listing for the backup keeps the order of the host.\<close>

definition list_email_filters_raw :: "host \<Rightarrow> string \<Rightarrow> call_log \<Rightarrow> (string + cp_filter list) \<times> call_log" where
  "list_email_filters_raw ho account log =
     run_uapi (ho_filters ho) ho ''Email'' ''list_filters'' (account_args account) log"

definition get_email_filter :: "host \<Rightarrow> string \<Rightarrow> string \<Rightarrow> call_log \<Rightarrow> (string + cp_filter_detail) \<times> call_log" where
  "get_email_filter ho name account log =
     run_uapi (ho_filter ho) ho ''Email'' ''get_filter'' ((''filtername'', name) # account_args account) log"

definition sort_mx :: "cp_routing \<Rightarrow> cp_routing" where
  "sort_mx r = r\<lparr>cr_entries := sort_key (\<lambda>e. (cm_priority e, cm_mx e)) (cr_entries r)\<rparr>"

definition list_mxs :: "host \<Rightarrow> call_log \<Rightarrow> (string + cp_routing list) \<times> call_log" where
  "list_mxs ho log =
     map_ok (\<lambda>rs. map sort_mx (sort_key cr_domain rs)) (run_uapi (ho_routing ho) ho ''Email'' ''list_mxs'' [] log)"

definition list_mxs_raw :: "host \<Rightarrow> call_log \<Rightarrow> (string + cp_routing list) \<times> call_log" where
  "list_mxs_raw ho log = run_uapi (ho_routing ho) ho ''Email'' ''list_mxs'' [] log"

section \<open>Writing\<close>

definition add_forwarder :: "host \<Rightarrow> string \<Rightarrow> string \<Rightarrow> string \<Rightarrow> call_log \<Rightarrow> (string + unit) \<times> call_log" where
  "add_forwarder ho domain email fwdemail log =
     run_uapi (ho_unit ho) ho ''Email'' ''add_forwarder''
       [(''domain'', domain), (''email'', email), (''fwdopt'', ''fwd''), (''fwdemail'', fwdemail)] log"

definition delete_forwarder :: "host \<Rightarrow> string \<Rightarrow> string \<Rightarrow> call_log \<Rightarrow> (string + unit) \<times> call_log" where
  "delete_forwarder ho address forwarder log =
     run_uapi (ho_unit ho) ho ''Email'' ''delete_forwarder'' [(''address'', address), (''forwarder'', forwarder)] log"

definition default_address_args :: "string \<Rightarrow> string \<Rightarrow> (string, string) gomap" where
  "default_address_args domain value =
     (let v = trim_space value in
      (''domain'', domain) #
      (if has_prefix v '':fail:'' then
         (''fwdopt'', ''fail'') #
         (let msg = trim_space (trim_prefix v '':fail:'') in if msg = [] then [] else [(''failmsgs'', msg)])
       else if has_prefix v '':blackhole:'' then [(''fwdopt'', ''blackhole'')]
       else [(''fwdopt'', ''fwd''), (''fwdemail'', v)]))"

definition set_default_address :: "host \<Rightarrow> string \<Rightarrow> string \<Rightarrow> call_log \<Rightarrow> (string + unit) \<times> call_log" where
  "set_default_address ho domain value log =
     run_uapi (ho_unit ho) ho ''Email'' ''set_default_address'' (default_address_args domain value) log"

definition autoresponder_args :: "string \<Rightarrow> string \<Rightarrow> autoresponder_content \<Rightarrow> (string, string) gomap" where
  "autoresponder_args domain email c =
     [(''domain'', domain), (''email'', email), (''from'', ac_from c), (''subject'', ac_subject c),
      (''body'', ac_body c), (''is_html'', itoa (ac_is_html c)), (''interval'', itoa (ac_interval c)),
      (''charset'', ac_charset c)]
     @ (if ac_start c \<noteq> 0 then [(''start'', itoa (ac_start c))] else [])
     @ (if ac_stop c \<noteq> 0 then [(''stop'', itoa (ac_stop c))] else [])"

definition add_autoresponder ::
  "host \<Rightarrow> string \<Rightarrow> string \<Rightarrow> autoresponder_content \<Rightarrow> call_log \<Rightarrow> (string + unit) \<times> call_log" where
  "add_autoresponder ho domain email c log =
     run_uapi (ho_unit ho) ho ''Email'' ''add_auto_responder'' (autoresponder_args domain email c) log"

definition delete_autoresponder :: "host \<Rightarrow> string \<Rightarrow> call_log \<Rightarrow> (string + unit) \<times> call_log" where
  "delete_autoresponder ho email log =
     run_uapi (ho_unit ho) ho ''Email'' ''delete_auto_responder'' [(''email'', email)] log"

definition rule_args :: "nat \<Rightarrow> filter_rule \<Rightarrow> (string, string) gomap" where
  "rule_args i r = (let n = itoa (int i) in
     [(''part'' @ n, fr_part r), (''match'' @ n, fr_match r), (''val'' @ n, fr_val r)])"

definition action_args :: "nat \<Rightarrow> filter_action \<Rightarrow> (string, string) gomap" where
  "action_args i a = (let n = itoa (int i) in
     (''action'' @ n, fa_action a) #
     (case fa_dest a of None \<Rightarrow> [] | Some d \<Rightarrow> if d = [] then [] else [(''dest'' @ n, d)]))"

definition filter_args ::
  "string \<Rightarrow> string \<Rightarrow> filter_rule list \<Rightarrow> filter_action list \<Rightarrow> (string, string) gomap" where
  "filter_args name account rules actions =
     [(''filtername'', name), (''match_type'', ''is'')] @ account_args account
     @ concat (map (\<lambda>(i, r). rule_args i r) (zip [1..<Suc (length rules)] rules))
     @ concat (map (\<lambda>(i, a). action_args i a) (zip [1..<Suc (length actions)] actions))"

definition store_filter ::
  "host \<Rightarrow> string \<Rightarrow> string \<Rightarrow> filter_rule list \<Rightarrow> filter_action list \<Rightarrow> call_log \<Rightarrow> (string + unit) \<times> call_log" where
  "store_filter ho name account rules actions log =
     run_uapi (ho_unit ho) ho ''Email'' ''store_filter'' (filter_args name account rules actions) log"

definition delete_filter :: "host \<Rightarrow> string \<Rightarrow> string \<Rightarrow> call_log \<Rightarrow> (string + unit) \<times> call_log" where
  "delete_filter ho name account log =
     run_uapi (ho_unit ho) ho ''Email'' ''delete_filter'' ((''filtername'', name) # account_args account) log"

definition set_mx_check :: "host \<Rightarrow> string \<Rightarrow> string \<Rightarrow> call_log \<Rightarrow> (string + unit) \<times> call_log" where
  "set_mx_check ho domain mxcheck log =
     run_api2 (ho_unit2 ho) ho ''Email'' ''setmxcheck'' [(''domain'', domain), (''mxcheck'', mxcheck)] log"

definition forwarder_exists :: "cp_forwarder list \<Rightarrow> string \<Rightarrow> string \<Rightarrow> bool" where
  "forwarder_exists entries address target =
     list_ex (\<lambda>e. canon_email_addr (cf_dest e) = canon_email_addr address \<and>
         canon_email_addr (cf_forward e) = canon_email_addr target) entries"

end
