(* ===== verification/EmailCmd.thy ===== *)
theory EmailCmd
  imports Cpanel
begin

text \<open>
  \<open>cmd/cpanel-self-migration/email_apply_cmd.go\<close>: the command that writes an e-mail plan to the
  destination and the one that rolls it back. The host is the parameter of \<open>Cpanel\<close>; the local file
  system and the SSH dial only decide whether a step succeeds and are the booleans of \<open>apply_env\<close>. The
  log of calls is the state; messages on the terminal are left out.
\<close>

section \<open>Fresh listings\<close>

definition no_live :: email_live where
  "no_live =
     \<lparr>el_forwarders = [], el_forwarder_errors = [], el_defaults = [], el_defaults_listed = False,
      el_defaults_error = [], el_autoresponders = [], el_autoresponder_errors = [], el_filters = [],
      el_filter_errors = [], el_routing = [], el_routing_listed = False, el_routing_error = []\<rparr>"

definition normalize_forwarders :: "cp_forwarder list \<Rightarrow> string \<Rightarrow> forwarder_entry list" where
  "normalize_forwarders es domain =
     map (\<lambda>e. \<lparr>fw_source = cf_dest e, fw_destination = cf_forward e, fw_domain = domain\<rparr>) es"

definition normalize_defaults :: "cp_default_address list \<Rightarrow> default_address_entry list" where
  "normalize_defaults es = map (\<lambda>e. \<lparr>da_domain = cdef_domain e, da_address = cdef_address e\<rparr>) es"

definition normalize_routing :: "cp_routing list \<Rightarrow> email_routing_entry list" where
  "normalize_routing es =
     map (\<lambda>d. \<lparr>er_domain = cr_domain d, er_routing = cr_mxcheck d, er_detected = cr_detected d,
       er_always_accept = (cr_always_accept d \<noteq> 0),
       er_mx = map (\<lambda>e. \<lparr>mx_priority = cm_priority e, mx_exchange = cm_mx e\<rparr>) (cr_entries d)\<rparr>) es"

text \<open>The entry of one listed autoresponder, with its content when the content can be read.\<close>

definition full_address :: "cp_autoresponder \<Rightarrow> string \<Rightarrow> string" where
  "full_address a domain =
     (if CHR ''@'' \<in> set (ca_email a) then ca_email a else ca_email a @ ''@'' @ domain)"

definition read_autoresponder ::
  "host \<Rightarrow> string \<Rightarrow> cp_autoresponder \<Rightarrow> call_log \<Rightarrow> autoresponder_entry \<times> call_log" where
  "read_autoresponder ho domain a log =
     (let addr = full_address a domain;
          entry = \<lparr>ar_email = addr, ar_domain = domain, ar_subject = ca_subject a,
            ar_interval = ca_interval a, ar_from = [], ar_body = [], ar_is_html = 0, ar_start = 0,
            ar_stop = 0, ar_charset = [], ar_body_collected = False\<rparr>;
          (r, log') = get_autoresponder ho addr log
      in (case r of Inl _ \<Rightarrow> entry
          | Inr d \<Rightarrow> entry\<lparr>ar_from := cd_from d, ar_body := cd_body d, ar_is_html := cd_is_html d,
              ar_interval := cd_interval d, ar_start := cd_start d, ar_stop := cd_stop d,
              ar_charset := cd_charset d, ar_subject := cd_subject d, ar_body_collected := True\<rparr>,
          log'))"

text \<open>One request after another.\<close>

fun thread :: "('a \<Rightarrow> call_log \<Rightarrow> 'b \<times> call_log) \<Rightarrow> 'a list \<Rightarrow> call_log \<Rightarrow> 'b list \<times> call_log" where
  "thread f [] log = ([], log)"
| "thread f (x # xs) log =
     (let (y, log1) = f x log; (ys, log2) = thread f xs log1 in (y # ys, log2))"

definition fetch_autoresponders ::
  "host \<Rightarrow> string \<Rightarrow> call_log \<Rightarrow> (string + autoresponder_entry list) \<times> call_log" where
  "fetch_autoresponders ho domain log =
     (case list_autoresponders ho domain log of
        (Inl e, log1) \<Rightarrow> (Inl e, log1)
      | (Inr as, log1) \<Rightarrow>
          (let (es, log2) = thread (read_autoresponder ho domain) as log1 in (Inr es, log2)))"

definition fetch_autoresponder_address ::
  "host \<Rightarrow> string \<Rightarrow> string \<Rightarrow> call_log \<Rightarrow> (string + autoresponder_entry list) \<times> call_log" where
  "fetch_autoresponder_address ho domain address log =
     (case list_autoresponders ho domain log of
        (Inl e, log1) \<Rightarrow> (Inl e, log1)
      | (Inr as, log1) \<Rightarrow>
         (case first_with (\<lambda>a. canon_email_addr (full_address a domain)) (canon_email_addr address) as of
            None \<Rightarrow> (Inr [], log1)
          | Some a \<Rightarrow> (let (e, log2) = read_autoresponder ho domain a log1 in (Inr [e], log2))))"

text \<open>A rule or action whose body does not decode is left out.\<close>

definition decode_all :: "(string \<Rightarrow> string + 'a) \<Rightarrow> string list \<Rightarrow> 'a list" where
  "decode_all dec raws = List.map_filter (\<lambda>r. case dec r of Inl _ \<Rightarrow> None | Inr x \<Rightarrow> Some x) raws"

definition read_filter ::
  "host \<Rightarrow> string \<Rightarrow> cp_filter \<Rightarrow> call_log \<Rightarrow> email_filter_entry \<times> call_log" where
  "read_filter ho account f log =
     (let entry = \<lparr>ef_account = account, ef_name = cfl_name f, ef_enabled = (cfl_enabled f \<noteq> 0),
            ef_rule_count = int (length (cfl_rules f)), ef_action_count = int (length (cfl_actions f)),
            ef_rules = [], ef_actions = [], ef_rules_collected = False\<rparr>;
          (r, log') = get_email_filter ho (cfl_name f) account log
      in (case r of Inl _ \<Rightarrow> entry
          | Inr d \<Rightarrow> entry\<lparr>ef_rules := decode_all (ho_rule ho) (cfd_rules d),
              ef_actions := decode_all (ho_action ho) (cfd_actions d), ef_rules_collected := True\<rparr>,
          log'))"

definition fetch_filter_account ::
  "host \<Rightarrow> string \<Rightarrow> call_log \<Rightarrow> (string + email_filter_entry list) \<times> call_log" where
  "fetch_filter_account ho account log =
     (case list_email_filters_raw ho account log of
        (Inl e, log1) \<Rightarrow> (Inl e, log1)
      | (Inr fs, log1) \<Rightarrow>
          (let (es, log2) = thread (read_filter ho account) fs log1 in (Inr es, log2)))"

definition fetch_filter_entry ::
  "host \<Rightarrow> string \<Rightarrow> string \<Rightarrow> call_log \<Rightarrow> (string + email_filter_entry list) \<times> call_log" where
  "fetch_filter_entry ho account name log =
     (case list_email_filters ho account log of
        (Inl e, log1) \<Rightarrow> (Inl e, log1)
      | (Inr fs, log1) \<Rightarrow>
         (case first_with cfl_name name fs of
            None \<Rightarrow> (Inr [], log1)
          | Some f \<Rightarrow> (let (e, log2) = read_filter ho account f log1 in (Inr [e], log2))))"

section \<open>The listing an apply starts from\<close>

definition touched :: "(email_op \<Rightarrow> bool) \<Rightarrow> (email_op \<Rightarrow> string) \<Rightarrow> email_plan \<Rightarrow> string list" where
  "touched P key plan = sort (remdups (map key (filter P (ep_ops plan))))"

definition create_domains :: "email_plan \<Rightarrow> string list" where
  "create_domains = touched (\<lambda>x. eo_section x = sec_forwarders \<and> eo_action x = ECreate) eo_domain"

definition ar_domains :: "email_plan \<Rightarrow> string list" where
  "ar_domains = touched (\<lambda>x. eo_section x = sec_autoresponders \<and> eo_action x = ECreate) eo_domain"

definition filter_accounts :: "email_plan \<Rightarrow> string list" where
  "filter_accounts =
     touched (\<lambda>x. eo_section x = sec_filters \<and> eo_action x = ECreate) (\<lambda>x. fst (split_filter_key (eo_key x)))"

definition need_defaults :: "email_plan \<Rightarrow> bool" where
  "need_defaults plan = list_ex (\<lambda>x. eo_section x = sec_default_address \<and> eo_action x = ESet) (ep_ops plan)"

definition need_routing :: "email_plan \<Rightarrow> bool" where
  "need_routing plan = list_ex (\<lambda>x. eo_section x = sec_routing \<and> eo_action x = ESet) (ep_ops plan)"

text \<open>A key with its listing or with the error of its listing; the two maps of the live state.\<close>

definition keyed_request ::
  "(string \<Rightarrow> call_log \<Rightarrow> (string + 'a) \<times> call_log) \<Rightarrow> string \<Rightarrow> call_log \<Rightarrow> (string \<times> (string + 'a)) \<times> call_log" where
  "keyed_request f k log = (let (r, log') = f k log in ((k, r), log'))"

definition oks :: "(string \<times> (string + 'a)) list \<Rightarrow> (string, 'a) gomap" where
  "oks = List.map_filter (\<lambda>(k, r). case r of Inl _ \<Rightarrow> None | Inr x \<Rightarrow> Some (k, x))"

definition errs :: "(string \<times> (string + 'a)) list \<Rightarrow> (string, string) gomap" where
  "errs = List.map_filter (\<lambda>(k, r). case r of Inl e \<Rightarrow> Some (k, e) | Inr _ \<Rightarrow> None)"

definition with_defaults :: "string + cp_default_address list \<Rightarrow> email_live \<Rightarrow> email_live" where
  "with_defaults r l =
     (case r of Inl e \<Rightarrow> l\<lparr>el_defaults_error := e\<rparr>
      | Inr ds \<Rightarrow> l\<lparr>el_defaults_listed := True, el_defaults := normalize_defaults ds\<rparr>)"

definition with_routing :: "string + cp_routing list \<Rightarrow> email_live \<Rightarrow> email_live" where
  "with_routing r l =
     (case r of Inl e \<Rightarrow> l\<lparr>el_routing_error := e\<rparr>
      | Inr rs \<Rightarrow> l\<lparr>el_routing_listed := True, el_routing := normalize_routing rs\<rparr>)"

definition fetch_forwarders ::
  "host \<Rightarrow> string \<Rightarrow> call_log \<Rightarrow> (string + forwarder_entry list) \<times> call_log" where
  "fetch_forwarders ho domain log = map_ok (\<lambda>es. normalize_forwarders es domain) (list_forwarders ho domain log)"

definition fetch_live :: "host \<Rightarrow> email_plan \<Rightarrow> call_log \<Rightarrow> email_live \<times> call_log" where
  "fetch_live ho plan log =
     (let (fs, log1) = thread (keyed_request (fetch_forwarders ho)) (create_domains plan) log;
          l1 = no_live\<lparr>el_forwarders := oks fs, el_forwarder_errors := errs fs\<rparr>;
          (l2, log2) = (if need_defaults plan
             then (let (r, lg) = list_default_addresses ho log1 in (with_defaults r l1, lg)) else (l1, log1));
          (as, log3) = thread (keyed_request (fetch_autoresponders ho)) (ar_domains plan) log2;
          l3 = l2\<lparr>el_autoresponders := oks as, el_autoresponder_errors := errs as\<rparr>;
          (es, log4) = thread (keyed_request (fetch_filter_account ho)) (filter_accounts plan) log3;
          l4 = l3\<lparr>el_filters := oks es, el_filter_errors := errs es\<rparr>
      in if need_routing plan
         then (let (r, log5) = list_mxs_raw ho log4 in (with_routing r l4, log5)) else (l4, log4))"

section \<open>Deciding\<close>

definition decide_op :: "email_live \<Rightarrow> string \<Rightarrow> email_op \<Rightarrow> email_op_result" where
  "decide_op l destu x =
     (let res = (\<lambda>st r. \<lparr>eor_op = x, eor_status = st, eor_reason = r\<rparr>);
          evaluated = (case evaluate_email_op x l destu of
              DAlready \<Rightarrow> res EAlready [] | DRefused r \<Rightarrow> res ERefused r | DWrite \<Rightarrow> res EPlanned [])
      in case eo_action x of
           ESkip \<Rightarrow> res ESkipped []
         | EManual \<Rightarrow> res EManualOp []
         | ECreate \<Rightarrow> evaluated
         | ESet \<Rightarrow> evaluated
         | EOther a \<Rightarrow> res ERefused (''unknown plan action '' @ go_quote a @ '' '' @ emdash
             @ '' malformed or hand-edited plan''))"

section \<open>Writing\<close>

text \<open>The fresh state of the item right before its write. A forwarder is added without: the call is
  additive and drops an exact duplicate.\<close>

definition recheck :: "host \<Rightarrow> email_op \<Rightarrow> call_log \<Rightarrow> (string + email_live) \<times> call_log" where
  "recheck ho x log =
     (if eo_section x = sec_default_address then
        (case list_default_addresses ho log of
           (Inl e, log') \<Rightarrow> (Inl (''pre-write default-address re-check failed: '' @ e), log')
         | (Inr ds, log') \<Rightarrow>
             (Inr (no_live\<lparr>el_defaults_listed := True, el_defaults := normalize_defaults ds\<rparr>), log'))
      else if eo_section x = sec_autoresponders then
        (case fetch_autoresponder_address ho (eo_domain x) (eo_key x) log of
           (Inl e, log') \<Rightarrow> (Inl (''pre-write autoresponder re-check failed: '' @ e), log')
         | (Inr es, log') \<Rightarrow> (Inr (no_live\<lparr>el_autoresponders := [(eo_domain x, es)]\<rparr>), log'))
      else if eo_section x = sec_filters then
        (let (account, name) = split_filter_key (eo_key x) in
         case fetch_filter_entry ho account name log of
           (Inl e, log') \<Rightarrow> (Inl (''pre-write filter re-check failed: '' @ e), log')
         | (Inr es, log') \<Rightarrow> (Inr (no_live\<lparr>el_filters := [(account, es)]\<rparr>), log'))
      else
        (case list_mxs ho log of
           (Inl e, log') \<Rightarrow> (Inl (''pre-write routing re-check failed: '' @ e), log')
         | (Inr rs, log') \<Rightarrow>
             (Inr (no_live\<lparr>el_routing_listed := True, el_routing := normalize_routing rs\<rparr>), log')))"

text \<open>The write. The guard refuses an operation without its payload, so the nil dereferences of the
  code are not reached.\<close>

definition nil_dereference :: string where
  "nil_dereference = ''invalid memory address or nil pointer dereference''"

definition write_op :: "host \<Rightarrow> email_op \<Rightarrow> call_log \<Rightarrow> (string + unit) \<times> call_log" where
  "write_op ho x log =
     (if eo_section x = sec_forwarders then add_forwarder ho (eo_domain x) (eo_email x) (eo_forward x) log
      else if eo_section x = sec_default_address then set_default_address ho (eo_domain x) (eo_value x) log
      else if eo_section x = sec_autoresponders then
        (case eo_autoresponder x of None \<Rightarrow> (Inl nil_dereference, log)
         | Some c \<Rightarrow> add_autoresponder ho (eo_domain x) (eo_email x) c log)
      else if eo_section x = sec_filters then
        (let (account, name) = split_filter_key (eo_key x) in
         case eo_filter x of None \<Rightarrow> (Inl nil_dereference, log)
         | Some c \<Rightarrow> store_filter ho name account (fc_rules c) (fc_actions c) log)
      else set_mx_check ho (eo_domain x) (eo_value x) log)"

definition refetch :: "host \<Rightarrow> email_op \<Rightarrow> call_log \<Rightarrow> (string + email_live) \<times> call_log" where
  "refetch ho x log =
     (if eo_section x = sec_forwarders then
        map_ok (\<lambda>fs. no_live\<lparr>el_forwarders := [(eo_domain x, fs)]\<rparr>) (fetch_forwarders ho (eo_domain x) log)
      else if eo_section x = sec_default_address then
        map_ok (\<lambda>ds. no_live\<lparr>el_defaults_listed := True, el_defaults := normalize_defaults ds\<rparr>)
          (list_default_addresses ho log)
      else if eo_section x = sec_autoresponders then
        map_ok (\<lambda>es. no_live\<lparr>el_autoresponders := [(eo_domain x, es)]\<rparr>)
          (fetch_autoresponder_address ho (eo_domain x) (eo_key x) log)
      else if eo_section x = sec_filters then
        (let (account, name) = split_filter_key (eo_key x) in
         map_ok (\<lambda>es. no_live\<lparr>el_filters := [(account, es)]\<rparr>) (fetch_filter_entry ho account name log))
      else if eo_section x = sec_routing then
        map_ok (\<lambda>rs. no_live\<lparr>el_routing_listed := True, el_routing := normalize_routing rs\<rparr>)
          (list_mxs ho log)
      else (Inr no_live, log))"

definition write_and_verify ::
  "host \<Rightarrow> string \<Rightarrow> email_op \<Rightarrow> call_log \<Rightarrow> (email_status \<times> string) \<times> call_log" where
  "write_and_verify ho destu x log =
     (case write_op ho x log of
        (Inl e, log1) \<Rightarrow> ((EFailed, e), log1)
      | (Inr _, log1) \<Rightarrow>
         (case refetch ho x log1 of
            (Inl e, log2) \<Rightarrow> ((EFailed, ''verify-after re-list failed: '' @ e), log2)
          | (Inr fresh, log2) \<Rightarrow>
              if email_outcome_present x fresh destu then ((EApplied, []), log2)
              else ((EFailed, ''write reported success but the outcome is not observable in the fresh re-list''),
                    log2)))"

definition has_writer :: "email_op \<Rightarrow> bool" where
  "has_writer x \<longleftrightarrow>
     (eo_section x = sec_forwarders \<and> eo_action x = ECreate) \<or>
     (eo_section x = sec_default_address \<and> eo_action x = ESet) \<or>
     (eo_section x = sec_autoresponders \<and> eo_action x = ECreate) \<or>
     (eo_section x = sec_filters \<and> eo_action x = ECreate) \<or>
     (eo_section x = sec_routing \<and> eo_action x = ESet)"

definition execute_write ::
  "host \<Rightarrow> string \<Rightarrow> email_op \<Rightarrow> call_log \<Rightarrow> (email_status \<times> string) \<times> call_log" where
  "execute_write ho destu x log =
     (if \<not> has_writer x then
        ((EFailed, ''no writer for section '' @ eo_section x @ '' action ''
            @ show_email_action (eo_action x) @ '' '' @ emdash @ '' malformed plan''), log)
      else if eo_section x = sec_forwarders then write_and_verify ho destu x log
      else (case recheck ho x log of
          (Inl e, log1) \<Rightarrow> ((ERefused, e), log1)
        | (Inr l, log1) \<Rightarrow>
           (case evaluate_email_op x l destu of
              DAlready \<Rightarrow> ((EAlready, []), log1)
            | DRefused r \<Rightarrow> ((ERefused, r), log1)
            | DWrite \<Rightarrow> write_and_verify ho destu x log1)))"

definition execute_result ::
  "host \<Rightarrow> string \<Rightarrow> email_op_result \<Rightarrow> call_log \<Rightarrow> email_op_result \<times> call_log" where
  "execute_result ho destu r log =
     (if eor_status r \<noteq> EPlanned then (r, log)
      else (let ((st, reason), log') = execute_write ho destu (eor_op r) log in
        (r\<lparr>eor_status := st, eor_reason := reason\<rparr>, log')))"

section \<open>The run\<close>

record apply_env =
  ae_plan_hash :: bool
  ae_dial :: bool
  ae_backup :: bool
  ae_backup_hash :: bool
  ae_report_json :: bool
  ae_report_md :: bool

record apply_outcome =
  ao_exit :: nat
  ao_report :: "email_apply_report option"
  ao_backup :: "email_live option"
  ao_log :: call_log

definition exit_drift_gate :: nat where "exit_drift_gate = 3"

definition finish_email_report :: "apply_env \<Rightarrow> email_apply_report \<Rightarrow> nat" where
  "finish_email_report env rep =
     (let s = summarize_email_results (ear_results rep) in
      if \<not> ae_report_json env \<or> \<not> ae_report_md env then 1
      else if eas_failed s > 0 then 1
      else if eas_refused s > 0 then exit_drift_gate
      else 0)"

definition needs_connection :: "email_plan \<Rightarrow> bool" where
  "needs_connection plan \<longleftrightarrow>
     create_domains plan \<noteq> [] \<or> need_defaults plan \<or> ar_domains plan \<noteq> [] \<or>
     filter_accounts plan \<noteq> [] \<or> need_routing plan"

definition run_email_apply_writes :: "host \<Rightarrow> apply_env \<Rightarrow> email_plan \<Rightarrow> call_log \<Rightarrow> apply_outcome" where
  "run_email_apply_writes ho env plan log =
     (let stop = (\<lambda>lg bk. \<lparr>ao_exit = 1, ao_report = None, ao_backup = bk, ao_log = lg\<rparr>) in
      if \<not> ae_plan_hash env then stop log None
      else if needs_connection plan \<and> \<not> ae_dial env then stop log None
      else
       (let (live, log1) = fetch_live ho plan log;
            destu = ep_destination_user plan;
            results = map (decide_op live destu) (ep_ops plan);
            writes = filter (\<lambda>r. eor_status r = EPlanned) results
        in if writes \<noteq> [] \<and> \<not> ae_backup env then stop log1 None
           else if writes \<noteq> [] \<and> \<not> ae_backup_hash env then stop log1 (Some live)
           else
            (let (done, log2) = thread (execute_result ho destu) results log1;
                 rep = \<lparr>ear_run_mode = ''apply'', ear_destination_user = destu, ear_results = done\<rparr>
             in \<lparr>ao_exit = finish_email_report env rep, ao_report = Some rep,
                 ao_backup = (if writes = [] then None else Some live), ao_log = log2\<rparr>)))"

section \<open>Rollback\<close>

definition show_rollback_kind :: "rollback_kind \<Rightarrow> string" where
  "show_rollback_kind k =
     (case k of ForwarderRemove \<Rightarrow> ''forwarder_remove'' | DefaultRestore \<Rightarrow> ''default_restore''
      | AutoresponderRemove \<Rightarrow> ''autoresponder_remove'' | FilterRemove \<Rightarrow> ''filter_remove''
      | RoutingRestore \<Rightarrow> ''routing_restore'')"

definition rollback_base :: "email_rollback_op \<Rightarrow> string \<Rightarrow> string \<Rightarrow> email_op" where
  "rollback_base x sec key =
     (email_op_of sec (rb_domain x) key [] [])\<lparr>eo_action := EOther (show_rollback_kind (rb_kind x))\<rparr>"

definition verdict_of :: "email_op \<Rightarrow> email_status \<Rightarrow> string \<Rightarrow> email_op_result" where
  "verdict_of x st reason = \<lparr>eor_op = x, eor_status = st, eor_reason = reason\<rparr>"

text \<open>The shape that every inverse has: look at the item, leave it when it is already as wanted or was
  changed since, carry the inverse out, look again.\<close>

definition guarded_inverse ::
  "email_op \<Rightarrow> (call_log \<Rightarrow> (string + 'a) \<times> call_log) \<Rightarrow> ('a \<Rightarrow> (email_status \<times> string) option)
   \<Rightarrow> (call_log \<Rightarrow> (string + unit) \<times> call_log) \<Rightarrow> ('a \<Rightarrow> bool) \<Rightarrow> string \<Rightarrow> call_log
   \<Rightarrow> email_op_result \<times> call_log" where
  "guarded_inverse x look stop act gone complaint log =
     (case look log of
        (Inl e, log1) \<Rightarrow> (verdict_of x EFailed (''pre-check re-list failed: '' @ e), log1)
      | (Inr cur, log1) \<Rightarrow>
         (case stop cur of
            Some (st, reason) \<Rightarrow> (verdict_of x st reason, log1)
          | None \<Rightarrow>
             (case act log1 of
                (Inl e, log2) \<Rightarrow> (verdict_of x EFailed e, log2)
              | (Inr _, log2) \<Rightarrow>
                 (case look log2 of
                    (Inl e, log3) \<Rightarrow> (verdict_of x EFailed (''verify-after re-list failed: '' @ e), log3)
                  | (Inr after, log3) \<Rightarrow>
                      if gone after then (verdict_of x EApplied [], log3)
                      else (verdict_of x EFailed complaint, log3)))))"

definition diverged_value :: "string \<Rightarrow> string \<Rightarrow> string \<Rightarrow> string" where
  "diverged_value what current expected =
     ''current '' @ what @ '' '' @ go_quote current @ '' diverged from the post-apply state ''
     @ go_quote expected @ '' '' @ emdash @ '' a human changed it since; resolve explicitly''"

definition not_observable :: string where
  "not_observable = ''restore reported success but the value is not observable in the fresh re-list''"

text \<open>The domain of an operation is compared as it is, the listed ones trimmed.\<close>

definition same_domain :: "string \<Rightarrow> string \<Rightarrow> bool" where
  "same_domain listed domain \<longleftrightarrow> canon_email_addr listed = to_lower domain"

definition execute_email_rollback_op ::
  "host \<Rightarrow> string \<Rightarrow> email_rollback_op \<Rightarrow> call_log \<Rightarrow> email_op_result \<times> call_log" where
  "execute_email_rollback_op ho destu x log =
     (case rb_kind x of
        ForwarderRemove \<Rightarrow>
          guarded_inverse ((rollback_base x sec_forwarders (rb_address x))\<lparr>eo_forward := rb_forwarder x\<rparr>)
            (list_forwarders ho (rb_domain x))
            (\<lambda>es. if forwarder_exists es (rb_address x) (rb_forwarder x) then None
               else Some (EAlready, ''pair already absent '' @ emdash @ '' nothing to remove''))
            (delete_forwarder ho (rb_address x) (rb_forwarder x))
            (\<lambda>es. \<not> forwarder_exists es (rb_address x) (rb_forwarder x))
            ''delete reported success but the pair is still live'' log
      | AutoresponderRemove \<Rightarrow>
          (let found = (\<lambda>es. first_with ar_key (canon_email_addr (rb_address x)) es) in
           guarded_inverse (rollback_base x sec_autoresponders (rb_address x))
            (fetch_autoresponders ho (rb_domain x))
            (\<lambda>es. case found es of
                None \<Rightarrow> Some (EAlready, ''autoresponder already absent '' @ emdash @ '' nothing to remove'')
              | Some cur \<Rightarrow>
                  if autoresponder_content_equivalent (rb_autoresponder x) cur then None
                  else Some (ERefused, ''the live autoresponder on '' @ rb_address x
                    @ '' diverged from the content the tool applied '' @ emdash
                    @ '' a human changed it since; resolve explicitly''))
            (delete_autoresponder ho (rb_address x)) (\<lambda>es. found es = None)
            ''delete reported success but the autoresponder is still live'' log)
      | DefaultRestore \<Rightarrow>
          guarded_inverse ((rollback_base x sec_default_address (rb_domain x))\<lparr>eo_value := rb_value x\<rparr>)
            (list_default_addresses ho)
            (\<lambda>es. case find (\<lambda>e. same_domain (cdef_domain e) (rb_domain x)) es of
                None \<Rightarrow> Some (ERefused, ''domain no longer appears in the destination default-address list'')
              | Some e \<Rightarrow>
                  if defaults_equivalent (rb_value x) (cdef_address e) destu destu then
                    Some (EAlready, ''default already carries the backup value'')
                  else if rb_expected x \<noteq> []
                      \<and> \<not> defaults_equivalent (rb_expected x) (cdef_address e) destu destu then
                    Some (ERefused, diverged_value ''default'' (cdef_address e) (rb_expected x))
                  else None)
            (set_default_address ho (rb_domain x) (rb_value x))
            (list_ex (\<lambda>e. same_domain (cdef_domain e) (rb_domain x)
               \<and> defaults_equivalent (rb_value x) (cdef_address e) destu destu))
            not_observable log
      | FilterRemove \<Rightarrow>
          guarded_inverse (rollback_base x sec_filters (rb_address x))
            (fetch_filter_entry ho (rb_account x) (rb_address x))
            (\<lambda>es. case es of
                [] \<Rightarrow> Some (EAlready, ''filter already absent '' @ emdash @ '' nothing to remove'')
              | e # _ \<Rightarrow>
                  if filter_content_equivalent (rb_filter x) e then None
                  else Some (ERefused, ''the live filter '' @ go_quote (rb_address x)
                    @ '' diverged from the content the tool applied '' @ emdash
                    @ '' a human changed it since; resolve explicitly''))
            (delete_filter ho (rb_address x) (rb_account x)) (\<lambda>es. es = [])
            ''delete reported success but the filter is still live'' log
      | RoutingRestore \<Rightarrow>
          guarded_inverse ((rollback_base x sec_routing (rb_domain x))\<lparr>eo_value := rb_value x\<rparr>)
            (\<lambda>lg. map_ok normalize_routing (list_mxs ho lg))
            (\<lambda>es. case find (\<lambda>e. same_domain (er_domain e) (rb_domain x)) es of
                None \<Rightarrow> Some (ERefused, ''domain no longer appears in the routing list'')
              | Some e \<Rightarrow>
                  if er_routing e = rb_value x then
                    Some (EAlready, ''routing already carries the backup value'')
                  else if rb_expected x \<noteq> [] \<and> er_routing e \<noteq> rb_expected x then
                    Some (ERefused, diverged_value ''routing'' (er_routing e) (rb_expected x))
                  else None)
            (set_mx_check ho (rb_domain x) (rb_value x))
            (list_ex (\<lambda>e. same_domain (er_domain e) (rb_domain x) \<and> er_routing e = rb_value x))
            not_observable log)"

definition manual_note :: "string \<Rightarrow> email_op_result" where
  "manual_note n = verdict_of ((email_op_of sec_forwarders [] [] [] [])\<lparr>eo_action := EManual, eo_reason := n\<rparr>) EManualOp []"

text \<open>The report argument is what \<open>loadEmailReportFile\<close> returned; \<open>accept\<close> is \<open>--accept-report-loss\<close>
  and \<open>yes\<close> is \<open>--yes-apply-writes\<close>, without which nothing is called.\<close>

definition run_email_rollback ::
  "host \<Rightarrow> apply_env \<Rightarrow> email_backup \<Rightarrow> string + email_apply_report \<Rightarrow> bool \<Rightarrow> bool \<Rightarrow> call_log \<Rightarrow> apply_outcome" where
  "run_email_rollback ho env b report accept yes log =
     (let stop = (\<lambda>code. \<lparr>ao_exit = code, ao_report = None, ao_backup = None, ao_log = log\<rparr>);
          plan = (case report of
              Inr rep \<Rightarrow> (case compute_email_rollback rep b of Inl _ \<Rightarrow> None | Inr ops \<Rightarrow> Some (ops, []))
            | Inl _ \<Rightarrow> if accept then Some (compute_email_rollback_degraded b) else None)
      in case plan of
           None \<Rightarrow> stop 1
         | Some (ops, notes) \<Rightarrow>
             if \<not> yes then stop 0
             else if ops \<noteq> [] \<and> \<not> ae_dial env then stop 1
             else
               (let (rs, log') = thread (execute_email_rollback_op ho (eb_destination_user b)) ops log;
                    rep = \<lparr>ear_run_mode = ''rollback'', ear_destination_user = eb_destination_user b,
                       ear_results = rs @ map manual_note notes\<rparr>
                in \<lparr>ao_exit = finish_email_report env rep, ao_report = Some rep, ao_backup = None,
                    ao_log = log'\<rparr>))"

end
