(* ===== verification/EmailVerify.thy ===== *)
theory EmailVerify
  imports EmailApply
begin

text \<open>
  \<open>internal/accountinventory/emailverify.go\<close>: every operation of an e-mail plan compared with the
  live destination. The maps of the live state are association lists whose keys are distinct;
  \<open>email_untracked\<close> sorts them first, as the code does.
\<close>

datatype email_verify_status =
  VEApplied | VEUnchanged | VEPending | VEDrift | VEManualReview | VENotChecked | VEUnavailable

record email_verify_result =
  ev_section :: string
  ev_action :: email_action
  ev_domain :: string
  ev_key :: string
  ev_status :: email_verify_status
  ev_reason :: string
  ev_expected :: string
  ev_observed :: string

record email_verify_summary =
  evs_applied :: nat
  evs_unchanged :: nat
  evs_pending :: nat
  evs_drift :: nat
  evs_manual_review :: nat
  evs_not_checked :: nat
  evs_unavailable :: nat
  evs_untracked :: nat
  evs_manual_sections :: nat

record email_verify_report =
  evr_mode :: string
  evr_format_version :: int
  evr_ops :: "email_verify_result list"
  evr_untracked :: "email_info list"
  evr_manual_sections :: "email_manual_section list"
  evr_summary :: email_verify_summary
  evr_clean :: bool

section \<open>One operation\<close>

definition email_verdict ::
  "email_op \<Rightarrow> email_verify_status \<Rightarrow> string \<Rightarrow> string \<Rightarrow> string \<Rightarrow> email_verify_result" where
  "email_verdict opn st reason expected observed =
     \<lparr>ev_section = eo_section opn, ev_action = eo_action opn, ev_domain = eo_domain opn,
      ev_key = eo_key opn, ev_status = st, ev_reason = reason, ev_expected = expected,
      ev_observed = observed\<rparr>"

definition unexpected_action :: "string \<Rightarrow> email_op \<Rightarrow> string" where
  "unexpected_action what opn =
     ''unexpected '' @ what @ '' action '' @ go_quote (show_email_action (eo_action opn)) @ '' ''
     @ emdash @ '' malformed or hand-edited plan''"

definition no_payload :: "string \<Rightarrow> email_op \<Rightarrow> string" where
  "no_payload what opn =
     what @ '' '' @ show_email_action (eo_action opn) @ '' op carries no content payload ''
     @ emdash @ '' malformed or hand-edited plan''"

definition verify_autoresponder :: "email_op \<Rightarrow> email_live \<Rightarrow> email_verify_result" where
  "verify_autoresponder opn l =
     (case map_of (el_autoresponder_errors l) (eo_domain opn) of
        Some msg \<Rightarrow> email_verdict opn VEUnavailable (''fresh autoresponder re-list failed: '' @ msg) [] []
      | None \<Rightarrow>
       (case eo_autoresponder opn of
          None \<Rightarrow> email_verdict opn VEDrift (no_payload ''autoresponder'' opn) [] []
        | Some c \<Rightarrow>
         (let found = autoresponder_for l (eo_domain opn) (eo_key opn);
              verdict = (\<lambda>st reason. email_verdict opn st reason (ac_subject c)
                          (case found of None \<Rightarrow> [] | Some e \<Rightarrow> ar_subject e));
              equivalent = (case found of None \<Rightarrow> False
                            | Some e \<Rightarrow> autoresponder_content_equivalent (eo_autoresponder opn) e)
          in case eo_action opn of
               ESkip \<Rightarrow>
                 if equivalent then verdict VEUnchanged []
                 else verdict VEDrift
                   ''the plan-time destination autoresponder is no longer live with the agreed content''
             | ECreate \<Rightarrow>
                 if equivalent then verdict VEApplied []
                 else (case found of
                     None \<Rightarrow> verdict VEPending
                       ''autoresponder still missing on the destination (plan-time state)''
                   | Some e \<Rightarrow>
                       if \<not> ar_body_collected e then
                         verdict VEUnavailable (''an autoresponder exists but its body could not be read ''
                           @ emdash @ '' cannot verify'')
                       else verdict VEDrift
                         ''destination autoresponder matches neither the desired content nor the plan-time (absent) state'')
             | _ \<Rightarrow> verdict VEDrift (unexpected_action ''autoresponder'' opn))))"

definition verify_forwarder :: "email_op \<Rightarrow> email_live \<Rightarrow> email_verify_result" where
  "verify_forwarder opn l =
     (case map_of (el_forwarder_errors l) (eo_domain opn) of
        Some msg \<Rightarrow> email_verdict opn VEUnavailable (''fresh forwarder re-list failed: '' @ msg) [] []
      | None \<Rightarrow>
       (let target = (if eo_action opn = ESkip then eo_source_value opn else eo_forward opn);
            observed = dest_forward_targets l (eo_domain opn) (eo_key opn);
            present = forward_pair_present l (eo_domain opn) (eo_key opn) target;
            verdict = (\<lambda>st reason. email_verdict opn st reason target (join '', '' observed))
        in case eo_action opn of
             ESkip \<Rightarrow>
               if present then verdict VEUnchanged []
               else verdict VEDrift ''the plan-time destination pair is no longer live''
           | ECreate \<Rightarrow>
               if present then verdict VEApplied []
               else if plan_time_targets opn = observed then
                 verdict VEPending ''pair still missing on the destination (plan-time state)''
               else verdict VEDrift
                 ''destination forwarders match neither the desired nor the plan-time state''
           | _ \<Rightarrow> verdict VEDrift (unexpected_action ''forwarder'' opn)))"

definition verify_filter :: "email_op \<Rightarrow> email_live \<Rightarrow> email_verify_result" where
  "verify_filter opn l =
     (let (account, name) = split_filter_key (eo_key opn) in
      case map_of (el_filter_errors l) account of
        Some msg \<Rightarrow> email_verdict opn VEUnavailable (''fresh filter re-list failed: '' @ msg) [] []
      | None \<Rightarrow>
        if eo_filter opn = None \<and> eo_action opn \<noteq> ESkip then
          email_verdict opn VEDrift (no_payload ''filter'' opn) [] []
        else
         (let found = filter_for l account name;
              verdict = (\<lambda>st reason. email_verdict opn st reason name
                          (case found of None \<Rightarrow> [] | Some e \<Rightarrow> ef_name e));
              equivalent = (case found of None \<Rightarrow> False
                            | Some e \<Rightarrow> filter_content_equivalent (eo_filter opn) e)
          in case eo_action opn of
               ESkip \<Rightarrow>
                 if equivalent then verdict VEUnchanged []
                 else if found \<noteq> None then verdict VEDrift
                   ''the plan-time destination filter is no longer live with the agreed content''
                 else verdict VEDrift ''the plan-time destination filter no longer exists''
             | ECreate \<Rightarrow>
                 if equivalent then verdict VEApplied []
                 else (case found of
                     None \<Rightarrow> verdict VEPending ''filter still missing on the destination (plan-time state)''
                   | Some e \<Rightarrow>
                       if \<not> ef_rules_collected e then
                         verdict VEUnavailable (''a filter exists but its rules could not be read ''
                           @ emdash @ '' cannot verify'')
                       else verdict VEDrift
                         ''destination filter matches neither the desired content nor the plan-time (absent) state'')
             | _ \<Rightarrow> verdict VEDrift (unexpected_action ''filter'' opn)))"

definition verify_routing :: "email_op \<Rightarrow> email_live \<Rightarrow> email_verify_result" where
  "verify_routing opn l =
     (if \<not> el_routing_listed l then
        email_verdict opn VEUnavailable (''fresh routing re-list failed: '' @ el_routing_error l) [] []
      else (case routing_for l (eo_domain opn) of
          None \<Rightarrow> email_verdict opn VEDrift ''domain no longer appears in the routing list'' [] []
        | Some cur \<Rightarrow>
           (case eo_action opn of
              ESkip \<Rightarrow>
                if cur = eo_destination_value opn then
                  email_verdict opn VEUnchanged [] (eo_destination_value opn) cur
                else email_verdict opn VEDrift
                  ''routing no longer matches the plan-time destination state'' (eo_destination_value opn) cur
            | ESet \<Rightarrow>
                if cur = eo_value opn then email_verdict opn VEApplied [] (eo_value opn) cur
                else if cur = eo_destination_value opn then
                  email_verdict opn VEPending ''routing still carries the plan-time destination value''
                    (eo_value opn) cur
                else email_verdict opn VEDrift
                  ''routing matches neither the desired nor the plan-time state'' (eo_value opn) cur
            | _ \<Rightarrow> email_verdict opn VEDrift (unexpected_action ''routing'' opn) [] cur)))"

definition verify_default :: "email_op \<Rightarrow> email_live \<Rightarrow> string \<Rightarrow> email_verify_result" where
  "verify_default opn l destu =
     (if \<not> el_defaults_listed l then
        email_verdict opn VEUnavailable (''fresh default-address re-list failed: '' @ el_defaults_error l) [] []
      else (case default_for l (eo_domain opn) of
          None \<Rightarrow> email_verdict opn VEDrift
            ''domain no longer appears in the destination default-address list'' [] []
        | Some cur \<Rightarrow>
           (case eo_action opn of
              ESkip \<Rightarrow>
                if defaults_equivalent (eo_destination_value opn) cur destu destu then
                  email_verdict opn VEUnchanged [] (eo_destination_value opn) cur
                else email_verdict opn VEDrift
                  ''live default no longer matches the plan-time destination state''
                  (eo_destination_value opn) cur
            | ESet \<Rightarrow>
                if defaults_equivalent (eo_value opn) cur destu destu then
                  email_verdict opn VEApplied [] (eo_value opn) cur
                else if defaults_equivalent (eo_destination_value opn) cur destu destu then
                  email_verdict opn VEPending ''default still carries the plan-time destination value''
                    (eo_value opn) cur
                else email_verdict opn VEDrift
                  ''live default matches neither the desired nor the plan-time state'' (eo_value opn) cur
            | _ \<Rightarrow> email_verdict opn VEDrift (unexpected_action ''default_address'' opn) [] cur)))"

definition verify_email_op :: "email_op \<Rightarrow> email_live \<Rightarrow> string \<Rightarrow> email_verify_result" where
  "verify_email_op opn l destu =
     (if eo_action opn = EManual then email_verdict opn VEManualReview (eo_reason opn) [] []
      else if eo_section opn = sec_autoresponders then verify_autoresponder opn l
      else if eo_section opn = sec_forwarders then verify_forwarder opn l
      else if eo_section opn = sec_filters then verify_filter opn l
      else if eo_section opn = sec_routing then verify_routing opn l
      else verify_default opn l destu)"

section \<open>Items the plan does not know\<close>

definition op_pair :: "email_op \<Rightarrow> string \<times> string" where
  "op_pair opn =
     (canon_email_addr (eo_key opn),
      canon_email_addr (if eo_forward opn = [] then eo_source_value opn else eo_forward opn))"

definition known_pairs :: "email_plan \<Rightarrow> (string \<times> string) list" where
  "known_pairs plan =
     map op_pair (filter (\<lambda>x. eo_section x = sec_forwarders) (ep_ops plan))
     @ map (\<lambda>i. (canon_email_addr (ei_key i), canon_email_addr (ei_value i)))
         (filter (\<lambda>i. ei_section i = sec_forwarders) (ep_informational plan))"

text \<open>What a section knows: one field of its operations and of its destination-only items.\<close>

definition known_in :: "string \<Rightarrow> (email_op \<Rightarrow> string) \<Rightarrow> (email_info \<Rightarrow> string) \<Rightarrow> email_plan \<Rightarrow> string list" where
  "known_in sec f g plan =
     map f (filter (\<lambda>x. eo_section x = sec) (ep_ops plan))
     @ map g (filter (\<lambda>i. ei_section i = sec) (ep_informational plan))"

definition untracked_forwarders :: "email_plan \<Rightarrow> email_live \<Rightarrow> email_info list" where
  "untracked_forwarders plan l =
     concat (map (\<lambda>d. map (\<lambda>f. \<lparr>ei_section = sec_forwarders, ei_domain = d,
             ei_key = canon_email_addr (fw_source f), ei_value = trim_space (fw_destination f)\<rparr>)
         (filter (\<lambda>f. forwarder_pair f \<notin> set (known_pairs plan)) (slice_at (el_forwarders l) d)))
       (sort (map fst (el_forwarders l))))"

definition untracked_defaults :: "email_plan \<Rightarrow> email_live \<Rightarrow> email_info list" where
  "untracked_defaults plan l =
     (if \<not> el_defaults_listed l then []
      else map (\<lambda>e. \<lparr>ei_section = sec_default_address, ei_domain = canon_email_addr (da_domain e),
             ei_key = canon_email_addr (da_domain e), ei_value = da_address e\<rparr>)
        (filter (\<lambda>e. canon_email_addr (da_domain e)
                   \<notin> set (known_in sec_default_address eo_domain ei_domain plan))
          (el_defaults l)))"

definition untracked_autoresponders :: "email_plan \<Rightarrow> email_live \<Rightarrow> email_info list" where
  "untracked_autoresponders plan l =
     concat (map (\<lambda>d. map (\<lambda>a. \<lparr>ei_section = sec_autoresponders, ei_domain = d,
             ei_key = ar_key a, ei_value = ar_subject a\<rparr>)
         (filter (\<lambda>a. ar_key a \<notin> set (known_in sec_autoresponders
               (\<lambda>x. canon_email_addr (eo_key x)) (\<lambda>i. canon_email_addr (ei_key i)) plan))
           (slice_at (el_autoresponders l) d)))
       (sort (map fst (el_autoresponders l))))"

definition untracked_filters :: "email_plan \<Rightarrow> email_live \<Rightarrow> email_info list" where
  "untracked_filters plan l =
     concat (map (\<lambda>a. map filter_info
         (filter (\<lambda>f. filter_key f \<notin> set (known_in sec_filters eo_key ei_key plan))
           (slice_at (el_filters l) a)))
       (sort (map fst (el_filters l))))"

definition untracked_routing :: "email_plan \<Rightarrow> email_live \<Rightarrow> email_info list" where
  "untracked_routing plan l =
     (if \<not> el_routing_listed l then []
      else map (\<lambda>r. \<lparr>ei_section = sec_routing, ei_domain = canon_email_addr (er_domain r),
             ei_key = canon_email_addr (er_domain r), ei_value = er_routing r\<rparr>)
        (filter (\<lambda>r. canon_email_addr (er_domain r)
                   \<notin> set (known_in sec_routing eo_domain ei_domain plan))
          (el_routing l)))"

definition untracked_order :: "email_info \<Rightarrow> nat \<times> string \<times> string" where
  "untracked_order i = (email_section_order (ei_section i), ei_key i, ei_value i)"

definition email_untracked :: "email_plan \<Rightarrow> email_live \<Rightarrow> email_info list" where
  "email_untracked plan l =
     sort_key untracked_order
       (untracked_forwarders plan l @ untracked_defaults plan l @ untracked_autoresponders plan l
        @ untracked_filters plan l @ untracked_routing plan l)"

section \<open>The report\<close>

definition verify_email_plan :: "email_plan \<Rightarrow> email_live \<Rightarrow> email_verify_report" where
  "verify_email_plan plan l =
     (let rs = map (\<lambda>x. verify_email_op x l (ep_destination_user plan)) (ep_ops plan);
          n = (\<lambda>st. count_if (\<lambda>r. ev_status r = st) rs);
          unt = email_untracked plan l;
          sm = \<lparr>evs_applied = n VEApplied, evs_unchanged = n VEUnchanged, evs_pending = n VEPending,
                evs_drift = n VEDrift, evs_manual_review = n VEManualReview,
                evs_not_checked = n VENotChecked, evs_unavailable = n VEUnavailable,
                evs_untracked = length unt, evs_manual_sections = length (ep_manual_sections plan)\<rparr>
      in \<lparr>evr_mode = ''email-verify'', evr_format_version = 1, evr_ops = rs, evr_untracked = unt,
          evr_manual_sections = ep_manual_sections plan, evr_summary = sm,
          evr_clean = (evs_pending sm = 0 \<and> evs_drift sm = 0 \<and> evs_unavailable sm = 0
            \<and> evs_manual_sections sm = 0)\<rparr>)"

end
