(* ===== verification/EmailLaws.thy ===== *)
theory EmailLaws
  imports EmailVerify
begin

text \<open>
  What the e-mail planner, the freshness guard, the verifier and the rollback promise: an operation
  never overwrites what somebody put on the destination, every item of the source is decided once,
  and plan, guard and verifier agree about a destination that has not changed.
\<close>

section \<open>Addresses up to case and spacing\<close>

lemma canon_idem [simp]: "canon_email_addr (canon_email_addr s) = canon_email_addr s"
  by (simp add: canon_email_addr_def go_simps)

lemma canon_trim [simp]: "canon_email_addr (trim_space s) = canon_email_addr s"
  by (simp add: canon_email_addr_def go_simps)

lemma canon_lower [simp]: "canon_email_addr (to_lower s) = canon_email_addr s"
  by (simp add: canon_email_addr_def go_simps)

lemma at_no_letter: "lower_char c = CHR ''@'' \<longleftrightarrow> c = CHR ''@''"
  by (rule lower_char_eq_iff) (simp_all add: is_upper_def is_lower_def byte_def)

lemma split_email_addr_SomeD:
  assumes "split_email_addr s = Some (local, domain)"
  shows "trim_space s = local @ CHR ''@'' # domain \<and> CHR ''@'' \<notin> set local \<and>
    CHR ''@'' \<notin> set domain \<and> local \<noteq> [] \<and> domain \<noteq> []"
proof -
  let ?at = "CHR ''@''"
  have one: "count_list (trim_space s) ?at = 1"
    by (rule ccontr) (use assms in \<open>simp add: split_email_addr_def Let_def\<close>)
  obtain a b where cut: "cut_byte ?at (trim_space s) = Some (a, b)"
    using assms one by (cases "cut_byte ?at (trim_space s)") (auto simp: split_email_addr_def Let_def)
  have ne: "\<not> (a = [] \<or> b = [])"
    by (rule notI) (use assms one cut in \<open>simp add: split_email_addr_def Let_def\<close>)
  have eq: "local = a" "domain = b"
    using assms one cut ne by (simp_all add: split_email_addr_def Let_def)
  have s: "trim_space s = a @ CHR ''@'' # b" and na: "CHR ''@'' \<notin> set a"
    using cut_byte_Some [OF cut] by auto
  have "count_list b CHR ''@'' = 0"
    using one unfolding s by simp
  then have "CHR ''@'' \<notin> set b" by (simp add: count_list_0_iff)
  with s na ne eq show ?thesis by simp
qed

lemma split_at_unique:
  assumes "a @ c # b = a' @ c # b'" and "c \<notin> set a" and "c \<notin> set a'"
  shows "a = a' \<and> b = b'"
  using assms
proof (induction a arbitrary: a')
  case Nil
  then show ?case by (cases a') auto
next
  case (Cons x a)
  then show ?case by (cases a') auto
qed

text \<open>Two spellings of an address have the same domain, up to case.\<close>

lemma split_email_addr_canon:
  assumes canon: "canon_email_addr s = canon_email_addr s'"
    and split: "split_email_addr s = Some (local, domain)"
  shows "\<exists>local' domain'. split_email_addr s' = Some (local', domain') \<and> to_lower domain' = to_lower domain
    \<and> to_lower local' = to_lower local"
proof -
  let ?at = "CHR ''@''"
  have s: "trim_space s = local @ ?at # domain" and na: "?at \<notin> set local" "?at \<notin> set domain"
    and ne: "local \<noteq> []" "domain \<noteq> []"
    using split_email_addr_SomeD [OF split] by auto
  have at: "?at \<in> set (to_lower t) \<longleftrightarrow> ?at \<in> set t" for t
    unfolding to_lower_def set_map image_iff using at_no_letter by metis
  have cnt: "count_list (to_lower t) ?at = count_list t ?at" for t
    by (induction t) (auto simp: to_lower_def at_no_letter)
  have low: "to_lower (trim_space s') = to_lower local @ ?at # to_lower domain"
    using canon s at_no_letter [of ?at] by (simp add: canon_email_addr_def to_lower_def)
  have one: "count_list (trim_space s') ?at = 1"
    using cnt [of "trim_space s'"] low na at by (simp add: count_list_0_iff)
  then have "?at \<in> set (trim_space s')" using count_notin by fastforce
  then obtain a b where cut: "cut_byte ?at (trim_space s') = Some (a, b)"
    by (auto simp: cut_byte_def)
  have s': "trim_space s' = a @ ?at # b" and naa: "?at \<notin> set a"
    using cut_byte_Some [OF cut] by auto
  have "to_lower local @ ?at # to_lower domain = to_lower a @ ?at # to_lower b"
    using low s' at_no_letter [of ?at] by (simp add: to_lower_def)
  then have eq: "to_lower local = to_lower a \<and> to_lower domain = to_lower b"
    by (rule split_at_unique) (use at na naa in auto)
  then have "a \<noteq> []" "b \<noteq> []" using ne by (auto simp: to_lower_def)
  then have "split_email_addr s' = Some (a, b)"
    using one cut by (simp add: split_email_addr_def)
  with eq show ?thesis by simp
qed

section \<open>The operations of a plan\<close>

lemma ep_ops_sections:
  "ep_ops (plan_sections src dest) =
     map (forwarder_op dest) (dedup_by forwarder_pair [] (inv_forwarders src))
     @ (if cfg_available (da_cfg (inv_default_addresses src)) \<and>
           cfg_available (da_cfg (inv_default_addresses dest))
        then map (default_address_op (ai_user (inv_account src)) (ai_user (inv_account dest))
               (da_items (inv_default_addresses dest))) (da_items (inv_default_addresses src))
        else [])
     @ map (autoresponder_op dest) (dedup_by ar_key [] (inv_autoresponders src))
     @ (if cfg_available (ef_cfg (inv_filters src)) \<and> cfg_available (ef_cfg (inv_filters dest))
        then map (filter_op (ef_items (inv_filters dest)))
               (dedup_by filter_key [] (ef_items (inv_filters src)))
        else [])
     @ (if cfg_available (er_cfg (inv_routing src)) \<and> cfg_available (er_cfg (inv_routing dest))
        then map (routing_op (er_items (inv_routing dest))) (er_items (inv_routing src))
        else [])"
  by (simp add: plan_sections_def plan_routing_def plan_filters_def plan_autoresponders_def
      plan_default_addresses_def plan_forwarders_def add_to_plan_def refuse_section_def
      new_email_plan_def Let_def)

lemma build_email_plan_ops:
  "ep_ops (build_email_plan src dest policy) = sort_key email_op_order (ep_ops (plan_sections src dest))"
  by (simp add: build_email_plan_def Let_def)

lemma build_email_plan_user:
  "ep_destination_user (build_email_plan src dest policy) = ai_user (inv_account dest)"
  by (simp add: build_email_plan_def Let_def plan_sections_def plan_routing_def plan_filters_def
      plan_autoresponders_def plan_default_addresses_def plan_forwarders_def add_to_plan_def
      refuse_section_def new_email_plan_def)

lemma in_set_if_map: "x \<in> set (if b then map f ys else []) \<longleftrightarrow> b \<and> (\<exists>y\<in>set ys. x = f y)"
  by auto

text \<open>Every operation is the decision of one item of the source.\<close>

lemma email_op_cases [consumes 1, case_names forwarder default_address autoresponder filter routing]:
  assumes "x \<in> set (ep_ops (build_email_plan src dest policy))"
  obtains f where "f \<in> set (inv_forwarders src)" "x = forwarder_op dest f"
  | d where "d \<in> set (da_items (inv_default_addresses src))"
      "x = default_address_op (ai_user (inv_account src)) (ai_user (inv_account dest))
             (da_items (inv_default_addresses dest)) d"
      "cfg_available (da_cfg (inv_default_addresses dest))"
  | a where "a \<in> set (inv_autoresponders src)" "x = autoresponder_op dest a"
  | e where "e \<in> set (ef_items (inv_filters src))" "x = filter_op (ef_items (inv_filters dest)) e"
      "cfg_available (ef_cfg (inv_filters dest))"
  | r where "r \<in> set (er_items (inv_routing src))" "x = routing_op (er_items (inv_routing dest)) r"
      "cfg_available (er_cfg (inv_routing dest))"
proof -
  have "x \<in> set (ep_ops (plan_sections src dest))"
    using assms by (simp add: build_email_plan_ops)
  then show thesis
    unfolding ep_ops_sections set_append Un_iff
  proof (elim disjE)
    assume "x \<in> set (map (forwarder_op dest) (dedup_by forwarder_pair [] (inv_forwarders src)))"
    then obtain f where "f \<in> set (dedup_by forwarder_pair [] (inv_forwarders src))" "x = forwarder_op dest f"
      by auto
    then show thesis by (intro that(1)) (rule subsetD [OF dedup_by_subset])
  next
    assume "x \<in> set (map (autoresponder_op dest) (dedup_by ar_key [] (inv_autoresponders src)))"
    then obtain f where "f \<in> set (dedup_by ar_key [] (inv_autoresponders src))" "x = autoresponder_op dest f"
      by auto
    then show thesis by (intro that(3)) (rule subsetD [OF dedup_by_subset])
  next
    assume "x \<in> set (if cfg_available (da_cfg (inv_default_addresses src)) \<and>
           cfg_available (da_cfg (inv_default_addresses dest))
        then map (default_address_op (ai_user (inv_account src)) (ai_user (inv_account dest))
               (da_items (inv_default_addresses dest))) (da_items (inv_default_addresses src)) else [])"
    then show thesis unfolding in_set_if_map by (elim conjE bexE) (rule that(2))
  next
    assume "x \<in> set (if cfg_available (ef_cfg (inv_filters src)) \<and> cfg_available (ef_cfg (inv_filters dest))
        then map (filter_op (ef_items (inv_filters dest)))
               (dedup_by filter_key [] (ef_items (inv_filters src))) else [])"
    then show thesis unfolding in_set_if_map
      by (elim conjE bexE) (rule that(4), erule subsetD [OF dedup_by_subset])
  next
    assume "x \<in> set (if cfg_available (er_cfg (inv_routing src)) \<and> cfg_available (er_cfg (inv_routing dest))
        then map (routing_op (er_items (inv_routing dest))) (er_items (inv_routing src)) else [])"
    then show thesis unfolding in_set_if_map by (elim conjE bexE) (rule that(5))
  qed
qed

section \<open>What each decision means\<close>

lemma email_op_of_simps [simp]:
  "eo_section (email_op_of sec d k sv dv) = sec" "eo_domain (email_op_of sec d k sv dv) = d"
  "eo_key (email_op_of sec d k sv dv) = k" "eo_source_value (email_op_of sec d k sv dv) = sv"
  "eo_destination_value (email_op_of sec d k sv dv) = dv"
  "eo_forward (email_op_of sec d k sv dv) = []" "eo_value (email_op_of sec d k sv dv) = []"
  by (simp_all add: email_op_of_def)

lemma manual_op_simps [simp]:
  "eo_action (manual_op x r) = EManual" "eo_section (manual_op x r) = eo_section x"
  "eo_domain (manual_op x r) = eo_domain x" "eo_key (manual_op x r) = eo_key x"
  "eo_source_value (manual_op x r) = eo_source_value x" "eo_forward (manual_op x r) = eo_forward x"
  by (simp_all add: manual_op_def)

definition forwarder_base :: "inventory \<Rightarrow> forwarder_entry \<Rightarrow> string \<Rightarrow> email_op" where
  "forwarder_base dest f domain =
     email_op_of sec_forwarders domain (canon_email_addr (fw_source f)) (trim_space (fw_destination f))
       (join '', '' (dest_targets (inv_forwarders dest) (canon_email_addr (fw_source f))))"

lemma forwarder_op_decided:
  obtains (manual) domain reason where "forwarder_op dest f = manual_op (forwarder_base dest f domain) reason"
  | (skip) local domain where "split_email_addr (fw_source f) = Some (local, domain)"
      "forwarder_pair f \<in> forwarder_pair ` set (inv_forwarders dest)"
      "forwarder_op dest f = (forwarder_base dest f (to_lower domain))\<lparr>eo_action := ESkip\<rparr>"
  | (create) local domain where "split_email_addr (fw_source f) = Some (local, domain)"
      "forwarder_pair f \<notin> forwarder_pair ` set (inv_forwarders dest)"
      "is_simple_forward_target (trim_space (fw_destination f))"
      "to_lower domain \<in> set (dest_domains dest)"
      "forwarder_op dest f = (forwarder_base dest f (to_lower domain))
         \<lparr>eo_action := ECreate, eo_email := to_lower local, eo_forward := trim_space (fw_destination f),
          eo_plan_time_forwards :=
            dest_targets (inv_forwarders dest) (canon_email_addr (fw_source f))\<rparr>"
proof (cases "split_email_addr (fw_source f)")
  case None
  then show thesis by (intro manual) (simp add: forwarder_op_def forwarder_base_def Let_def)
next
  case (Some p)
  obtain local domain where p: "p = (local, domain)" by (cases p)
  note split = Some [unfolded p]
  consider "forwarder_pair f \<in> forwarder_pair ` set (inv_forwarders dest)"
    | "forwarder_pair f \<notin> forwarder_pair ` set (inv_forwarders dest)"
      "\<not> is_simple_forward_target (trim_space (fw_destination f))"
    | "forwarder_pair f \<notin> forwarder_pair ` set (inv_forwarders dest)"
      "is_simple_forward_target (trim_space (fw_destination f))"
      "to_lower domain \<notin> set (dest_domains dest)"
    | "forwarder_pair f \<notin> forwarder_pair ` set (inv_forwarders dest)"
      "is_simple_forward_target (trim_space (fw_destination f))"
      "to_lower domain \<in> set (dest_domains dest)"
    by argo
  then show thesis
  proof cases
    case 1
    then show thesis by (intro skip [OF split]) (simp_all add: forwarder_op_def forwarder_base_def Let_def split)
  next
    case 2
    then show thesis by (intro manual) (simp add: forwarder_op_def forwarder_base_def Let_def split)
  next
    case 3
    then show thesis by (intro manual) (simp add: forwarder_op_def forwarder_base_def Let_def split)
  next
    case 4
    then show thesis
      by (intro create [OF split]) (simp_all add: forwarder_op_def forwarder_base_def Let_def split)
  qed
qed

definition default_base :: "default_address_entry list \<Rightarrow> default_address_entry \<Rightarrow> email_op" where
  "default_base dests s =
     email_op_of sec_default_address (da_key s) (da_key s) (da_address s)
       (case last_with da_key (da_key s) dests of None \<Rightarrow> [] | Some d \<Rightarrow> da_address d)"

lemma default_op_decided:
  obtains (manual) reason where "default_address_op srcu destu dests s = manual_op (default_base dests s) reason"
  | (skip) d where "last_with da_key (da_key s) dests = Some d"
      "defaults_equivalent (da_address s) (da_address d) srcu destu"
      "default_address_op srcu destu dests s = (default_base dests s)\<lparr>eo_action := ESkip\<rparr>"
  | (set) d where "last_with da_key (da_key s) dests = Some d"
      "\<not> defaults_equivalent (da_address s) (da_address d) srcu destu"
      "is_fresh_default (da_address d) destu"
      "classify_default_value (da_address s) srcu \<in> {DefAddress, DefFail, DefBlackhole}"
      "default_address_op srcu destu dests s =
         (default_base dests s)\<lparr>eo_action := ESet, eo_value := trim_space (da_address s)\<rparr>"
proof (cases "last_with da_key (da_key s) dests")
  case None
  then show thesis by (intro manual) (simp add: default_address_op_def default_base_def Let_def)
next
  case (Some d)
  note simps = default_address_op_def default_base_def Let_def Some
  consider "defaults_equivalent (da_address s) (da_address d) srcu destu"
    | "\<not> defaults_equivalent (da_address s) (da_address d) srcu destu"
      "\<not> is_fresh_default (da_address d) destu"
    | "\<not> defaults_equivalent (da_address s) (da_address d) srcu destu"
      "is_fresh_default (da_address d) destu"
    by argo
  then show thesis
  proof cases
    case 1
    then show thesis by (intro skip [OF Some]) (simp_all add: simps)
  next
    case 2
    then show thesis by (intro manual) (simp add: simps)
  next
    case 3
    show thesis
    proof (cases "classify_default_value (da_address s) srcu \<in> {DefAddress, DefFail, DefBlackhole}")
      case True
      then show thesis using 3 by (intro set [OF Some]) (auto simp: simps)
    next
      case False
      then have "classify_default_value (da_address s) srcu = DefAccount
        \<or> classify_default_value (da_address s) srcu = DefOther"
        by (cases "classify_default_value (da_address s) srcu") simp_all
      then show thesis using 3 by (elim disjE; intro manual) (simp_all add: simps)
    qed
  qed
qed

definition autoresponder_base :: "inventory \<Rightarrow> autoresponder_entry \<Rightarrow> string \<Rightarrow> email_op" where
  "autoresponder_base dest a domain =
     email_op_of sec_autoresponders domain (ar_key a) (ar_subject a)
       (case first_with ar_key (ar_key a) (inv_autoresponders dest) of None \<Rightarrow> [] | Some d \<Rightarrow> ar_subject d)"

lemma autoresponder_op_decided:
  obtains (manual) domain reason where
      "autoresponder_op dest a = manual_op (autoresponder_base dest a domain) reason"
  | (skip) local domain d where "split_email_addr (ar_email a) = Some (local, domain)"
      "first_with ar_key (ar_key a) (inv_autoresponders dest) = Some d"
      "ar_body_collected d" "autoresponders_equivalent a d"
      "autoresponder_op dest a = (autoresponder_base dest a (to_lower domain))
         \<lparr>eo_action := ESkip, eo_autoresponder := Some (autoresponder_content_of a)\<rparr>"
  | (create) local domain where "split_email_addr (ar_email a) = Some (local, domain)"
      "first_with ar_key (ar_key a) (inv_autoresponders dest) = None"
      "ar_body_collected a" "to_lower domain \<in> set (dest_domains dest)"
      "autoresponder_op dest a = (autoresponder_base dest a (to_lower domain))
         \<lparr>eo_action := ECreate, eo_email := to_lower local,
          eo_autoresponder := Some (autoresponder_content_of a)\<rparr>"
proof (cases "split_email_addr (ar_email a)")
  case None
  then show thesis by (intro manual) (simp add: autoresponder_op_def autoresponder_base_def Let_def)
next
  case (Some p)
  obtain local domain where p: "p = (local, domain)" by (cases p)
  note split = Some [unfolded p]
  note simps = autoresponder_op_def autoresponder_base_def Let_def split
  show thesis
  proof (cases "ar_body_collected a")
    case False
    then show thesis by (intro manual) (simp add: simps)
  next
    case body: True
    show thesis
    proof (cases "first_with ar_key (ar_key a) (inv_autoresponders dest)")
      case None
      show thesis
      proof (cases "to_lower domain \<in> set (dest_domains dest)")
        case True
        then show thesis by (intro create [OF split None body]) (simp_all add: simps None body)
      next
        case False
        then show thesis by (intro manual) (simp add: simps None body)
      qed
    next
      case (Some d)
      consider "\<not> ar_body_collected d" | "ar_body_collected d" "autoresponders_equivalent a d"
        | "ar_body_collected d" "\<not> autoresponders_equivalent a d" by argo
      then show thesis
      proof cases
        case 1
        then show thesis by (intro manual) (simp add: simps Some body)
      next
        case 2
        then show thesis by (intro skip [OF split Some]) (simp_all add: simps Some body)
      next
        case 3
        then show thesis by (intro manual) (simp add: simps Some body)
      qed
    qed
  qed
qed

definition filter_base :: "email_filter_entry list \<Rightarrow> email_filter_entry \<Rightarrow> email_op" where
  "filter_base dests f =
     email_op_of sec_filters [] (filter_key f) (filter_shown f)
       (case first_with filter_key (filter_key f) dests of None \<Rightarrow> [] | Some d \<Rightarrow> filter_shown d)"

lemma filter_op_decided:
  obtains (manual) reason where "filter_op dests f = manual_op (filter_base dests f) reason"
  | (skip) d where "first_with filter_key (filter_key f) dests = Some d"
      "ef_rules_collected d" "filters_equivalent f d"
      "filter_op dests f = (filter_base dests f)
         \<lparr>eo_action := ESkip, eo_filter := Some (filter_content_of f)\<rparr>"
  | (create) "first_with filter_key (filter_key f) dests = None"
      "ef_rules_collected f" "length (ef_rules f) \<le> 1"
      "filter_op dests f = (filter_base dests f)
         \<lparr>eo_action := ECreate, eo_filter := Some (filter_content_of f), eo_email := ef_account f\<rparr>"
proof -
  note simps = filter_op_def filter_base_def Let_def
  consider "\<not> ef_rules_collected f" | "ef_rules_collected f" "length (ef_rules f) > 1"
    | "ef_rules_collected f" "\<not> length (ef_rules f) > 1" by argo
  then show thesis
  proof cases
    case 1
    then show thesis by (intro manual) (simp add: simps)
  next
    case 2
    then show thesis by (intro manual) (simp add: simps)
  next
    case few: 3
    show thesis
    proof (cases "first_with filter_key (filter_key f) dests")
      case None
      then show thesis using few by (intro create) (simp_all add: simps)
    next
      case (Some d)
      consider "\<not> ef_rules_collected d" | "ef_rules_collected d" "filters_equivalent f d"
        | "ef_rules_collected d" "\<not> filters_equivalent f d" by argo
      then show thesis
      proof cases
        case 1
        then show thesis using few by (intro manual) (simp add: simps Some)
      next
        case 2
        then show thesis using few by (intro skip [OF Some]) (simp_all add: simps Some)
      next
        case 3
        then show thesis using few by (intro manual) (simp add: simps Some)
      qed
    qed
  qed
qed

definition routing_base :: "email_routing_entry list \<Rightarrow> email_routing_entry \<Rightarrow> email_op" where
  "routing_base dests r =
     email_op_of sec_routing (er_key r) (er_key r) (er_routing r)
       (case last_with er_key (er_key r) dests of None \<Rightarrow> [] | Some d \<Rightarrow> er_routing d)"

lemma routing_op_decided:
  obtains (manual) reason where "routing_op dests r = manual_op (routing_base dests r) reason"
  | (skip) d where "last_with er_key (er_key r) dests = Some d" "er_routing d = er_routing r"
      "routing_op dests r = (routing_base dests r)\<lparr>eo_action := ESkip\<rparr>"
  | (set) d where "last_with er_key (er_key r) dests = Some d" "er_routing d \<noteq> er_routing r"
      "routing_op dests r = (routing_base dests r)\<lparr>eo_action := ESet, eo_value := er_routing r\<rparr>"
proof (cases "last_with er_key (er_key r) dests")
  case None
  then show thesis by (intro manual) (simp add: routing_op_def routing_base_def Let_def)
next
  case (Some d)
  then show thesis
    by (cases "er_routing d = er_routing r")
      (intro skip [OF Some] set [OF Some]; simp add: routing_op_def routing_base_def Let_def)+
qed

section \<open>Additive plans\<close>

text \<open>What a planned write may rely on about the destination.\<close>

definition additive_write :: "inventory \<Rightarrow> email_op \<Rightarrow> bool" where
  "additive_write dest x \<longleftrightarrow>
     (case eo_action x of
        ECreate \<Rightarrow>
          (eo_section x = sec_forwarders \<and>
           (eo_key x, canon_email_addr (eo_forward x)) \<notin> forwarder_pair ` set (inv_forwarders dest) \<and>
           is_simple_forward_target (eo_forward x) \<and> eo_domain x \<in> set (dest_domains dest)) \<or>
          (eo_section x = sec_autoresponders \<and> eo_key x \<notin> ar_key ` set (inv_autoresponders dest) \<and>
           eo_autoresponder x \<noteq> None \<and> eo_domain x \<in> set (dest_domains dest)) \<or>
          (eo_section x = sec_filters \<and> cfg_available (ef_cfg (inv_filters dest)) \<and>
           eo_key x \<notin> filter_key ` set (ef_items (inv_filters dest)) \<and>
           (\<exists>c. eo_filter x = Some c \<and> length (fc_rules c) \<le> 1))
      | ESet \<Rightarrow>
          (eo_section x = sec_default_address \<and> cfg_available (da_cfg (inv_default_addresses dest)) \<and>
           (\<exists>d\<in>set (da_items (inv_default_addresses dest)).
              da_key d = eo_domain x \<and> da_address d = eo_destination_value x) \<and>
           is_fresh_default (eo_destination_value x) (ai_user (inv_account dest)) \<and>
           trim_space (eo_value x) \<noteq> trim_space (eo_destination_value x)) \<or>
          (eo_section x = sec_routing \<and> cfg_available (er_cfg (inv_routing dest)) \<and>
           (\<exists>d\<in>set (er_items (inv_routing dest)).
              er_key d = eo_domain x \<and> er_routing d = eo_destination_value x) \<and>
           eo_value x \<noteq> eo_destination_value x)
      | ESkip \<Rightarrow> True
      | EManual \<Rightarrow> True
      | EOther _ \<Rightarrow> False)"

lemma additive_forwarder: "additive_write dest (forwarder_op dest f)"
  by (cases rule: forwarder_op_decided [of dest f])
    (simp_all add: additive_write_def forwarder_base_def forwarder_pair_def)

lemma additive_default:
  assumes "cfg_available (da_cfg (inv_default_addresses dest))"
  shows "additive_write dest
    (default_address_op srcu (ai_user (inv_account dest)) (da_items (inv_default_addresses dest)) d)"
proof (cases rule: default_op_decided [of srcu "ai_user (inv_account dest)"
      "da_items (inv_default_addresses dest)" d])
  case (set d')
  then have "d' \<in> set (da_items (inv_default_addresses dest)) \<and> da_key d' = da_key d"
    by (intro last_with_SomeD)
  moreover have "trim_space (da_address d) \<noteq> trim_space (da_address d')"
    using set(2) by (auto simp: defaults_equivalent_def)
  ultimately show ?thesis
    using set assms by (auto simp: additive_write_def default_base_def go_simps)
qed (simp_all add: additive_write_def)

lemma additive_autoresponder: "additive_write dest (autoresponder_op dest a)"
  by (cases rule: autoresponder_op_decided [of dest a])
    (simp_all add: additive_write_def autoresponder_base_def first_with_None_iff)

lemma additive_filter:
  "cfg_available (ef_cfg (inv_filters dest)) \<Longrightarrow>
   additive_write dest (filter_op (ef_items (inv_filters dest)) f)"
  by (cases rule: filter_op_decided [of "ef_items (inv_filters dest)" f])
    (simp_all add: additive_write_def filter_base_def filter_content_of_def first_with_None_iff)

lemma additive_routing:
  assumes "cfg_available (er_cfg (inv_routing dest))"
  shows "additive_write dest (routing_op (er_items (inv_routing dest)) r)"
proof (cases rule: routing_op_decided [of "er_items (inv_routing dest)" r])
  case (set d)
  then have "d \<in> set (er_items (inv_routing dest)) \<and> er_key d = er_key r"
    by (intro last_with_SomeD)
  then show ?thesis using set assms by (auto simp: additive_write_def routing_base_def)
qed (simp_all add: additive_write_def)

text \<open>C16. An operation of an e-mail plan never touches what somebody put on the destination: a
  created forwarder pair, autoresponder or filter is at a key that the destination does not have, the
  domain of a created forwarder or autoresponder exists there, the target of a forwarder is one plain
  address and a filter has at most one rule; a catch-all is set only where the destination still
  carries a fresh-account default; a routing mode is set only for a listed domain that has another
  mode. No operation has an action outside create, set, skip and manual, so none deletes.\<close>

theorem email_plan_is_additive:
  assumes "x \<in> set (ep_ops (build_email_plan src dest policy))"
  shows "additive_write dest x"
  using assms
proof (cases rule: email_op_cases)
  case (forwarder f)
  then show ?thesis by (simp add: additive_forwarder)
next
  case (default_address d)
  then show ?thesis by (simp add: additive_default)
next
  case (autoresponder a)
  then show ?thesis by (simp add: additive_autoresponder)
next
  case (filter e)
  then show ?thesis by (simp add: additive_filter)
next
  case (routing r)
  then show ?thesis by (simp add: additive_routing)
qed

section \<open>Every item of the source is decided once\<close>

lemma op_sections [simp]:
  "eo_section (forwarder_op dest f) = sec_forwarders"
  "eo_section (default_address_op srcu destu ds d) = sec_default_address"
  "eo_section (autoresponder_op dest a) = sec_autoresponders"
  "eo_section (filter_op fs e) = sec_filters"
  "eo_section (routing_op rs r) = sec_routing"
  by (cases rule: forwarder_op_decided [of dest f], simp_all add: forwarder_base_def)
    (cases rule: default_op_decided [of srcu destu ds d], simp_all add: default_base_def,
     cases rule: autoresponder_op_decided [of dest a], simp_all add: autoresponder_base_def,
     cases rule: filter_op_decided [of fs e], simp_all add: filter_base_def,
     cases rule: routing_op_decided [of rs r], simp_all add: routing_base_def)

lemma email_op_keys:
  "(eo_key (forwarder_op dest f), canon_email_addr (eo_source_value (forwarder_op dest f))) = forwarder_pair f"
  "eo_key (default_address_op srcu destu ds d) = da_key d"
  "eo_key (autoresponder_op dest a) = ar_key a"
  "eo_key (filter_op fs e) = filter_key e"
  "eo_key (routing_op rs r) = er_key r"
  by (cases rule: forwarder_op_decided [of dest f], simp_all add: forwarder_base_def forwarder_pair_def)
    (cases rule: default_op_decided [of srcu destu ds d], simp_all add: default_base_def,
     cases rule: autoresponder_op_decided [of dest a], simp_all add: autoresponder_base_def,
     cases rule: filter_op_decided [of fs e], simp_all add: filter_base_def,
     cases rule: routing_op_decided [of rs r], simp_all add: routing_base_def)

lemma op_actions:
  assumes "x \<in> set (ep_ops (build_email_plan src dest policy))"
  shows "eo_action x = ECreate \<or> eo_action x = ESet \<or> eo_action x = ESkip \<or> eo_action x = EManual"
proof -
  have "additive_write dest x"
    using assms by (cases rule: email_op_cases)
      (simp_all add: additive_forwarder additive_default additive_autoresponder additive_filter additive_routing)
  then show ?thesis by (cases "eo_action x") (simp_all add: additive_write_def)
qed

definition section_ops :: "string \<Rightarrow> email_plan \<Rightarrow> email_op list" where
  "section_ops sec plan = filter (\<lambda>x. eo_section x = sec) (ep_ops plan)"

lemma mset_section_ops:
  "mset (map g (section_ops sec (build_email_plan src dest policy))) =
     mset (map g (filter (\<lambda>x. eo_section x = sec) (ep_ops (plan_sections src dest))))"
  by (simp add: section_ops_def build_email_plan_ops mset_filter)

lemma mset_dedup_by: "mset (map key (dedup_by key [] xs)) = mset_set (key ` set xs)"
  using mset_set_set [OF dedup_by_distinct [of key "[]" xs]] dedup_by_keys [of key "[]" xs] by simp

lemma map_dedup_ops:
  "map (\<lambda>x. (eo_key x, canon_email_addr (eo_source_value x))) (map (forwarder_op dest) fs) = map forwarder_pair fs"
  "map eo_key (map (default_address_op srcu destu ds) das) = map da_key das"
  "map eo_key (map (autoresponder_op dest) as) = map ar_key as"
  "map eo_key (map (filter_op fl) es) = map filter_key es"
  "map eo_key (map (routing_op rl) rs) = map er_key rs"
  by (simp_all add: email_op_keys comp_def)

lemma filter_section_map:
  "(\<And>y. eo_section (f y) = s) \<Longrightarrow> filter (\<lambda>x. eo_section x = sec) (map f ys) = (if s = sec then map f ys else [])"
  by (induction ys) auto

lemma filter_section_if:
  "filter P (if b then xs else []) = (if b then filter P xs else [])"
  by simp

lemmas section_filter_simps = ep_ops_sections filter_append filter_section_if
  filter_section_map [OF op_sections(1)] filter_section_map [OF op_sections(2)]
  filter_section_map [OF op_sections(3)] filter_section_map [OF op_sections(4)]
  filter_section_map [OF op_sections(5)]

lemma section_forwarders:
  "filter (\<lambda>x. eo_section x = sec_forwarders) (ep_ops (plan_sections src dest)) =
     map (forwarder_op dest) (dedup_by forwarder_pair [] (inv_forwarders src))"
  unfolding section_filter_simps by simp

lemma section_defaults:
  "filter (\<lambda>x. eo_section x = sec_default_address) (ep_ops (plan_sections src dest)) =
     (if cfg_available (da_cfg (inv_default_addresses src)) \<and>
         cfg_available (da_cfg (inv_default_addresses dest))
      then map (default_address_op (ai_user (inv_account src)) (ai_user (inv_account dest))
             (da_items (inv_default_addresses dest))) (da_items (inv_default_addresses src)) else [])"
  unfolding section_filter_simps by simp

lemma section_autoresponders:
  "filter (\<lambda>x. eo_section x = sec_autoresponders) (ep_ops (plan_sections src dest)) =
     map (autoresponder_op dest) (dedup_by ar_key [] (inv_autoresponders src))"
  unfolding section_filter_simps by simp

lemma section_filters:
  "filter (\<lambda>x. eo_section x = sec_filters) (ep_ops (plan_sections src dest)) =
     (if cfg_available (ef_cfg (inv_filters src)) \<and> cfg_available (ef_cfg (inv_filters dest))
      then map (filter_op (ef_items (inv_filters dest)))
             (dedup_by filter_key [] (ef_items (inv_filters src))) else [])"
  unfolding section_filter_simps by simp

lemma section_routing:
  "filter (\<lambda>x. eo_section x = sec_routing) (ep_ops (plan_sections src dest)) =
     (if cfg_available (er_cfg (inv_routing src)) \<and> cfg_available (er_cfg (inv_routing dest))
      then map (routing_op (er_items (inv_routing dest))) (er_items (inv_routing src)) else [])"
  unfolding section_filter_simps by simp

lemma mset_if: "mset (map g (if b then xs else [])) = (if b then mset (map g xs) else {#})"
  by simp

lemma count_actions_partition:
  "(\<forall>x\<in>set ops. eo_action x = ECreate \<or> eo_action x = ESet \<or> eo_action x = ESkip \<or> eo_action x = EManual) \<Longrightarrow>
   count_if (\<lambda>x. eo_action x = ECreate) ops + count_if (\<lambda>x. eo_action x = ESet) ops
     + count_if (\<lambda>x. eo_action x = ESkip) ops + count_if (\<lambda>x. eo_action x = EManual) ops = length ops"
  by (induction ops) auto

lemma summary_adds_up:
  "(let plan = build_email_plan src dest policy; s = ep_summary plan in
    es_create s + es_set s + es_skip s + es_manual s = length (ep_ops plan))"
proof -
  have "\<forall>x\<in>set (ep_ops (build_email_plan src dest policy)).
      eo_action x = ECreate \<or> eo_action x = ESet \<or> eo_action x = ESkip \<or> eo_action x = EManual"
    using op_actions by blast
  from count_actions_partition [OF this] show ?thesis
    by (simp add: build_email_plan_def summarize_email_ops_def Let_def)
qed

lemma manual_sections_of_plan:
  "em_section ` set (ep_manual_sections (build_email_plan src dest policy)) =
     (if cfg_available (da_cfg (inv_default_addresses src)) \<and>
         cfg_available (da_cfg (inv_default_addresses dest)) then {} else {sec_default_address})
     \<union> (if cfg_available (ef_cfg (inv_filters src)) \<and> cfg_available (ef_cfg (inv_filters dest))
        then {} else {sec_filters})
     \<union> (if cfg_available (er_cfg (inv_routing src)) \<and> cfg_available (er_cfg (inv_routing dest))
        then {} else {sec_routing})"
  by (simp add: build_email_plan_def plan_sections_def plan_routing_def plan_filters_def
      plan_autoresponders_def plan_default_addresses_def plan_forwarders_def add_to_plan_def
      refuse_section_def new_email_plan_def Let_def)

text \<open>An e-mail plan decides every item of the source exactly once: there is one operation per
  forwarder pair, autoresponder address and filter key of the source, however often a row is repeated,
  one per default address and routing entry, and a section that one side could not read has no
  operation and is listed as refused; the summary counts every operation.\<close>

theorem email_plan_covers_source:
  "(let plan = build_email_plan src dest policy; s = ep_summary plan;
        da = cfg_available (da_cfg (inv_default_addresses src)) \<and>
             cfg_available (da_cfg (inv_default_addresses dest));
        ef = cfg_available (ef_cfg (inv_filters src)) \<and> cfg_available (ef_cfg (inv_filters dest));
        er = cfg_available (er_cfg (inv_routing src)) \<and> cfg_available (er_cfg (inv_routing dest)) in
    mset (map (\<lambda>x. (eo_key x, canon_email_addr (eo_source_value x))) (section_ops sec_forwarders plan))
      = mset_set (forwarder_pair ` set (inv_forwarders src)) \<and>
    mset (map eo_key (section_ops sec_autoresponders plan)) = mset_set (ar_key ` set (inv_autoresponders src)) \<and>
    mset (map eo_key (section_ops sec_default_address plan))
      = (if da then mset (map da_key (da_items (inv_default_addresses src))) else {#}) \<and>
    mset (map eo_key (section_ops sec_filters plan))
      = (if ef then mset_set (filter_key ` set (ef_items (inv_filters src))) else {#}) \<and>
    mset (map eo_key (section_ops sec_routing plan))
      = (if er then mset (map er_key (er_items (inv_routing src))) else {#}) \<and>
    em_section ` set (ep_manual_sections plan) =
      (if da then {} else {sec_default_address}) \<union> (if ef then {} else {sec_filters})
      \<union> (if er then {} else {sec_routing}) \<and>
    es_create s + es_set s + es_skip s + es_manual s = length (ep_ops plan))"
  unfolding Let_def mset_section_ops manual_sections_of_plan section_forwarders section_defaults
    section_autoresponders section_filters section_routing mset_if map_dedup_ops mset_dedup_by
  by (intro conjI refl summary_adds_up [unfolded Let_def])

end
