(* ===== verification/EmailLiveLaws.thy ===== *)
theory EmailLiveLaws
  imports EmailLaws
begin

text \<open>
  Planner, freshness guard, verifier and rollback on one destination. \<open>live_of\<close> is the fresh listing
  of a destination that has not changed since its inventory, with the entries of a domain under the
  domain of their address; \<open>perform\<close> is what the documented cPanel calls do to that listing when an
  operation is written, and \<open>undo\<close> what they do for an operation of a rollback.
\<close>

section \<open>An unchanged destination\<close>

definition listing_domain :: "string \<Rightarrow> string \<Rightarrow> string" where
  "listing_domain address fallback =
     (case split_email_addr address of Some (_, d) \<Rightarrow> to_lower d | None \<Rightarrow> to_lower (trim_space fallback))"

definition live_of :: "inventory \<Rightarrow> email_live" where
  "live_of i =
     \<lparr>el_forwarders = group_by (\<lambda>f. listing_domain (fw_source f) (fw_domain f)) (inv_forwarders i),
      el_forwarder_errors = [],
      el_defaults = da_items (inv_default_addresses i),
      el_defaults_listed = cfg_available (da_cfg (inv_default_addresses i)), el_defaults_error = [],
      el_autoresponders = group_by (\<lambda>a. listing_domain (ar_email a) (ar_domain a)) (inv_autoresponders i),
      el_autoresponder_errors = [],
      el_filters = group_by ef_account (ef_items (inv_filters i)), el_filter_errors = [],
      el_routing = er_items (inv_routing i),
      el_routing_listed = cfg_available (er_cfg (inv_routing i)), el_routing_error = []\<rparr>"

text \<open>A listing without repeated rows, whose domains have no surrounding space.\<close>

definition tidy :: "inventory \<Rightarrow> bool" where
  "tidy i \<longleftrightarrow>
     distinct (map forwarder_pair (inv_forwarders i)) \<and>
     distinct (map da_key (da_items (inv_default_addresses i))) \<and>
     list_all (\<lambda>d. trim_space (da_domain d) = da_domain d) (da_items (inv_default_addresses i)) \<and>
     distinct (map er_key (er_items (inv_routing i))) \<and>
     list_all (\<lambda>r. trim_space (er_domain r) = er_domain r) (er_items (inv_routing i))"

text \<open>The accounts of filters are mail addresses or empty: no slash, not the text that stands for
  the account level.\<close>

definition plain_account :: "email_filter_entry \<Rightarrow> bool" where
  "plain_account f \<longleftrightarrow> CHR ''/'' \<notin> set (ef_account f) \<and> ef_account f \<noteq> account_level"

lemma slice_group_by: "slice_at (group_by key xs) k = filter (\<lambda>x. key x = k) xs"
  by (auto simp: slice_at_def map_of_group_by filter_empty_conv)

lemma find_filter: "find P (filter Q xs) = find (\<lambda>x. Q x \<and> P x) xs"
  by (induction xs) auto

lemma first_with_filter:
  assumes "\<And>x. x \<in> set xs \<Longrightarrow> key x = k \<Longrightarrow> Q x"
  shows "first_with key k (filter Q xs) = first_with key k xs"
  unfolding first_with_def find_filter by (rule find_cong) (use assms in auto)

lemma first_with_append:
  "first_with key k (xs @ ys) = (case first_with key k xs of None \<Rightarrow> first_with key k ys | Some x \<Rightarrow> Some x)"
  by (induction xs) (auto simp: first_with_def)

lemma first_is_last:
  assumes "distinct (map key xs)"
  shows "last_with key k xs = first_with key k xs"
proof (cases "first_with key k xs")
  case None
  then have "last_with key k xs = None" by (simp only: first_with_None_iff last_with_None_iff not_False_eq_True)
  with None show ?thesis by simp
next
  case (Some x)
  then have x: "x \<in> set xs" "key x = k" by (auto dest: first_with_SomeD)
  then obtain y where y: "last_with key k xs = Some y"
    using last_with_None_iff [of key k xs] by (cases "last_with key k xs") auto
  then have "y \<in> set xs" "key y = k" by (auto dest: last_with_SomeD)
  with x assms have "y = x" by (auto simp: distinct_map inj_on_def)
  with y Some show ?thesis by simp
qed

text \<open>Filter keys are read back as they were built.\<close>

lemma split_filter_key_roundtrip:
  assumes "plain_account f"
  shows "split_filter_key (filter_key f) = (ef_account f, ef_name f)"
proof -
  have cut: "cut_byte c (a @ c # b) = Some (a, b)" if "c \<notin> set a" for a b and c :: char
    using that by (induction a) (auto simp: cut_byte_def)
  have "CHR ''/'' \<notin> set account_level" by (simp add: account_level_def)
  with assms show ?thesis
    by (cases "ef_account f = []") (simp_all add: split_filter_key_def filter_key_def plain_account_def cut)
qed

section \<open>What a write does\<close>

definition push :: "'k \<Rightarrow> 'v \<Rightarrow> ('k, 'v list) gomap \<Rightarrow> ('k, 'v list) gomap" where
  "push k v m = AList.update k (slice_at m k @ [v]) m"

lemma slice_push [simp]: "slice_at (push k v m) k' = (if k' = k then slice_at m k @ [v] else slice_at m k')"
  by (simp add: push_def slice_at_def update_conv')

definition set_default :: "string \<Rightarrow> string \<Rightarrow> default_address_entry list \<Rightarrow> default_address_entry list" where
  "set_default domain v =
     map (\<lambda>d. if canon_email_addr (da_domain d) = canon_email_addr domain then d\<lparr>da_address := v\<rparr> else d)"

definition set_routing :: "string \<Rightarrow> string \<Rightarrow> email_routing_entry list \<Rightarrow> email_routing_entry list" where
  "set_routing domain v =
     map (\<lambda>r. if canon_email_addr (er_domain r) = canon_email_addr domain then r\<lparr>er_routing := v\<rparr> else r)"

definition perform :: "email_op \<Rightarrow> email_live \<Rightarrow> email_live" where
  "perform x l =
     (if eo_section x = sec_forwarders \<and> eo_action x = ECreate then
        l\<lparr>el_forwarders := push (eo_domain x)
            \<lparr>fw_source = eo_email x @ ''@'' @ eo_domain x, fw_destination = eo_forward x,
             fw_domain = eo_domain x\<rparr> (el_forwarders l)\<rparr>
      else if eo_section x = sec_default_address \<and> eo_action x = ESet then
        l\<lparr>el_defaults := set_default (eo_domain x) (eo_value x) (el_defaults l)\<rparr>
      else if eo_section x = sec_autoresponders \<and> eo_action x = ECreate then
        (case eo_autoresponder x of None \<Rightarrow> l
         | Some c \<Rightarrow> l\<lparr>el_autoresponders := push (eo_domain x)
             ((entry_of_autoresponder c)\<lparr>ar_email := eo_email x @ ''@'' @ eo_domain x,
                ar_domain := eo_domain x\<rparr>) (el_autoresponders l)\<rparr>)
      else if eo_section x = sec_filters \<and> eo_action x = ECreate then
        (case eo_filter x of None \<Rightarrow> l
         | Some c \<Rightarrow> (let (account, name) = split_filter_key (eo_key x) in
             l\<lparr>el_filters := push account
                 ((entry_of_filter c)\<lparr>ef_account := account, ef_name := name, ef_enabled := True\<rparr>)
                 (el_filters l)\<rparr>))
      else if eo_section x = sec_routing \<and> eo_action x = ESet then
        l\<lparr>el_routing := set_routing (eo_domain x) (eo_value x) (el_routing l)\<rparr>
      else l)"

lemma first_with_set_default:
  "map_option da_address (first_with (\<lambda>d. canon_email_addr (da_domain d)) (canon_email_addr domain)
       (set_default domain v ds)) =
     (if canon_email_addr domain \<in> (\<lambda>d. canon_email_addr (da_domain d)) ` set ds then Some v else None)"
  by (induction ds) (auto simp: set_default_def first_with_def)

lemma first_with_set_routing:
  "map_option er_routing (first_with (\<lambda>r. canon_email_addr (er_domain r)) (canon_email_addr domain)
       (set_routing domain v rs)) =
     (if canon_email_addr domain \<in> (\<lambda>r. canon_email_addr (er_domain r)) ` set rs then Some v else None)"
  by (induction rs) (auto simp: set_routing_def first_with_def)

section \<open>Equivalences\<close>

lemma defaults_equivalent_trim [simp]: "defaults_equivalent (trim_space v) v u u'"
  by (simp add: defaults_equivalent_def go_simps)

lemma defaults_equivalent_refl [simp]: "defaults_equivalent v v u u'"
  by (simp add: defaults_equivalent_def)

text \<open>A value that was worth setting over a fresh default is not equivalent to it for the account of
  the destination either.\<close>

lemma set_not_equivalent:
  assumes ne: "\<not> defaults_equivalent v dv srcu destu"
    and cls: "classify_default_value v srcu \<in> {DefAddress, DefFail, DefBlackhole}"
  shows "\<not> defaults_equivalent (trim_space v) dv destu destu"
proof
  assume eq: "defaults_equivalent (trim_space v) dv destu destu"
  have diff: "trim_space v \<noteq> trim_space dv" using ne by (auto simp: defaults_equivalent_def)
  then obtain c where c: "classify_default_value (trim_space v) destu = c"
      "classify_default_value dv destu = c" "c = DefFail \<or> c = DefBlackhole \<or> c = DefAccount"
    using eq by (auto simp: defaults_equivalent_def Let_def go_simps)
  have "classify_default_value v srcu = c" if "c \<noteq> DefAccount"
    using c(1,3) that by (auto simp: classify_default_value_def Let_def go_simps split: if_splits)
  then have acc: "c = DefAccount"
    using ne diff c by (auto simp: defaults_equivalent_def Let_def)
  have own: "trim_space w = destu" if "classify_default_value w destu = DefAccount" for w
    using that by (auto simp: classify_default_value_def Let_def split: if_splits)
  from own [of "trim_space v"] own [of dv] c acc have "trim_space v = trim_space dv"
    by (simp add: go_simps)
  with diff show False by simp
qed

lemma normalize_body_idem [simp]:
  "normalize_autoresponder_body (normalize_autoresponder_body b) = normalize_autoresponder_body b"
proof -
  let ?nl = "\<lambda>c. c = CHR 0x0A"
  have "dropWhile ?nl (CHR 0x0A # dropWhile ?nl r) = dropWhile ?nl r" for r :: string
    by (induction r) auto
  then show ?thesis by (simp add: normalize_autoresponder_body_def)
qed

lemma charset_idem [simp]: "autoresponder_charset (autoresponder_charset c) = autoresponder_charset c"
proof (cases "to_lower (trim_space c) = []")
  case True
  have "autoresponder_charset ''utf-8'' = ''utf-8''" by code_simp
  with True show ?thesis by (simp add: autoresponder_charset_def)
next
  case False
  then show ?thesis by (simp add: autoresponder_charset_def Let_def go_simps)
qed

lemma content_of_equivalent:
  "ar_body_collected d \<Longrightarrow>
   autoresponder_content_equivalent (Some (autoresponder_content_of a)) d = autoresponders_equivalent a d"
  by (simp add: autoresponder_content_equivalent_def autoresponder_content_of_def
      entry_of_autoresponder_def autoresponders_equivalent_def)

lemma filter_content_of_equivalent:
  "ef_rules_collected d \<Longrightarrow>
   filter_content_equivalent (Some (filter_content_of f)) d = filters_equivalent f d"
  by (simp add: filter_content_equivalent_def filter_content_of_def entry_of_filter_def
      filters_equivalent_def)

lemma filters_equivalent_refl: "ef_rules a = ef_rules b \<Longrightarrow> ef_actions a = ef_actions b \<Longrightarrow> filters_equivalent a b"
  by (simp add: filters_equivalent_def rule_agrees_def action_agrees_def list_all2_same)

section \<open>Plan, guard and verifier on forwarders\<close>

lemma listing_domain_canon:
  assumes "canon_email_addr s = canon_email_addr s'" and "split_email_addr s' = Some (local, domain)"
  shows "listing_domain s fb = to_lower domain"
  using split_email_addr_canon [OF assms(1) [symmetric] assms(2)] by (auto simp: listing_domain_def)

lemma forwarders_listed:
  assumes "split_email_addr s = Some (local, domain)"
  shows "filter (\<lambda>f. canon_email_addr (fw_source f) = canon_email_addr s)
      (slice_at (el_forwarders (live_of dest)) (to_lower domain)) =
    filter (\<lambda>f. canon_email_addr (fw_source f) = canon_email_addr s) (inv_forwarders dest)"
  using listing_domain_canon [OF _ assms]
  by (auto simp: live_of_def slice_group_by intro!: filter_cong)

lemma pair_present_live:
  assumes "split_email_addr s = Some (local, domain)"
  shows "forward_pair_present (live_of dest) (to_lower domain) (canon_email_addr s) target \<longleftrightarrow>
    (canon_email_addr s, canon_email_addr target) \<in> forwarder_pair ` set (inv_forwarders dest)"
proof -
  have "forward_pair_present (live_of dest) (to_lower domain) (canon_email_addr s) target \<longleftrightarrow>
      (\<exists>f\<in>set (filter (\<lambda>f. canon_email_addr (fw_source f) = canon_email_addr s)
          (slice_at (el_forwarders (live_of dest)) (to_lower domain))).
        canon_email_addr (fw_destination f) = canon_email_addr target)"
    by (auto simp: forward_pair_present_def list_ex_iff)
  also have "\<dots> \<longleftrightarrow> (canon_email_addr s, canon_email_addr target) \<in> forwarder_pair ` set (inv_forwarders dest)"
    unfolding forwarders_listed [OF assms] by (force simp: forwarder_pair_def image_iff)
  finally show ?thesis .
qed

lemma targets_live:
  assumes "split_email_addr s = Some (local, domain)" and "distinct (map forwarder_pair (inv_forwarders dest))"
  shows "dest_forward_targets (live_of dest) (to_lower domain) (canon_email_addr s) =
    sort (map canon_email_addr (dest_targets (inv_forwarders dest) (canon_email_addr s)))"
proof -
  have "dedup_by forwarder_pair [] (inv_forwarders dest) = inv_forwarders dest"
    using assms(2) by (intro dedup_by_distinct_id) simp_all
  moreover have "sort (map canon_email_addr (sort (map (\<lambda>f. trim_space (fw_destination f)) fs)))
      = sort (map (\<lambda>f. canon_email_addr (fw_destination f)) fs)" for fs :: "forwarder_entry list"
    by (intro sort_order_irrelevant) (simp add: image_mset.compositionality comp_def)
  ultimately show ?thesis
    using forwarders_listed [OF assms(1)] by (simp add: dest_forward_targets_def dest_targets_def)
qed

text \<open>What the guard and the verifier say of an operation against the listing.\<close>

definition stage :: "email_op \<Rightarrow> email_live \<Rightarrow> string \<Rightarrow> email_decision \<times> bool \<times> email_verify_status" where
  "stage x l destu =
     (evaluate_email_op x l destu, email_outcome_present x l destu, ev_status (verify_email_op x l destu))"

definition converges :: "inventory \<Rightarrow> email_op \<Rightarrow> bool" where
  "converges dest x \<longleftrightarrow>
     (let l = live_of dest; u = ai_user (inv_account dest) in
      case eo_action x of
        ESkip \<Rightarrow> ev_status (verify_email_op x l u) = VEUnchanged
      | EManual \<Rightarrow> ev_status (verify_email_op x l u) = VEManualReview
      | _ \<Rightarrow> stage x l u = (DWrite, False, VEPending) \<and>
             stage x (perform x l) u = (DAlready, True, VEApplied))"

lemma converges_manual: "converges dest (manual_op x r)"
  by (simp add: converges_def verify_email_op_def email_verdict_def)

lemma listed_no_errors [simp]:
  "el_forwarder_errors (live_of dest) = []" "el_autoresponder_errors (live_of dest) = []"
  "el_filter_errors (live_of dest) = []"
  by (simp_all add: live_of_def)

lemma email_verdict_status [simp]: "ev_status (email_verdict x st r e ob) = st"
  by (simp add: email_verdict_def)

lemma converges_forwarder:
  assumes "distinct (map forwarder_pair (inv_forwarders dest))"
  shows "converges dest (forwarder_op dest f)"
proof (cases rule: forwarder_op_decided [of dest f])
  case (manual domain reason)
  then show ?thesis by (simp add: converges_manual)
next
  case (skip local domain)
  then show ?thesis
    using pair_present_live [OF skip(1), of dest]
    by (simp add: converges_def forwarder_base_def verify_email_op_def verify_forwarder_def
        forwarder_pair_def Let_def)
next
  case (create local domain)
  let ?x = "forwarder_op dest f" and ?l = "live_of dest"
  have fields: "eo_section ?x = sec_forwarders" "eo_action ?x = ECreate" "eo_domain ?x = to_lower domain"
    "eo_key ?x = canon_email_addr (fw_source f)" "eo_email ?x = to_lower local"
    "eo_forward ?x = trim_space (fw_destination f)"
    "plan_time_targets ?x = dest_forward_targets ?l (to_lower domain) (canon_email_addr (fw_source f))"
    unfolding create(5) using targets_live [OF create(1) assms]
    by (simp_all add: forwarder_base_def plan_time_targets_def)
  have absent: "\<not> forward_pair_present ?l (to_lower domain) (canon_email_addr (fw_source f))
      (trim_space (fw_destination f))"
    using pair_present_live [OF create(1)] create(2) by (simp add: forwarder_pair_def)
  have "canon_email_addr (to_lower local @ ''@'' @ to_lower domain) = canon_email_addr (fw_source f)"
  proof -
    have "trim_space (fw_source f) = local @ CHR ''@'' # domain"
      using split_email_addr_SomeD [OF create(1)] by simp
    then have "to_lower local @ ''@'' @ to_lower domain = canon_email_addr (fw_source f)"
      using at_no_letter [of "CHR ''@''"] by (simp add: canon_email_addr_def to_lower_def)
    then show ?thesis by simp
  qed
  then have present: "forward_pair_present (perform ?x ?l) (to_lower domain)
      (canon_email_addr (fw_source f)) (trim_space (fw_destination f))"
    using fields by (simp add: perform_def forward_pair_present_def)
  have "el_forwarder_errors (perform ?x ?l) = []" using fields by (simp add: perform_def)
  then show ?thesis
    using fields absent present
    by (simp add: converges_def stage_def evaluate_email_op_def evaluate_forwarder_def
        email_outcome_present_def verify_email_op_def verify_forwarder_def Let_def)
qed

section \<open>Default addresses and routing\<close>

lemma default_for_live:
  assumes tidy: "tidy dest" and last: "last_with da_key (da_key s) (da_items (inv_default_addresses dest)) = Some d"
  shows "default_for (live_of dest) (da_key s) = Some (da_address d)"
proof -
  let ?ds = "da_items (inv_default_addresses dest)"
  have trim: "\<forall>e\<in>set ?ds. canon_email_addr (da_domain e) = da_key e"
    using tidy by (simp add: tidy_def list_all_iff canon_email_addr_def da_key_def)
  have d: "d \<in> set ?ds" "da_key d = da_key s" using last_with_SomeD [OF last] by auto
  then have key: "canon_email_addr (da_key s) = da_key s"
    using trim by (metis canon_idem)
  have "first_with (\<lambda>e. canon_email_addr (da_domain e)) (da_key s) ?ds = first_with da_key (da_key s) ?ds"
    unfolding first_with_def by (rule find_cong) (use trim in auto)
  also have "\<dots> = Some d" using first_is_last [of da_key ?ds] tidy last by (simp add: tidy_def)
  finally show ?thesis using key by (simp add: default_for_def live_of_def)
qed

lemma default_for_performed:
  assumes "default_for l domain \<noteq> None"
  shows "default_for (l\<lparr>el_defaults := set_default domain v (el_defaults l)\<rparr>) domain = Some v"
  using assms by (auto simp: default_for_def first_with_set_default first_with_None_iff)

lemma converges_default:
  assumes tidy: "tidy dest" and avail: "cfg_available (da_cfg (inv_default_addresses dest))"
  shows "converges dest (default_address_op srcu (ai_user (inv_account dest))
    (da_items (inv_default_addresses dest)) s)"
proof (cases rule: default_op_decided [of srcu "ai_user (inv_account dest)"
      "da_items (inv_default_addresses dest)" s])
  case (manual reason)
  then show ?thesis by (simp add: converges_manual)
next
  case (skip d)
  then show ?thesis
    using default_for_live [OF tidy skip(1)] avail
    by (simp add: converges_def default_base_def verify_email_op_def verify_default_def live_of_def)
next
  case (set d)
  let ?x = "default_address_op srcu (ai_user (inv_account dest)) (da_items (inv_default_addresses dest)) s"
  let ?l = "live_of dest"
  have fields: "eo_section ?x = sec_default_address" "eo_action ?x = ESet" "eo_domain ?x = da_key s"
    "eo_value ?x = trim_space (da_address s)" "eo_destination_value ?x = da_address d"
    unfolding set(5) using set(1) by (simp_all add: default_base_def)
  have cur: "default_for ?l (da_key s) = Some (da_address d)"
    by (rule default_for_live [OF tidy set(1)])
  then have new: "default_for (perform ?x ?l) (da_key s) = Some (trim_space (da_address s))"
    using fields default_for_performed [of ?l "da_key s"] by (simp add: perform_def)
  have listed: "el_defaults_listed ?l" "el_defaults_listed (perform ?x ?l)"
    using avail fields by (simp_all add: perform_def live_of_def)
  show ?thesis
    using fields cur new listed set_not_equivalent [OF set(2,4)]
    by (simp add: converges_def stage_def evaluate_email_op_def evaluate_default_def
        email_outcome_present_def verify_email_op_def verify_default_def Let_def)
qed

lemma routing_for_live:
  assumes tidy: "tidy dest" and last: "last_with er_key (er_key s) (er_items (inv_routing dest)) = Some d"
  shows "routing_for (live_of dest) (er_key s) = Some (er_routing d)"
proof -
  let ?ds = "er_items (inv_routing dest)"
  have trim: "\<forall>e\<in>set ?ds. canon_email_addr (er_domain e) = er_key e"
    using tidy by (simp add: tidy_def list_all_iff canon_email_addr_def er_key_def)
  have d: "d \<in> set ?ds" "er_key d = er_key s" using last_with_SomeD [OF last] by auto
  then have key: "canon_email_addr (er_key s) = er_key s"
    using trim by (metis canon_idem)
  have "first_with (\<lambda>e. canon_email_addr (er_domain e)) (er_key s) ?ds = first_with er_key (er_key s) ?ds"
    unfolding first_with_def by (rule find_cong) (use trim in auto)
  also have "\<dots> = Some d" using first_is_last [of er_key ?ds] tidy last by (simp add: tidy_def)
  finally show ?thesis using key by (simp add: routing_for_def live_of_def)
qed

lemma routing_for_performed:
  assumes "routing_for l domain \<noteq> None"
  shows "routing_for (l\<lparr>el_routing := set_routing domain v (el_routing l)\<rparr>) domain = Some v"
  using assms by (auto simp: routing_for_def first_with_set_routing first_with_None_iff)

lemma converges_routing:
  assumes tidy: "tidy dest" and avail: "cfg_available (er_cfg (inv_routing dest))"
  shows "converges dest (routing_op (er_items (inv_routing dest)) s)"
proof (cases rule: routing_op_decided [of "er_items (inv_routing dest)" s])
  case (manual reason)
  then show ?thesis by (simp add: converges_manual)
next
  case (skip d)
  then show ?thesis
    using routing_for_live [OF tidy skip(1)] avail
    by (simp add: converges_def routing_base_def verify_email_op_def verify_routing_def live_of_def)
next
  case (set d)
  let ?x = "routing_op (er_items (inv_routing dest)) s" and ?l = "live_of dest"
  have fields: "eo_section ?x = sec_routing" "eo_action ?x = ESet" "eo_domain ?x = er_key s"
    "eo_value ?x = er_routing s" "eo_destination_value ?x = er_routing d"
    unfolding set(3) using set(1) by (simp_all add: routing_base_def)
  have cur: "routing_for ?l (er_key s) = Some (er_routing d)"
    by (rule routing_for_live [OF tidy set(1)])
  then have new: "routing_for (perform ?x ?l) (er_key s) = Some (er_routing s)"
    using fields routing_for_performed [of ?l "er_key s"] by (simp add: perform_def)
  have listed: "el_routing_listed ?l" "el_routing_listed (perform ?x ?l)"
    using avail fields by (simp_all add: perform_def live_of_def)
  show ?thesis
    using fields cur new listed set(2)
    by (simp add: converges_def stage_def evaluate_email_op_def evaluate_routing_def
        email_outcome_present_def verify_email_op_def verify_routing_def Let_def)
qed

section \<open>Autoresponders and filters\<close>

lemma canon_ar_key [simp]: "canon_email_addr (ar_key a) = ar_key a"
  by (simp add: ar_key_def)

lemma autoresponder_for_live:
  assumes "split_email_addr (ar_email a) = Some (local, domain)"
  shows "autoresponder_for (live_of dest) (to_lower domain) (ar_key a) =
    first_with ar_key (ar_key a) (inv_autoresponders dest)"
proof -
  have "first_with ar_key (ar_key a)
      (filter (\<lambda>d. listing_domain (ar_email d) (ar_domain d) = to_lower domain) (inv_autoresponders dest))
    = first_with ar_key (ar_key a) (inv_autoresponders dest)"
    by (rule first_with_filter) (use listing_domain_canon [OF _ assms] in \<open>simp add: ar_key_def\<close>)
  then show ?thesis by (simp add: autoresponder_for_def live_of_def slice_group_by)
qed

lemma converges_autoresponder: "converges dest (autoresponder_op dest a)"
proof (cases rule: autoresponder_op_decided [of dest a])
  case (manual domain reason)
  then show ?thesis by (simp add: converges_manual)
next
  case (skip local domain d)
  then show ?thesis
    using autoresponder_for_live [OF skip(1), of dest]
    by (simp add: converges_def autoresponder_base_def verify_email_op_def verify_autoresponder_def
        content_of_equivalent Let_def)
next
  case (create local domain)
  let ?x = "autoresponder_op dest a" and ?l = "live_of dest" and ?c = "autoresponder_content_of a"
  have fields: "eo_section ?x = sec_autoresponders" "eo_action ?x = ECreate" "eo_domain ?x = to_lower domain"
    "eo_key ?x = ar_key a" "eo_email ?x = to_lower local" "eo_autoresponder ?x = Some ?c"
    unfolding create(5) by (simp_all add: autoresponder_base_def)
  have absent: "autoresponder_for ?l (to_lower domain) (ar_key a) = None"
    using autoresponder_for_live [OF create(1)] create(2) by simp
  let ?e = "(entry_of_autoresponder ?c)\<lparr>ar_email := to_lower local @ ''@'' @ to_lower domain,
      ar_domain := to_lower domain\<rparr>"
  have "to_lower local @ ''@'' @ to_lower domain = canon_email_addr (ar_email a)"
    using split_email_addr_SomeD [OF create(1)] at_no_letter [of "CHR ''@''"]
    by (simp add: canon_email_addr_def to_lower_def)
  then have key: "ar_key ?e = ar_key a" by (simp add: ar_key_def)
  have slice: "slice_at (el_autoresponders (perform ?x ?l)) (to_lower domain)
      = slice_at (el_autoresponders ?l) (to_lower domain) @ [?e]"
    using fields by (simp add: perform_def)
  have new: "autoresponder_for (perform ?x ?l) (to_lower domain) (ar_key a) = Some ?e"
    using absent key unfolding autoresponder_for_def slice first_with_append
    by (simp add: first_with_def)
  have coll: "ar_body_collected ?e" by (simp add: entry_of_autoresponder_def)
  have "autoresponders_equivalent a ?e"
    by (simp add: autoresponders_equivalent_def entry_of_autoresponder_def autoresponder_content_of_def)
  then have eq: "autoresponder_content_equivalent (Some ?c) ?e"
    using coll by (simp add: content_of_equivalent)
  have "el_autoresponder_errors (perform ?x ?l) = []" using fields by (simp add: perform_def)
  then show ?thesis
    using fields absent new eq coll
    by (simp add: converges_def stage_def evaluate_email_op_def evaluate_autoresponder_def
        email_outcome_present_def verify_email_op_def verify_autoresponder_def Let_def)
qed

lemma filter_for_live:
  assumes "plain_account f" and "\<forall>d\<in>set ds. plain_account d" and "ds = ef_items (inv_filters dest)"
  shows "filter_for (live_of dest) (ef_account f) (ef_name f) = first_with filter_key (filter_key f) ds"
proof -
  have same: "filter_key d = filter_key f \<longleftrightarrow> ef_account d = ef_account f \<and> ef_name d = ef_name f"
    if "d \<in> set ds" for d
    using split_filter_key_roundtrip [OF assms(1)] split_filter_key_roundtrip [of d] assms(2) that
    by (metis filter_key_def prod.inject)
  show ?thesis
    unfolding filter_for_def first_with_def live_of_def assms(3) [symmetric]
    by (simp add: slice_group_by find_filter, rule find_cong) (use same in auto)
qed

lemma converges_filter:
  assumes f: "plain_account f" and ds: "\<forall>d\<in>set (ef_items (inv_filters dest)). plain_account d"
  shows "converges dest (filter_op (ef_items (inv_filters dest)) f)"
proof (cases rule: filter_op_decided [of "ef_items (inv_filters dest)" f])
  case (manual reason)
  then show ?thesis by (simp add: converges_manual)
next
  case (skip d)
  then show ?thesis
    using filter_for_live [OF f ds refl] split_filter_key_roundtrip [OF f]
    by (simp add: converges_def filter_base_def verify_email_op_def verify_filter_def
        filter_content_of_equivalent Let_def)
next
  case create
  let ?x = "filter_op (ef_items (inv_filters dest)) f" and ?l = "live_of dest" and ?c = "filter_content_of f"
  have fields: "eo_section ?x = sec_filters" "eo_action ?x = ECreate" "eo_key ?x = filter_key f"
    "eo_filter ?x = Some ?c"
    unfolding create(4) by (simp_all add: filter_base_def)
  note key = split_filter_key_roundtrip [OF f]
  have absent: "filter_for ?l (ef_account f) (ef_name f) = None"
    using filter_for_live [OF f ds refl] create(1) by simp
  let ?e = "(entry_of_filter ?c)\<lparr>ef_account := ef_account f, ef_name := ef_name f, ef_enabled := True\<rparr>"
  have slice: "slice_at (el_filters (perform ?x ?l)) (ef_account f) = slice_at (el_filters ?l) (ef_account f) @ [?e]"
    using fields key by (simp add: perform_def)
  have new: "filter_for (perform ?x ?l) (ef_account f) (ef_name f) = Some ?e"
    using absent unfolding filter_for_def slice first_with_append by (simp add: first_with_def)
  have coll: "ef_rules_collected ?e" by (simp add: entry_of_filter_def)
  have "filters_equivalent f ?e"
    by (rule filters_equivalent_refl) (simp_all add: entry_of_filter_def filter_content_of_def)
  then have eq: "filter_content_equivalent (Some ?c) ?e"
    using coll by (simp add: filter_content_of_equivalent)
  have "el_filter_errors (perform ?x ?l) = []" using fields key by (simp add: perform_def)
  then show ?thesis
    using fields key absent new eq coll
    by (simp add: converges_def stage_def evaluate_email_op_def evaluate_filter_def
        email_outcome_present_def verify_email_op_def verify_filter_def Let_def)
qed

text \<open>C9. Plan, freshness guard and verifier agree about one destination: right after planning, on a
  destination that has not changed and lists nothing twice, every planned write is allowed and
  verifies as pending, and once it is performed the guard finds it already present and the verifier
  applied; a skip verifies as unchanged and a manual operation is left to the human.\<close>

theorem email_apply_converges:
  assumes "x \<in> set (ep_ops (build_email_plan src dest policy))" and "tidy dest"
    and "\<forall>f\<in>set (ef_items (inv_filters src) @ ef_items (inv_filters dest)). plain_account f"
  shows "converges dest x"
  using assms(1)
proof (cases rule: email_op_cases)
  case (forwarder f)
  with assms(2) show ?thesis by (simp add: converges_forwarder tidy_def)
next
  case (default_address d)
  with assms(2) show ?thesis by (simp add: converges_default)
next
  case (autoresponder a)
  then show ?thesis by (simp add: converges_autoresponder)
next
  case (filter e)
  with assms(3) show ?thesis by (simp add: converges_filter)
next
  case (routing r)
  with assms(2) show ?thesis by (simp add: converges_routing)
qed

section \<open>Two targets of one address\<close>

lemma create_forwarder_fields:
  assumes "eo_action (forwarder_op dest f) = ECreate"
  obtains local domain where "split_email_addr (fw_source f) = Some (local, domain)"
    "eo_domain (forwarder_op dest f) = to_lower domain"
    "eo_key (forwarder_op dest f) = canon_email_addr (fw_source f)"
    "eo_email (forwarder_op dest f) @ ''@'' @ eo_domain (forwarder_op dest f) = canon_email_addr (fw_source f)"
    "canon_email_addr (eo_forward (forwarder_op dest f)) = canon_email_addr (fw_destination f)"
    "forwarder_pair f \<notin> forwarder_pair ` set (inv_forwarders dest)"
    "plan_time_targets (forwarder_op dest f) =
       sort (map canon_email_addr (dest_targets (inv_forwarders dest) (canon_email_addr (fw_source f))))"
proof (cases rule: forwarder_op_decided [of dest f])
  case (manual domain reason)
  with assms show thesis by simp
next
  case (skip local domain)
  with assms show thesis by simp
next
  case (create local domain)
  have "trim_space (fw_source f) = local @ CHR ''@'' # domain"
    using split_email_addr_SomeD [OF create(1)] by simp
  then have "to_lower local @ ''@'' @ to_lower domain = canon_email_addr (fw_source f)"
    using at_no_letter [of "CHR ''@''"] by (simp add: canon_email_addr_def to_lower_def)
  then show thesis
    by (intro that [OF create(1)]) (use create(2) in \<open>simp_all add: create(5) forwarder_base_def plan_time_targets_def\<close>)
qed

text \<open>A source address with two targets becomes two operations, and the guard of each counts every
  target that is new on the destination as somebody's change, the tool's own too.\<close>

lemma sibling_refused:
  assumes tidy: "distinct (map forwarder_pair (inv_forwarders dest))"
    and x: "eo_action (forwarder_op dest f) = ECreate" and y: "eo_action (forwarder_op dest g) = ECreate"
    and same: "canon_email_addr (fw_source f) = canon_email_addr (fw_source g)"
    and differ: "canon_email_addr (fw_destination f) \<noteq> canon_email_addr (fw_destination g)"
  shows "(\<exists>r. evaluate_email_op (forwarder_op dest g) (perform (forwarder_op dest f) (live_of dest)) u = DRefused r) \<and>
    ev_status (verify_email_op (forwarder_op dest g) (perform (forwarder_op dest f) (live_of dest)) u) = VEDrift"
proof -
  let ?x = "forwarder_op dest f" and ?y = "forwarder_op dest g" and ?l = "live_of dest"
  let ?k = "canon_email_addr (fw_source g)"
  obtain la da where fx: "split_email_addr (fw_source f) = Some (la, da)" "eo_domain ?x = to_lower da"
      "eo_email ?x @ ''@'' @ eo_domain ?x = canon_email_addr (fw_source f)"
      "canon_email_addr (eo_forward ?x) = canon_email_addr (fw_destination f)"
    by (rule create_forwarder_fields [OF x]) blast
  obtain lb db where fy: "split_email_addr (fw_source g) = Some (lb, db)" "eo_domain ?y = to_lower db"
      "eo_key ?y = ?k" "canon_email_addr (eo_forward ?y) = canon_email_addr (fw_destination g)"
      "forwarder_pair g \<notin> forwarder_pair ` set (inv_forwarders dest)"
      "plan_time_targets ?y = sort (map canon_email_addr (dest_targets (inv_forwarders dest) ?k))"
    by (rule create_forwarder_fields [OF y]) blast
  have dom: "to_lower da = to_lower db"
    using split_email_addr_canon [OF same fx(1)] fy(1) by auto
  let ?new = "\<lparr>fw_source = eo_email ?x @ ''@'' @ eo_domain ?x, fw_destination = eo_forward ?x,
    fw_domain = eo_domain ?x\<rparr>"
  have slice: "slice_at (el_forwarders (perform ?x ?l)) (eo_domain ?y)
      = slice_at (el_forwarders ?l) (to_lower db) @ [?new]"
    using x fx(2) fy(2) dom by (simp add: perform_def)
  have new: "canon_email_addr (fw_source ?new) = ?k" using fx(3) same by simp
  have before: "\<not> forward_pair_present ?l (to_lower db) ?k (eo_forward ?y)"
    using pair_present_live [OF fy(1)] fy(4,5) by (simp add: forwarder_pair_def)
  then have absent: "\<not> forward_pair_present (perform ?x ?l) (eo_domain ?y) ?k (eo_forward ?y)"
    using differ fx(4) fy(4) unfolding forward_pair_present_def slice by simp
  have "length (dest_forward_targets (perform ?x ?l) (eo_domain ?y) ?k)
      = Suc (length (dest_forward_targets ?l (to_lower db) ?k))"
    unfolding dest_forward_targets_def slice using new by simp
  also have "\<dots> = Suc (length (plan_time_targets ?y))"
    using targets_live [OF fy(1) tidy] fy(6) by simp
  finally have "plan_time_targets ?y \<noteq> dest_forward_targets (perform ?x ?l) (eo_domain ?y) ?k"
    by (metis n_not_Suc_n)
  moreover have "el_forwarder_errors (perform ?x ?l) = []" using x by (simp add: perform_def)
  ultimately show ?thesis
    using absent y fy(3)
    by (simp add: evaluate_email_op_def evaluate_forwarder_def verify_email_op_def verify_forwarder_def Let_def)
qed

text \<open>A plan with two forwarder creates for one address does not survive a partial run: each
  operation may be written right after planning, but once one of them is on the destination the guard
  refuses the other as a change made since the plan, and the verifier reports it as drift.\<close>

theorem partial_run_blocks_sibling:
  assumes "x \<in> set (section_ops sec_forwarders (build_email_plan src dest policy))"
    and "y \<in> set (section_ops sec_forwarders (build_email_plan src dest policy))"
    and "eo_action x = ECreate" and "eo_action y = ECreate" and "eo_key x = eo_key y"
    and "canon_email_addr (eo_source_value x) \<noteq> canon_email_addr (eo_source_value y)"
    and "distinct (map forwarder_pair (inv_forwarders dest))"
  shows "evaluate_email_op y (live_of dest) u = DWrite \<and>
    (\<exists>r. evaluate_email_op y (perform x (live_of dest)) u = DRefused r) \<and>
    ev_status (verify_email_op y (perform x (live_of dest)) u) = VEDrift"
proof -
  have mem: "\<exists>f. z = forwarder_op dest f"
    if "z \<in> set (section_ops sec_forwarders (build_email_plan src dest policy))" for z
  proof -
    have "z \<in> set (filter (\<lambda>x. eo_section x = sec_forwarders) (ep_ops (plan_sections src dest)))"
      using that by (simp add: section_ops_def build_email_plan_ops)
    then show ?thesis unfolding section_forwarders set_map by (elim imageE) blast
  qed
  obtain f g where x: "x = forwarder_op dest f" and y: "y = forwarder_op dest g"
    using mem assms(1,2) by metis
  have pf: "eo_key (forwarder_op dest h) = canon_email_addr (fw_source h)"
    "canon_email_addr (eo_source_value (forwarder_op dest h)) = canon_email_addr (fw_destination h)" for h
    using email_op_keys(1) [of dest h] by (simp_all add: forwarder_pair_def)
  have "evaluate_email_op y (live_of dest) u = DWrite"
    using converges_forwarder [OF assms(7), of g] assms(4)
    by (simp add: converges_def stage_def Let_def y evaluate_email_op_def)
  then show ?thesis
    using sibling_refused [OF assms(7), of f g u] assms(3-6) pf unfolding x y by simp
qed

text \<open>Two accounts: the source forwards one address to two targets and has a catch-all, an
  autoresponder and a filter; the destination is fresh.\<close>

definition twin_source :: inventory where
  "twin_source = (new_empty_inventory [] ''u'' [] ''source'')
     \<lparr>inv_forwarders := [\<lparr>fw_source = ''a@x.it'', fw_destination = ''p@y.it'', fw_domain = ''x.it''\<rparr>,
        \<lparr>fw_source = ''A@x.it'', fw_destination = ''q@y.it'', fw_domain = ''x.it''\<rparr>],
      inv_default_addresses := \<lparr>da_cfg = empty_config_section\<lparr>cfg_available := True\<rparr>,
        da_items = [\<lparr>da_domain = ''x.it'', da_address = ''p@y.it''\<rparr>]\<rparr>\<rparr>"

definition fresh_destination :: inventory where
  "fresh_destination = (new_empty_inventory [] ''w'' [] ''destination'')
     \<lparr>inv_domains := [\<lparr>dom_name = ''x.it'', dom_type = ''main'', dom_root = []\<rparr>],
      inv_default_addresses := \<lparr>da_cfg = empty_config_section\<lparr>cfg_available := True\<rparr>,
        da_items = [\<lparr>da_domain = ''x.it'', da_address = '':fail: no''\<rparr>]\<rparr>\<rparr>"

lemma twin_plan:
  "map (\<lambda>x. (eo_section x, eo_action x, eo_key x, eo_source_value x))
     (ep_ops (build_email_plan twin_source fresh_destination None)) =
   [(sec_forwarders, ECreate, ''a@x.it'', ''p@y.it''), (sec_forwarders, ECreate, ''a@x.it'', ''q@y.it''),
    (sec_default_address, ESet, ''x.it'', ''p@y.it'')]"
  by code_simp

lemma twin_tidy: "tidy fresh_destination"
  by code_simp

lemma email_plan_is_additive_witness:
  "eo_action (ep_ops (build_email_plan twin_source fresh_destination None) ! 2) = ESet \<and>
   additive_write fresh_destination (ep_ops (build_email_plan twin_source fresh_destination None) ! 2)"
proof -
  have len: "length (ep_ops (build_email_plan twin_source fresh_destination None)) = 3"
    using arg_cong [OF twin_plan, of length] by simp
  then have "ep_ops (build_email_plan twin_source fresh_destination None) ! 2
      \<in> set (ep_ops (build_email_plan twin_source fresh_destination None))"
    by (intro nth_mem) simp
  moreover have "eo_action (ep_ops (build_email_plan twin_source fresh_destination None) ! 2) = ESet"
    using arg_cong [OF twin_plan, of "\<lambda>xs. fst (snd (xs ! 2))"] len by simp
  ultimately show ?thesis using email_plan_is_additive by blast
qed

lemma email_apply_converges_witness:
  "\<exists>x\<in>set (ep_ops (build_email_plan twin_source fresh_destination None)).
     eo_action x = ECreate \<and> converges fresh_destination x"
proof -
  let ?ops = "ep_ops (build_email_plan twin_source fresh_destination None)"
  have len: "length ?ops = 3" using arg_cong [OF twin_plan, of length] by simp
  then have mem: "?ops ! 0 \<in> set ?ops" by (intro nth_mem) simp
  have "eo_action (?ops ! 0) = ECreate"
    using arg_cong [OF twin_plan, of "\<lambda>xs. fst (snd (xs ! 0))"] len by simp
  moreover have "\<forall>f\<in>set (ef_items (inv_filters twin_source) @ ef_items (inv_filters fresh_destination)).
      plain_account f"
    by code_simp
  ultimately show ?thesis using email_apply_converges [OF mem twin_tidy] mem by blast
qed

lemma partial_run_blocks_sibling_witness:
  "\<exists>x y. x \<in> set (ep_ops (build_email_plan twin_source fresh_destination None)) \<and>
     y \<in> set (ep_ops (build_email_plan twin_source fresh_destination None)) \<and>
     evaluate_email_op y (live_of fresh_destination) ''w'' = DWrite \<and>
     (\<exists>r. evaluate_email_op y (perform x (live_of fresh_destination)) ''w'' = DRefused r)"
proof -
  let ?ops = "ep_ops (build_email_plan twin_source fresh_destination None)"
  have len: "length ?ops = 3" using arg_cong [OF twin_plan, of length] by simp
  then have mem: "?ops ! 0 \<in> set ?ops" "?ops ! 1 \<in> set ?ops" by (simp_all add: nth_mem)
  have f: "(eo_section (?ops ! i), eo_action (?ops ! i), eo_key (?ops ! i), eo_source_value (?ops ! i)) =
     [(sec_forwarders, ECreate, ''a@x.it'', ''p@y.it''), (sec_forwarders, ECreate, ''a@x.it'', ''q@y.it''),
      (sec_default_address, ESet, ''x.it'', ''p@y.it'')] ! i" if "i < 3" for i
    using arg_cong [OF twin_plan, of "\<lambda>xs. xs ! i"] len that by simp
  have sec: "?ops ! 0 \<in> set (section_ops sec_forwarders (build_email_plan twin_source fresh_destination None))"
    "?ops ! 1 \<in> set (section_ops sec_forwarders (build_email_plan twin_source fresh_destination None))"
    using mem f [of 0] f [of 1] by (simp_all add: section_ops_def)
  have "canon_email_addr ''p@y.it'' \<noteq> canon_email_addr ''q@y.it''" by code_simp
  then have differ: "canon_email_addr (eo_source_value (?ops ! 0)) \<noteq> canon_email_addr (eo_source_value (?ops ! 1))"
    using f [of 0] f [of 1] by simp
  have "distinct (map forwarder_pair (inv_forwarders fresh_destination))"
    using twin_tidy by (simp add: tidy_def)
  from partial_run_blocks_sibling [OF sec _ _ _ differ this, of "''w''"] show ?thesis
    using f [of 0] f [of 1] mem by auto
qed

end
