(* ===== verification/EmailRollbackLaws.thy ===== *)
theory EmailRollbackLaws
  imports EmailLiveLaws
begin

text \<open>
  The rollback of an e-mail apply: it inverts the applied results of its report and nothing else, and
  carried out on the destination it gives back the listing from before the apply.
\<close>

section \<open>What a rollback inverts\<close>

lemma invert_results_ok_iff:
  "invert_results b rs = Inr ops \<longleftrightarrow>
     list_all2 (\<lambda>r x. invert_op b (eor_op r) = Inr x) (filter (\<lambda>r. eor_status r = EApplied) rs) ops"
proof (induction rs arbitrary: ops)
  case Nil
  show ?case by auto
next
  case (Cons r rs)
  show ?case
  proof (cases "eor_status r = EApplied")
    case True
    have "invert_results b (r # rs) = Inr ops \<longleftrightarrow>
        (\<exists>x xs. invert_op b (eor_op r) = Inr x \<and> invert_results b rs = Inr xs \<and> x # xs = ops)"
      using True by (auto simp: bindr_ok_iff)
    also have "\<dots> \<longleftrightarrow> list_all2 (\<lambda>r x. invert_op b (eor_op r) = Inr x)
        (filter (\<lambda>r. eor_status r = EApplied) (r # rs)) ops"
      using True Cons.IH by (auto simp: list_all2_Cons1)
    finally show ?thesis .
  next
    case False
    then show ?thesis using Cons.IH by simp
  qed
qed

text \<open>An operation that a rollback can invert.\<close>

definition invertible :: "email_backup \<Rightarrow> email_op \<Rightarrow> bool" where
  "invertible b r \<longleftrightarrow>
     (eo_section r = sec_forwarders \<and> eo_action r = ECreate) \<or>
     (eo_section r = sec_default_address \<and> eo_action r = ESet \<and> backup_default_for b (eo_domain r) \<noteq> None) \<or>
     (eo_section r = sec_autoresponders \<and> eo_action r = ECreate \<and> eo_autoresponder r \<noteq> None) \<or>
     (eo_section r = sec_filters \<and> eo_action r = ECreate \<and> eo_filter r \<noteq> None) \<or>
     (eo_section r = sec_routing \<and> eo_action r = ESet \<and> backup_routing_for b (eo_domain r) \<noteq> None)"

lemma invert_op_ok_iff: "(\<exists>x. invert_op b r = Inr x) \<longleftrightarrow> invertible b r"
proof -
  consider "eo_section r = sec_forwarders" | "eo_section r = sec_default_address"
    | "eo_section r = sec_autoresponders" | "eo_section r = sec_filters" | "eo_section r = sec_routing"
    | "eo_section r \<notin> {sec_forwarders, sec_default_address, sec_autoresponders, sec_filters, sec_routing}"
    by blast
  then show ?thesis
    by cases (simp_all add: invert_op_def invertible_def split: option.split prod.split)
qed

lemma invert_results_total_iff:
  "(\<exists>ops. invert_results b rs = Inr ops) \<longleftrightarrow>
     (\<forall>r\<in>set rs. eor_status r = EApplied \<longrightarrow> invertible b (eor_op r))"
proof (induction rs)
  case (Cons r rs)
  show ?case
  proof (cases "eor_status r = EApplied")
    case True
    have "(\<exists>ops. invert_results b (r # rs) = Inr ops) \<longleftrightarrow>
        (\<exists>x. invert_op b (eor_op r) = Inr x) \<and> (\<exists>ops. invert_results b rs = Inr ops)"
      using True by (auto simp: bindr_ok_iff)
    then show ?thesis using True Cons.IH by (simp add: invert_op_ok_iff)
  next
    case False
    then show ?thesis using Cons.IH by simp
  qed
qed simp

text \<open>A rollback is computed from the report of an apply when every applied result can be
  inverted, and otherwise refused as a whole; its operations are the inverses of the applied results,
  one each and in their order, so nothing that was already present, refused, failed, skipped or manual
  is undone.\<close>

theorem rollback_inverts_applied:
  "(case compute_email_rollback rep b of
      Inl _ \<Rightarrow> ear_run_mode rep \<noteq> ''apply'' \<or>
        \<not> list_all (\<lambda>r. invertible b (eor_op r)) (filter (\<lambda>r. eor_status r = EApplied) (ear_results rep))
    | Inr ops \<Rightarrow> ear_run_mode rep = ''apply'' \<and>
        list_all2 (\<lambda>r x. invert_op b (eor_op r) = Inr x)
          (filter (\<lambda>r. eor_status r = EApplied) (ear_results rep)) ops)"
proof (cases "ear_run_mode rep = ''apply''")
  case False
  then show ?thesis by (simp add: compute_email_rollback_def)
next
  case True
  then have eq: "compute_email_rollback rep b = invert_results b (ear_results rep)"
    by (simp add: compute_email_rollback_def)
  show ?thesis
  proof (cases "invert_results b (ear_results rep)")
    case (Inl e)
    then have "\<not> (\<exists>ops. invert_results b (ear_results rep) = Inr ops)" by simp
    then have "\<not> (\<forall>r\<in>set (ear_results rep). eor_status r = EApplied \<longrightarrow> invertible b (eor_op r))"
      by (simp only: invert_results_total_iff not_False_eq_True)
    then have "\<not> list_all (\<lambda>r. invertible b (eor_op r))
        (filter (\<lambda>r. eor_status r = EApplied) (ear_results rep))"
      by (simp add: list_all_iff) blast
    then show ?thesis using Inl eq by simp
  next
    case (Inr ops)
    then show ?thesis using True eq by (simp add: invert_results_ok_iff [symmetric])
  qed
qed

section \<open>Undoing what was performed\<close>

definition undo :: "email_rollback_op \<Rightarrow> email_live \<Rightarrow> email_live" where
  "undo x l =
     (case rb_kind x of
        ForwarderRemove \<Rightarrow> l\<lparr>el_forwarders := AList.update (rb_domain x)
          (filter (\<lambda>f. forwarder_pair f \<noteq> (canon_email_addr (rb_address x), canon_email_addr (rb_forwarder x)))
            (slice_at (el_forwarders l) (rb_domain x))) (el_forwarders l)\<rparr>
      | DefaultRestore \<Rightarrow> l\<lparr>el_defaults := set_default (rb_domain x) (rb_value x) (el_defaults l)\<rparr>
      | AutoresponderRemove \<Rightarrow> l\<lparr>el_autoresponders := AList.update (rb_domain x)
          (filter (\<lambda>a. ar_key a \<noteq> canon_email_addr (rb_address x))
            (slice_at (el_autoresponders l) (rb_domain x))) (el_autoresponders l)\<rparr>
      | FilterRemove \<Rightarrow> l\<lparr>el_filters := AList.update (rb_account x)
          (filter (\<lambda>f. ef_name f \<noteq> rb_address x) (slice_at (el_filters l) (rb_account x))) (el_filters l)\<rparr>
      | RoutingRestore \<Rightarrow> l\<lparr>el_routing := set_routing (rb_domain x) (rb_value x) (el_routing l)\<rparr>)"

text \<open>The backup of a listing.\<close>

definition backup_of :: "email_live \<Rightarrow> email_backup" where
  "backup_of l =
     (let sec = \<lparr>ebs_forwarders = [], ebs_defaults = [], ebs_autoresponders = [], ebs_filters = [],
        ebs_routing = []\<rparr> in
      \<lparr>eb_destination_user = [],
       eb_forwarders = map (\<lambda>(d, fs). (d, sec\<lparr>ebs_forwarders := fs\<rparr>)) (el_forwarders l),
       eb_defaults = (if el_defaults_listed l then Some (sec\<lparr>ebs_defaults := el_defaults l\<rparr>) else None),
       eb_autoresponders = map (\<lambda>(d, as). (d, sec\<lparr>ebs_autoresponders := as\<rparr>)) (el_autoresponders l),
       eb_filters = map (\<lambda>(d, fs). (d, sec\<lparr>ebs_filters := fs\<rparr>)) (el_filters l),
       eb_routing = (if el_routing_listed l then Some (sec\<lparr>ebs_routing := el_routing l\<rparr>) else None)\<rparr>)"

lemma backup_default_for_backup_of:
  "el_defaults_listed l \<Longrightarrow> backup_default_for (backup_of l) d = default_for l d"
  by (simp add: backup_default_for_def backup_of_def default_for_def Let_def)

lemma backup_routing_for_backup_of:
  "el_routing_listed l \<Longrightarrow> backup_routing_for (backup_of l) d = routing_for l d"
  by (simp add: backup_routing_for_def backup_of_def routing_for_def Let_def)

definition same_listing :: "email_live \<Rightarrow> email_live \<Rightarrow> bool" where
  "same_listing l l' \<longleftrightarrow>
     (\<forall>d. slice_at (el_forwarders l) d = slice_at (el_forwarders l') d) \<and>
     el_defaults l = el_defaults l' \<and>
     (\<forall>d. slice_at (el_autoresponders l) d = slice_at (el_autoresponders l') d) \<and>
     (\<forall>a. slice_at (el_filters l) a = slice_at (el_filters l') a) \<and>
     el_routing l = el_routing l'"

lemma slice_update [simp]: "slice_at (AList.update k vs m) k' = (if k' = k then vs else slice_at m k')"
  by (simp add: slice_at_def update_conv')

text \<open>The sections of a listing after a sequence of writes and after a sequence of undos.\<close>

definition new_forwarder :: "email_op \<Rightarrow> forwarder_entry" where
  "new_forwarder x = \<lparr>fw_source = eo_email x @ ''@'' @ eo_domain x, fw_destination = eo_forward x,
     fw_domain = eo_domain x\<rparr>"

abbreviation creates_in :: "string \<Rightarrow> email_op \<Rightarrow> bool" where
  "creates_in sec x \<equiv> eo_section x = sec \<and> eo_action x = ECreate"

abbreviation sets_in :: "string \<Rightarrow> email_op \<Rightarrow> bool" where
  "sets_in sec x \<equiv> eo_section x = sec \<and> eo_action x = ESet"

lemma performed:
  "slice_at (el_forwarders (perform x l)) d = slice_at (el_forwarders l) d
     @ (if creates_in sec_forwarders x \<and> eo_domain x = d then [new_forwarder x] else [])"
  "el_defaults (perform x l) =
     (if sets_in sec_default_address x then set_default (eo_domain x) (eo_value x) (el_defaults l)
      else el_defaults l)"
  "el_routing (perform x l) =
     (if sets_in sec_routing x then set_routing (eo_domain x) (eo_value x) (el_routing l)
      else el_routing l)"
  by (auto simp: perform_def new_forwarder_def split: option.split prod.split)

definition new_autoresponder :: "email_op \<Rightarrow> autoresponder_entry" where
  "new_autoresponder x = (entry_of_autoresponder (the (eo_autoresponder x)))
     \<lparr>ar_email := eo_email x @ ''@'' @ eo_domain x, ar_domain := eo_domain x\<rparr>"

definition new_filter :: "email_op \<Rightarrow> email_filter_entry" where
  "new_filter x = (entry_of_filter (the (eo_filter x)))
     \<lparr>ef_account := fst (split_filter_key (eo_key x)), ef_name := snd (split_filter_key (eo_key x)),
      ef_enabled := True\<rparr>"

lemma performed_more:
  "slice_at (el_autoresponders (perform x l)) d = slice_at (el_autoresponders l) d
     @ (if creates_in sec_autoresponders x \<and> eo_autoresponder x \<noteq> None \<and> eo_domain x = d
        then [new_autoresponder x] else [])"
  "slice_at (el_filters (perform x l)) a = slice_at (el_filters l) a
     @ (if creates_in sec_filters x \<and> eo_filter x \<noteq> None \<and> fst (split_filter_key (eo_key x)) = a
        then [new_filter x] else [])"
  by (auto simp: perform_def new_autoresponder_def new_filter_def split: option.split prod.split)

lemma undone:
  "slice_at (el_forwarders (undo x l)) d =
     filter (\<lambda>f. rb_kind x = ForwarderRemove \<and> rb_domain x = d \<longrightarrow>
        forwarder_pair f \<noteq> (canon_email_addr (rb_address x), canon_email_addr (rb_forwarder x)))
       (slice_at (el_forwarders l) d)"
  "el_defaults (undo x l) =
     (if rb_kind x = DefaultRestore then set_default (rb_domain x) (rb_value x) (el_defaults l)
      else el_defaults l)"
  "slice_at (el_autoresponders (undo x l)) d =
     filter (\<lambda>a. rb_kind x = AutoresponderRemove \<and> rb_domain x = d \<longrightarrow>
        ar_key a \<noteq> canon_email_addr (rb_address x)) (slice_at (el_autoresponders l) d)"
  "slice_at (el_filters (undo x l)) a =
     filter (\<lambda>f. rb_kind x = FilterRemove \<and> rb_account x = a \<longrightarrow> ef_name f \<noteq> rb_address x)
       (slice_at (el_filters l) a)"
  "el_routing (undo x l) =
     (if rb_kind x = RoutingRestore then set_routing (rb_domain x) (rb_value x) (el_routing l)
      else el_routing l)"
  by (cases "rb_kind x"; auto simp: undo_def)+

lemma perform_all:
  "slice_at (el_forwarders (fold perform xs l)) d = slice_at (el_forwarders l) d
     @ map new_forwarder (filter (\<lambda>x. creates_in sec_forwarders x \<and> eo_domain x = d) xs)"
  "el_defaults (fold perform xs l) = fold (\<lambda>x. set_default (eo_domain x) (eo_value x))
     (filter (sets_in sec_default_address) xs) (el_defaults l)"
  "slice_at (el_autoresponders (fold perform xs l)) d = slice_at (el_autoresponders l) d
     @ map new_autoresponder (filter (\<lambda>x. creates_in sec_autoresponders x \<and>
         eo_autoresponder x \<noteq> None \<and> eo_domain x = d) xs)"
  "slice_at (el_filters (fold perform xs l)) a = slice_at (el_filters l) a
     @ map new_filter (filter (\<lambda>x. creates_in sec_filters x \<and> eo_filter x \<noteq> None \<and>
         fst (split_filter_key (eo_key x)) = a) xs)"
  "el_routing (fold perform xs l) = fold (\<lambda>x. set_routing (eo_domain x) (eo_value x))
     (filter (sets_in sec_routing) xs) (el_routing l)"
  by (induction xs arbitrary: l) (simp_all add: performed performed_more)

lemma undo_all:
  "slice_at (el_forwarders (fold undo rbs l)) d =
     filter (\<lambda>f. \<forall>x\<in>set rbs. rb_kind x = ForwarderRemove \<and> rb_domain x = d \<longrightarrow>
        forwarder_pair f \<noteq> (canon_email_addr (rb_address x), canon_email_addr (rb_forwarder x)))
       (slice_at (el_forwarders l) d)"
  "el_defaults (fold undo rbs l) = fold (\<lambda>x. set_default (rb_domain x) (rb_value x))
     (filter (\<lambda>x. rb_kind x = DefaultRestore) rbs) (el_defaults l)"
  "slice_at (el_autoresponders (fold undo rbs l)) d =
     filter (\<lambda>a. \<forall>x\<in>set rbs. rb_kind x = AutoresponderRemove \<and> rb_domain x = d \<longrightarrow>
        ar_key a \<noteq> canon_email_addr (rb_address x)) (slice_at (el_autoresponders l) d)"
  "slice_at (el_filters (fold undo rbs l)) a =
     filter (\<lambda>f. \<forall>x\<in>set rbs. rb_kind x = FilterRemove \<and> rb_account x = a \<longrightarrow>
        ef_name f \<noteq> rb_address x) (slice_at (el_filters l) a)"
  "el_routing (fold undo rbs l) = fold (\<lambda>x. set_routing (rb_domain x) (rb_value x))
     (filter (\<lambda>x. rb_kind x = RoutingRestore) rbs) (el_routing l)"
  by (induction rbs arbitrary: l) (simp_all add: undone conj_commute)

section \<open>Writing and restoring a list of values\<close>

lemma fold_overwrite_none:
  "\<forall>x\<in>set xs. \<not> P x \<Longrightarrow> fold (\<lambda>x a. if P x then v x else a) xs a = a"
  by (induction xs arbitrary: a) auto

lemma fold_overwrite_const:
  "\<exists>x\<in>set xs. P x \<Longrightarrow> \<forall>x\<in>set xs. P x \<longrightarrow> v x = c \<Longrightarrow> fold (\<lambda>x a. if P x then v x else a) xs a = c"
proof (induction xs arbitrary: a)
  case (Cons x xs)
  show ?case
  proof (cases "\<exists>y\<in>set xs. P y")
    case True
    then show ?thesis using Cons by simp
  next
    case False
    then show ?thesis using Cons.prems by (simp add: fold_overwrite_none)
  qed
qed simp

lemma fold_map_each: "fold (\<lambda>x. map (g x)) xs ds = map (fold g xs) ds"
  by (induction xs arbitrary: ds) auto

text \<open>When every value that was written is among the restored ones, and what is restored is what the
  entries held, the entries are as they were.\<close>

lemma restore_overwritten:
  assumes written: "\<forall>x\<in>set ws. \<exists>r\<in>set rs. rd r = wd x"
    and restored: "\<forall>r\<in>set rs. rd r = k \<longrightarrow> rv r = a"
  shows "fold (\<lambda>r b. if k = rd r then rv r else b) rs (fold (\<lambda>x b. if k = wd x then wv x else b) ws a) = a"
proof (cases "\<exists>r\<in>set rs. k = rd r")
  case True
  with restored show ?thesis by (intro fold_overwrite_const) auto
next
  case False
  with written have "\<forall>x\<in>set ws. k \<noteq> wd x" by metis
  with False show ?thesis by (simp add: fold_overwrite_none)
qed

lemma fold_set_default:
  "fold (\<lambda>x. set_default (d x) (v x)) xs ds =
     map (\<lambda>e. e\<lparr>da_address := fold (\<lambda>x b. if canon_email_addr (da_domain e) = canon_email_addr (d x)
        then v x else b) xs (da_address e)\<rparr>) ds"
proof -
  have "fold (\<lambda>x e. if canon_email_addr (da_domain e) = canon_email_addr (d x) then e\<lparr>da_address := v x\<rparr> else e)
      xs e = e\<lparr>da_address := fold (\<lambda>x b. if canon_email_addr (da_domain e) = canon_email_addr (d x)
        then v x else b) xs (da_address e)\<rparr>" for e :: default_address_entry
    by (induction xs arbitrary: e) simp_all
  then show ?thesis by (simp add: set_default_def fold_map_each)
qed

lemma fold_set_routing:
  "fold (\<lambda>x. set_routing (d x) (v x)) xs rs =
     map (\<lambda>e. e\<lparr>er_routing := fold (\<lambda>x b. if canon_email_addr (er_domain e) = canon_email_addr (d x)
        then v x else b) xs (er_routing e)\<rparr>) rs"
proof -
  have "fold (\<lambda>x e. if canon_email_addr (er_domain e) = canon_email_addr (d x) then e\<lparr>er_routing := v x\<rparr> else e)
      xs e = e\<lparr>er_routing := fold (\<lambda>x b. if canon_email_addr (er_domain e) = canon_email_addr (d x)
        then v x else b) xs (er_routing e)\<rparr>" for e :: email_routing_entry
    by (induction xs arbitrary: e) simp_all
  then show ?thesis by (simp add: set_routing_def fold_map_each)
qed

lemma restore_defaults:
  assumes "\<forall>x\<in>set ws. \<exists>r\<in>set rs. canon_email_addr (rd r) = canon_email_addr (wd x)"
    and "\<forall>r\<in>set rs. \<forall>e\<in>set ds. canon_email_addr (da_domain e) = canon_email_addr (rd r) \<longrightarrow> rv r = da_address e"
  shows "fold (\<lambda>r. set_default (rd r) (rv r)) rs (fold (\<lambda>x. set_default (wd x) (wv x)) ws ds) = ds"
  unfolding fold_set_default map_map
proof (rule map_idI)
  fix e assume "e \<in> set ds"
  then have "\<forall>r\<in>set rs. canon_email_addr (rd r) = canon_email_addr (da_domain e) \<longrightarrow> rv r = da_address e"
    using assms(2) by metis
  from restore_overwritten [OF assms(1) this]
  show "((\<lambda>e. e\<lparr>da_address := fold (\<lambda>x b. if canon_email_addr (da_domain e) = canon_email_addr (rd x)
        then rv x else b) rs (da_address e)\<rparr>)
      \<circ> (\<lambda>e. e\<lparr>da_address := fold (\<lambda>x b. if canon_email_addr (da_domain e) = canon_email_addr (wd x)
        then wv x else b) ws (da_address e)\<rparr>)) e = e"
    by simp
qed

lemma restore_routing:
  assumes "\<forall>x\<in>set ws. \<exists>r\<in>set rs. canon_email_addr (rd r) = canon_email_addr (wd x)"
    and "\<forall>r\<in>set rs. \<forall>e\<in>set ds. canon_email_addr (er_domain e) = canon_email_addr (rd r) \<longrightarrow> rv r = er_routing e"
  shows "fold (\<lambda>r. set_routing (rd r) (rv r)) rs (fold (\<lambda>x. set_routing (wd x) (wv x)) ws ds) = ds"
  unfolding fold_set_routing map_map
proof (rule map_idI)
  fix e assume "e \<in> set ds"
  then have "\<forall>r\<in>set rs. canon_email_addr (rd r) = canon_email_addr (er_domain e) \<longrightarrow> rv r = er_routing e"
    using assms(2) by metis
  from restore_overwritten [OF assms(1) this]
  show "((\<lambda>e. e\<lparr>er_routing := fold (\<lambda>x b. if canon_email_addr (er_domain e) = canon_email_addr (rd x)
        then rv x else b) rs (er_routing e)\<rparr>)
      \<circ> (\<lambda>e. e\<lparr>er_routing := fold (\<lambda>x b. if canon_email_addr (er_domain e) = canon_email_addr (wd x)
        then wv x else b) ws (er_routing e)\<rparr>)) e = e"
    by simp
qed

section \<open>The inverse of a planned write\<close>

definition undoes :: "inventory \<Rightarrow> email_op \<Rightarrow> email_rollback_op \<Rightarrow> bool" where
  "undoes dest x r \<longleftrightarrow>
     (creates_in sec_forwarders x \<and> rb_kind r = ForwarderRemove \<and> rb_domain r = eo_domain x \<and>
      forwarder_pair (new_forwarder x) = (canon_email_addr (rb_address r), canon_email_addr (rb_forwarder r)) \<and>
      forwarder_pair (new_forwarder x) \<notin> forwarder_pair ` set (inv_forwarders dest)) \<or>
     (sets_in sec_default_address x \<and> rb_kind r = DefaultRestore \<and> rb_domain r = eo_domain x \<and>
      (\<forall>e\<in>set (da_items (inv_default_addresses dest)).
         canon_email_addr (da_domain e) = canon_email_addr (rb_domain r) \<longrightarrow> rb_value r = da_address e)) \<or>
     (creates_in sec_autoresponders x \<and> rb_kind r = AutoresponderRemove \<and> rb_domain r = eo_domain x \<and>
      ar_key (new_autoresponder x) = canon_email_addr (rb_address r) \<and>
      ar_key (new_autoresponder x) \<notin> ar_key ` set (inv_autoresponders dest)) \<or>
     (creates_in sec_filters x \<and> rb_kind r = FilterRemove \<and>
      rb_account r = fst (split_filter_key (eo_key x)) \<and> ef_name (new_filter x) = rb_address r \<and>
      (\<forall>e\<in>set (ef_items (inv_filters dest)). ef_account e = rb_account r \<longrightarrow> ef_name e \<noteq> rb_address r)) \<or>
     (sets_in sec_routing x \<and> rb_kind r = RoutingRestore \<and> rb_domain r = eo_domain x \<and>
      (\<forall>e\<in>set (er_items (inv_routing dest)).
         canon_email_addr (er_domain e) = canon_email_addr (rb_domain r) \<longrightarrow> rb_value r = er_routing e))"

lemma undoes_forwarder:
  assumes x: "eo_action (forwarder_op dest f) = ECreate"
  shows "\<exists>r. invert_op b (forwarder_op dest f) = Inr r \<and> undoes dest (forwarder_op dest f) r"
proof -
  let ?x = "forwarder_op dest f"
  let ?r = "(rollback_op ForwarderRemove (eo_domain ?x))\<lparr>rb_address := eo_key ?x, rb_forwarder := eo_forward ?x\<rparr>"
  have inv: "invert_op b ?x = Inr ?r" using x by (simp add: invert_op_def)
  obtain local domain where
      "eo_key ?x = canon_email_addr (fw_source f)"
      "eo_email ?x @ ''@'' @ eo_domain ?x = canon_email_addr (fw_source f)"
      "canon_email_addr (eo_forward ?x) = canon_email_addr (fw_destination f)"
      "forwarder_pair f \<notin> forwarder_pair ` set (inv_forwarders dest)"
    by (rule create_forwarder_fields [OF x]) blast
  then have "forwarder_pair (new_forwarder ?x) = forwarder_pair f"
    "forwarder_pair f = (canon_email_addr (eo_key ?x), canon_email_addr (eo_forward ?x))"
    "forwarder_pair f \<notin> forwarder_pair ` set (inv_forwarders dest)"
    by (simp_all add: forwarder_pair_def new_forwarder_def)
  then have "undoes dest ?x ?r" using x by (simp add: undoes_def rollback_op_def)
  with inv show ?thesis by blast
qed

lemma default_of_domain:
  assumes tidy: "tidy dest" and e: "e \<in> set (da_items (inv_default_addresses dest))"
    and d: "d \<in> set (da_items (inv_default_addresses dest))" "da_key d = k"
    and same: "canon_email_addr (da_domain e) = canon_email_addr k"
  shows "e = d"
proof -
  have trim: "canon_email_addr (da_domain z) = da_key z" if "z \<in> set (da_items (inv_default_addresses dest))" for z
    using tidy that by (simp add: tidy_def list_all_iff canon_email_addr_def da_key_def)
  then have "canon_email_addr (da_domain e) = da_key e" "canon_email_addr (da_key d) = da_key d"
    using e d canon_idem by metis+
  then have "da_key e = da_key d" using same d by simp
  then show ?thesis using tidy e d by (auto simp: tidy_def distinct_map inj_on_def)
qed

lemma routing_of_domain:
  assumes tidy: "tidy dest" and e: "e \<in> set (er_items (inv_routing dest))"
    and d: "d \<in> set (er_items (inv_routing dest))" "er_key d = k"
    and same: "canon_email_addr (er_domain e) = canon_email_addr k"
  shows "e = d"
proof -
  have trim: "canon_email_addr (er_domain z) = er_key z" if "z \<in> set (er_items (inv_routing dest))" for z
    using tidy that by (simp add: tidy_def list_all_iff canon_email_addr_def er_key_def)
  then have "canon_email_addr (er_domain e) = er_key e" "canon_email_addr (er_key d) = er_key d"
    using e d canon_idem by metis+
  then have "er_key e = er_key d" using same d by simp
  then show ?thesis using tidy e d by (auto simp: tidy_def distinct_map inj_on_def)
qed

lemma undoes_default:
  assumes tidy: "tidy dest" and avail: "cfg_available (da_cfg (inv_default_addresses dest))"
    and x: "eo_action (default_address_op srcu destu (da_items (inv_default_addresses dest)) s) = ESet"
  shows "\<exists>r. invert_op (backup_of (live_of dest))
      (default_address_op srcu destu (da_items (inv_default_addresses dest)) s) = Inr r \<and>
    undoes dest (default_address_op srcu destu (da_items (inv_default_addresses dest)) s) r"
proof (cases rule: default_op_decided [of srcu destu "da_items (inv_default_addresses dest)" s])
  case (set d)
  let ?x = "default_address_op srcu destu (da_items (inv_default_addresses dest)) s"
  have fields: "eo_section ?x = sec_default_address" "eo_domain ?x = da_key s"
    unfolding set(5) by (simp_all add: default_base_def)
  have d: "d \<in> set (da_items (inv_default_addresses dest))" "da_key d = da_key s"
    using last_with_SomeD [OF set(1)] by auto
  let ?r = "(rollback_op DefaultRestore (eo_domain ?x))\<lparr>rb_value := da_address d, rb_expected := eo_value ?x\<rparr>"
  have "backup_default_for (backup_of (live_of dest)) (da_key s) = Some (da_address d)"
    using default_for_live [OF tidy set(1)] avail
    by (simp add: backup_default_for_backup_of live_of_def)
  then have "invert_op (backup_of (live_of dest)) ?x = Inr ?r"
    using x fields by (simp add: invert_op_def)
  moreover have "undoes dest ?x ?r"
    using x fields default_of_domain [OF tidy _ d] by (simp add: undoes_def rollback_op_def)
  ultimately show ?thesis by blast
qed (use x in simp_all)

lemma undoes_routing:
  assumes tidy: "tidy dest" and avail: "cfg_available (er_cfg (inv_routing dest))"
    and x: "eo_action (routing_op (er_items (inv_routing dest)) s) = ESet"
  shows "\<exists>r. invert_op (backup_of (live_of dest)) (routing_op (er_items (inv_routing dest)) s) = Inr r \<and>
    undoes dest (routing_op (er_items (inv_routing dest)) s) r"
proof (cases rule: routing_op_decided [of "er_items (inv_routing dest)" s])
  case (set d)
  let ?x = "routing_op (er_items (inv_routing dest)) s"
  have fields: "eo_section ?x = sec_routing" "eo_domain ?x = er_key s"
    unfolding set(3) by (simp_all add: routing_base_def)
  have d: "d \<in> set (er_items (inv_routing dest))" "er_key d = er_key s"
    using last_with_SomeD [OF set(1)] by auto
  let ?r = "(rollback_op RoutingRestore (eo_domain ?x))\<lparr>rb_value := er_routing d, rb_expected := eo_value ?x\<rparr>"
  have "backup_routing_for (backup_of (live_of dest)) (er_key s) = Some (er_routing d)"
    using routing_for_live [OF tidy set(1)] avail
    by (simp add: backup_routing_for_backup_of live_of_def)
  then have "invert_op (backup_of (live_of dest)) ?x = Inr ?r"
    using x fields by (simp add: invert_op_def)
  moreover have "undoes dest ?x ?r"
    using x fields routing_of_domain [OF tidy _ d] by (simp add: undoes_def rollback_op_def)
  ultimately show ?thesis by blast
qed (use x in simp_all)

lemma undoes_autoresponder:
  assumes x: "eo_action (autoresponder_op dest a) = ECreate"
  shows "\<exists>r. invert_op b (autoresponder_op dest a) = Inr r \<and> undoes dest (autoresponder_op dest a) r"
proof (cases rule: autoresponder_op_decided [of dest a])
  case (create local domain)
  let ?x = "autoresponder_op dest a"
  have fields: "eo_section ?x = sec_autoresponders" "eo_domain ?x = to_lower domain" "eo_key ?x = ar_key a"
    "eo_email ?x = to_lower local" "eo_autoresponder ?x = Some (autoresponder_content_of a)"
    unfolding create(5) by (simp_all add: autoresponder_base_def)
  let ?r = "(rollback_op AutoresponderRemove (eo_domain ?x))
      \<lparr>rb_address := eo_key ?x, rb_autoresponder := eo_autoresponder ?x\<rparr>"
  have "to_lower local @ ''@'' @ to_lower domain = canon_email_addr (ar_email a)"
    using split_email_addr_SomeD [OF create(1)] at_no_letter [of "CHR ''@''"]
    by (simp add: canon_email_addr_def to_lower_def)
  then have key: "ar_key (new_autoresponder ?x) = ar_key a"
    using fields by (simp add: new_autoresponder_def ar_key_def)
  have "invert_op b ?x = Inr ?r" using x fields by (simp add: invert_op_def)
  moreover have "undoes dest ?x ?r"
    using x fields key create(2) by (simp add: undoes_def rollback_op_def first_with_None_iff)
  ultimately show ?thesis by blast
qed (use x in simp_all)

lemma undoes_filter:
  assumes f: "plain_account f" and ds: "\<forall>d\<in>set (ef_items (inv_filters dest)). plain_account d"
    and x: "eo_action (filter_op (ef_items (inv_filters dest)) f) = ECreate"
  shows "\<exists>r. invert_op b (filter_op (ef_items (inv_filters dest)) f) = Inr r \<and>
    undoes dest (filter_op (ef_items (inv_filters dest)) f) r"
proof (cases rule: filter_op_decided [of "ef_items (inv_filters dest)" f])
  case create
  let ?x = "filter_op (ef_items (inv_filters dest)) f"
  note key = split_filter_key_roundtrip [OF f]
  have fields: "eo_section ?x = sec_filters" "eo_key ?x = filter_key f"
    "eo_filter ?x = Some (filter_content_of f)"
    unfolding create(4) by (simp_all add: filter_base_def)
  let ?r = "(rollback_op FilterRemove [])\<lparr>rb_address := ef_name f, rb_filter := eo_filter ?x,
      rb_account := ef_account f\<rparr>"
  have "invert_op b ?x = Inr ?r" using x fields key by (simp add: invert_op_def)
  moreover have "\<forall>e\<in>set (ef_items (inv_filters dest)). ef_account e = ef_account f \<longrightarrow> ef_name e \<noteq> ef_name f"
  proof (intro ballI impI notI)
    fix e assume "e \<in> set (ef_items (inv_filters dest))" "ef_account e = ef_account f" "ef_name e = ef_name f"
    then have "filter_key f \<in> filter_key ` set (ef_items (inv_filters dest))"
      by (intro image_eqI [of _ _ e]) (simp_all add: filter_key_def)
    with create(1) show False by (simp add: first_with_None_iff)
  qed
  then have "undoes dest ?x ?r"
    using x fields key by (simp add: undoes_def rollback_op_def new_filter_def)
  ultimately show ?thesis by blast
qed (use x in simp_all)

lemma undoes_planned:
  assumes "x \<in> set (ep_ops (build_email_plan src dest policy))" and "eo_action x \<in> {ECreate, ESet}"
    and "tidy dest" and "\<forall>f\<in>set (ef_items (inv_filters src) @ ef_items (inv_filters dest)). plain_account f"
  shows "\<exists>r. invert_op (backup_of (live_of dest)) x = Inr r \<and> undoes dest x r"
  using assms(1)
proof (cases rule: email_op_cases)
  case (forwarder f)
  have "eo_action (forwarder_op dest f) \<noteq> ESet"
    by (cases rule: forwarder_op_decided [of dest f]) simp_all
  with forwarder assms(2) show ?thesis using undoes_forwarder [of dest f] by blast
next
  case (default_address d)
  have "eo_action x \<noteq> ECreate" unfolding default_address(2)
    by (cases rule: default_op_decided [of "ai_user (inv_account src)" "ai_user (inv_account dest)"
          "da_items (inv_default_addresses dest)" d]) simp_all
  then show ?thesis using assms(2,3) default_address undoes_default [of dest] by blast
next
  case (autoresponder a)
  have "eo_action (autoresponder_op dest a) \<noteq> ESet"
    by (cases rule: autoresponder_op_decided [of dest a]) simp_all
  with autoresponder assms(2) show ?thesis using undoes_autoresponder [of dest a] by blast
next
  case (filter f)
  have "eo_action x \<noteq> ESet" unfolding filter(2)
    by (cases rule: filter_op_decided [of "ef_items (inv_filters dest)" f]) simp_all
  then show ?thesis using assms(2,4) filter undoes_filter [of f dest] by auto
next
  case (routing r)
  have "eo_action x \<noteq> ECreate" unfolding routing(2)
    by (cases rule: routing_op_decided [of "er_items (inv_routing dest)" r]) simp_all
  then show ?thesis using assms(2,3) routing undoes_routing [of dest r] by blast
qed

section \<open>A rollback gives the listing back\<close>

lemma list_all2_zip_left:
  "list_all2 P xs ys \<Longrightarrow> x \<in> set xs \<Longrightarrow> \<exists>y\<in>set ys. P x y"
  by (induction rule: list_all2_induct) auto

lemma list_all2_zip_right:
  "list_all2 P xs ys \<Longrightarrow> y \<in> set ys \<Longrightarrow> \<exists>x\<in>set xs. P x y"
  by (induction rule: list_all2_induct) auto

lemma undo_after_perform:
  assumes all: "list_all2 (undoes dest) xs rbs"
  shows "same_listing (fold undo rbs (fold perform xs (live_of dest))) (live_of dest)"
proof -
  let ?l = "live_of dest"
  have fwd: "\<exists>r\<in>set rbs. undoes dest x r" if "x \<in> set xs" for x
    using list_all2_zip_left [OF all that] .
  have bwd: "\<exists>x\<in>set xs. undoes dest x r" if "r \<in> set rbs" for r
    using list_all2_zip_right [OF all that] .
  have "slice_at (el_forwarders (fold undo rbs (fold perform xs ?l))) d = slice_at (el_forwarders ?l) d" for d
  proof -
    have keep: "forwarder_pair f \<noteq> (canon_email_addr (rb_address r), canon_email_addr (rb_forwarder r))"
      if "f \<in> set (slice_at (el_forwarders ?l) d)" "r \<in> set rbs" "rb_kind r = ForwarderRemove" for f r
    proof -
      have "forwarder_pair f \<in> forwarder_pair ` set (inv_forwarders dest)"
        using that(1) by (simp add: live_of_def slice_group_by)
      then show ?thesis using bwd [OF that(2)] that(3) by (auto simp: undoes_def)
    qed
    have drop: "\<exists>r\<in>set rbs. rb_kind r = ForwarderRemove \<and> rb_domain r = d \<and>
        forwarder_pair (new_forwarder x) = (canon_email_addr (rb_address r), canon_email_addr (rb_forwarder r))"
      if "x \<in> set xs" "creates_in sec_forwarders x" "eo_domain x = d" for x
      using fwd [OF that(1)] that(2,3) by (auto simp: undoes_def)
    show ?thesis
      unfolding undo_all(1) perform_all(1) filter_append
      using keep drop by (subst filter_True, simp, subst filter_False) auto
  qed
  moreover have "slice_at (el_autoresponders (fold undo rbs (fold perform xs ?l))) d
      = slice_at (el_autoresponders ?l) d" for d
  proof -
    have keep: "ar_key a \<noteq> canon_email_addr (rb_address r)"
      if "a \<in> set (slice_at (el_autoresponders ?l) d)" "r \<in> set rbs" "rb_kind r = AutoresponderRemove" for a r
    proof -
      have "ar_key a \<in> ar_key ` set (inv_autoresponders dest)"
        using that(1) by (simp add: live_of_def slice_group_by)
      then show ?thesis using bwd [OF that(2)] that(3) by (auto simp: undoes_def)
    qed
    have drop: "\<exists>r\<in>set rbs. rb_kind r = AutoresponderRemove \<and> rb_domain r = d \<and>
        ar_key (new_autoresponder x) = canon_email_addr (rb_address r)"
      if "x \<in> set xs" "creates_in sec_autoresponders x" "eo_domain x = d" for x
      using fwd [OF that(1)] that(2,3) by (auto simp: undoes_def)
    show ?thesis
      unfolding undo_all(3) perform_all(3) filter_append
      using keep drop by (subst filter_True, simp, subst filter_False) auto
  qed
  moreover have "slice_at (el_filters (fold undo rbs (fold perform xs ?l))) a = slice_at (el_filters ?l) a" for a
  proof -
    have keep: "ef_name f \<noteq> rb_address r"
      if "f \<in> set (slice_at (el_filters ?l) a)" "r \<in> set rbs" "rb_kind r = FilterRemove" "rb_account r = a" for f r
    proof -
      have "f \<in> set (ef_items (inv_filters dest))" "ef_account f = a"
        using that(1) by (simp_all add: live_of_def slice_group_by)
      then show ?thesis using bwd [OF that(2)] that(3,4) by (auto simp: undoes_def)
    qed
    have drop: "\<exists>r\<in>set rbs. rb_kind r = FilterRemove \<and> rb_account r = a \<and> ef_name (new_filter x) = rb_address r"
      if "x \<in> set xs" "creates_in sec_filters x" "fst (split_filter_key (eo_key x)) = a" for x
      using fwd [OF that(1)] that(2,3) by (auto simp: undoes_def)
    show ?thesis
      unfolding undo_all(4) perform_all(4) filter_append
      using keep drop by (subst filter_True, simp, subst filter_False) auto
  qed
  moreover have "el_defaults (fold undo rbs (fold perform xs ?l)) = el_defaults ?l"
    unfolding undo_all(2) perform_all(2)
  proof (rule restore_defaults)
    show "\<forall>x\<in>set (filter (sets_in sec_default_address) xs). \<exists>r\<in>set (filter (\<lambda>x. rb_kind x = DefaultRestore) rbs).
        canon_email_addr (rb_domain r) = canon_email_addr (eo_domain x)"
      using fwd by (fastforce simp: undoes_def)
    show "\<forall>r\<in>set (filter (\<lambda>x. rb_kind x = DefaultRestore) rbs). \<forall>e\<in>set (el_defaults ?l).
        canon_email_addr (da_domain e) = canon_email_addr (rb_domain r) \<longrightarrow> rb_value r = da_address e"
      using bwd by (fastforce simp: undoes_def live_of_def)
  qed
  moreover have "el_routing (fold undo rbs (fold perform xs ?l)) = el_routing ?l"
    unfolding undo_all(5) perform_all(5)
  proof (rule restore_routing)
    show "\<forall>x\<in>set (filter (sets_in sec_routing) xs). \<exists>r\<in>set (filter (\<lambda>x. rb_kind x = RoutingRestore) rbs).
        canon_email_addr (rb_domain r) = canon_email_addr (eo_domain x)"
      using fwd by (fastforce simp: undoes_def)
    show "\<forall>r\<in>set (filter (\<lambda>x. rb_kind x = RoutingRestore) rbs). \<forall>e\<in>set (el_routing ?l).
        canon_email_addr (er_domain e) = canon_email_addr (rb_domain r) \<longrightarrow> rb_value r = er_routing e"
      using bwd by (fastforce simp: undoes_def live_of_def)
  qed
  ultimately show ?thesis by (simp add: same_listing_def)
qed

definition report_of :: "email_op list \<Rightarrow> email_apply_report" where
  "report_of xs = \<lparr>ear_run_mode = ''apply'', ear_destination_user = [],
     ear_results = map (\<lambda>x. \<lparr>eor_op = x, eor_status = EApplied, eor_reason = []\<rparr>) xs\<rparr>"



end
