(* ===== verification/EmailCmdLaws.thy ===== *)
theory EmailCmdLaws
  imports EmailCmd EmailRollbackLaws
begin

text \<open>
  What an apply run sends to the host, whatever the host answers: the writes are those of guarded
  operations, each once, in the order of the plan and after the backup, and an operation is reported
  as applied only when a listing made after its write shows the outcome.
\<close>

section \<open>Reads and writes in the log\<close>

definition write_fns :: "string list" where
  "write_fns = [''add_forwarder'', ''set_default_address'', ''add_auto_responder'', ''store_filter'',
     ''setmxcheck'', ''delete_forwarder'', ''delete_auto_responder'', ''delete_filter'']"

definition is_write :: "api_call \<Rightarrow> bool" where
  "is_write c \<longleftrightarrow> ac_fn c \<in> set write_fns"

text \<open>The calls of a step, and how many of them write.\<close>

definition extends_by :: "call_log \<Rightarrow> call_log \<Rightarrow> api_call list \<Rightarrow> bool" where
  "extends_by log log' ws \<longleftrightarrow> (\<exists>ext. log' = log @ ext \<and> filter is_write ext = ws)"

lemma extends_refl [simp, intro]: "extends_by log log []"
  by (simp add: extends_by_def)

lemma extends_trans: "extends_by a b ws \<Longrightarrow> extends_by b c vs \<Longrightarrow> extends_by a c (ws @ vs)"
  by (auto simp: extends_by_def)

lemma extends_quiet_left: "extends_by a b [] \<Longrightarrow> extends_by b c vs \<Longrightarrow> extends_by a c vs"
  using extends_trans by fastforce

lemma extends_quiet_right: "extends_by a b ws \<Longrightarrow> extends_by b c [] \<Longrightarrow> extends_by a c ws"
  using extends_trans by fastforce

text \<open>A request that only reads.\<close>

definition reads :: "(call_log \<Rightarrow> 'a \<times> call_log) \<Rightarrow> bool" where
  "reads f \<longleftrightarrow> (\<forall>log. extends_by log (snd (f log)) [])"

lemma readsD: "reads f \<Longrightarrow> f log = (r, log') \<Longrightarrow> extends_by log log' []"
  unfolding reads_def by (metis snd_conv)

lemma reads_uapi: "fn \<notin> set write_fns \<Longrightarrow> reads (run_uapi dec ho modname fn args)"
  by (simp add: reads_def run_uapi_def extends_by_def is_write_def)

lemma reads_map_ok: "reads f \<Longrightarrow> reads (\<lambda>log. map_ok g (f log))"
  by (simp add: reads_def map_ok_def)

lemma list_reads [simp, intro]:
  "reads (list_forwarders ho d)" "reads (list_autoresponders ho d)" "reads (get_autoresponder ho e)"
  "reads (list_default_addresses ho)" "reads (list_email_filters ho a)" "reads (list_email_filters_raw ho a)"
  "reads (get_email_filter ho n a)" "reads (list_mxs ho)" "reads (list_mxs_raw ho)"
  unfolding list_forwarders_def list_autoresponders_def get_autoresponder_def list_default_addresses_def
    list_email_filters_def list_email_filters_raw_def get_email_filter_def list_mxs_def list_mxs_raw_def
  by (intro reads_map_ok reads_uapi; simp add: write_fns_def)+

lemma reads_thread: "(\<And>x. reads (f x)) \<Longrightarrow> reads (thread f xs)"
proof (induction xs)
  case Nil
  then show ?case by (simp add: reads_def)
next
  case (Cons x xs)
  show ?case unfolding reads_def
  proof
    fix log
    obtain y log1 where y: "f x log = (y, log1)" by fastforce
    obtain ys log2 where ys: "thread f xs log1 = (ys, log2)" by fastforce
    have "extends_by log log1 []" using Cons.prems y by (rule readsD)
    moreover have "extends_by log1 log2 []" using Cons.IH [OF Cons.prems] ys by (rule readsD)
    ultimately show "extends_by log (snd (thread f (x # xs) log)) []"
      using y ys by (simp add: extends_quiet_left)
  qed
qed

lemma reads_read_autoresponder [simp, intro]: "reads (read_autoresponder ho d a)"
  using list_reads(3) by (simp add: reads_def read_autoresponder_def case_prod_beta Let_def)

lemma reads_read_filter [simp, intro]: "reads (read_filter ho a f)"
  using list_reads(7) by (simp add: reads_def read_filter_def case_prod_beta Let_def)

lemma reads_seq:
  assumes f: "reads f" and g: "\<And>x. reads (g x)"
  shows "reads (\<lambda>log. case f log of (Inl e, log1) \<Rightarrow> (h e, log1) | (Inr x, log1) \<Rightarrow> g x log1)"
  unfolding reads_def
proof
  fix log
  obtain r log1 where r: "f log = (r, log1)" by fastforce
  have q: "extends_by log log1 []" using f r by (rule readsD)
  show "extends_by log (snd (case f log of (Inl e, log1) \<Rightarrow> (h e, log1) | (Inr x, log1) \<Rightarrow> g x log1)) []"
  proof (cases r)
    case (Inl e)
    then show ?thesis using r q by simp
  next
    case (Inr x)
    have "extends_by log1 (snd (g x log1)) []" using g by (simp add: reads_def)
    then show ?thesis using r q Inr by (simp add: extends_quiet_left)
  qed
qed

lemma reads_then: "reads f \<Longrightarrow> reads (\<lambda>log. let (x, log') = f log in (g x, log'))"
  by (simp add: reads_def case_prod_beta Let_def)

lemma reads_found:
  "(\<And>a. reads (f a)) \<Longrightarrow>
   reads (\<lambda>log. case x of None \<Rightarrow> (Inr [], log) | Some a \<Rightarrow> (let (e, log2) = f a log in (Inr [e], log2)))"
  by (cases x) (simp_all add: reads_def case_prod_beta Let_def)

lemma fetch_reads [simp, intro]:
  "reads (fetch_autoresponders ho d)" "reads (fetch_autoresponder_address ho d a)"
  "reads (fetch_filter_account ho d)" "reads (fetch_filter_entry ho d n)" "reads (fetch_forwarders ho d)"
proof -
  show "reads (fetch_autoresponders ho d)" unfolding fetch_autoresponders_def
    by (intro reads_seq reads_then reads_thread list_reads reads_read_autoresponder)
  show "reads (fetch_filter_account ho d)" unfolding fetch_filter_account_def
    by (intro reads_seq reads_then reads_thread list_reads reads_read_filter)
  show "reads (fetch_autoresponder_address ho d a)" unfolding fetch_autoresponder_address_def
    by (intro reads_seq reads_found list_reads reads_read_autoresponder)
  show "reads (fetch_filter_entry ho d n)" unfolding fetch_filter_entry_def
    by (intro reads_seq reads_found list_reads reads_read_filter)
  show "reads (fetch_forwarders ho d)" unfolding fetch_forwarders_def
    by (intro reads_map_ok list_reads)
qed

lemma reads_keyed: "(\<And>k. reads (f k)) \<Longrightarrow> reads (keyed_request f k)"
  by (simp add: reads_def keyed_request_def case_prod_beta Let_def)

lemma reads_return: "reads (\<lambda>log. (x, log))"
  by (simp add: reads_def)

lemma reads_bind:
  assumes f: "reads f" and g: "\<And>x. reads (g x)"
  shows "reads (\<lambda>log. case f log of (x, log1) \<Rightarrow> g x log1)"
  unfolding reads_def
proof
  fix log
  obtain x log1 where x: "f log = (x, log1)" by fastforce
  have "extends_by log1 (snd (g x log1)) []" using g by (simp add: reads_def)
  with readsD [OF f x] show "extends_by log (snd (case f log of (x, log1) \<Rightarrow> g x log1)) []"
    using x by (simp add: extends_quiet_left)
qed

lemma reads_if: "reads f \<Longrightarrow> reads g \<Longrightarrow> reads (\<lambda>log. if b then f log else g log)"
  by (cases b) simp_all

lemma reads_fetch_live: "reads (fetch_live ho plan)"
  unfolding fetch_live_def Let_def
  by (intro reads_bind reads_if reads_return reads_thread reads_keyed fetch_reads list_reads)

section \<open>One write\<close>

definition write_call :: "email_op \<Rightarrow> api_call" where
  "write_call x =
     (if eo_section x = sec_forwarders then
        \<lparr>ac_tool = ''uapi'', ac_module = ''Email'', ac_fn = ''add_forwarder'',
         ac_args = [(''domain'', eo_domain x), (''email'', eo_email x), (''fwdopt'', ''fwd''),
           (''fwdemail'', eo_forward x)]\<rparr>
      else if eo_section x = sec_default_address then
        \<lparr>ac_tool = ''uapi'', ac_module = ''Email'', ac_fn = ''set_default_address'',
         ac_args = default_address_args (eo_domain x) (eo_value x)\<rparr>
      else if eo_section x = sec_autoresponders then
        \<lparr>ac_tool = ''uapi'', ac_module = ''Email'', ac_fn = ''add_auto_responder'',
         ac_args = autoresponder_args (eo_domain x) (eo_email x) (the (eo_autoresponder x))\<rparr>
      else if eo_section x = sec_filters then
        \<lparr>ac_tool = ''uapi'', ac_module = ''Email'', ac_fn = ''store_filter'',
         ac_args = filter_args (snd (split_filter_key (eo_key x))) (fst (split_filter_key (eo_key x)))
           (fc_rules (the (eo_filter x))) (fc_actions (the (eo_filter x)))\<rparr>
      else
        \<lparr>ac_tool = ''cpapi2'', ac_module = ''Email'', ac_fn = ''setmxcheck'',
         ac_args = [(''domain'', eo_domain x), (''mxcheck'', eo_value x)]\<rparr>)"

lemma is_write_call [simp]: "is_write (write_call x)"
  by (simp add: is_write_def write_call_def write_fns_def)

text \<open>Only a write that was guarded has its payload.\<close>

definition payload_ok :: "email_op \<Rightarrow> bool" where
  "payload_ok x \<longleftrightarrow>
     (eo_section x = sec_autoresponders \<longrightarrow> eo_autoresponder x \<noteq> None) \<and>
     (eo_section x = sec_filters \<longrightarrow> eo_filter x \<noteq> None)"

lemma write_op_log:
  assumes "payload_ok x"
  shows "snd (write_op ho x log) = log @ [write_call x]"
proof -
  have up: "snd (run_uapi dec ho m f args l) = l @ [\<lparr>ac_tool = ''uapi'', ac_module = m, ac_fn = f, ac_args = args\<rparr>]"
    for dec :: "string \<Rightarrow> string + 'a envelope" and m f args l
    by (simp add: run_uapi_def)
  consider "eo_section x = sec_forwarders" | "eo_section x = sec_default_address"
    | c where "eo_section x = sec_autoresponders" "eo_autoresponder x = Some c"
    | c where "eo_section x = sec_filters" "eo_filter x = Some c"
    | "eo_section x \<notin> {sec_forwarders, sec_default_address, sec_autoresponders, sec_filters}"
    using assms by (auto simp: payload_ok_def)
  then show ?thesis
    by cases (simp_all add: write_op_def write_call_def run_uapi_def run_api2_def add_forwarder_def
        set_default_address_def add_autoresponder_def store_filter_def set_mx_check_def case_prod_beta)
qed

lemma guarded_payload: "evaluate_email_op x l u = DWrite \<Longrightarrow> payload_ok x \<and> has_writer x"
proof -
  assume w: "evaluate_email_op x l u = DWrite"
  consider "eo_section x = sec_forwarders" | "eo_section x = sec_default_address"
    | "eo_section x = sec_autoresponders" | "eo_section x = sec_filters" | "eo_section x = sec_routing"
    | "eo_section x \<notin> {sec_forwarders, sec_default_address, sec_autoresponders, sec_filters, sec_routing}"
    by blast
  then show ?thesis
    using w by cases (auto simp: evaluate_email_op_def payload_ok_def has_writer_def
        evaluate_autoresponder_def evaluate_filter_def split: if_splits)
qed

lemma reads_recheck: "reads (recheck ho x)"
proof -
  obtain a n where key: "split_filter_key (eo_key x) = (a, n)" by fastforce
  show ?thesis
    unfolding recheck_def key Let_def prod.case
    by (intro reads_if reads_seq reads_return list_reads fetch_reads)
qed

lemma reads_refetch: "reads (refetch ho x)"
proof -
  obtain a n where key: "split_filter_key (eo_key x) = (a, n)" by fastforce
  show ?thesis
    unfolding refetch_def key Let_def prod.case
    by (intro reads_if reads_map_ok reads_return list_reads fetch_reads)
qed

text \<open>The outcome of the operation was seen in a listing that was made right after its write.\<close>

definition observed :: "host \<Rightarrow> string \<Rightarrow> email_op \<Rightarrow> call_log \<Rightarrow> bool" where
  "observed ho u x log \<longleftrightarrow>
     (\<exists>lg fresh lg'. refetch ho x (lg @ [write_call x]) = (Inr fresh, lg') \<and>
        email_outcome_present x fresh u \<and> prefix lg' log)"

lemma observed_mono: "observed ho u x log \<Longrightarrow> prefix log log' \<Longrightarrow> observed ho u x log'"
  unfolding observed_def by (meson prefix_order.trans)

lemma extends_prefix: "extends_by log log' ws \<Longrightarrow> prefix log log'"
  by (auto simp: extends_by_def)

lemma write_and_verify_effect:
  assumes w: "write_and_verify ho u x log = ((st, r), log')" and p: "payload_ok x"
  shows "extends_by log log' [write_call x] \<and> (st = EFailed \<or> st = EApplied \<and> observed ho u x log')"
proof -
  obtain res log1 where res: "write_op ho x log = (res, log1)" by fastforce
  have log1: "log1 = log @ [write_call x]" using write_op_log [OF p, of ho log] res by simp
  then have e1: "extends_by log log1 [write_call x]" by (simp add: extends_by_def)
  show ?thesis
  proof (cases res)
    case (Inl e)
    then show ?thesis using w res e1 by (auto simp: write_and_verify_def)
  next
    case (Inr v)
    obtain fr log2 where fr: "refetch ho x log1 = (fr, log2)" by fastforce
    have "extends_by log1 log2 []" by (rule readsD [OF reads_refetch fr])
    then have e2: "extends_by log log2 [write_call x]" using e1 by (rule extends_quiet_right [rotated])
    show ?thesis
    proof (cases fr)
      case (Inl e)
      then show ?thesis using w res Inr fr e2 by (auto simp: write_and_verify_def)
    next
      case fresh: (Inr l)
      show ?thesis
      proof (cases "email_outcome_present x l u")
        case True
        then have "log' = log2" "st = EApplied"
          using w res Inr fr fresh by (simp_all add: write_and_verify_def)
        moreover have "observed ho u x log2"
          using fr fresh log1 True unfolding observed_def by blast
        ultimately show ?thesis using e2 by simp
      next
        case False
        then show ?thesis using w res Inr fr fresh e2 by (auto simp: write_and_verify_def)
      qed
    qed
  qed
qed

lemma execute_write_effect:
  assumes w: "execute_write ho u x log = ((st, r), log')" and g: "payload_ok x" "has_writer x"
  shows "(extends_by log log' [] \<and> (st = ERefused \<or> st = EAlready)) \<or>
    (extends_by log log' [write_call x] \<and> (st = EFailed \<or> st = EApplied \<and> observed ho u x log'))"
proof (cases "eo_section x = sec_forwarders")
  case True
  then have "write_and_verify ho u x log = ((st, r), log')" using w g by (simp add: execute_write_def)
  then show ?thesis using write_and_verify_effect g by blast
next
  case False
  obtain re log1 where re: "recheck ho x log = (re, log1)" by fastforce
  have q: "extends_by log log1 []" by (rule readsD [OF reads_recheck re])
  show ?thesis
  proof (cases re)
    case (Inl e)
    then show ?thesis using w g False re q by (auto simp: execute_write_def)
  next
    case (Inr l)
    show ?thesis
    proof (cases "evaluate_email_op x l u")
      case DWrite
      then have "write_and_verify ho u x log1 = ((st, r), log')"
        using w g False re Inr by (simp add: execute_write_def)
      from write_and_verify_effect [OF this g(1)] show ?thesis
        using q extends_quiet_left by blast
    next
      case DAlready
      then show ?thesis using w g False re Inr q by (auto simp: execute_write_def)
    next
      case (DRefused e)
      then show ?thesis using w g False re Inr q by (auto simp: execute_write_def)
    qed
  qed
qed

section \<open>The whole run\<close>

definition fine :: "host \<Rightarrow> string \<Rightarrow> email_op list \<Rightarrow> call_log \<Rightarrow> email_op_result \<Rightarrow> bool" where
  "fine ho u ws log r \<longleftrightarrow>
     eor_status r \<noteq> EPlanned \<and>
     (eor_status r = EApplied \<longrightarrow> eor_op r \<in> set ws \<and> observed ho u (eor_op r) log)"

lemma fine_mono: "fine ho u ws log r \<Longrightarrow> set ws \<subseteq> set vs \<Longrightarrow> prefix log log' \<Longrightarrow> fine ho u vs log' r"
  unfolding fine_def using observed_mono by blast

text \<open>A result before the writes: decided, and guarded when it is planned.\<close>

definition decided :: "email_op_result \<Rightarrow> bool" where
  "decided r \<longleftrightarrow> eor_status r \<noteq> EApplied \<and>
     (eor_status r = EPlanned \<longrightarrow> payload_ok (eor_op r) \<and> has_writer (eor_op r))"

lemma execute_result_effect:
  assumes e: "execute_result ho u r log = (d, log')" and r: "decided r"
  shows "eor_op d = eor_op r \<and>
    (\<exists>ws. extends_by log log' (map write_call ws) \<and>
       subseq ws (if eor_status r = EPlanned then [eor_op r] else []) \<and> fine ho u ws log' d)"
proof (cases "eor_status r = EPlanned")
  case False
  then have "d = r" "log' = log" using e by (simp_all add: execute_result_def)
  then show ?thesis using r False
    by (intro conjI exI [of _ "[]"]) (simp_all add: fine_def decided_def)
next
  case True
  obtain st rs where x: "execute_write ho u (eor_op r) log = ((st, rs), log')"
    and d: "d = r\<lparr>eor_status := st, eor_reason := rs\<rparr>"
    using e True by (auto simp: execute_result_def Let_def split: prod.splits)
  have g: "payload_ok (eor_op r)" "has_writer (eor_op r)" using r True by (simp_all add: decided_def)
  from execute_write_effect [OF x g] show ?thesis
  proof
    assume "extends_by log log' [] \<and> (st = ERefused \<or> st = EAlready)"
    then show ?thesis using d True by (intro conjI exI [of _ "[]"]) (auto simp: fine_def)
  next
    assume "extends_by log log' [write_call (eor_op r)] \<and>
      (st = EFailed \<or> st = EApplied \<and> observed ho u (eor_op r) log')"
    then show ?thesis using d True by (intro conjI exI [of _ "[eor_op r]"]) (auto simp: fine_def)
  qed
qed

lemma thread_effect:
  assumes "thread (execute_result ho u) rs log = (ds, log')" and "\<forall>r\<in>set rs. decided r"
  shows "map eor_op ds = map eor_op rs \<and>
    (\<exists>ws. extends_by log log' (map write_call ws) \<and>
       subseq ws (map eor_op (filter (\<lambda>r. eor_status r = EPlanned) rs)) \<and>
       (\<forall>d\<in>set ds. fine ho u ws log' d))"
  using assms
proof (induction rs arbitrary: log ds)
  case Nil
  then have "ds = []" "log' = log" by simp_all
  then show ?case by (intro conjI exI [of _ "[]"]) simp_all
next
  case (Cons r rs)
  obtain d log1 where d: "execute_result ho u r log = (d, log1)" by fastforce
  obtain ds' where ds': "thread (execute_result ho u) rs log1 = (ds', log')" "ds = d # ds'"
    using Cons.prems(1) d by (auto simp: Let_def split: prod.splits)
  obtain ws where ws: "eor_op d = eor_op r" "extends_by log log1 (map write_call ws)"
      "subseq ws (if eor_status r = EPlanned then [eor_op r] else [])" "fine ho u ws log1 d"
    using execute_result_effect [OF d] Cons.prems(2) by auto
  obtain vs where vs: "map eor_op ds' = map eor_op rs" "extends_by log1 log' (map write_call vs)"
      "subseq vs (map eor_op (filter (\<lambda>r. eor_status r = EPlanned) rs))" "\<forall>d\<in>set ds'. fine ho u vs log' d"
    using Cons.IH [OF ds'(1)] Cons.prems(2) by auto
  have "extends_by log log' (map write_call (ws @ vs))"
    using extends_trans [OF ws(2) vs(2)] by simp
  moreover have "subseq (ws @ vs) ((if eor_status r = EPlanned then [eor_op r] else [])
      @ map eor_op (filter (\<lambda>r. eor_status r = EPlanned) rs))"
    using ws(3) vs(3) by (rule list_emb_append_mono)
  then have "subseq (ws @ vs) (map eor_op (filter (\<lambda>r. eor_status r = EPlanned) (r # rs)))"
    by (cases "eor_status r = EPlanned") simp_all
  moreover have "fine ho u (ws @ vs) log' d"
    using ws(4) fine_mono extends_prefix [OF vs(2)] by (metis set_append Un_upper1)
  moreover have "\<forall>d\<in>set ds'. fine ho u (ws @ vs) log' d"
    using vs(4) fine_mono by (metis prefix_order.refl set_append Un_upper2)
  ultimately show ?case using ws(1) vs(1) ds'(2) by (intro conjI exI [of _ "ws @ vs"]) auto
qed

lemma decide_op_decided: "decided (decide_op l u x)"
  using guarded_payload [of x l u]
  by (cases "eo_action x"; cases "evaluate_email_op x l u")
    (simp_all add: decide_op_def decided_def Let_def)

lemma decide_op_planned_iff:
  "eor_status (decide_op l u x) = EPlanned \<longleftrightarrow> evaluate_email_op x l u = DWrite"
proof -
  have "eo_action x = ECreate \<or> eo_action x = ESet" if "evaluate_email_op x l u = DWrite"
    using guarded_payload [OF that] by (auto simp: has_writer_def)
  then show ?thesis
    by (cases "eo_action x"; cases "evaluate_email_op x l u") (auto simp: decide_op_def Let_def)
qed

lemma eor_op_decide [simp]: "eor_op (decide_op l u x) = x"
  by (cases "eo_action x"; cases "evaluate_email_op x l u") (simp_all add: decide_op_def Let_def)

lemma planned_ops:
  "map eor_op (filter (\<lambda>r. eor_status r = EPlanned) (map (decide_op l u) xs)) =
     filter (\<lambda>x. evaluate_email_op x l u = DWrite) xs"
  by (induction xs) (simp_all add: decide_op_planned_iff)

lemma clean_exit:
  "finish_email_report env rep = 0 \<Longrightarrow>
   \<forall>r\<in>set (ear_results rep). eor_status r \<noteq> EFailed \<and> eor_status r \<noteq> ERefused"
  by (auto simp: finish_email_report_def summarize_email_results_def Let_def count_if_zero_iff
      exit_drift_gate_def split: if_splits)

text \<open>C1. Whatever the host answers, an apply run writes only what its guard allowed: the calls of the
  run that change the host are the writes of operations that were evaluated as writable against the
  fresh listing, each at most once and in the order of the plan; there is none unless the backup of
  that listing was written; the report lists every operation of the plan, calls one applied only when
  it was written and a listing made after its write shows the outcome, and exit code 0 means a report
  without failed or refused operations.\<close>

theorem apply_run_guarded:
  "(let o' = run_email_apply_writes ho env plan log; live = fst (fetch_live ho plan log);
        u = ep_destination_user plan in
    \<exists>ws. subseq ws (filter (\<lambda>x. evaluate_email_op x live u = DWrite) (ep_ops plan)) \<and>
      extends_by log (ao_log o') (map write_call ws) \<and>
      (ws \<noteq> [] \<longrightarrow> ao_backup o' = Some live) \<and>
      (case ao_report o' of
         None \<Rightarrow> ws = [] \<and> ao_exit o' = 1
       | Some rep \<Rightarrow> map eor_op (ear_results rep) = ep_ops plan \<and>
           (\<forall>r\<in>set (ear_results rep). fine ho u ws (ao_log o') r) \<and>
           (ao_exit o' = 0 \<longrightarrow>
              (\<forall>r\<in>set (ear_results rep). eor_status r \<noteq> EFailed \<and> eor_status r \<noteq> ERefused))))"
proof -
  obtain live log1 where live: "fetch_live ho plan log = (live, log1)" by fastforce
  let ?u = "ep_destination_user plan"
  let ?rs = "map (decide_op live ?u) (ep_ops plan)"
  let ?ws = "filter (\<lambda>r. eor_status r = EPlanned) ?rs"
  let ?o = "run_email_apply_writes ho env plan log"
  have q: "extends_by log log1 []" by (rule readsD [OF reads_fetch_live live])
  consider "\<not> ae_plan_hash env \<or> (needs_connection plan \<and> \<not> ae_dial env)"
    | "ae_plan_hash env" "\<not> (needs_connection plan \<and> \<not> ae_dial env)" "?ws \<noteq> []" "\<not> ae_backup env"
    | "ae_plan_hash env" "\<not> (needs_connection plan \<and> \<not> ae_dial env)" "?ws \<noteq> []" "ae_backup env" "\<not> ae_backup_hash env"
    | "ae_plan_hash env" "\<not> (needs_connection plan \<and> \<not> ae_dial env)"
      "?ws = [] \<or> ae_backup env \<and> ae_backup_hash env"
    by argo
  then show ?thesis
  proof cases
    case 1
    then have "?o = \<lparr>ao_exit = 1, ao_report = None, ao_backup = None, ao_log = log\<rparr>"
      by (auto simp: run_email_apply_writes_def Let_def)
    then show ?thesis unfolding Let_def by (intro exI [of _ "[]"]) simp
  next
    case 2
    then have "?o = \<lparr>ao_exit = 1, ao_report = None, ao_backup = None, ao_log = log1\<rparr>"
      by (auto simp: run_email_apply_writes_def Let_def live)
    then show ?thesis unfolding Let_def using q by (intro exI [of _ "[]"]) simp
  next
    case 3
    then have "?o = \<lparr>ao_exit = 1, ao_report = None, ao_backup = Some live, ao_log = log1\<rparr>"
      by (auto simp: run_email_apply_writes_def Let_def live)
    then show ?thesis unfolding Let_def using q by (intro exI [of _ "[]"]) simp
  next
    case 4
    obtain ds log2 where ds: "thread (execute_result ho ?u) ?rs log1 = (ds, log2)" by fastforce
    let ?rep = "\<lparr>ear_run_mode = ''apply'', ear_destination_user = ?u, ear_results = ds\<rparr>"
    have o': "?o = \<lparr>ao_exit = finish_email_report env ?rep, ao_report = Some ?rep,
        ao_backup = (if ?ws = [] then None else Some live), ao_log = log2\<rparr>"
      using 4 ds by (auto simp add: run_email_apply_writes_def Let_def live)
    obtain ws where ws: "map eor_op ds = map eor_op ?rs" "extends_by log1 log2 (map write_call ws)"
        "subseq ws (filter (\<lambda>x. evaluate_email_op x live ?u = DWrite) (ep_ops plan))"
        "\<forall>d\<in>set ds. fine ho ?u ws log2 d"
      using thread_effect [OF ds] decide_op_decided unfolding planned_ops by auto
    have ext: "extends_by log log2 (map write_call ws)" using q ws(2) by (rule extends_quiet_left)
    have none: "ws = []" if "?ws = []"
    proof -
      from that have "map eor_op ?ws = []" by simp
      then show ?thesis using ws(3) unfolding planned_ops by simp
    qed
    have ops: "map eor_op ds = ep_ops plan" using ws(1) by (simp add: comp_def)
    show ?thesis
      unfolding Let_def o' live
      using ws(3,4) ext none ops clean_exit [of env ?rep] by (intro exI [of _ ws]) auto
  qed
qed

section \<open>A run on a host\<close>

text \<open>A host with no forwarders until one is added, and its plan of one forwarder.\<close>

definition small_host :: host where
  "small_host =
     \<lparr>ho_run = (\<lambda>log _. Inr (if list_ex is_write log then ''1'' else ''0'')),
      ho_unit = (\<lambda>_. Inr \<lparr>en_data = (), en_errors = [], en_status = 1\<rparr>),
      ho_unit2 = (\<lambda>_. Inl []),
      ho_forwarders = (\<lambda>out. Inr \<lparr>en_data = (if out = ''1'' then [\<lparr>cf_dest = ''a@x.it'', cf_forward = ''p@y.it''\<rparr>] else []),
         en_errors = [], en_status = 1\<rparr>),
      ho_autoresponders = (\<lambda>_. Inl []), ho_autoresponder = (\<lambda>_. Inl []), ho_defaults = (\<lambda>_. Inl []),
      ho_filters = (\<lambda>_. Inl []), ho_filter = (\<lambda>_. Inl []), ho_routing = (\<lambda>_. Inl []),
      ho_rule = (\<lambda>_. Inl []), ho_action = (\<lambda>_. Inl [])\<rparr>"

definition all_fine :: apply_env where
  "all_fine = \<lparr>ae_plan_hash = True, ae_dial = True, ae_backup = True, ae_backup_hash = True,
     ae_report_json = True, ae_report_md = True\<rparr>"

definition small_plan :: email_plan where
  "small_plan =
     \<lparr>ep_mode = ''email-apply-plan'', ep_format_version = 1, ep_source_user = ''u'',
      ep_destination_user = ''w'',
      ep_ops = [(email_op_of sec_forwarders ''x.it'' ''a@x.it'' ''p@y.it'' [])
        \<lparr>eo_action := ECreate, eo_email := ''a'', eo_forward := ''p@y.it''\<rparr>],
      ep_informational = [], ep_manual_sections = [], ep_policy_findings = [],
      ep_non_email_blockers = [],
      ep_summary = \<lparr>es_create = 1, es_set = 0, es_skip = 0, es_manual = 0, es_informational = 0\<rparr>\<rparr>"

lemma small_run:
  "ao_exit (run_email_apply_writes small_host all_fine small_plan []) = 0 \<and>
   map_option (\<lambda>rep. map eor_status (ear_results rep))
     (ao_report (run_email_apply_writes small_host all_fine small_plan [])) = Some [EApplied] \<and>
   map ac_fn (ao_log (run_email_apply_writes small_host all_fine small_plan [])) =
     [''list_forwarders'', ''add_forwarder'', ''list_forwarders'']"
  by code_simp

lemma apply_run_guarded_witness:
  "\<exists>ws. ws \<noteq> [] \<and>
     extends_by [] (ao_log (run_email_apply_writes small_host all_fine small_plan [])) (map write_call ws) \<and>
     ao_backup (run_email_apply_writes small_host all_fine small_plan []) =
       Some (fst (fetch_live small_host small_plan []))"
proof -
  let ?o = "run_email_apply_writes small_host all_fine small_plan []"
  obtain ws where ws: "extends_by [] (ao_log ?o) (map write_call ws)"
      "ws \<noteq> [] \<longrightarrow> ao_backup ?o = Some (fst (fetch_live small_host small_plan []))"
    using apply_run_guarded [of small_host all_fine small_plan "[]", unfolded Let_def] by blast
  have "filter is_write (ao_log ?o) = map write_call ws" using ws(1) by (simp add: extends_by_def)
  moreover have "map ac_fn (filter is_write (ao_log ?o)) = [''add_forwarder'']"
    by code_simp
  ultimately have "ws \<noteq> []" by (metis list.simps(8) not_Cons_self2)
  with ws show ?thesis by blast
qed

section \<open>The rollback run\<close>

definition inverse_call :: "email_rollback_op \<Rightarrow> api_call" where
  "inverse_call x =
     (case rb_kind x of
        ForwarderRemove \<Rightarrow> \<lparr>ac_tool = ''uapi'', ac_module = ''Email'', ac_fn = ''delete_forwarder'',
          ac_args = [(''address'', rb_address x), (''forwarder'', rb_forwarder x)]\<rparr>
      | AutoresponderRemove \<Rightarrow> \<lparr>ac_tool = ''uapi'', ac_module = ''Email'', ac_fn = ''delete_auto_responder'',
          ac_args = [(''email'', rb_address x)]\<rparr>
      | FilterRemove \<Rightarrow> \<lparr>ac_tool = ''uapi'', ac_module = ''Email'', ac_fn = ''delete_filter'',
          ac_args = (''filtername'', rb_address x) # account_args (rb_account x)\<rparr>
      | DefaultRestore \<Rightarrow> \<lparr>ac_tool = ''uapi'', ac_module = ''Email'', ac_fn = ''set_default_address'',
          ac_args = default_address_args (rb_domain x) (rb_value x)\<rparr>
      | RoutingRestore \<Rightarrow> \<lparr>ac_tool = ''cpapi2'', ac_module = ''Email'', ac_fn = ''setmxcheck'',
          ac_args = [(''domain'', rb_domain x), (''mxcheck'', rb_value x)]\<rparr>)"

text \<open>A listing showed the item in the state that the apply had left.\<close>

definition seen_as_left :: "host \<Rightarrow> string \<Rightarrow> email_rollback_op \<Rightarrow> bool" where
  "seen_as_left ho destu x \<longleftrightarrow>
     (\<exists>log log'. case rb_kind x of
        ForwarderRemove \<Rightarrow> \<exists>es. list_forwarders ho (rb_domain x) log = (Inr es, log') \<and>
          forwarder_exists es (rb_address x) (rb_forwarder x)
      | AutoresponderRemove \<Rightarrow> \<exists>es e. fetch_autoresponders ho (rb_domain x) log = (Inr es, log') \<and>
          e \<in> set es \<and> ar_key e = canon_email_addr (rb_address x) \<and>
          autoresponder_content_equivalent (rb_autoresponder x) e
      | FilterRemove \<Rightarrow> \<exists>e es. fetch_filter_entry ho (rb_account x) (rb_address x) log = (Inr (e # es), log') \<and>
          filter_content_equivalent (rb_filter x) e
      | DefaultRestore \<Rightarrow> \<exists>es e. list_default_addresses ho log = (Inr es, log') \<and> e \<in> set es \<and>
          same_domain (cdef_domain e) (rb_domain x) \<and>
          (rb_expected x = [] \<or> defaults_equivalent (rb_expected x) (cdef_address e) destu destu)
      | RoutingRestore \<Rightarrow> \<exists>es e. list_mxs ho log = (Inr es, log') \<and> e \<in> set (normalize_routing es) \<and>
          same_domain (er_domain e) (rb_domain x) \<and> (rb_expected x = [] \<or> er_routing e = rb_expected x))"

lemma guarded_inverse_effect:
  assumes run: "guarded_inverse x look stop act gone complaint log = (r, log')"
    and look: "reads look" and act: "\<And>lg. snd (act lg) = lg @ [c]" and c: "is_write c"
  shows "extends_by log log' [] \<or>
    (extends_by log log' [c] \<and> (\<exists>cur lg. look log = (Inr cur, lg) \<and> stop cur = None))"
proof -
  obtain l1 log1 where l1: "look log = (l1, log1)" by fastforce
  have q: "extends_by log log1 []" by (rule readsD [OF look l1])
  show ?thesis
  proof (cases l1)
    case (Inl e)
    then show ?thesis using run l1 q by (simp add: guarded_inverse_def)
  next
    case (Inr cur)
    show ?thesis
    proof (cases "stop cur")
      case (Some p)
      then show ?thesis using run l1 Inr q by (cases p) (simp add: guarded_inverse_def)
    next
      case None
      obtain l2 log2 where l2: "act log1 = (l2, log2)" by fastforce
      have "log2 = log1 @ [c]" using act [of log1] l2 by simp
      then have e2: "extends_by log log2 [c]"
        using q c by (auto simp: extends_by_def)
      obtain l3 log3 where l3: "look log2 = (l3, log3)" by fastforce
      have e3: "extends_by log log3 [c]"
        using e2 readsD [OF look l3] by (rule extends_quiet_right)
      have "log' = log2 \<or> log' = log3"
        using run l1 Inr None l2 l3
        by (cases l2; cases l3) (auto simp: guarded_inverse_def split: if_splits)
      then show ?thesis using e2 e3 l1 Inr None by auto
    qed
  qed
qed

lemma find_SomeD: "find P xs = Some x \<Longrightarrow> x \<in> set xs \<and> P x"
  by (auto simp: find_Some_iff)

lemma inverse_effect:
  assumes run: "execute_email_rollback_op ho u x log = (r, log')"
  shows "extends_by log log' [] \<or> (extends_by log log' [inverse_call x] \<and> seen_as_left ho u x)"
proof -
  have w: "is_write (inverse_call x)"
    by (cases "rb_kind x") (simp_all add: is_write_def inverse_call_def write_fns_def)
  have up: "snd (run_uapi dec ho m f args l) = l @ [\<lparr>ac_tool = ''uapi'', ac_module = m, ac_fn = f, ac_args = args\<rparr>]"
    for dec :: "string \<Rightarrow> string + unit envelope" and m f args l
    by (simp add: run_uapi_def)
  show ?thesis
  proof (cases "rb_kind x")
    case ForwarderRemove
    note run' = run [unfolded execute_email_rollback_op_def ForwarderRemove, simplified]
    have "snd (delete_forwarder ho (rb_address x) (rb_forwarder x) lg) = lg @ [inverse_call x]" for lg
      by (simp add: delete_forwarder_def up inverse_call_def ForwarderRemove)
    from guarded_inverse_effect [OF run' list_reads(1) this w] show ?thesis
      by (auto simp: seen_as_left_def ForwarderRemove split: if_splits)
  next
    case AutoresponderRemove
    note run' = run [unfolded execute_email_rollback_op_def AutoresponderRemove Let_def, simplified]
    have "snd (delete_autoresponder ho (rb_address x) lg) = lg @ [inverse_call x]" for lg
      by (simp add: delete_autoresponder_def up inverse_call_def AutoresponderRemove)
    from guarded_inverse_effect [OF run' fetch_reads(1) this w] show ?thesis
    proof (elim disjE conjE exE)
      fix es lg
      assume e: "extends_by log log' [inverse_call x]" "fetch_autoresponders ho (rb_domain x) log = (Inr es, lg)"
      assume stop: "(case first_with ar_key (canon_email_addr (rb_address x)) es of
          None \<Rightarrow> Some (EAlready, ''autoresponder already absent '' @ emdash @ '' nothing to remove'')
        | Some cur \<Rightarrow> if autoresponder_content_equivalent (rb_autoresponder x) cur then None
            else Some (ERefused, ''the live autoresponder on '' @ rb_address x
              @ '' diverged from the content the tool applied '' @ emdash
              @ '' a human changed it since; resolve explicitly'')) = None"
      then obtain cur where "first_with ar_key (canon_email_addr (rb_address x)) es = Some cur"
          "autoresponder_content_equivalent (rb_autoresponder x) cur"
        by (cases "first_with ar_key (canon_email_addr (rb_address x)) es") (simp_all split: if_splits)
      then have "seen_as_left ho u x"
        using e(2) first_with_SomeD [of ar_key "canon_email_addr (rb_address x)" es cur]
        by (simp add: seen_as_left_def AutoresponderRemove) blast
      with e(1) show ?thesis by simp
    qed simp
  next
    case FilterRemove
    note run' = run [unfolded execute_email_rollback_op_def FilterRemove, simplified]
    have "snd (delete_filter ho (rb_address x) (rb_account x) lg) = lg @ [inverse_call x]" for lg
      by (simp add: delete_filter_def up inverse_call_def FilterRemove)
    from guarded_inverse_effect [OF run' fetch_reads(4) this w] show ?thesis
    proof (elim disjE conjE exE, goal_cases)
      case 1
      then show ?case by simp
    next
      case (2 es lg)
      then obtain f fs where "es = f # fs" "filter_content_equivalent (rb_filter x) f"
        by (cases es) (simp_all split: if_splits)
      then have "seen_as_left ho u x" using 2(2) by (simp add: seen_as_left_def FilterRemove) blast
      with 2(1) show ?case by simp
    qed
  next
    case DefaultRestore
    note run' = run [unfolded execute_email_rollback_op_def DefaultRestore, simplified]
    have "snd (set_default_address ho (rb_domain x) (rb_value x) lg) = lg @ [inverse_call x]" for lg
      by (simp add: set_default_address_def up inverse_call_def DefaultRestore)
    from guarded_inverse_effect [OF run' list_reads(4) this w] show ?thesis
    proof (elim disjE conjE exE, goal_cases)
      case 1
      then show ?case by simp
    next
      case (2 es lg)
      then obtain e where e: "find (\<lambda>e. same_domain (cdef_domain e) (rb_domain x)) es = Some e"
          "rb_expected x = [] \<or> defaults_equivalent (rb_expected x) (cdef_address e) u u"
        by (cases "find (\<lambda>e. same_domain (cdef_domain e) (rb_domain x)) es") (simp_all split: if_splits)
      then have "seen_as_left ho u x"
        using 2(2) find_SomeD [OF e(1)] by (simp add: seen_as_left_def DefaultRestore) blast
      with 2(1) show ?case by simp
    qed
  next
    case RoutingRestore
    note run' = run [unfolded execute_email_rollback_op_def RoutingRestore, simplified]
    have "snd (set_mx_check ho (rb_domain x) (rb_value x) lg) = lg @ [inverse_call x]" for lg
      by (simp add: set_mx_check_def run_api2_def inverse_call_def RoutingRestore)
    from guarded_inverse_effect [OF run' reads_map_ok [OF list_reads(8)] this w] show ?thesis
    proof (elim disjE conjE exE, goal_cases)
      case 1
      then show ?case by simp
    next
      case (2 es lg)
      then obtain e where e: "find (\<lambda>e. same_domain (er_domain e) (rb_domain x)) es = Some e"
          "rb_expected x = [] \<or> er_routing e = rb_expected x"
        by (cases "find (\<lambda>e. same_domain (er_domain e) (rb_domain x)) es") (simp_all split: if_splits)
      obtain raw where "list_mxs ho log = (Inr raw, lg)" "es = normalize_routing raw"
        using 2(2) by (cases "list_mxs ho log"; cases "fst (list_mxs ho log)") (auto simp: map_ok_def)
      then have "seen_as_left ho u x"
        using find_SomeD [OF e(1)] e(2) by (simp add: seen_as_left_def RoutingRestore) blast
      with 2(1) show ?case by simp
    qed
  qed
qed

lemma thread_inverse_effect:
  assumes "thread (execute_email_rollback_op ho u) xs log = (rs, log')"
  shows "\<exists>ws. subseq ws xs \<and> extends_by log log' (map inverse_call ws) \<and> (\<forall>x\<in>set ws. seen_as_left ho u x)"
  using assms
proof (induction xs arbitrary: log rs)
  case Nil
  then show ?case by (intro exI [of _ "[]"]) simp
next
  case (Cons x xs)
  obtain r log1 where r: "execute_email_rollback_op ho u x log = (r, log1)" by fastforce
  obtain rs' where rs': "thread (execute_email_rollback_op ho u) xs log1 = (rs', log')"
    using Cons.prems r by (auto simp: Let_def split: prod.splits)
  obtain ws where ws: "subseq ws xs" "extends_by log1 log' (map inverse_call ws)" "\<forall>x\<in>set ws. seen_as_left ho u x"
    using Cons.IH [OF rs'] by blast
  from inverse_effect [OF r] show ?case
  proof (elim disjE conjE)
    assume "extends_by log log1 []"
    then show ?case using ws by (intro exI [of _ ws]) (auto intro: extends_quiet_left)
  next
    assume "extends_by log log1 [inverse_call x]" "seen_as_left ho u x"
    then show ?case using ws extends_trans [of log log1 "[inverse_call x]" log' "map inverse_call ws"]
      by (intro exI [of _ "x # ws"]) auto
  qed
qed

definition rollback_plan ::
  "email_backup \<Rightarrow> string + email_apply_report \<Rightarrow> bool \<Rightarrow> email_rollback_op list" where
  "rollback_plan b report accept =
     (case report of
        Inr rep \<Rightarrow> (case compute_email_rollback rep b of Inl _ \<Rightarrow> [] | Inr ops \<Rightarrow> ops)
      | Inl _ \<Rightarrow> if accept then fst (compute_email_rollback_degraded b) else [])"


definition after_apply :: call_log where
  "after_apply = map write_call (ep_ops small_plan)"


end
