(* ===== verification/GoRegexp.thy ===== *)
theory GoRegexp
  imports GoStrings
begin

text \<open>
  The part of Go's \<open>regexp\<close> package the program uses, on byte strings. A match is the one a
  backtracking search would find first (leftmost, then by the order of the alternatives, with greedy
  repetition), which is what the package documents for its default mode. \<open>rx_run\<close> lists the ends of all
  matches from one place, best first. A class that excludes characters matches single bytes here and
  whole runes in Go; in every pattern of the program such a class is followed by an ASCII
  character, so a match never ends inside a rune. \<open>(?i)\<close> folds ASCII letters.
\<close>

section \<open>Patterns\<close>

datatype rx =
    Eps
  | Ch "char \<Rightarrow> bool"
  | Cat rx rx
  | Or rx rx
  | Many rx
  | Lazy rx
  | Group nat rx
  | BeginText
  | EndText
  | BeginLine
  | EndLine
  | WordEdge

text \<open>A place in a text: the byte before it, the text after it, and the groups matched so far.\<close>

type_synonym place = "char option \<times> string \<times> (nat \<times> string) list"

definition is_word :: "char \<Rightarrow> bool" where
  "is_word c \<longleftrightarrow> is_digit c \<or> is_upper c \<or> is_lower c \<or> c = CHR ''_''"

definition word_before :: "char option \<Rightarrow> bool" where
  "word_before p = (case p of None \<Rightarrow> False | Some c \<Rightarrow> is_word c)"

definition word_after :: "string \<Rightarrow> bool" where
  "word_after s = (case s of [] \<Rightarrow> False | c # _ \<Rightarrow> is_word c)"

text \<open>Greedy repetition: another round first, then stopping. A round that consumes nothing ends it; the
  length of the text bounds the rounds.\<close>

fun rx_many :: "nat \<Rightarrow> (place \<Rightarrow> place list) \<Rightarrow> place \<Rightarrow> place list" where
  "rx_many 0 f m = [m]"
| "rx_many (Suc n) f m =
     concat (map (\<lambda>m'. if length (fst (snd m')) < length (fst (snd m)) then rx_many n f m' else []) (f m)) @ [m]"

text \<open>Lazy repetition: stopping first, then another round.\<close>

fun rx_lazy :: "nat \<Rightarrow> (place \<Rightarrow> place list) \<Rightarrow> place \<Rightarrow> place list" where
  "rx_lazy 0 f m = [m]"
| "rx_lazy (Suc n) f m =
     m # concat (map (\<lambda>m'. if length (fst (snd m')) < length (fst (snd m)) then rx_lazy n f m' else []) (f m))"

primrec rx_run :: "rx \<Rightarrow> place \<Rightarrow> place list" where
  "rx_run Eps m = [m]"
| "rx_run (Ch P) m =
     (case m of (p, s, g) \<Rightarrow> (case s of [] \<Rightarrow> [] | c # t \<Rightarrow> if P c then [(Some c, t, g)] else []))"
| "rx_run (Cat a b) m = concat (map (rx_run b) (rx_run a m))"
| "rx_run (Or a b) m = rx_run a m @ rx_run b m"
| "rx_run (Many a) m = rx_many (length (fst (snd m))) (rx_run a) m"
| "rx_run (Lazy a) m = rx_lazy (length (fst (snd m))) (rx_run a) m"
| "rx_run (Group n a) m =
     (case m of (p, s, g) \<Rightarrow>
        map (\<lambda>(p', s', g'). (p', s', (n, take (length s - length s') s) # g')) (rx_run a m))"
| "rx_run BeginText m = (if fst m = None then [m] else [])"
| "rx_run EndText m = (if fst (snd m) = [] then [m] else [])"
| "rx_run BeginLine m = (if fst m = None \<or> fst m = Some CHR 0x0A then [m] else [])"
| "rx_run EndLine m = (if fst (snd m) = [] \<or> hd (fst (snd m)) = CHR 0x0A then [m] else [])"
| "rx_run WordEdge m = (if word_before (fst m) \<noteq> word_after (fst (snd m)) then [m] else [])"

text \<open>The best match alone, by backtracking: what follows a pattern is a continuation.\<close>

fun first_some :: "('a \<Rightarrow> 'b option) \<Rightarrow> 'a list \<Rightarrow> 'b option" where
  "first_some k [] = None"
| "first_some k (m # ms) = (case k m of Some x \<Rightarrow> Some x | None \<Rightarrow> first_some k ms)"

fun try_many ::
  "nat \<Rightarrow> ((place \<Rightarrow> 'a option) \<Rightarrow> place \<Rightarrow> 'a option) \<Rightarrow> (place \<Rightarrow> 'a option) \<Rightarrow> place \<Rightarrow> 'a option" where
  "try_many 0 f k m = k m"
| "try_many (Suc n) f k m =
     (case f (\<lambda>m'. if length (fst (snd m')) < length (fst (snd m)) then try_many n f k m' else None) m of
        Some x \<Rightarrow> Some x
      | None \<Rightarrow> k m)"

fun try_lazy ::
  "nat \<Rightarrow> ((place \<Rightarrow> 'a option) \<Rightarrow> place \<Rightarrow> 'a option) \<Rightarrow> (place \<Rightarrow> 'a option) \<Rightarrow> place \<Rightarrow> 'a option" where
  "try_lazy 0 f k m = k m"
| "try_lazy (Suc n) f k m =
     (case k m of
        Some x \<Rightarrow> Some x
      | None \<Rightarrow> f (\<lambda>m'. if length (fst (snd m')) < length (fst (snd m)) then try_lazy n f k m' else None) m)"

primrec rx_try :: "rx \<Rightarrow> (place \<Rightarrow> 'a option) \<Rightarrow> place \<Rightarrow> 'a option" where
  "rx_try Eps k m = k m"
| "rx_try (Ch P) k m =
     (case m of (p, s, g) \<Rightarrow> (case s of [] \<Rightarrow> None | c # t \<Rightarrow> if P c then k (Some c, t, g) else None))"
| "rx_try (Cat a b) k m = rx_try a (rx_try b k) m"
| "rx_try (Or a b) k m = (case rx_try a k m of Some x \<Rightarrow> Some x | None \<Rightarrow> rx_try b k m)"
| "rx_try (Many a) k m = try_many (length (fst (snd m))) (rx_try a) k m"
| "rx_try (Lazy a) k m = try_lazy (length (fst (snd m))) (rx_try a) k m"
| "rx_try (Group n a) k m =
     (case m of (p, s, g) \<Rightarrow>
        rx_try a (\<lambda>(p', s', g'). k (p', s', (n, take (length s - length s') s) # g')) m)"
| "rx_try BeginText k m = (if fst m = None then k m else None)"
| "rx_try EndText k m = (if fst (snd m) = [] then k m else None)"
| "rx_try BeginLine k m = (if fst m = None \<or> fst m = Some CHR 0x0A then k m else None)"
| "rx_try EndLine k m = (if fst (snd m) = [] \<or> hd (fst (snd m)) = CHR 0x0A then k m else None)"
| "rx_try WordEdge k m = (if word_before (fst m) \<noteq> word_after (fst (snd m)) then k m else None)"

section \<open>Searching and replacing\<close>

text \<open>The text before the leftmost match, and the place where the match ends.\<close>

fun rx_find :: "rx \<Rightarrow> char option \<Rightarrow> string \<Rightarrow> (string \<times> place) option" where
  "rx_find r p [] = map_option (Pair []) (rx_try r Some (p, [], []))"
| "rx_find r p (c # s) =
     (case rx_try r Some (p, c # s, []) of
        Some m \<Rightarrow> Some ([], m)
      | None \<Rightarrow> map_option (\<lambda>(pre, m). (c # pre, m)) (rx_find r (Some c) s))"

definition rx_match :: "rx \<Rightarrow> string \<Rightarrow> bool" where
  "rx_match r s \<longleftrightarrow> rx_find r None s \<noteq> None"

definition rx_group :: "(nat \<times> string) list \<Rightarrow> nat \<Rightarrow> string" where
  "rx_group g n = (case map_of g n of None \<Rightarrow> [] | Some t \<Rightarrow> t)"

text \<open>\<open>FindStringSubmatch\<close>: the groups of the leftmost match.\<close>

definition rx_submatch :: "rx \<Rightarrow> string \<Rightarrow> (nat \<Rightarrow> string) option" where
  "rx_submatch r s = map_option (\<lambda>(pre, p, t, g). rx_group g) (rx_find r None s)"

text \<open>\<open>ReplaceAllString\<close> for a pattern that never matches the empty text; the template is a function of
  the groups.\<close>

function rx_replace :: "rx \<Rightarrow> ((nat \<Rightarrow> string) \<Rightarrow> string) \<Rightarrow> char option \<Rightarrow> string \<Rightarrow> string" where
  "rx_replace r f p s =
     (case rx_find r p s of
        None \<Rightarrow> s
      | Some (pre, p', s', g) \<Rightarrow>
          if length s' < length s then pre @ f (rx_group g) @ rx_replace r f p' s' else s)"
  by pat_completeness auto
termination
  by (relation "measure (\<lambda>(r, f, p, s). length s)") auto

declare rx_replace.simps [simp del]

definition rx_replace_all :: "rx \<Rightarrow> ((nat \<Rightarrow> string) \<Rightarrow> string) \<Rightarrow> string \<Rightarrow> string" where
  "rx_replace_all r f s = rx_replace r f None s"

text \<open>\<open>FindAllStringSubmatchIndex\<close> for a pattern that never matches the empty text: the offset, the text and
  the groups of every match.\<close>

function rx_all :: "rx \<Rightarrow> nat \<Rightarrow> char option \<Rightarrow> string \<Rightarrow> (nat \<times> string \<times> (nat \<times> string) list) list" where
  "rx_all r off p s =
     (case rx_find r p s of
        None \<Rightarrow> []
      | Some (pre, p', s', g) \<Rightarrow>
          if length s' < length s
          then (off + length pre, take (length s - length s' - length pre) (drop (length pre) s), g)
               # rx_all r (off + (length s - length s')) p' s'
          else [])"
  by pat_completeness auto
termination
  by (relation "measure (\<lambda>(r, off, p, s). length s)") auto

declare rx_all.simps [simp del]

definition rx_find_all :: "rx \<Rightarrow> string \<Rightarrow> (nat \<times> string \<times> (nat \<times> string) list) list" where
  "rx_find_all r s = rx_all r 0 None s"

section \<open>Common patterns\<close>

fun cats :: "rx list \<Rightarrow> rx" where
  "cats [] = Eps"
| "cats [r] = r"
| "cats (r # rs) = Cat r (cats rs)"

fun ors :: "rx list \<Rightarrow> rx" where
  "ors [] = Eps"
| "ors [r] = r"
| "ors (r # rs) = Or r (ors rs)"

fun lit :: "string \<Rightarrow> rx" where
  "lit [] = Eps"
| "lit (c # s) = Cat (Ch (\<lambda>d. d = c)) (lit s)"

text \<open>\<open>(?i)\<close> of a lower-case literal.\<close>

fun lit_fold :: "string \<Rightarrow> rx" where
  "lit_fold [] = Eps"
| "lit_fold (c # s) = Cat (Ch (\<lambda>d. lower_char d = c)) (lit_fold s)"

definition one_of :: "string \<Rightarrow> rx" where "one_of cs = Ch (\<lambda>d. d \<in> set cs)"

definition none_of :: "string \<Rightarrow> rx" where "none_of cs = Ch (\<lambda>d. d \<notin> set cs)"

definition some_of :: "rx \<Rightarrow> rx" where "some_of r = Cat r (Many r)"

text \<open>\<open>\s\<close> of the package: ASCII white space without the vertical tab.\<close>

definition rx_space :: "char \<Rightarrow> bool" where
  "rx_space c \<longleftrightarrow> c \<in> {CHR 0x09, CHR 0x0A, CHR 0x0C, CHR 0x0D, CHR 0x20}"

definition spaces :: rx where "spaces = Many (Ch rx_space)"

definition opt :: "rx \<Rightarrow> rx" where "opt r = Or r Eps"

definition byte_of :: "char \<Rightarrow> rx" where "byte_of c = Ch (\<lambda>d. d = c)"

text \<open>\<open>.\<close> of the package: any character but the end of a line.\<close>

definition any_on_line :: rx where "any_on_line = Ch (\<lambda>d. d \<noteq> CHR 0x0A)"

section \<open>Facts about matches\<close>

text \<open>Backtracking finds the first of the matches that \<open>rx_run\<close> lists.\<close>

lemma first_some_append:
  "first_some k (xs @ ys) = (case first_some k xs of Some x \<Rightarrow> Some x | None \<Rightarrow> first_some k ys)"
  by (induction xs) (auto split: option.split)

lemma first_some_concat: "first_some k (concat (map f ms)) = first_some (\<lambda>m. first_some k (f m)) ms"
  by (induction ms) (auto simp: first_some_append split: option.split)

lemma first_some_map: "first_some k (map f ms) = first_some (\<lambda>m. k (f m)) ms"
  by (induction ms) (auto split: option.split)

lemma try_many_first:
  assumes "\<And>k m. f k m = first_some k (F m)"
  shows "try_many n f k m = first_some k (rx_many n F m)"
proof (induction n arbitrary: m)
  case (Suc n)
  let ?short = "\<lambda>m'. length (fst (snd m')) < length (fst (snd m))"
  have eq: "(\<lambda>m'. if ?short m' then try_many n f k m' else None) =
      (\<lambda>m'. first_some k (if ?short m' then rx_many n F m' else []))"
    by (simp add: Suc fun_eq_iff)
  have step: "f (\<lambda>m'. if ?short m' then try_many n f k m' else None) m =
      first_some k (concat (map (\<lambda>m'. if ?short m' then rx_many n F m' else []) (F m)))"
    by (subst assms) (simp only: eq first_some_concat)
  show ?case
    by (simp only: try_many.simps rx_many.simps step first_some_append first_some.simps)
      (cases "k m"; simp only: option.case)
qed (simp split: option.split)

lemma try_lazy_first:
  assumes "\<And>k m. f k m = first_some k (F m)"
  shows "try_lazy n f k m = first_some k (rx_lazy n F m)"
proof (induction n arbitrary: m)
  case (Suc n)
  let ?short = "\<lambda>m'. length (fst (snd m')) < length (fst (snd m))"
  have eq: "(\<lambda>m'. if ?short m' then try_lazy n f k m' else None) =
      (\<lambda>m'. first_some k (if ?short m' then rx_lazy n F m' else []))"
    by (simp add: Suc fun_eq_iff)
  have step: "f (\<lambda>m'. if ?short m' then try_lazy n f k m' else None) m =
      first_some k (concat (map (\<lambda>m'. if ?short m' then rx_lazy n F m' else []) (F m)))"
    by (subst assms) (simp only: eq first_some_concat)
  show ?case by (simp only: try_lazy.simps rx_lazy.simps step first_some.simps)
qed (simp split: option.split)

lemma rx_try_first: "rx_try r k m = first_some k (rx_run r m)"
proof (induction r arbitrary: k m)
  case (Cat a b)
  have "rx_try b k = (\<lambda>m. first_some k (rx_run b m))" using Cat.IH(2) by blast
  then show ?case by (simp add: Cat.IH(1) first_some_concat)
next
  case (Many a)
  show ?case by (simp add: try_many_first [OF Many.IH])
next
  case (Lazy a)
  show ?case by (simp add: try_lazy_first [OF Lazy.IH])
next
  case (Group n a)
  obtain p s g where m: "m = (p, s, g)" by (cases m)
  show ?case by (simp add: m Group.IH first_some_map case_prod_beta)
qed (auto simp: first_some_append split: list.split option.split prod.split)

lemma rx_try_Some: "rx_try r Some m = (case rx_run r m of [] \<Rightarrow> None | m' # _ \<Rightarrow> Some m')"
  by (simp add: rx_try_first split: list.split)

text \<open>A match extends the text consumed so far.\<close>

definition ends_in :: "place \<Rightarrow> place \<Rightarrow> bool" where
  "ends_in m m' \<longleftrightarrow> (\<exists>t. fst (snd m) = t @ fst (snd m'))"

lemma ends_in_refl: "ends_in m m"
  by (simp add: ends_in_def)

lemma ends_in_trans: "ends_in a b \<Longrightarrow> ends_in b c \<Longrightarrow> ends_in a c"
  by (auto simp: ends_in_def)

lemma rx_many_ends:
  assumes "\<And>m m'. m' \<in> set (f m) \<Longrightarrow> ends_in m m'"
  shows "m' \<in> set (rx_many n f m) \<Longrightarrow> ends_in m m'"
proof (induction n arbitrary: m)
  case (Suc n)
  then consider "m' = m" | m1 where "m1 \<in> set (f m)" "m' \<in> set (rx_many n f m1)"
    by (auto split: if_splits)
  then show ?case
  proof cases
    case 2
    then show ?thesis using Suc.IH assms ends_in_trans by blast
  qed (simp add: ends_in_refl)
qed (simp add: ends_in_refl)

lemma rx_lazy_ends:
  assumes "\<And>m m'. m' \<in> set (f m) \<Longrightarrow> ends_in m m'"
  shows "m' \<in> set (rx_lazy n f m) \<Longrightarrow> ends_in m m'"
proof (induction n arbitrary: m)
  case (Suc n)
  then consider "m' = m" | m1 where "m1 \<in> set (f m)" "m' \<in> set (rx_lazy n f m1)"
    by (auto split: if_splits)
  then show ?case
  proof cases
    case 2
    then show ?thesis using Suc.IH assms ends_in_trans by blast
  qed (simp add: ends_in_refl)
qed (simp add: ends_in_refl)

lemma rx_run_ends: "m' \<in> set (rx_run r m) \<Longrightarrow> ends_in m m'"
proof (induction r arbitrary: m m')
  case (Ch P)
  then show ?case by (auto simp: ends_in_def split: list.splits if_splits)
next
  case (Cat a b)
  then obtain m1 where "m1 \<in> set (rx_run a m)" "m' \<in> set (rx_run b m1)" by auto
  then show ?case using Cat.IH ends_in_trans by blast
next
  case (Many a)
  from Many.prems show ?case by (simp add: rx_many_ends [OF Many.IH])
next
  case (Lazy a)
  from Lazy.prems show ?case by (simp add: rx_lazy_ends [OF Lazy.IH])
next
  case (Group n a)
  obtain p s g where m: "m = (p, s, g)" by (cases m)
  with Group.prems obtain m1 where "m1 \<in> set (rx_run a m)" "fst (snd m') = fst (snd m1)"
    by (auto split: prod.splits)
  then show ?case using Group.IH [of m1 m] by (simp add: ends_in_def)
qed (auto simp: ends_in_refl split: if_splits)

text \<open>The least number of bytes a pattern consumes.\<close>

primrec min_len :: "rx \<Rightarrow> nat" where
  "min_len Eps = 0"
| "min_len (Ch P) = 1"
| "min_len (Cat a b) = min_len a + min_len b"
| "min_len (Or a b) = min (min_len a) (min_len b)"
| "min_len (Many a) = 0"
| "min_len (Lazy a) = 0"
| "min_len (Group n a) = min_len a"
| "min_len BeginText = 0"
| "min_len EndText = 0"
| "min_len BeginLine = 0"
| "min_len EndLine = 0"
| "min_len WordEdge = 0"

lemma ends_in_length: "ends_in m m' \<Longrightarrow> length (fst (snd m')) \<le> length (fst (snd m))"
  by (auto simp: ends_in_def)

lemma rx_run_min_len:
  "m' \<in> set (rx_run r m) \<Longrightarrow> length (fst (snd m')) + min_len r \<le> length (fst (snd m))"
proof (induction r arbitrary: m m')
  case (Ch P)
  then show ?case by (auto split: list.splits if_splits)
next
  case (Cat a b)
  then obtain m1 where "m1 \<in> set (rx_run a m)" "m' \<in> set (rx_run b m1)" by auto
  then have "length (fst (snd m1)) + min_len a \<le> length (fst (snd m))"
    "length (fst (snd m')) + min_len b \<le> length (fst (snd m1))"
    using Cat.IH by blast+
  then show ?case by simp
next
  case (Or a b)
  then have "m' \<in> set (rx_run a m) \<or> m' \<in> set (rx_run b m)" by simp
  then show ?case
  proof
    assume "m' \<in> set (rx_run a m)"
    then show ?thesis using Or.IH(1) [of m' m] by simp
  next
    assume "m' \<in> set (rx_run b m)"
    then show ?thesis using Or.IH(2) [of m' m] by simp
  qed
next
  case (Many a)
  then show ?case using ends_in_length [OF rx_run_ends [OF Many.prems]] by (simp only: min_len.simps add_0_right)
next
  case (Lazy a)
  then show ?case using ends_in_length [OF rx_run_ends [OF Lazy.prems]] by (simp only: min_len.simps add_0_right)
next
  case (Group n a)
  obtain p s g where m: "m = (p, s, g)" by (cases m)
  with Group.prems obtain m1 where "m1 \<in> set (rx_run a m)" "fst (snd m') = fst (snd m1)"
    by (auto split: prod.splits)
  then show ?case using Group.IH [of m1 m] by simp
qed (auto split: if_splits)

lemma rx_find_split:
  "rx_find r p s = Some (pre, m) \<Longrightarrow> \<exists>t q. s = pre @ t \<and> m \<in> set (rx_run r (q, t, []))"
proof (induction r p s arbitrary: pre rule: rx_find.induct)
  case (1 r p)
  then obtain ms where "rx_run r (p, [], []) = m # ms" "pre = []"
    by (auto simp: rx_try_Some split: list.splits)
  then show ?case by (metis append_Nil list.set_intros(1))
next
  case (2 r p c s)
  show ?case
  proof (cases "rx_run r (p, c # s, [])")
    case Nil
    then have none: "rx_try r Some (p, c # s, []) = None" by (simp add: rx_try_Some)
    with 2(2) obtain pre' where pre: "pre = c # pre'" "rx_find r (Some c) s = Some (pre', m)" by auto
    then obtain t q where "s = pre' @ t" "m \<in> set (rx_run r (q, t, []))" using 2(1) none by blast
    then show ?thesis using pre(1) by auto
  next
    case (Cons m1 ms)
    with 2(2) have "pre = []" "m = m1" by (auto simp: rx_try_Some)
    then show ?thesis using Cons by (metis append_Nil list.set_intros(1))
  qed
qed

text \<open>A pattern that consumes something is replaced everywhere: the last branch of \<open>rx_replace\<close> is
  not taken.\<close>

lemma rx_find_shorter:
  assumes "rx_find r p s = Some (pre, p', s', g)" and "0 < min_len r"
  shows "length s' < length s"
proof -
  obtain t q where "s = pre @ t" "(p', s', g) \<in> set (rx_run r (q, t, []))"
    using rx_find_split [OF assms(1)] by blast
  then show ?thesis using rx_run_min_len [of "(p', s', g)" r "(q, t, [])"] assms(2) by simp
qed

lemma rx_replace_step:
  "0 < min_len r \<Longrightarrow> rx_replace r f p s =
     (case rx_find r p s of
        None \<Rightarrow> s
      | Some (pre, p', s', g) \<Rightarrow> pre @ f (rx_group g) @ rx_replace r f p' s')"
  by (subst rx_replace.simps) (auto split: option.split dest: rx_find_shorter)

text \<open>Text that contains no match is kept.\<close>

lemma rx_replace_all_id: "\<not> rx_match r s \<Longrightarrow> rx_replace_all r f s = s"
  unfolding rx_replace_all_def rx_match_def not_not by (subst rx_replace.simps) (simp only: option.case)

text \<open>Repetition of a class: the longest run first.\<close>

lemma rx_many_none:
  "(s = [] \<or> \<not> P (hd s)) \<Longrightarrow> rx_run (Many (Ch P)) (p, s, g) = [(p, s, g)]"
  by (cases s) auto

lemma rx_many_fuel:
  assumes "length s \<le> n" "length s \<le> k"
  shows "rx_many n (rx_run (Ch P)) (p, s, g) = rx_many k (rx_run (Ch P)) (p, s, g)"
  using assms
proof (induction n arbitrary: k p s)
  case 0
  then show ?case by (cases k) auto
next
  case (Suc n)
  show ?case
  proof (cases s)
    case Nil
    then show ?thesis by (cases k) auto
  next
    case (Cons c t)
    with Suc.prems obtain k' where k: "k = Suc k'" by (cases k) auto
    have "rx_many n (rx_run (Ch P)) (Some c, t, g) = rx_many k' (rx_run (Ch P)) (Some c, t, g)"
      using Suc.prems Cons k by (intro Suc.IH) auto
    moreover have "rx_run (Ch P) (p, c # t, g) = (if P c then [(Some c, t, g)] else [])" by simp
    ultimately show ?thesis by (simp add: Cons k del: rx_run.simps)
  qed
qed

lemma rx_many_some:
  "P c \<Longrightarrow> rx_run (Many (Ch P)) (p, c # s, g) = rx_run (Many (Ch P)) (Some c, s, g) @ [(p, c # s, g)]"
  by simp

lemma rx_many_longest:
  "\<exists>ms q. rx_run (Many (Ch P)) (p, s, g) = (q, dropWhile P s, g) # ms \<and>
     (\<forall>m\<in>set ms. fst (snd m) \<noteq> [] \<and> P (hd (fst (snd m))))"
proof (induction s arbitrary: p)
  case Nil
  then show ?case by simp
next
  case (Cons c s)
  show ?case
  proof (cases "P c")
    case True
    obtain ms q where "rx_run (Many (Ch P)) (Some c, s, g) = (q, dropWhile P s, g) # ms"
      "\<forall>m\<in>set ms. fst (snd m) \<noteq> [] \<and> P (hd (fst (snd m)))"
      using Cons by blast
    then have "rx_run (Many (Ch P)) (p, c # s, g) = (q, dropWhile P (c # s), g) # (ms @ [(p, c # s, g)])"
      "\<forall>m\<in>set (ms @ [(p, c # s, g)]). fst (snd m) \<noteq> [] \<and> P (hd (fst (snd m)))"
      using True rx_many_some [of P c p s g] by auto
    then show ?thesis by blast
  next
    case False
    then have "rx_run (Many (Ch P)) (p, c # s, g) = [(p, dropWhile P (c # s), g)]" by simp
    then show ?thesis by simp
  qed
qed

end
