(* ===== verification/Crontab.thy ===== *)
theory Crontab
  imports GoRegexp
begin

text \<open>
  \<open>internal/cpanel/cron.go\<close> and \<open>cron_apply.go\<close>: masking credentials in a command, parsing a crontab,
  and reading and installing it over SSH. The hash function is a parameter (the hex digest of
  \<open>crypto/sha256\<close>), and so is the other side of the connection: what a script answers, as a function of
  the scripts run before.
\<close>

section \<open>Masking\<close>

definition squote :: char where "squote = CHR 0x27"
definition dquote :: char where "dquote = CHR 0x22"
definition newline :: char where "newline = CHR 0x0A"

definition placeholder :: string where
  "placeholder = ''[REDACTED]''"

definition is_alpha :: "char \<Rightarrow> bool" where
  "is_alpha c \<longleftrightarrow> is_upper c \<or> is_lower c"

definition is_alnum :: "char \<Rightarrow> bool" where
  "is_alnum c \<longleftrightarrow> is_alpha c \<or> is_digit c"

definition sensitive_fragments :: "string list" where
  "sensitive_fragments =
     [''pass'', ''pwd'', ''token'', ''secret'', ''secure'', ''key'', ''auth'', ''cred'', ''bearer'']"

definition is_sensitive_cron_name :: "string \<Rightarrow> bool" where
  "is_sensitive_cron_name name = list_ex (contains (to_lower name)) sensitive_fragments"

definition name_char :: "char \<Rightarrow> bool" where
  "name_char c \<longleftrightarrow> is_alnum c \<or> c = CHR ''_'' \<or> c = CHR ''-''"

definition unquoted :: rx where
  "unquoted = some_of (Ch (\<lambda>c. \<not> rx_space c \<and> c \<noteq> dquote \<and> c \<noteq> squote))"

definition quoted_value :: rx where
  "quoted_value =
     ors [cats [one_of [dquote], Many (none_of [dquote]), one_of [dquote]],
          cats [one_of [squote], Many (none_of [squote]), one_of [squote]],
          some_of (Ch (\<lambda>c. c \<noteq> CHR ''&'' \<and> \<not> rx_space c \<and> c \<noteq> dquote \<and> c \<noteq> squote))]"

definition secret_words :: "string list" where
  "secret_words = [''pass'', ''pwd'', ''token'', ''secret'', ''secure'', ''key'', ''auth'', ''cred'']"

definition cron_url_creds_re :: rx where
  "cron_url_creds_re =
     cats [Group 1 (cats [Ch is_alpha, Many (Ch (\<lambda>c. is_alnum c \<or> c \<in> set ''+.-'')), lit ''://'']),
           some_of (Ch (\<lambda>c. c \<noteq> CHR ''/'' \<and> \<not> rx_space c)), lit ''@'']"

definition cron_bearer_re :: rx where
  "cron_bearer_re =
     cats [WordEdge, Group 1 (Or (lit_fold ''bearer'') (lit_fold ''basic'')),
           Group 2 (some_of (one_of '' :'')), unquoted]"

definition cron_dash_p_re :: rx where
  "cron_dash_p_re =
     cats [Group 1 (Or BeginText (Ch rx_space)), lit ''-p'', Group 2 unquoted]"

definition cron_flag_value_re :: rx where
  "cron_flag_value_re =
     cats [Group 1 (cats [Or BeginText (Ch rx_space), lit ''-'', Or (lit ''-'') Eps, Many (Ch name_char),
             ors (map lit_fold (secret_words @ [''user''])), Many (Ch name_char), one_of ''= '',
             Many (Ch rx_space)]),
           Group 2 quoted_value]"

definition cron_key_value_re :: rx where
  "cron_key_value_re =
     cats [Group 1 (cats [Many (Ch name_char), ors (map lit_fold secret_words), Many (Ch name_char),
             lit ''='', Many (Ch rx_space)]),
           Group 2 quoted_value]"

definition redact_cron_command :: "string \<Rightarrow> string" where
  "redact_cron_command cmd =
     rx_replace_all cron_key_value_re (\<lambda>g. g 1 @ placeholder)
       (rx_replace_all cron_flag_value_re (\<lambda>g. g 1 @ placeholder)
         (rx_replace_all cron_dash_p_re (\<lambda>g. g 1 @ ''-p'' @ placeholder)
           (rx_replace_all cron_bearer_re (\<lambda>g. g 1 @ g 2 @ placeholder)
             (rx_replace_all cron_url_creds_re (\<lambda>g. g 1 @ placeholder @ ''@'') cmd))))"

section \<open>Jobs and variables\<close>

record cron_env_var =
  cv_name :: string
  cv_redacted :: string
  cv_raw :: string
  cv_line :: nat

record crontab_job =
  ct_type :: string
  ct_minute :: string
  ct_hour :: string
  ct_day_of_month :: string
  ct_month :: string
  ct_day_of_week :: string
  ct_macro :: string
  ct_redacted :: string
  ct_raw :: string
  ct_sha :: string
  ct_raw_line_sha :: string
  ct_raw_line :: string
  ct_enabled :: bool
  ct_line :: nat
  ct_warnings :: "string list"

record crontab_result =
  cr_jobs :: "crontab_job list"
  cr_environment :: "cron_env_var list"
  cr_comments_count :: nat
  cr_disabled_count :: nat
  cr_warnings :: "string list"

definition new_crontab_result :: crontab_result where
  "new_crontab_result = \<lparr>cr_jobs = [], cr_environment = [], cr_comments_count = 0, cr_disabled_count = 0,
     cr_warnings = []\<rparr>"

definition sha256_tag :: "(string \<Rightarrow> string) \<Rightarrow> string \<Rightarrow> string" where
  "sha256_tag sha s = ''sha256:'' @ sha s"

section \<open>One line\<close>

definition blank :: "char \<Rightarrow> bool" where
  "blank c \<longleftrightarrow> c = CHR '' '' \<or> c = CHR 0x09"

text \<open>\<open>splitScheduleFields\<close>: so many fields, and what follows them.\<close>

fun take_fields :: "nat \<Rightarrow> string \<Rightarrow> (string list \<times> string) option" where
  "take_fields 0 rest = Some ([], rest)"
| "take_fields (Suc n) rest =
     (let rest' = dropWhile blank rest in
      if \<not> list_ex blank rest' then None
      else map_option (\<lambda>(fs, r). (takeWhile (\<lambda>c. \<not> blank c) rest' # fs, r))
             (take_fields n (dropWhile (\<lambda>c. \<not> blank c) rest')))"

definition split_schedule_fields :: "string \<Rightarrow> (string list \<times> string) option" where
  "split_schedule_fields line =
     (case take_fields 5 line of
        None \<Rightarrow> None
      | Some (fs, rest) \<Rightarrow>
          if trim_space rest = [] then None else Some (fs, trim_space rest))"

definition cron_macros :: "string list" where
  "cron_macros = [''@reboot'', ''@yearly'', ''@annually'', ''@monthly'', ''@weekly'', ''@daily'',
     ''@midnight'', ''@hourly'']"

text \<open>\<open>^[0-9*,/-]+$\<close> and \<open>^[0-9A-Za-z*,/-]+$\<close>.\<close>

definition cron_numeric_field :: "string \<Rightarrow> bool" where
  "cron_numeric_field s \<longleftrightarrow> s \<noteq> [] \<and> list_all (\<lambda>c. is_digit c \<or> c \<in> set ''*,/-'') s"

definition cron_named_field :: "string \<Rightarrow> bool" where
  "cron_named_field s \<longleftrightarrow> s \<noteq> [] \<and> list_all (\<lambda>c. is_alnum c \<or> c \<in> set ''*,/-'') s"

definition job_of_command :: "(string \<Rightarrow> string) \<Rightarrow> string \<Rightarrow> crontab_job" where
  "job_of_command sha command =
     \<lparr>ct_type = [], ct_minute = [], ct_hour = [], ct_day_of_month = [], ct_month = [], ct_day_of_week = [],
      ct_macro = [], ct_redacted = redact_cron_command command, ct_raw = command,
      ct_sha = sha256_tag sha (redact_cron_command command), ct_raw_line_sha = [], ct_raw_line = [],
      ct_enabled = False, ct_line = 0, ct_warnings = []\<rparr>"

definition try_parse_job :: "(string \<Rightarrow> string) \<Rightarrow> string \<Rightarrow> crontab_job option" where
  "try_parse_job sha line =
     (if has_prefix line ''@'' then
        (if \<not> list_ex blank line then None
         else (let macro = takeWhile (\<lambda>c. \<not> blank c) line;
                   command = trim_space (dropWhile (\<lambda>c. \<not> blank c) line)
           in if macro \<notin> set cron_macros \<or> command = [] then None
              else Some ((job_of_command sha command)\<lparr>ct_type := ''macro'', ct_macro := macro\<rparr>)))
      else (case split_schedule_fields line of
              None \<Rightarrow> None
            | Some (fs, command) \<Rightarrow>
                if list_all cron_numeric_field (take 3 fs) \<and> list_all cron_named_field (drop 3 fs)
                then Some ((job_of_command sha command)
                  \<lparr>ct_type := ''schedule'', ct_minute := fs ! 0, ct_hour := fs ! 1,
                   ct_day_of_month := fs ! 2, ct_month := fs ! 3, ct_day_of_week := fs ! 4\<rparr>)
                else None))"

text \<open>\<open>^([A-Za-z_][A-Za-z0-9_]*)\s*=\s*(.*)$\<close> on a line.\<close>

definition cron_env_line :: rx where
  "cron_env_line =
     cats [BeginText, Group 1 (Cat (Ch (\<lambda>c. is_alpha c \<or> c = CHR ''_'')) (Many (Ch is_word))),
           Many (Ch rx_space), lit ''='', Many (Ch rx_space),
           Group 2 (Many (Ch (\<lambda>c. c \<noteq> newline))), EndText]"

definition env_var_of :: "nat \<Rightarrow> string \<Rightarrow> string \<Rightarrow> cron_env_var" where
  "env_var_of n name value =
     \<lparr>cv_name = name,
      cv_redacted = (if is_sensitive_cron_name name then placeholder else redact_cron_command value),
      cv_raw = value, cv_line = n\<rparr>"

definition unparsable :: "(string \<Rightarrow> string) \<Rightarrow> nat \<Rightarrow> string \<Rightarrow> string" where
  "unparsable sha n line =
     ''line '' @ itoa (int n) @ '' unparsable ('' @ sha256_tag sha (redact_cron_command line) @ '')''"

definition parse_line :: "(string \<Rightarrow> string) \<Rightarrow> nat \<Rightarrow> string \<Rightarrow> crontab_result \<Rightarrow> crontab_result" where
  "parse_line sha n line res =
     (let t = trim_space line; line_sha = sha256_tag sha (redact_cron_command line) in
      if t = [] then res
      else if has_prefix t ''#'' then
        (case try_parse_job sha (trim_space (trim_prefix t ''#'')) of
           Some j \<Rightarrow> res\<lparr>cr_jobs := cr_jobs res @ [j\<lparr>ct_enabled := False, ct_line := n,
                          ct_raw_line_sha := line_sha, ct_raw_line := line\<rparr>],
                        cr_disabled_count := Suc (cr_disabled_count res)\<rparr>
         | None \<Rightarrow> res\<lparr>cr_comments_count := Suc (cr_comments_count res)\<rparr>)
      else (case rx_submatch cron_env_line t of
              Some m \<Rightarrow> res\<lparr>cr_environment := cr_environment res @ [env_var_of n (m 1) (m 2)]\<rparr>
            | None \<Rightarrow>
                (case try_parse_job sha t of
                   Some j \<Rightarrow> res\<lparr>cr_jobs := cr_jobs res @ [j\<lparr>ct_enabled := True, ct_line := n,
                                  ct_raw_line_sha := line_sha, ct_raw_line := t\<rparr>]\<rparr>
                 | None \<Rightarrow> res\<lparr>cr_warnings := cr_warnings res @ [unparsable sha n line]\<rparr>)))"

section \<open>A crontab\<close>

fun parse_lines :: "(string \<Rightarrow> string) \<Rightarrow> nat \<Rightarrow> string list \<Rightarrow> crontab_result \<Rightarrow> crontab_result" where
  "parse_lines sha n [] res = res"
| "parse_lines sha n (l # ls) res = parse_lines sha (Suc n) ls (parse_line sha n l res)"

definition parse_crontab :: "(string \<Rightarrow> string) \<Rightarrow> string \<Rightarrow> crontab_result" where
  "parse_crontab sha raw = parse_lines sha 1 (split_byte newline raw) new_crontab_result"

section \<open>Reading over SSH\<close>

type_synonym script_call = "string \<times> (string, string) gomap"
type_synonym script_log = "script_call list"
type_synonym runner = "script_log \<Rightarrow> script_call \<Rightarrow> string + string"

definition crontab_script :: string where
  "crontab_script = ''out=$(crontab -l 2>&1); rc=$?; printf '' @ [squote] @ ''%s'' @ [CHR 0x5C]
     @ ''n__CRONTAB_RC:%d__'' @ [CHR 0x5C] @ ''n'' @ [squote, CHR '' '', dquote] @ ''$out'' @ [dquote, CHR '' '', dquote]
     @ ''$rc'' @ [dquote]"

definition trim_right_byte :: "char \<Rightarrow> string \<Rightarrow> string" where
  "trim_right_byte c s = rev (dropWhile (\<lambda>d. d = c) (rev s))"

text \<open>\<open>^__CRONTAB_RC:([0-9]+)__$\<close>\<close>

definition cron_rc_line_re :: rx where
  "cron_rc_line_re = cats [BeginText, lit ''__CRONTAB_RC:'', Group 1 (some_of (Ch is_digit)), lit ''__'', EndText]"

definition max_int64 :: int where "max_int64 = 9223372036854775807"

text \<open>\<open>strconv.Atoi\<close> of a run of digits.\<close>

definition atoi_digits :: "string \<Rightarrow> string + int" where
  "atoi_digits s =
     (if int (digits_value s) > max_int64
      then Inl (''strconv.Atoi: parsing '' @ go_quote s @ '': value out of range'')
      else Inr (int (digits_value s)))"

definition split_cron_marker :: "string \<Rightarrow> string + string \<times> int" where
  "split_cron_marker out =
     (let ls = split_byte newline (trim_right_byte newline out) in
      case rx_submatch cron_rc_line_re (last ls) of
        None \<Rightarrow> Inl (''crontab -l: RC marker missing in output ('' @ itoa (int (length out)) @ '' bytes)'')
      | Some m \<Rightarrow>
          (case atoi_digits (m 1) of
             Inl e \<Rightarrow> Inl (''crontab -l: unreadable RC marker: '' @ e)
           | Inr rc \<Rightarrow> Inr (join [newline] (butlast ls), rc)))"

text \<open>The runes of a text; a byte that starts none reads as the replacement character.\<close>

function runes :: "string \<Rightarrow> string list" where
  "runes s =
     (if s = [] then []
      else if rune_len s = 0 then [CHR 0xEF, CHR 0xBF, CHR 0xBD] # runes (tl s)
      else take (rune_len s) s # runes (drop (rune_len s) s))"
  by pat_completeness auto
termination
  by (relation "measure length") auto

declare runes.simps [simp del]

definition ellipsis :: string where
  "ellipsis = [CHR 0xE2, CHR 0x80, CHR 0xA6]"

definition mentions_no_crontab :: "string \<Rightarrow> bool" where
  "mentions_no_crontab content = contains (to_lower content) ''no crontab''"

definition read_call :: script_call where
  "read_call = (crontab_script, [])"

definition fetch_crontab ::
  "(string \<Rightarrow> string) \<Rightarrow> runner \<Rightarrow> script_log \<Rightarrow> (string + crontab_result) \<times> script_log" where
  "fetch_crontab sha run log =
     ((case run log read_call of
         Inl e \<Rightarrow> Inl (''crontab -l: '' @ e)
       | Inr out \<Rightarrow>
           (case split_cron_marker out of
              Inl e \<Rightarrow> Inl e
            | Inr (content, rc) \<Rightarrow>
                if rc = 0 then Inr (parse_crontab sha content)
                else if mentions_no_crontab content then
                  Inr (new_crontab_result\<lparr>cr_warnings := [''no crontab installed for this user (empty)'']\<rparr>)
                else (let msg = redact_cron_command content;
                          msg' = (if length (runes msg) > 200 then concat (take 200 (runes msg)) @ ellipsis else msg)
                  in Inl (''crontab -l failed (rc='' @ itoa rc @ ''): '' @ msg')))),
      log @ [read_call])"

definition read_crontab_raw :: "runner \<Rightarrow> script_log \<Rightarrow> (string + string) \<times> script_log" where
  "read_crontab_raw run log =
     ((case run log read_call of
         Inl e \<Rightarrow> Inl (''crontab -l raw: '' @ e)
       | Inr out \<Rightarrow>
           (case split_cron_marker out of
              Inl e \<Rightarrow> Inl e
            | Inr (content, rc) \<Rightarrow>
                if rc \<noteq> 0 then
                  (if mentions_no_crontab content then Inr []
                   else Inl (''crontab -l failed (rc='' @ itoa rc @ '')''))
                else Inr content)),
      log @ [read_call])"

section \<open>Writing over SSH\<close>

definition install_script :: string where
  "install_script = ''printf '' @ [squote] @ ''%s'' @ [squote, CHR '' '', dquote] @ ''$CRONTAB_CONTENT'' @ [dquote]
     @ '' | crontab - 2>&1; echo '' @ [dquote] @ ''RC=$?'' @ [dquote]"

definition install_call :: "string \<Rightarrow> script_call" where
  "install_call content = (install_script, [(''CRONTAB_CONTENT'', content)])"

definition install_crontab :: "runner \<Rightarrow> string \<Rightarrow> script_log \<Rightarrow> (string + unit) \<times> script_log" where
  "install_crontab run content log =
     ((case run log (install_call content) of
         Inl e \<Rightarrow> Inl (''crontab install: '' @ e)
       | Inr out \<Rightarrow>
           if has_suffix (trim_space out) ''RC=0'' then Inr ()
           else Inl (''crontab install: unexpected output '' @ go_quote (trim_space out))),
      log @ [install_call content])"

end
