(* ===== verification/CrontabLaws.thy ===== *)
theory CrontabLaws
  imports Crontab
begin

text \<open>
  What the crontab parser does with a file: every line is one of a blank, a comment, a variable, a job
  or a warning; a file is parsed line by line, so text appended to it changes nothing before; the line
  kept for a job and the text written for a variable parse back to what they came from. A command with
  none of the characters a masking pattern needs is kept as it is.
\<close>

section \<open>Results line by line\<close>

definition join_results :: "crontab_result \<Rightarrow> crontab_result \<Rightarrow> crontab_result" where
  "join_results a b =
     \<lparr>cr_jobs = cr_jobs a @ cr_jobs b, cr_environment = cr_environment a @ cr_environment b,
      cr_comments_count = cr_comments_count a + cr_comments_count b,
      cr_disabled_count = cr_disabled_count a + cr_disabled_count b,
      cr_warnings = cr_warnings a @ cr_warnings b\<rparr>"

lemma join_results_new [simp]:
  "join_results new_crontab_result a = a" "join_results a new_crontab_result = a"
  by (simp_all add: join_results_def new_crontab_result_def)

lemma join_results_assoc: "join_results (join_results a b) c = join_results a (join_results b c)"
  by (simp add: join_results_def)

lemma join_results_sel [simp]:
  "cr_jobs (join_results a b) = cr_jobs a @ cr_jobs b"
  "cr_environment (join_results a b) = cr_environment a @ cr_environment b"
  "cr_comments_count (join_results a b) = cr_comments_count a + cr_comments_count b"
  "cr_disabled_count (join_results a b) = cr_disabled_count a + cr_disabled_count b"
  "cr_warnings (join_results a b) = cr_warnings a @ cr_warnings b"
  by (simp_all add: join_results_def)

definition line_result :: "(string \<Rightarrow> string) \<Rightarrow> nat \<Rightarrow> string \<Rightarrow> crontab_result" where
  "line_result sha n l = parse_line sha n l new_crontab_result"

lemma parse_line_join: "parse_line sha n l res = join_results res (line_result sha n l)"
  by (simp add: line_result_def parse_line_def Let_def join_results_def new_crontab_result_def
      split: option.split)

fun lines_result :: "(string \<Rightarrow> string) \<Rightarrow> nat \<Rightarrow> string list \<Rightarrow> crontab_result" where
  "lines_result sha n [] = new_crontab_result"
| "lines_result sha n (l # ls) = join_results (line_result sha n l) (lines_result sha (Suc n) ls)"

lemma parse_lines_join: "parse_lines sha n ls res = join_results res (lines_result sha n ls)"
  by (induction ls arbitrary: n res) (simp_all add: parse_line_join join_results_assoc)

lemma parse_crontab_lines: "parse_crontab sha raw = lines_result sha 1 (split_byte newline raw)"
  by (simp add: parse_crontab_def parse_lines_join)

lemma lines_result_append:
  "lines_result sha n (xs @ ys) = join_results (lines_result sha n xs) (lines_result sha (n + length xs) ys)"
  by (induction xs arbitrary: n) (simp_all add: join_results_assoc)

section \<open>The kinds of a line\<close>

datatype line_kind = Blank | Comment | Job crontab_job | Variable cron_env_var | Warned string

definition kind_of :: "(string \<Rightarrow> string) \<Rightarrow> nat \<Rightarrow> string \<Rightarrow> line_kind" where
  "kind_of sha n line =
     (let t = trim_space line; line_sha = sha256_tag sha (redact_cron_command line) in
      if t = [] then Blank
      else if has_prefix t ''#'' then
        (case try_parse_job sha (trim_space (trim_prefix t ''#'')) of
           Some j \<Rightarrow> Job (j\<lparr>ct_enabled := False, ct_line := n, ct_raw_line_sha := line_sha, ct_raw_line := line\<rparr>)
         | None \<Rightarrow> Comment)
      else (case rx_submatch cron_env_line t of
              Some m \<Rightarrow> Variable (env_var_of n (m 1) (m 2))
            | None \<Rightarrow>
                (case try_parse_job sha t of
                   Some j \<Rightarrow> Job (j\<lparr>ct_enabled := True, ct_line := n, ct_raw_line_sha := line_sha,
                                 ct_raw_line := t\<rparr>)
                 | None \<Rightarrow> Warned (unparsable sha n line))))"

definition result_of_kind :: "line_kind \<Rightarrow> crontab_result" where
  "result_of_kind k =
     (case k of
        Blank \<Rightarrow> new_crontab_result
      | Comment \<Rightarrow> new_crontab_result\<lparr>cr_comments_count := 1\<rparr>
      | Job j \<Rightarrow> new_crontab_result\<lparr>cr_jobs := [j], cr_disabled_count := (if ct_enabled j then 0 else 1)\<rparr>
      | Variable e \<Rightarrow> new_crontab_result\<lparr>cr_environment := [e]\<rparr>
      | Warned w \<Rightarrow> new_crontab_result\<lparr>cr_warnings := [w]\<rparr>)"

lemma line_result_kind: "line_result sha n l = result_of_kind (kind_of sha n l)"
  by (simp add: line_result_def parse_line_def kind_of_def result_of_kind_def Let_def new_crontab_result_def
      split: option.split)

lemma kind_blank: "kind_of sha n l = Blank \<longleftrightarrow> trim_space l = []"
  by (simp add: kind_of_def Let_def split: option.split)

lemma kind_job:
  assumes "kind_of sha n l = Job j"
  shows "ct_line j = n \<and> ct_raw_line j = (if ct_enabled j then trim_space l else l) \<and> trim_space l \<noteq> []"
  using assms by (auto simp: kind_of_def Let_def split: option.splits if_splits)

lemma kind_variable:
  "kind_of sha n l = Variable e \<Longrightarrow> is_sensitive_cron_name (cv_name e) \<Longrightarrow> cv_redacted e = placeholder"
  by (auto simp: kind_of_def Let_def env_var_of_def split: option.splits if_splits)

section \<open>Every line is accounted for\<close>

definition size_result :: "crontab_result \<Rightarrow> nat" where
  "size_result res =
     length (cr_jobs res) + length (cr_environment res) + cr_comments_count res + length (cr_warnings res)"

lemma size_join: "size_result (join_results a b) = size_result a + size_result b"
  by (simp add: size_result_def)

lemma size_line: "size_result (line_result sha n l) = (if trim_space l = [] then 0 else 1)"
  using kind_blank [of sha n l]
  by (cases "kind_of sha n l") (simp_all add: line_result_kind result_of_kind_def size_result_def new_crontab_result_def)

lemma size_lines: "size_result (lines_result sha n ls) = count_if (\<lambda>l. trim_space l \<noteq> []) ls"
  by (induction ls arbitrary: n) (simp_all add: size_join size_line, simp add: size_result_def new_crontab_result_def)

lemma line_jobs:
  "j \<in> set (cr_jobs (line_result sha n l)) \<longleftrightarrow> kind_of sha n l = Job j"
  by (cases "kind_of sha n l") (auto simp: line_result_kind result_of_kind_def new_crontab_result_def)

lemma line_jobs_le: "length (cr_jobs (line_result sha n l)) \<le> 1"
  by (cases "kind_of sha n l") (simp_all add: line_result_kind result_of_kind_def new_crontab_result_def)

lemma line_environment:
  "e \<in> set (cr_environment (line_result sha n l)) \<longleftrightarrow> kind_of sha n l = Variable e"
  by (cases "kind_of sha n l") (auto simp: line_result_kind result_of_kind_def new_crontab_result_def)

lemma lines_jobs:
  "j \<in> set (cr_jobs (lines_result sha n ls)) \<longleftrightarrow> (\<exists>i<length ls. kind_of sha (n + i) (ls ! i) = Job j)"
proof (induction ls arbitrary: n)
  case (Cons l ls)
  show ?case
    by (simp add: line_jobs Cons Ex_less_Suc2)
qed (simp add: new_crontab_result_def)

lemma lines_environment:
  "e \<in> set (cr_environment (lines_result sha n ls)) \<longleftrightarrow>
     (\<exists>i<length ls. kind_of sha (n + i) (ls ! i) = Variable e)"
proof (induction ls arbitrary: n)
  case (Cons l ls)
  show ?case
    by (simp add: line_environment Cons Ex_less_Suc2)
qed (simp add: new_crontab_result_def)

lemma disabled_line:
  "cr_disabled_count (line_result sha n l) = count_if (\<lambda>j. \<not> ct_enabled j) (cr_jobs (line_result sha n l))"
  by (cases "kind_of sha n l") (simp_all add: line_result_kind result_of_kind_def new_crontab_result_def)

lemma disabled_lines:
  "cr_disabled_count (lines_result sha n ls) = count_if (\<lambda>j. \<not> ct_enabled j) (cr_jobs (lines_result sha n ls))"
  by (induction ls arbitrary: n) (simp_all add: disabled_line, simp add: new_crontab_result_def)

lemma job_line_numbers:
  "j \<in> set (cr_jobs (lines_result sha n ls)) \<Longrightarrow> n \<le> ct_line j \<and> ct_line j < n + length ls"
  using kind_job by (fastforce simp: lines_jobs)

lemma lines_sorted: "sorted_wrt (<) (map ct_line (cr_jobs (lines_result sha n ls)))"
proof (induction ls arbitrary: n)
  case (Cons l ls)
  have "sorted_wrt (<) (map ct_line (cr_jobs (line_result sha n l)))"
    using line_jobs_le [of sha n l] by (cases "cr_jobs (line_result sha n l)") auto
  moreover have "ct_line j < ct_line k"
    if "j \<in> set (cr_jobs (line_result sha n l))" "k \<in> set (cr_jobs (lines_result sha (Suc n) ls))" for j k
    using that kind_job [of sha n l j] job_line_numbers [of k sha "Suc n" ls] by (simp add: line_jobs)
  ultimately show ?case using Cons by (auto simp: sorted_wrt_append)
qed (simp add: new_crontab_result_def)

text \<open>Every line of a crontab that is not blank is counted exactly once, as a comment, a job, a
  variable or a warning; the disabled count is the number of jobs that are not enabled; the jobs come in
  the order of their lines, each with its own line number and the text of that line; and the value of a
  variable with a sensitive name is masked.\<close>

theorem crontab_lines_accounted:
  "(let res = parse_crontab sha raw; ls = split_byte newline raw in
    length (cr_jobs res) + length (cr_environment res) + cr_comments_count res + length (cr_warnings res)
      = count_if (\<lambda>l. trim_space l \<noteq> []) ls \<and>
    cr_disabled_count res = count_if (\<lambda>j. \<not> ct_enabled j) (cr_jobs res) \<and>
    sorted_wrt (<) (map ct_line (cr_jobs res)) \<and>
    list_all (\<lambda>j. 1 \<le> ct_line j \<and> ct_line j \<le> length ls \<and>
      (let l = ls ! (ct_line j - 1) in ct_raw_line j = (if ct_enabled j then trim_space l else l))) (cr_jobs res) \<and>
    list_all (\<lambda>e. cv_redacted e = (if is_sensitive_cron_name (cv_name e) then placeholder
      else redact_cron_command (cv_raw e))) (cr_environment res))"
proof -
  let ?ls = "split_byte newline raw" and ?res = "parse_crontab sha raw"
  have res: "?res = lines_result sha 1 ?ls" by (rule parse_crontab_lines)
  have jobs: "1 \<le> ct_line j \<and> ct_line j \<le> length ?ls \<and>
      ct_raw_line j = (if ct_enabled j then trim_space (?ls ! (ct_line j - 1)) else ?ls ! (ct_line j - 1))"
    if j: "j \<in> set (cr_jobs ?res)" for j
  proof -
    obtain i where i: "i < length ?ls" "kind_of sha (1 + i) (?ls ! i) = Job j"
      using j unfolding res lines_jobs by blast
    then show ?thesis using kind_job [OF i(2)] by simp
  qed
  have env: "cv_redacted e = (if is_sensitive_cron_name (cv_name e) then placeholder
      else redact_cron_command (cv_raw e))" if e: "e \<in> set (cr_environment ?res)" for e
  proof -
    obtain i where "kind_of sha (1 + i) (?ls ! i) = Variable e"
      using e unfolding res lines_environment by blast
    then show ?thesis
      by (auto simp: kind_of_def Let_def env_var_of_def split: option.splits if_splits)
  qed
  show ?thesis
    unfolding Let_def list_all_iff
    using size_lines [of sha 1 ?ls, folded res] disabled_lines [of sha 1 ?ls, folded res]
      lines_sorted [of sha 1 ?ls, folded res] jobs env
    by (simp add: size_result_def)
qed

section \<open>Text added to a crontab\<close>

lemma split_byte_append_line:
  "sep \<notin> set l \<Longrightarrow> split_byte sep (l @ sep # s) = l # split_byte sep s"
  by (induction l) auto

lemma split_byte_lines:
  assumes "\<forall>l\<in>set ls. sep \<notin> set l"
  shows "split_byte sep (concat (map (\<lambda>l. l @ [sep]) ls)) = ls @ [[]]"
  using assms by (induction ls) (simp_all add: split_byte_append_line)

lemma split_byte_append:
  "split_byte sep (s @ sep # t) = split_byte sep s @ split_byte sep t"
  by (induction s) (auto simp: split_byte_nonempty Cons_eq_append_conv append_eq_Cons_conv split: list.split)

lemma line_blank: "kind_of sha n [] = Blank"
  by (simp add: kind_blank trim_space_def trim_left_space_def trim_right_space_def)

lemma line_result_blank: "line_result sha n [] = new_crontab_result"
  by (simp add: line_result_kind line_blank result_of_kind_def)

lemma lines_result_blank: "lines_result sha n [[]] = new_crontab_result"
  by (simp add: line_result_kind line_blank result_of_kind_def)

lemma lines_result_blank_end: "lines_result sha n (ls @ [[]]) = lines_result sha n ls"
  by (simp add: lines_result_append line_result_kind line_blank result_of_kind_def)

text \<open>Lines appended to a crontab that ends in a line break, or is empty, are parsed after everything
  that was there.\<close>

lemma parse_appended:
  assumes "cur = [] \<or> (\<exists>c. cur = c @ [newline])" and "\<forall>l\<in>set ls. newline \<notin> set l"
  shows "\<exists>n. parse_crontab sha (cur @ concat (map (\<lambda>l. l @ [newline]) ls)) =
    join_results (parse_crontab sha cur) (lines_result sha n ls)"
  using assms(1)
proof
  assume "cur = []"
  then show ?thesis
    using assms(2)
    by (intro exI [of _ 1]) (simp add: parse_crontab_lines split_byte_lines lines_result_blank_end
        line_result_kind line_blank result_of_kind_def)
next
  assume "\<exists>c. cur = c @ [newline]"
  then obtain c where c: "cur = c @ [newline]" ..
  have "split_byte newline (cur @ concat (map (\<lambda>l. l @ [newline]) ls)) = split_byte newline c @ ls @ [[]]"
    using assms(2) by (simp add: c split_byte_append split_byte_lines)
  moreover have "split_byte newline cur = split_byte newline c @ [[]]"
    by (simp add: c split_byte_append)
  ultimately show ?thesis
    by (intro exI [of _ "1 + length (split_byte newline c)"])
      (simp add: parse_crontab_lines lines_result_append line_result_blank lines_result_blank_end join_results_assoc)
qed

section \<open>Patterns that need a character\<close>

text \<open>Every match of the pattern consumes a byte that satisfies \<open>P\<close>.\<close>

primrec needs :: "(char \<Rightarrow> bool) \<Rightarrow> rx \<Rightarrow> bool" where
  "needs P Eps = False"
| "needs P (Ch Q) = (\<forall>c. Q c \<longrightarrow> P c)"
| "needs P (Cat a b) = (needs P a \<or> needs P b)"
| "needs P (Or a b) = (needs P a \<and> needs P b)"
| "needs P (Many a) = False"
| "needs P (Lazy a) = False"
| "needs P (Group n a) = needs P a"
| "needs P BeginText = False"
| "needs P EndText = False"
| "needs P BeginLine = False"
| "needs P EndLine = False"
| "needs P WordEdge = False"

lemma needs_run:
  assumes "needs P r" and "m' \<in> set (rx_run r m)"
  shows "\<exists>t. fst (snd m) = t @ fst (snd m') \<and> (\<exists>c\<in>set t. P c)"
  using assms
proof (induction r arbitrary: m m')
  case (Ch Q)
  then show ?case by (auto split: list.splits if_splits)
next
  case (Cat a b)
  then obtain m1 where m1: "m1 \<in> set (rx_run a m)" "m' \<in> set (rx_run b m1)" by auto
  obtain t u where tu: "fst (snd m) = t @ fst (snd m1)" "fst (snd m1) = u @ fst (snd m')"
    using rx_run_ends [OF m1(1)] rx_run_ends [OF m1(2)] by (auto simp: ends_in_def)
  have "needs P a \<or> needs P b" using Cat.prems(1) by simp
  then have "(\<exists>c\<in>set t. P c) \<or> (\<exists>c\<in>set u. P c)"
  proof
    assume "needs P a"
    from Cat.IH(1) [OF this m1(1)] tu(1) show ?thesis by auto
  next
    assume "needs P b"
    from Cat.IH(2) [OF this m1(2)] tu(2) show ?thesis by auto
  qed
  then show ?case using tu by (intro exI [of _ "t @ u"]) auto
next
  case (Or a b)
  then consider "m' \<in> set (rx_run a m)" | "m' \<in> set (rx_run b m)" by auto
  then show ?case
  proof cases
    case 1
    then show ?thesis using Or.IH(1) [of m' m] Or.prems(1) by simp
  next
    case 2
    then show ?thesis using Or.IH(2) [of m' m] Or.prems(1) by simp
  qed
next
  case (Group n a)
  obtain p s g where m: "m = (p, s, g)" by (cases m)
  with Group.prems(2) obtain m1 where "m1 \<in> set (rx_run a m)" "fst (snd m') = fst (snd m1)"
    by (auto split: prod.splits)
  then show ?case using Group.IH [of m1 m] Group.prems(1) by simp
qed auto

lemma needs_no_match:
  assumes "needs P r" and "\<forall>c\<in>set s. \<not> P c"
  shows "\<not> rx_match r s"
proof
  assume "rx_match r s"
  then obtain pre m where f: "rx_find r None s = Some (pre, m)" by (auto simp: rx_match_def)
  obtain t q where t: "s = pre @ t" "m \<in> set (rx_run r (q, t, []))" using rx_find_split [OF f] by blast
  then obtain u where "t = u @ fst (snd m)" "\<exists>c\<in>set u. P c" using needs_run [OF assms(1)] by fastforce
  then show False using assms(2) t(1) by auto
qed

lemma needs_cats: "\<exists>r\<in>set rs. needs P r \<Longrightarrow> needs P (cats rs)"
  by (induction rs rule: cats.induct) auto

lemma needs_lit: "c \<in> set s \<Longrightarrow> needs (\<lambda>d. d = c) (lit s)"
  by (induction s) auto

text \<open>A command without any of these characters is not masked.\<close>

definition plain_command :: "string \<Rightarrow> bool" where
  "plain_command s \<longleftrightarrow>
     list_all (\<lambda>c. c \<noteq> CHR ''@'' \<and> c \<noteq> CHR ''='' \<and> c \<noteq> CHR ''-'' \<and> lower_char c \<noteq> CHR ''b'') s"

lemma redact_plain:
  assumes "plain_command s"
  shows "redact_cron_command s = s"
proof -
  have no: "\<forall>c\<in>set s. c \<noteq> CHR ''@''" "\<forall>c\<in>set s. c \<noteq> CHR ''=''" "\<forall>c\<in>set s. c \<noteq> CHR ''-''"
    "\<forall>c\<in>set s. lower_char c \<noteq> CHR ''b''"
    using assms by (auto simp: plain_command_def list_all_iff)
  have "\<not> rx_match cron_url_creds_re s"
    by (rule needs_no_match [OF _ no(1) [folded not_not]])
      (simp add: cron_url_creds_re_def)
  moreover have "\<not> rx_match cron_bearer_re s"
    by (rule needs_no_match [where P = "\<lambda>c. lower_char c = CHR ''b''"])
      (use no(4) in \<open>simp_all add: cron_bearer_re_def\<close>)
  moreover have "\<not> rx_match cron_dash_p_re s"
    by (rule needs_no_match [where P = "\<lambda>c. c = CHR ''-''"])
      (use no(3) in \<open>simp_all add: cron_dash_p_re_def\<close>)
  moreover have "\<not> rx_match cron_flag_value_re s"
    by (rule needs_no_match [where P = "\<lambda>c. c = CHR ''-''"])
      (use no(3) in \<open>simp_all add: cron_flag_value_re_def\<close>)
  moreover have "\<not> rx_match cron_key_value_re s"
    by (rule needs_no_match [where P = "\<lambda>c. c = CHR ''=''"])
      (use no(2) in \<open>simp_all add: cron_key_value_re_def\<close>)
  ultimately show ?thesis
    by (simp add: redact_cron_command_def rx_replace_all_id)
qed

section \<open>Variables\<close>

text \<open>What the pattern of a variable line finds, said without backtracking.\<close>

definition env_split :: "string \<Rightarrow> (string \<times> string) option" where
  "env_split t =
     (case t of
        [] \<Rightarrow> None
      | c # s \<Rightarrow>
          if \<not> (is_alpha c \<or> c = CHR ''_'') then None
          else (case dropWhile rx_space (dropWhile is_word s) of
                  [] \<Rightarrow> None
                | d # u \<Rightarrow>
                    if d = CHR ''='' then Some (c # takeWhile is_word s, dropWhile rx_space u) else None))"

lemma many_then:
  assumes "\<And>m. fst (snd m) \<noteq> [] \<Longrightarrow> P (hd (fst (snd m))) \<Longrightarrow> F m = []"
  shows "\<exists>q. concat (map F (rx_run (Many (Ch P)) (p, s, g))) = F (q, dropWhile P s, g)"
proof -
  obtain ms q where ms: "rx_run (Many (Ch P)) (p, s, g) = (q, dropWhile P s, g) # ms"
    "\<forall>m\<in>set ms. fst (snd m) \<noteq> [] \<and> P (hd (fst (snd m)))"
    using rx_many_longest by blast
  have none: "concat (map F ms) = []" using ms(2) assms by auto
  show ?thesis by (intro exI [of _ q]) (simp only: ms(1) list.map concat.simps none append_Nil2)
qed

abbreviation spaces :: rx where "spaces \<equiv> Many (Ch rx_space)"

definition env_value :: rx where
  "env_value = Cat (Group 2 (Many (Ch (\<lambda>c. c \<noteq> newline)))) EndText"

lemma env_value_run:
  assumes "newline \<notin> set v"
  shows "\<exists>q. rx_run env_value (p, v, g) = [(q, [], (2, v) # g)]"
proof -
  let ?F = "\<lambda>m. rx_run EndText ((\<lambda>(p', s', g'). (p', s', (2, take (length v - length s') v) # g')) m)"
  have "\<exists>q. concat (map ?F (rx_run (Many (Ch (\<lambda>c. c \<noteq> newline))) (p, v, g))) =
      ?F (q, dropWhile (\<lambda>c. c \<noteq> newline) v, g)"
    by (rule many_then) (simp add: case_prod_beta)
  moreover have "dropWhile (\<lambda>c. c \<noteq> newline) v = []" using assms by (auto simp: dropWhile_eq_Nil_conv)
  ultimately show ?thesis by (simp add: env_value_def o_def del: rx_run.simps(5))
qed

lemma env_after_equals:
  assumes "newline \<notin> set u"
  shows "\<exists>q ms. rx_run (Cat spaces env_value) (p, u, g) = (q, [], (2, dropWhile rx_space u) # g) # ms"
proof -
  obtain ms q where ms: "rx_run spaces (p, u, g) = (q, dropWhile rx_space u, g) # ms"
    using rx_many_longest by blast
  have "newline \<notin> set (dropWhile rx_space u)" using assms by (auto dest: set_dropWhileD)
  then obtain q' where "rx_run env_value (q, dropWhile rx_space u, g) = [(q', [], (2, dropWhile rx_space u) # g)]"
    using env_value_run by blast
  then show ?thesis by (simp add: ms del: rx_run.simps(5))
qed

definition env_rest :: rx where
  "env_rest = Cat spaces (Cat (lit ''='') (Cat spaces env_value))"

lemma env_rest_run:
  assumes "newline \<notin> set r"
  shows "\<exists>q ms. rx_run env_rest (p, r, g) =
    (case dropWhile rx_space r of
       d # u \<Rightarrow> if d = CHR ''='' then (q, [], (2, dropWhile rx_space u) # g) # ms else []
     | [] \<Rightarrow> [])"
proof -
  let ?F = "rx_run (Cat (lit ''='') (Cat spaces env_value))"
  have "rx_run env_rest (p, r, g) = concat (map ?F (rx_run spaces (p, r, g)))"
    by (simp only: env_rest_def rx_run.simps(3))
  moreover have "\<exists>q. concat (map ?F (rx_run spaces (p, r, g))) = ?F (q, dropWhile rx_space r, g)"
  proof (rule many_then)
    show "?F m = []" if "fst (snd m) \<noteq> []" "rx_space (hd (fst (snd m)))" for m
      using that by (cases m) (auto simp: neq_Nil_conv rx_space_def simp del: rx_run.simps(5))
  qed
  ultimately obtain q where run: "rx_run env_rest (p, r, g) = ?F (q, dropWhile rx_space r, g)" by auto
  show ?thesis
  proof (cases "dropWhile rx_space r")
    case Nil
    show ?thesis unfolding run Nil by simp
  next
    case (Cons d u)
    then have "newline \<notin> set u" using assms set_dropWhileD [of _ rx_space r] by fastforce
    then obtain q' ms where "rx_run (Cat spaces env_value) (Some d, u, g) = (q', [], (2, dropWhile rx_space u) # g) # ms"
      using env_after_equals by blast
    then show ?thesis
      by (cases "d = CHR ''=''", intro exI [of _ q'] exI [of _ ms])
        (simp_all add: run Cons del: rx_run.simps(5))
  qed
qed

lemma word_not_space: "is_word c \<Longrightarrow> \<not> rx_space c \<and> c \<noteq> CHR ''=''"
  by (auto simp: is_word_def rx_space_def is_digit_def is_upper_def is_lower_def byte_def)

lemma env_rest_word:
  assumes "fst (snd m) \<noteq> []" and "is_word (hd (fst (snd m)))"
  shows "rx_run env_rest m = []"
proof -
  obtain p r g where m: "m = (p, r, g)" by (cases m)
  obtain c s where r: "r = c # s" using assms(1) by (cases r) (simp_all add: m)
  have c: "\<not> rx_space c" "c \<noteq> CHR ''=''" using assms(2) word_not_space by (simp_all add: m r)
  have "rx_run spaces (p, c # s, g) = [(p, c # s, g)]" by (rule rx_many_none) (simp add: c)
  then show ?thesis using c(2) by (simp add: env_rest_def m r del: rx_run.simps(5))
qed

lemma find_begin:
  "rx_find (Cat BeginText r) (Some c) s = None"
  by (induction s arbitrary: c) simp_all

lemma find_at_begin:
  "rx_find (Cat BeginText r) None s = map_option (Pair []) (rx_try r Some (None, s, []))"
  by (cases s) (simp_all add: find_begin split: option.split)

lemma cron_env_line_find:
  assumes "newline \<notin> set t"
  shows "map_option (\<lambda>m. (m 1, m 2)) (rx_submatch cron_env_line t) = env_split t"
proof -
  let ?r = "Cat (Group 1 (Cat (Ch (\<lambda>c. is_alpha c \<or> c = CHR ''_'')) (Many (Ch is_word)))) env_rest"
  have line: "cron_env_line = Cat BeginText ?r"
    by (simp add: cron_env_line_def env_rest_def env_value_def)
  show ?thesis
  proof (cases t)
    case Nil
    then show ?thesis by (simp add: rx_submatch_def line find_at_begin env_split_def)
  next
    case (Cons c s)
    show ?thesis
    proof (cases "is_alpha c \<or> c = CHR ''_''")
      case False
      then show ?thesis by (simp add: Cons rx_submatch_def line find_at_begin env_split_def del: rx_find.simps)
    next
      case True
      let ?G = "\<lambda>m. rx_run env_rest ((\<lambda>(p', s', g'). (p', s', (1, take (length t - length s') t) # g')) m)"
      have "\<exists>q. concat (map ?G (rx_run (Many (Ch is_word)) (Some c, s, []))) = ?G (q, dropWhile is_word s, [])"
        by (rule many_then) (simp add: env_rest_word case_prod_beta)
      moreover have "rx_run ?r (None, t, []) = concat (map ?G (rx_run (Many (Ch is_word)) (Some c, s, [])))"
        using True by (simp add: Cons o_def del: rx_run.simps(5))
      moreover have "take (length t - length (dropWhile is_word s)) t = c # takeWhile is_word s"
      proof -
        have "t = (c # takeWhile is_word s) @ dropWhile is_word s" by (simp add: Cons)
        then show ?thesis by (metis append_eq_conv_conj length_append add_diff_cancel_right')
      qed
      ultimately obtain q where run: "rx_run ?r (None, t, []) =
          rx_run env_rest (q, dropWhile is_word s, [(1, c # takeWhile is_word s)])"
        by auto
      have "newline \<notin> set (dropWhile is_word s)"
        using assms set_dropWhileD [of _ is_word s] by (auto simp: Cons)
      then obtain q' ms where rest: "rx_run env_rest (q, dropWhile is_word s, [(1, c # takeWhile is_word s)]) =
          (case dropWhile rx_space (dropWhile is_word s) of
             d # u \<Rightarrow> if d = CHR ''='' then (q', [], (2, dropWhile rx_space u) # [(1, c # takeWhile is_word s)]) # ms else []
           | [] \<Rightarrow> [])"
        using env_rest_run by blast
      have found: "rx_try ?r Some (None, t, []) =
          (case dropWhile rx_space (dropWhile is_word s) of
             d # u \<Rightarrow> if d = CHR ''='' then Some (q', [], (2, dropWhile rx_space u) # [(1, c # takeWhile is_word s)]) else None
           | [] \<Rightarrow> None)"
        unfolding rx_try_Some run rest
        by (cases "dropWhile rx_space (dropWhile is_word s)") (simp_all del: dropWhile_eq_Nil_conv)
      show ?thesis
        using True
        by (simp only: rx_submatch_def line find_at_begin found)
          (cases "dropWhile rx_space (dropWhile is_word s)";
           simp add: Cons env_split_def rx_group_def del: dropWhile_eq_Nil_conv)
    qed
  qed
qed

section \<open>Round trips\<close>

lemma no_space_suffix:
  "trim_right_space s = s \<longleftrightarrow> (\<forall>p\<in>set space_seqs. \<not> suffix p s)"
proof
  assume eq: "trim_right_space s = s"
  let ?q = "map rev space_seqs"
  have "[] \<notin> set ?q" using space_seqs_nonempty by auto
  then have "find (\<lambda>p. prefix p (strip_while ?q (length s) (rev s))) ?q = None"
    by (intro strip_while_enough) auto
  then have "find (\<lambda>p. prefix p (rev s)) ?q = None"
    using eq by (metis rev_rev_ident trim_right_space_def)
  then show "\<forall>p\<in>set space_seqs. \<not> suffix p s"
    by (auto simp: find_None_iff suffix_to_prefix)
next
  assume "\<forall>p\<in>set space_seqs. \<not> suffix p s"
  then have "find (\<lambda>p. prefix p (rev s)) (map rev space_seqs) = None"
    by (auto simp: find_None_iff suffix_to_prefix)
  then show "trim_right_space s = s"
    unfolding trim_right_space_def by (simp add: strip_while_id)
qed

lemma no_space_prefix:
  "(\<forall>p\<in>set space_seqs. \<not> prefix p s) \<Longrightarrow> trim_left_space s = s"
  unfolding trim_left_space_def by (rule strip_while_id) (simp add: find_None_iff)

lemma trim_space_trimmed: "trim_right_space (trim_space s) = trim_space s"
  by (simp add: trim_space_def trim_right_space_idem)

lemma set_trim_space: "set (trim_space s) \<subseteq> set s"
proof -
  have "set (trim_left_space s) \<subseteq> set s"
    using strip_while_suffix [of s space_seqs "length s"] unfolding trim_left_space_def
    by (metis set_append sup_ge2)
  moreover have "set (trim_space s) \<subseteq> set (trim_left_space s)"
    unfolding trim_space_def using trim_right_prefix by (rule set_mono_prefix)
  ultimately show ?thesis by blast
qed

lemma space_seqs_bytes:
  "p \<in> set space_seqs \<Longrightarrow> CHR ''='' \<notin> set p \<and> (\<exists>c t. p = c # t \<and> \<not> is_alpha c \<and> c \<noteq> CHR ''_'')"
  unfolding space_seqs_def
  by (simp add: is_alpha_def is_upper_def is_lower_def byte_def, elim disjE) simp_all

definition variable_name :: "string \<Rightarrow> bool" where
  "variable_name n \<longleftrightarrow>
     (\<exists>c w. n = c # w \<and> (is_alpha c \<or> c = CHR ''_'') \<and> list_all is_word w)"

lemma env_split_Some:
  assumes "env_split t = Some (n, v)"
  shows "variable_name n \<and> suffix v t \<and> (v = [] \<or> \<not> rx_space (hd v))"
proof -
  obtain c s where t: "t = c # s" using assms by (cases t) (simp_all add: env_split_def)
  have c: "is_alpha c \<or> c = CHR ''_''" using assms by (auto simp: t env_split_def split: if_splits)
  obtain d u where du: "dropWhile rx_space (dropWhile is_word s) = d # u"
    using assms c by (cases "dropWhile rx_space (dropWhile is_word s)")
      (auto simp: t env_split_def simp del: dropWhile_eq_Nil_conv)
  then have nv: "n = c # takeWhile is_word s" "v = dropWhile rx_space u"
    using assms c by (auto simp: t env_split_def split: if_splits)
  have "variable_name n"
    using c set_takeWhileD [of _ is_word s] by (auto simp: variable_name_def nv(1) list_all_iff)
  moreover have "suffix v t"
  proof -
    have "suffix u (dropWhile rx_space (dropWhile is_word s))" by (simp add: du suffix_ConsI)
    then have "suffix u s" using suffix_dropWhile suffix_order.order_trans by metis
    then show ?thesis
      unfolding nv(2) t using suffix_dropWhile suffix_order.order_trans suffix_ConsI by metis
  qed
  moreover have "v = [] \<or> \<not> rx_space (hd v)"
    unfolding nv(2) using hd_dropWhile [of rx_space u] by auto
  ultimately show ?thesis by simp
qed

lemma env_split_written:
  assumes "variable_name n" and "v = [] \<or> \<not> rx_space (hd v)"
  shows "env_split (n @ ''='' @ v) = Some (n, v)"
proof -
  obtain c w where n: "n = c # w" "is_alpha c \<or> c = CHR ''_''" "list_all is_word w"
    using assms(1) by (auto simp: variable_name_def)
  have eq: "\<not> is_word CHR ''=''" "\<not> rx_space CHR ''=''"
    by (simp_all add: is_word_def rx_space_def is_digit_def is_upper_def is_lower_def byte_def)
  have "takeWhile is_word (w @ CHR ''='' # v) = w" "dropWhile is_word (w @ CHR ''='' # v) = CHR ''='' # v"
    using n(3) eq(1) by (induction w) auto
  moreover have "dropWhile rx_space v = v" using assms(2) by (cases v) auto
  ultimately show ?thesis using n(2) eq(2) by (simp add: env_split_def n(1))
qed

lemma written_variable_trimmed:
  assumes "variable_name n" and "v \<noteq> []" and "suffix v t" and "trim_right_space t = t"
  shows "trim_space (n @ ''='' @ v) = n @ ''='' @ v"
proof -
  have "\<not> prefix p (n @ ''='' @ v)" if "p \<in> set space_seqs" for p
    using space_seqs_bytes [OF that] assms(1) by (auto simp: variable_name_def)
  then have left: "trim_left_space (n @ ''='' @ v) = n @ ''='' @ v" by (intro no_space_prefix) blast
  have "\<not> suffix p (n @ ''='' @ v)" if p: "p \<in> set space_seqs" for p
  proof
    assume "suffix p (n @ ''='' @ v)"
    then have "suffix p ((n @ ''='') @ v)" by simp
    then have "suffix p v \<or> (\<exists>p'. p = p' @ v \<and> suffix p' (n @ ''=''))"
      by (simp only: suffix_append)
    then consider "suffix p v" | p' where "p = p' @ v" "suffix p' (n @ ''='')" "p' \<noteq> []"
      by (metis append_Nil suffix_order.order_refl)
    then show False
    proof cases
      case 1
      then have "suffix p t" using assms(3) by (rule suffix_order.order_trans)
      then show False using assms(4) p no_space_suffix by blast
    next
      case 2
      then have "CHR ''='' \<in> set p'" by (cases p' rule: rev_cases) (auto simp: suffix_def)
      then show False using space_seqs_bytes [OF p] 2(1) by simp
    qed
  qed
  then have "trim_right_space (n @ ''='' @ v) = n @ ''='' @ v" using no_space_suffix by blast
  then show ?thesis by (simp only: trim_space_def left)
qed

lemma variable_name_line:
  assumes "variable_name n"
  shows "newline \<notin> set n"
proof -
  have "\<not> is_word newline" "\<not> is_alpha newline" "newline \<noteq> CHR ''_''"
    by (simp_all add: is_word_def is_alpha_def is_digit_def is_upper_def is_lower_def newline_def byte_def)
  then show ?thesis using assms by (auto simp: variable_name_def list_all_iff)
qed

lemma kind_of_variable_written:
  assumes "kind_of sha n l = Variable e" and "newline \<notin> set l" and "cv_raw e \<noteq> []"
  shows "kind_of sha k (cv_name e @ ''='' @ cv_raw e) = Variable (e\<lparr>cv_line := k\<rparr>)"
proof -
  let ?t = "trim_space l" and ?w = "cv_name e @ ''='' @ cv_raw e"
  have nl: "newline \<notin> set ?t" using assms(2) set_trim_space by blast
  obtain m where m: "rx_submatch cron_env_line ?t = Some m" "e = env_var_of n (m 1) (m 2)"
    using assms(1) by (auto simp: kind_of_def Let_def split: option.splits if_splits)
  then have sp: "env_split ?t = Some (cv_name e, cv_raw e)"
    using cron_env_line_find [OF nl] by (simp add: env_var_of_def)
  note v = env_split_Some [OF sp]
  have vn: "variable_name (cv_name e)" and suf: "suffix (cv_raw e) ?t" and hd: "\<not> rx_space (hd (cv_raw e))"
    using v assms(3) by auto
  have tr: "trim_space ?w = ?w"
    by (rule written_variable_trimmed [OF vn assms(3) suf trim_space_trimmed])
  have "newline \<notin> set (cv_raw e)" using suf nl set_mono_suffix by blast
  moreover have "newline \<notin> set (cv_name e)" using vn by (rule variable_name_line)
  ultimately have "map_option (\<lambda>m. (m 1, m 2)) (rx_submatch cron_env_line ?w) = env_split ?w"
    by (intro cron_env_line_find) (simp add: newline_def)
  then obtain m' where m': "rx_submatch cron_env_line ?w = Some m'" "m' 1 = cv_name e" "m' 2 = cv_raw e"
    using env_split_written [OF vn] hd by auto
  have ne: "?w \<noteq> []" "\<not> has_prefix ?w ''#''"
    using vn by (auto simp: variable_name_def has_prefix_def is_alpha_def is_upper_def is_lower_def byte_def)
  have "e\<lparr>cv_line := k\<rparr> = env_var_of k (cv_name e) (cv_raw e)"
    unfolding m(2) by (simp add: env_var_of_def)
  then show ?thesis
    unfolding kind_of_def Let_def tr m'(1) by (simp only: ne if_False option.case m')
qed

lemma kind_of_job_written:
  assumes "kind_of sha n l = Job j" and "ct_enabled j"
  shows "kind_of sha k (ct_raw_line j) =
    Job (j\<lparr>ct_line := k, ct_raw_line_sha := sha256_tag sha (redact_cron_command (ct_raw_line j))\<rparr>)"
proof -
  let ?t = "trim_space l"
  have t: "?t \<noteq> []" "\<not> has_prefix ?t ''#''" "rx_submatch cron_env_line ?t = None"
    using assms by (auto simp: kind_of_def Let_def split: option.splits if_splits)
  obtain j0 where j0: "try_parse_job sha ?t = Some j0" "ct_raw_line j = ?t"
    "j = j0\<lparr>ct_enabled := True, ct_line := n, ct_raw_line_sha := sha256_tag sha (redact_cron_command l),
       ct_raw_line := ?t\<rparr>"
    using assms t by (auto simp: kind_of_def Let_def split: option.splits if_splits)
  show ?thesis
    unfolding kind_of_def Let_def j0(2) trim_space_idem
    by (simp only: t j0(1) if_False option.case) (simp add: j0(3))
qed

lemma crontab_job_line:
  assumes "j \<in> set (cr_jobs (parse_crontab sha raw))"
  shows "\<exists>n l. kind_of sha n l = Job j \<and> newline \<notin> set l"
proof -
  obtain i where "i < length (split_byte newline raw)"
    "kind_of sha (1 + i) (split_byte newline raw ! i) = Job j"
    using assms unfolding parse_crontab_lines lines_jobs by blast
  then show ?thesis using split_byte_segments nth_mem by blast
qed

lemma crontab_variable_line:
  assumes "e \<in> set (cr_environment (parse_crontab sha raw))"
  shows "\<exists>n l. kind_of sha n l = Variable e \<and> newline \<notin> set l"
proof -
  obtain i where "i < length (split_byte newline raw)"
    "kind_of sha (1 + i) (split_byte newline raw ! i) = Variable e"
    using assms unfolding parse_crontab_lines lines_environment by blast
  then show ?thesis using split_byte_segments nth_mem by blast
qed

lemma job_line_one_line:
  assumes "j \<in> set (cr_jobs (parse_crontab sha raw))"
  shows "newline \<notin> set (ct_raw_line j)"
proof -
  obtain n l where "kind_of sha n l = Job j" "newline \<notin> set l" using crontab_job_line [OF assms] by blast
  then show ?thesis using kind_job [of sha n l j] set_trim_space [of l] by (auto split: if_splits)
qed

lemma variable_line_one_line:
  assumes "e \<in> set (cr_environment (parse_crontab sha raw))"
  shows "newline \<notin> set (cv_name e @ ''='' @ cv_raw e)"
proof -
  obtain n l where k: "kind_of sha n l = Variable e" "newline \<notin> set l"
    using crontab_variable_line [OF assms] by blast
  have nl: "newline \<notin> set (trim_space l)" using k(2) set_trim_space by blast
  obtain m where m: "rx_submatch cron_env_line (trim_space l) = Some m" "e = env_var_of n (m 1) (m 2)"
    using k(1) by (auto simp: kind_of_def Let_def split: option.splits if_splits)
  have "env_split (trim_space l) = Some (cv_name e, cv_raw e)"
    using cron_env_line_find [OF nl] m by (simp add: env_var_of_def)
  then have "variable_name (cv_name e)" "suffix (cv_raw e) (trim_space l)"
    using env_split_Some by blast+
  then show ?thesis using variable_name_line nl set_mono_suffix by (auto simp: newline_def)
qed

lemma parse_one_line:
  "newline \<notin> set l \<Longrightarrow> parse_crontab sha l = result_of_kind (kind_of sha 1 l)"
  by (simp add: parse_crontab_lines split_byte_no_sep line_result_kind)

text \<open>C30. What the tool writes into a crontab reads back as what it was made from: the line kept for an
  enabled job is a crontab with that one job, and \<open>NAME=value\<close> of a variable with a value is a crontab
  with that one variable; only the line number, and the hash of the line as it stood in its file, are
  those of the new place.\<close>

theorem crontab_written_back:
  assumes "j \<in> set (cr_jobs (parse_crontab sha raw))" and "ct_enabled j"
    and "e \<in> set (cr_environment (parse_crontab sha raw'))" and "cv_raw e \<noteq> []"
  shows "parse_crontab sha (ct_raw_line j) = new_crontab_result\<lparr>cr_jobs :=
      [j\<lparr>ct_line := 1, ct_raw_line_sha := sha256_tag sha (redact_cron_command (ct_raw_line j))\<rparr>]\<rparr> \<and>
    parse_crontab sha (cv_name e @ ''='' @ cv_raw e) = new_crontab_result\<lparr>cr_environment := [e\<lparr>cv_line := 1\<rparr>]\<rparr>"
proof
  obtain n l where k: "kind_of sha n l = Job j" using crontab_job_line [OF assms(1)] by blast
  show "parse_crontab sha (ct_raw_line j) = new_crontab_result\<lparr>cr_jobs :=
      [j\<lparr>ct_line := 1, ct_raw_line_sha := sha256_tag sha (redact_cron_command (ct_raw_line j))\<rparr>]\<rparr>"
    unfolding parse_one_line [OF job_line_one_line [OF assms(1)]] kind_of_job_written [OF k assms(2)]
    using assms(2) by (simp add: result_of_kind_def new_crontab_result_def)
next
  obtain n l where k: "kind_of sha n l = Variable e" "newline \<notin> set l"
    using crontab_variable_line [OF assms(3)] by blast
  show "parse_crontab sha (cv_name e @ ''='' @ cv_raw e) = new_crontab_result\<lparr>cr_environment := [e\<lparr>cv_line := 1\<rparr>]\<rparr>"
    unfolding parse_one_line [OF variable_line_one_line [OF assms(3)]] kind_of_variable_written [OF k assms(4)]
    by (simp add: result_of_kind_def)
qed

theorem crontab_written_back_witness:
  "\<exists>j e. ct_enabled j \<and> cv_raw e = ''b'' \<and>
    parse_crontab (\<lambda>s. s) (ct_raw_line j) = new_crontab_result\<lparr>cr_jobs :=
      [j\<lparr>ct_line := 1, ct_raw_line_sha := sha256_tag (\<lambda>s. s) (redact_cron_command (ct_raw_line j))\<rparr>]\<rparr> \<and>
    parse_crontab (\<lambda>s. s) (cv_name e @ ''='' @ cv_raw e) = new_crontab_result\<lparr>cr_environment := [e\<lparr>cv_line := 1\<rparr>]\<rparr>"
proof -
  have "map ct_enabled (cr_jobs (parse_crontab (\<lambda>s. s) ''@daily x'')) = [True]" by code_simp
  then obtain j where j: "j \<in> set (cr_jobs (parse_crontab (\<lambda>s. s) ''@daily x''))" "ct_enabled j" by auto
  have "map cv_raw (cr_environment (parse_crontab (\<lambda>s. s) ''A=b'')) = [''b'']" by code_simp
  then obtain e where e: "e \<in> set (cr_environment (parse_crontab (\<lambda>s. s) ''A=b''))" "cv_raw e = ''b''" by auto
  show ?thesis
    using crontab_written_back [OF j e(1)] j(2) e(2)
    by (intro exI [of _ j] exI [of _ e]) simp
qed

end
