(* ===== verification/CronPlan.thy ===== *)
theory CronPlan
  imports Crontab InvTypes
begin

text \<open>
  \<open>internal/accountinventory/cronplan.go\<close> and \<open>cronapply.go\<close>: the crontab of an inventory
  (\<open>collectCron\<close> of \<open>collector.go\<close>), the plan of what to install on the destination, and the records of
  an apply run. File names, file hashes and time stamps are set by the callers.
\<close>

section \<open>The crontab of an inventory (collector.go)\<close>

definition job_entry :: "crontab_job \<Rightarrow> cron_job" where
  "job_entry j =
     \<lparr>cj_type = ct_type j, cj_minute = ct_minute j, cj_hour = ct_hour j,
      cj_day_of_month = ct_day_of_month j, cj_month = ct_month j, cj_day_of_week = ct_day_of_week j,
      cj_macro = ct_macro j, cj_redacted = ct_redacted j, cj_clear = ct_raw j, cj_sha = ct_sha j,
      cj_raw_sha = ct_raw_line_sha j, cj_raw_line = ct_raw_line j, cj_enabled = ct_enabled j,
      cj_line = int (ct_line j), cj_warnings = ct_warnings j, cj_collected = (ct_raw j \<noteq> [])\<rparr>"

definition env_entry :: "cron_env_var \<Rightarrow> cron_env" where
  "env_entry e =
     \<lparr>ce_name = cv_name e, ce_redacted = cv_redacted e, ce_clear = cv_raw e, ce_line = int (cv_line e),
      ce_collected = (cv_raw e \<noteq> [])\<rparr>"

definition section_of_crontab :: "crontab_result \<Rightarrow> cron_section" where
  "section_of_crontab res =
     new_empty_cron_section\<lparr>cs_available := True, cs_method := ''ssh_crontab_l'',
       cs_comments_count := int (cr_comments_count res), cs_disabled_count := int (cr_disabled_count res),
       cs_warnings := cs_warnings new_empty_cron_section @ cr_warnings res,
       cs_jobs := map job_entry (cr_jobs res), cs_environment := map env_entry (cr_environment res)\<rparr>"

definition collect_cron ::
  "(string \<Rightarrow> string) \<Rightarrow> runner \<Rightarrow> script_log \<Rightarrow> cron_section \<times> script_log" where
  "collect_cron sha run log =
     (case fetch_crontab sha run log of
        (Inl e, log') \<Rightarrow>
          (new_empty_cron_section\<lparr>cs_available := False, cs_method := ''unavailable'',
             cs_errors := cs_errors new_empty_cron_section @ [''crontab unavailable: '' @ e]\<rparr>, log')
      | (Inr res, log') \<Rightarrow> (section_of_crontab res, log'))"

section \<open>Plan records\<close>

datatype cron_action = CCreate | CSkip | CManual | COther string

datatype cron_part = CronJobs | CronEnv | CronPart string

record cron_op =
  co_section :: cron_part
  co_action :: cron_action
  co_key :: string
  co_reason :: string
  co_line :: string
  co_source_line :: string
  co_path_adapted :: bool
  co_source_value :: string
  co_destination_value :: string

record cron_info =
  ci_section :: cron_part
  ci_key :: string
  ci_value :: string

record cron_summary =
  csu_create :: nat
  csu_skip :: nat
  csu_manual :: nat
  csu_informational :: nat

record cron_plan =
  cp_mode :: string
  cp_format_version :: int
  cp_source_user :: string
  cp_destination_user :: string
  cp_ops :: "cron_op list"
  cp_informational :: "cron_info list"
  cp_summary :: cron_summary
  cp_plan_time_hash :: string

definition cron_op_of :: "cron_part \<Rightarrow> string \<Rightarrow> string \<Rightarrow> string \<Rightarrow> cron_op" where
  "cron_op_of sec key srcv destv =
     \<lparr>co_section = sec, co_action = COther [], co_key = key, co_reason = [], co_line = [],
      co_source_line = [], co_path_adapted = False, co_source_value = srcv, co_destination_value = destv\<rparr>"

definition cron_manual :: "cron_op \<Rightarrow> string \<Rightarrow> cron_op" where
  "cron_manual opn reason = opn\<lparr>co_action := CManual, co_reason := reason\<rparr>"

section \<open>Lines\<close>

definition cron_job_key :: "cron_job \<Rightarrow> string" where
  "cron_job_key j = cj_redacted j"

definition cron_schedule_str :: "cron_job \<Rightarrow> string" where
  "cron_schedule_str j =
     (if cj_type j = ''macro'' then cj_macro j
      else join '' '' [cj_minute j, cj_hour j, cj_day_of_month j, cj_month j, cj_day_of_week j])"

definition cron_job_line :: "cron_job \<Rightarrow> string" where
  "cron_job_line j =
     (if cj_raw_line j \<noteq> [] then cj_raw_line j
      else if cj_type j = ''macro'' then cj_macro j @ '' '' @ cj_clear j
      else cron_schedule_str j @ '' '' @ cj_clear j)"

definition cron_env_text :: "cron_env \<Rightarrow> string" where
  "cron_env_text e = ce_name e @ ''='' @ ce_clear e"

definition home_of :: "string \<Rightarrow> string" where
  "home_of user = ''/home/'' @ user @ ''/''"

definition adapt_cron_path :: "string \<Rightarrow> string \<Rightarrow> string \<Rightarrow> string \<times> bool" where
  "adapt_cron_path line srcu destu =
     (if srcu = destu \<or> srcu = [] \<or> destu = [] then (line, False)
      else if \<not> contains line (home_of srcu) then (line, False)
      else (replace_all (home_of srcu) (home_of destu) line, True))"

definition cron_jobs_equivalent :: "cron_job \<Rightarrow> cron_job \<Rightarrow> bool" where
  "cron_jobs_equivalent a b \<longleftrightarrow>
     cron_schedule_str a = cron_schedule_str b \<and> cj_enabled a = cj_enabled b \<and>
     (if cj_collected a \<and> cj_collected b then cj_clear a = cj_clear b else cj_sha a = cj_sha b)"

definition cron_envs_equivalent :: "cron_env \<Rightarrow> cron_env \<Rightarrow> bool" where
  "cron_envs_equivalent a b \<longleftrightarrow>
     ce_name a = ce_name b \<and>
     (if ce_collected a \<and> ce_collected b then ce_clear a = ce_clear b
      else ce_redacted a = ce_redacted b)"

section \<open>The plan\<close>

definition cron_job_shown :: "cron_job \<Rightarrow> string" where
  "cron_job_shown j = cron_schedule_str j @ '' enabled='' @ format_bool (cj_enabled j)"

definition cron_job_op :: "string \<Rightarrow> string \<Rightarrow> cron_job list \<Rightarrow> cron_job \<Rightarrow> cron_op" where
  "cron_job_op srcu destu dests j =
     (let found = first_with cj_sha (cj_sha j) dests;
          opn = cron_op_of CronJobs (cron_job_key j) (cron_job_shown j)
                  (case found of None \<Rightarrow> [] | Some d \<Rightarrow> cron_job_shown d)
      in if \<not> cj_collected j then
           cron_manual opn (''the source inventory carries no raw cron command (pre-2A artifact) '' @ emdash
             @ '' re-run --account-inventory on the source, then re-plan'')
         else if \<not> cj_enabled j then
           cron_manual opn (''disabled cron job '' @ emdash
             @ '' the operator decides whether to recreate it on the destination'')
         else (case found of
                 Some d \<Rightarrow>
                   if cron_jobs_equivalent j d then opn\<lparr>co_action := CSkip, co_line := cron_job_line j\<rparr>
                   else cron_manual opn (''the destination has a job with the same command but different schedule or enabled state ''
                     @ emdash @ '' resolve by hand'')
               | None \<Rightarrow>
                   (let line = cron_job_line j; (adapted, changed) = adapt_cron_path line srcu destu in
                    opn\<lparr>co_action := CCreate, co_source_line := line, co_line := adapted,
                        co_path_adapted := changed\<rparr>)))"

definition cron_job_info :: "cron_job \<Rightarrow> cron_info" where
  "cron_job_info j = \<lparr>ci_section = CronJobs, ci_key = cron_job_key j, ci_value = cron_schedule_str j\<rparr>"

definition plan_cron_jobs :: "inventory \<Rightarrow> inventory \<Rightarrow> cron_plan \<Rightarrow> cron_plan" where
  "plan_cron_jobs src dest plan =
     (let srcs = cs_jobs (inv_cron src); dests = cs_jobs (inv_cron dest) in
      plan\<lparr>cp_ops := cp_ops plan @ map (cron_job_op (cp_source_user plan) (cp_destination_user plan) dests)
             (dedup_by cj_sha [] srcs),
           cp_informational := cp_informational plan
             @ map cron_job_info (filter (\<lambda>j. cj_sha j \<notin> cj_sha ` set srcs) dests)\<rparr>)"

definition cron_env_op :: "cron_env list \<Rightarrow> cron_env \<Rightarrow> cron_op" where
  "cron_env_op dests e =
     (let found = last_with ce_name (ce_name e) dests;
          opn = cron_op_of CronEnv (ce_name e) (ce_redacted e)
                  (case found of None \<Rightarrow> [] | Some d \<Rightarrow> ce_redacted d)
      in if \<not> ce_collected e then
           cron_manual opn (''source env value not collected (pre-2A artifact) '' @ emdash @ '' re-run inventory'')
         else (case found of
                 Some d \<Rightarrow>
                   if cron_envs_equivalent e d then opn\<lparr>co_action := CSkip, co_line := cron_env_text e\<rparr>
                   else cron_manual opn (''env '' @ ce_name e @ '' has different value on destination (''
                     @ ce_redacted e @ '' vs '' @ ce_redacted d @ '') '' @ emdash @ '' resolve by hand'')
               | None \<Rightarrow> opn\<lparr>co_action := CCreate, co_line := cron_env_text e\<rparr>))"

definition cron_env_info :: "cron_env \<Rightarrow> cron_info" where
  "cron_env_info e = \<lparr>ci_section = CronEnv, ci_key = ce_name e, ci_value = ce_redacted e\<rparr>"

definition plan_cron_envs :: "inventory \<Rightarrow> inventory \<Rightarrow> cron_plan \<Rightarrow> cron_plan" where
  "plan_cron_envs src dest plan =
     (let srcs = cs_environment (inv_cron src); dests = cs_environment (inv_cron dest) in
      plan\<lparr>cp_ops := cp_ops plan @ map (cron_env_op dests) (dedup_by ce_name [] srcs),
           cp_informational := cp_informational plan
             @ map cron_env_info (filter (\<lambda>e. ce_name e \<notin> ce_name ` set srcs) dests)\<rparr>)"

text \<open>Variables before jobs, then by key. The comparison tells the operations of one plan apart, so
  the order of equal elements does not arise.\<close>

definition cron_op_order :: "cron_op \<Rightarrow> nat \<times> string" where
  "cron_op_order x = ((if co_section x = CronEnv then 0 else 1), co_key x)"

definition new_cron_plan :: "inventory \<Rightarrow> inventory \<Rightarrow> cron_plan" where
  "new_cron_plan src dest =
     \<lparr>cp_mode = ''cron-apply-plan'', cp_format_version = 1,
      cp_source_user = ai_user (inv_account src), cp_destination_user = ai_user (inv_account dest),
      cp_ops = [], cp_informational = [],
      cp_summary = \<lparr>csu_create = 0, csu_skip = 0, csu_manual = 0, csu_informational = 0\<rparr>,
      cp_plan_time_hash = []\<rparr>"

definition summarize_cron_ops :: "cron_op list \<Rightarrow> cron_info list \<Rightarrow> cron_summary" where
  "summarize_cron_ops ops infos =
     \<lparr>csu_create = count_if (\<lambda>x. co_action x = CCreate) ops, csu_skip = count_if (\<lambda>x. co_action x = CSkip) ops,
      csu_manual = count_if (\<lambda>x. co_action x = CManual) ops, csu_informational = length infos\<rparr>"

definition build_cron_plan :: "inventory \<Rightarrow> inventory \<Rightarrow> cron_plan" where
  "build_cron_plan src dest =
     (let plan = new_cron_plan src dest in
      if \<not> cs_available (inv_cron src) \<or> \<not> cs_available (inv_cron dest) then plan
      else (let full = plan_cron_envs src dest (plan_cron_jobs src dest plan);
                ops = sort_key cron_op_order (cp_ops full)
        in full\<lparr>cp_ops := ops, cp_summary := summarize_cron_ops ops (cp_informational full)\<rparr>))"

definition cron_plan_dest_crontab_hash :: "(string \<Rightarrow> string) \<Rightarrow> string \<Rightarrow> string" where
  "cron_plan_dest_crontab_hash sha raw = ''sha256:'' @ sha raw"

section \<open>Apply records (cronapply.go)\<close>

datatype cron_status = CUnset | CApplied | CSkipped | CManualOp | CFailed | CRefused

record cron_op_result =
  cor_op :: cron_op
  cor_status :: cron_status
  cor_reason :: string

record cron_apply_summary =
  cas_applied :: nat
  cas_skipped :: nat
  cas_manual :: nat
  cas_failed :: nat
  cas_refused :: nat

record cron_apply_report =
  car_run_mode :: string
  car_destination_user :: string
  car_backup_note :: string
  car_results :: "cron_op_result list"
  car_installed :: string
  car_summary :: cron_apply_summary

record cron_apply_backup =
  cab_format_version :: int
  cab_destination_user :: string
  cab_raw_crontab :: string
  cab_sha :: string

definition summarize_cron_results :: "cron_op_result list \<Rightarrow> cron_apply_summary" where
  "summarize_cron_results rs =
     (let n = (\<lambda>st. count_if (\<lambda>r. cor_status r = st) rs) in
      \<lparr>cas_applied = n CApplied, cas_skipped = n CSkipped, cas_manual = n CManualOp,
       cas_failed = n CFailed, cas_refused = n CRefused\<rparr>)"

end
