(* ===== verification/CronCmd.thy ===== *)
theory CronCmd
  imports CronPlan
begin

text \<open>
  \<open>cmd/cpanel-self-migration/cron_apply_cmd.go\<close> and \<open>cron_verify_cmd.go\<close>: the commands that install a
  cron plan on the destination, roll it back and verify it. The remote side is the runner of
  \<open>Crontab\<close>; the local file system and the SSH dial only decide whether a step succeeds and are the
  booleans of \<open>cron_local\<close>. Messages on the terminal are left out.
\<close>

section \<open>Outcome of a run\<close>

record cron_local =
  cl_input_hash :: bool
  cl_dial :: bool
  cl_backup :: bool
  cl_backup_hash :: bool
  cl_report_json :: bool
  cl_report_md :: bool

record cron_outcome =
  cu_exit :: nat
  cu_report :: "cron_apply_report option"
  cu_backup :: "cron_apply_backup option"
  cu_log :: script_log

definition exit_gated :: nat where "exit_gated = 3"

definition finish_cron_report :: "cron_local \<Rightarrow> cron_apply_report \<Rightarrow> nat" where
  "finish_cron_report env rep =
     (if \<not> cl_report_json env \<or> \<not> cl_report_md env then 1
      else if cas_failed (car_summary rep) > 0 then 1
      else if cas_refused (car_summary rep) > 0 then exit_gated
      else 0)"

definition cron_stop :: "nat \<Rightarrow> cron_apply_backup option \<Rightarrow> script_log \<Rightarrow> cron_outcome" where
  "cron_stop code bk log = \<lparr>cu_exit = code, cu_report = None, cu_backup = bk, cu_log = log\<rparr>"

section \<open>Apply\<close>

definition show_cron_action :: "cron_action \<Rightarrow> string" where
  "show_cron_action a =
     (case a of CCreate \<Rightarrow> ''create'' | CSkip \<Rightarrow> ''skip'' | CManual \<Rightarrow> ''manual'' | COther s \<Rightarrow> s)"

definition is_create :: "cron_op \<Rightarrow> bool" where
  "is_create x \<longleftrightarrow> co_action x = CCreate"

definition initial_result :: "cron_op \<Rightarrow> cron_op_result" where
  "initial_result x =
     (case co_action x of
        CSkip \<Rightarrow> \<lparr>cor_op = x, cor_status = CSkipped, cor_reason = []\<rparr>
      | CManual \<Rightarrow> \<lparr>cor_op = x, cor_status = CManualOp, cor_reason = []\<rparr>
      | CCreate \<Rightarrow> \<lparr>cor_op = x, cor_status = CUnset, cor_reason = []\<rparr>
      | COther s \<Rightarrow> \<lparr>cor_op = x, cor_status = CRefused, cor_reason = ''unknown plan action '' @ go_quote s\<rparr>)"

text \<open>The results with a verdict for every create.\<close>

definition with_creates :: "(cron_op \<Rightarrow> cron_status \<times> string) \<Rightarrow> cron_op list \<Rightarrow> cron_op_result list" where
  "with_creates f xs =
     map (\<lambda>x. if is_create x then (let (st, reason) = f x in \<lparr>cor_op = x, cor_status = st, cor_reason = reason\<rparr>)
              else initial_result x) xs"

definition lines_of :: "cron_part \<Rightarrow> cron_op list \<Rightarrow> string list" where
  "lines_of sec xs = map co_line (filter (\<lambda>x. co_section x = sec) xs)"

definition end_line :: "string \<Rightarrow> string" where
  "end_line s = (if \<not> has_suffix s [newline] \<and> s \<noteq> [] then s @ [newline] else s)"

definition merged_crontab :: "string \<Rightarrow> cron_op list \<Rightarrow> string" where
  "merged_crontab current creates =
     end_line current
       @ concat (map (\<lambda>l. l @ [newline]) (lines_of CronEnv creates))
       @ concat (map (\<lambda>l. l @ [newline]) (lines_of CronJobs creates))"

definition cron_report_of ::
  "cron_plan \<Rightarrow> string \<Rightarrow> cron_op_result list \<Rightarrow> string \<Rightarrow> cron_apply_report" where
  "cron_report_of plan note rs installed =
     \<lparr>car_run_mode = ''apply'', car_destination_user = cp_destination_user plan, car_backup_note = note,
      car_results = rs, car_installed = installed, car_summary = summarize_cron_results rs\<rparr>"

definition cron_end ::
  "cron_local \<Rightarrow> cron_apply_report \<Rightarrow> cron_apply_backup option \<Rightarrow> script_log \<Rightarrow> cron_outcome" where
  "cron_end env rep bk log =
     \<lparr>cu_exit = finish_cron_report env rep, cu_report = Some rep, cu_backup = bk, cu_log = log\<rparr>"

definition no_write_note :: string where
  "no_write_note = ''no write was decided (every op skipped, manual, or refused) '' @ emdash
     @ '' nothing to back up''"

definition stale_note :: string where
  "stale_note = ''no write was attempted (stale-plan guard refused all creates)''"

definition observed_line :: "string \<Rightarrow> cron_op \<Rightarrow> cron_status \<times> string" where
  "observed_line after x =
     (if contains after (co_line x) then (CApplied, [])
      else (CFailed, ''install reported success but the line is not in the post-install crontab''))"

definition run_cron_apply_writes ::
  "(string \<Rightarrow> string) \<Rightarrow> runner \<Rightarrow> cron_local \<Rightarrow> cron_plan \<Rightarrow> script_log \<Rightarrow> cron_outcome" where
  "run_cron_apply_writes sha run env plan log =
     (let ops = cp_ops plan; creates = filter is_create ops in
      if \<not> cl_input_hash env then cron_stop 1 None log
      else if creates = [] then
        cron_end env (cron_report_of plan no_write_note (map initial_result ops) []) None log
      else if \<not> cl_dial env then cron_stop 1 None log
      else (case read_crontab_raw run log of
          (Inl e, log1) \<Rightarrow> cron_stop 1 None log1
        | (Inr current, log1) \<Rightarrow>
            (let now = cron_plan_dest_crontab_hash sha current in
             if cp_plan_time_hash plan \<noteq> [] \<and> cp_plan_time_hash plan \<noteq> now then
               cron_end env (cron_report_of plan stale_note
                 (with_creates (\<lambda>_. (CRefused, ''crontab changed since plan (stale-plan guard)'')) ops) []) None log1
             else if \<not> cl_backup env then cron_stop 1 None log1
             else
              (let bk = Some \<lparr>cab_format_version = 1, cab_destination_user = cp_destination_user plan,
                      cab_raw_crontab = current, cab_sha = now\<rparr>
               in if \<not> cl_backup_hash env then cron_stop 1 bk log1
                  else (case install_crontab run (merged_crontab current creates) log1 of
                     (Inl e, log2) \<Rightarrow>
                       cron_end env (cron_report_of plan []
                         (with_creates (\<lambda>_. (CFailed, ''install failed: '' @ e)) ops) []) bk log2
                   | (Inr _, log2) \<Rightarrow>
                       (case read_crontab_raw run log2 of
                          (Inl e, log3) \<Rightarrow>
                            cron_end env (cron_report_of plan []
                              (with_creates (\<lambda>_. (CFailed, ''verify-after read failed: '' @ e)) ops) []) bk log3
                        | (Inr after, log3) \<Rightarrow>
                            cron_end env (cron_report_of plan [] (with_creates (observed_line after) ops) after)
                              bk log3))))))"

section \<open>Rollback\<close>

definition rollback_cron_op :: cron_op where
  "rollback_cron_op = cron_op_of (CronPart ''rollback'') ''crontab'' [] []"

definition rollback_report :: "cron_apply_backup \<Rightarrow> cron_status \<Rightarrow> string \<Rightarrow> cron_apply_report" where
  "rollback_report bk st reason =
     (let rs = [\<lparr>cor_op = rollback_cron_op, cor_status = st, cor_reason = reason\<rparr>] in
      \<lparr>car_run_mode = ''rollback'', car_destination_user = cab_destination_user bk, car_backup_note = [],
       car_results = rs, car_installed = [], car_summary = summarize_cron_results rs\<rparr>)"

text \<open>The backup argument is what \<open>loadCronBackupFile\<close> returned; \<open>yes\<close> is \<open>--yes-apply-writes\<close>.\<close>

definition run_cron_rollback ::
  "(string \<Rightarrow> string) \<Rightarrow> runner \<Rightarrow> cron_local \<Rightarrow> string + cron_apply_backup \<Rightarrow> bool \<Rightarrow> script_log \<Rightarrow> cron_outcome" where
  "run_cron_rollback sha run env loaded yes log =
     (case loaded of
        Inl e \<Rightarrow> cron_stop 1 None log
      | Inr bk \<Rightarrow>
          if cab_format_version bk \<noteq> 1 then cron_stop 1 None log
          else if \<not> yes then cron_stop 0 None log
          else if \<not> cl_dial env then cron_stop 1 None log
          else if \<not> cl_input_hash env then cron_stop 1 None log
          else (case install_crontab run (cab_raw_crontab bk) log of
              (Inl e, log1) \<Rightarrow> cron_end env (rollback_report bk CFailed e) None log1
            | (Inr _, log1) \<Rightarrow>
                (case read_crontab_raw run log1 of
                   (Inl e, log2) \<Rightarrow>
                     cron_end env (rollback_report bk CFailed (''verify-after read failed: '' @ e)) None log2
                 | (Inr after, log2) \<Rightarrow>
                     if sha after = sha (cab_raw_crontab bk) then
                       cron_end env (rollback_report bk CApplied []) None log2
                     else cron_end env (rollback_report bk CFailed
                            ''installed crontab does not match the backup content'') None log2)))"

text \<open>\<open>runCronApplyCmd\<close> after flag parsing: a plan is written, or a backup rolled back.\<close>

definition run_cron_apply_cmd ::
  "(string \<Rightarrow> string) \<Rightarrow> runner \<Rightarrow> cron_local \<Rightarrow> (string + cron_plan) option \<Rightarrow> (string + cron_apply_backup) option
   \<Rightarrow> bool \<Rightarrow> script_log \<Rightarrow> cron_outcome" where
  "run_cron_apply_cmd sha run env plan backup yes log =
     (case (backup, plan) of
        (Some _, Some _) \<Rightarrow> cron_stop 2 None log
      | (Some bk, None) \<Rightarrow> run_cron_rollback sha run env bk yes log
      | (None, None) \<Rightarrow> cron_stop 1 None log
      | (None, Some (Inl e)) \<Rightarrow> cron_stop 1 None log
      | (None, Some (Inr p)) \<Rightarrow>
          if cp_format_version p \<noteq> 1 then cron_stop 1 None log
          else if \<not> yes then cron_stop 0 None log
          else run_cron_apply_writes sha run env p log)"

section \<open>Verify\<close>

datatype cron_verify_status = CVApplied | CVUnchanged | CVPending | CVDrift | CVManual | CVNotChecked

record cron_verify_result =
  cvr_op :: cron_op
  cvr_status :: cron_verify_status
  cvr_reason :: string

record cron_verify_summary =
  cvs_applied :: nat
  cvs_unchanged :: nat
  cvs_pending :: nat
  cvs_drift :: nat
  cvs_manual :: nat
  cvs_not_checked :: nat

record cron_verify_report =
  cvp_clean :: bool
  cvp_results :: "cron_verify_result list"
  cvp_summary :: cron_verify_summary

definition verify_cron_op :: "string \<Rightarrow> cron_op \<Rightarrow> cron_verify_status \<times> string" where
  "verify_cron_op live x =
     (let found = co_line x \<noteq> [] \<and> contains live (co_line x) in
      case co_action x of
        CCreate \<Rightarrow> if found then (CVApplied, [])
                  else (CVPending, ''create op line not found in the live crontab'')
      | CSkip \<Rightarrow> if found then (CVUnchanged, [])
                else (CVDrift, ''skip op line no longer present in the live crontab'')
      | CManual \<Rightarrow> (CVManual, [])
      | COther s \<Rightarrow> (CVNotChecked, []))"

definition add_verdict :: "string \<Rightarrow> cron_verify_report \<Rightarrow> cron_op \<Rightarrow> cron_verify_report" where
  "add_verdict live rep x =
     (let (st, reason) = verify_cron_op live x; s = cvp_summary rep;
          s' = (case st of
                  CVApplied \<Rightarrow> s\<lparr>cvs_applied := Suc (cvs_applied s)\<rparr>
                | CVUnchanged \<Rightarrow> s\<lparr>cvs_unchanged := Suc (cvs_unchanged s)\<rparr>
                | CVPending \<Rightarrow> s\<lparr>cvs_pending := Suc (cvs_pending s)\<rparr>
                | CVDrift \<Rightarrow> s\<lparr>cvs_drift := Suc (cvs_drift s)\<rparr>
                | CVManual \<Rightarrow> s\<lparr>cvs_manual := Suc (cvs_manual s)\<rparr>
                | CVNotChecked \<Rightarrow> s\<lparr>cvs_not_checked := Suc (cvs_not_checked s)\<rparr>)
      in \<lparr>cvp_clean = (cvp_clean rep \<and> st \<notin> {CVPending, CVDrift, CVManual}),
          cvp_results = cvp_results rep @ [\<lparr>cvr_op = x, cvr_status = st, cvr_reason = reason\<rparr>],
          cvp_summary = s'\<rparr>)"

definition verify_cron_plan :: "cron_plan \<Rightarrow> string \<Rightarrow> cron_verify_report" where
  "verify_cron_plan plan live =
     foldl (add_verdict live)
       \<lparr>cvp_clean = True, cvp_results = [],
        cvp_summary = \<lparr>cvs_applied = 0, cvs_unchanged = 0, cvs_pending = 0, cvs_drift = 0, cvs_manual = 0,
          cvs_not_checked = 0\<rparr>\<rparr> (cp_ops plan)"

text \<open>The stale-plan gate: an inventory file that was given must hash to what the plan embeds.\<close>

fun stale_gate :: "((string + string) \<times> string) list \<Rightarrow> nat option" where
  "stale_gate [] = None"
| "stale_gate ((Inl e, embedded) # fs) = Some 1"
| "stale_gate ((Inr digest, embedded) # fs) =
     (if embedded = [] then Some exit_gated
      else if digest \<noteq> embedded then Some exit_gated
      else stale_gate fs)"

definition run_cron_verify ::
  "runner \<Rightarrow> cron_local \<Rightarrow> string + cron_plan \<Rightarrow> ((string + string) \<times> string) list \<Rightarrow> bool \<Rightarrow> script_log
   \<Rightarrow> nat \<times> cron_verify_report option \<times> script_log" where
  "run_cron_verify run env loaded gates fail_on_drift log =
     (case loaded of
        Inl e \<Rightarrow> (1, None, log)
      | Inr plan \<Rightarrow>
          if cp_format_version plan \<noteq> 1 then (1, None, log)
          else (case stale_gate gates of
              Some code \<Rightarrow> (code, None, log)
            | None \<Rightarrow>
                if \<not> cl_input_hash env then (1, None, log)
                else
                 (let needs = list_ex (\<lambda>x. co_action x = CCreate \<or> co_action x = CSkip) (cp_ops plan);
                      done = (\<lambda>live log'.
                        let rep = verify_cron_plan plan live in
                        (if \<not> cl_report_json env \<or> \<not> cl_report_md env then 1
                         else if fail_on_drift \<and> \<not> cvp_clean rep then exit_gated else 0, Some rep, log'))
                  in if \<not> needs then done [] log
                     else if \<not> cl_dial env then (1, None, log)
                     else (case read_crontab_raw run log of
                             (Inl e, log1) \<Rightarrow> (1, None, log1)
                           | (Inr live, log1) \<Rightarrow> done live log1))))"

end
