(* ===== verification/CronLaws.thy ===== *)
theory CronLaws
  imports CrontabLaws CronCmd
begin

text \<open>
  What the cron commands guarantee: an apply adds lines and removes none, installs at most once and only
  after the backup, and reports as applied only what the crontab shows afterwards; planning again after
  an apply asks for nothing more, unless a path was rewritten; a command scheduled twice is planned once;
  with a crontab that keeps what it is given, a rollback puts the old one back.
\<close>

section \<open>Reading and installing\<close>

definition is_install :: "script_call \<Rightarrow> bool" where
  "is_install c \<longleftrightarrow> fst c = install_script"

lemma install_not_read [simp]: "is_install (install_call content)" "\<not> is_install read_call"
  by (simp_all add: is_install_def install_call_def read_call_def install_script_def crontab_script_def)

lemma log_read: "snd (read_crontab_raw run log) = log @ [read_call]"
  by (simp add: read_crontab_raw_def)

lemma log_install: "snd (install_crontab run content log) = log @ [install_call content]"
  by (simp add: install_crontab_def)

lemma read_cases:
  obtains (failed) e where "read_crontab_raw run log = (Inl e, log @ [read_call])"
    | (ok) current where "read_crontab_raw run log = (Inr current, log @ [read_call])"
proof -
  obtain r l where rl: "read_crontab_raw run log = (r, l)" by fastforce
  have "l = log @ [read_call]" using rl log_read [of run log] by simp
  then show ?thesis using rl failed ok by (cases r) auto
qed

lemma install_cases:
  obtains (failed) e where "install_crontab run content log = (Inl e, log @ [install_call content])"
    | (ok) "install_crontab run content log = (Inr (), log @ [install_call content])"
proof -
  obtain r l where rl: "install_crontab run content log = (r, l)" by fastforce
  have "l = log @ [install_call content]" using rl log_install [of run content log] by simp
  then show ?thesis using rl failed ok by (cases r) auto
qed

section \<open>Reports\<close>

lemma with_creates_ops: "map cor_op (with_creates f xs) = xs"
  by (induction xs) (auto simp: with_creates_def initial_result_def case_prod_beta Let_def split: cron_action.splits)

lemma initial_ops: "map cor_op (map initial_result xs) = xs"
  by (induction xs) (auto simp: initial_result_def split: cron_action.splits)

lemma initial_status: "cor_status (initial_result x) \<noteq> CApplied"
  by (simp add: initial_result_def split: cron_action.splits)

lemma with_creates_applied:
  assumes "r \<in> set (with_creates f xs)" and "cor_status r = CApplied"
  shows "is_create (cor_op r) \<and> fst (f (cor_op r)) = CApplied"
  using assms initial_status by (auto simp: with_creates_def Let_def case_prod_beta split: if_splits)

lemma summary_zero:
  "cas_failed (summarize_cron_results rs) = 0 \<Longrightarrow> cas_refused (summarize_cron_results rs) = 0 \<Longrightarrow>
   \<forall>r\<in>set rs. cor_status r \<noteq> CFailed \<and> cor_status r \<noteq> CRefused"
  by (simp add: summarize_cron_results_def Let_def count_if_zero_iff)

definition report_sound :: "cron_plan \<Rightarrow> cron_apply_report \<Rightarrow> bool" where
  "report_sound plan rep \<longleftrightarrow>
     map cor_op (car_results rep) = cp_ops plan \<and>
     list_all (\<lambda>r. cor_status r \<noteq> CApplied \<or>
       is_create (cor_op r) \<and> contains (car_installed rep) (co_line (cor_op r))) (car_results rep)"

definition clean_exit :: "cron_outcome \<Rightarrow> bool" where
  "clean_exit out \<longleftrightarrow>
     (case cu_report out of
        None \<Rightarrow> cu_exit out = 1
      | Some rep \<Rightarrow> cu_exit out \<noteq> 0 \<or>
          list_all (\<lambda>r. cor_status r \<noteq> CFailed \<and> cor_status r \<noteq> CRefused) (car_results rep))"

lemma clean_exit_end:
  "clean_exit (cron_end env (cron_report_of plan note rs inst) bk log)"
  using summary_zero [of rs]
  by (auto simp: clean_exit_def cron_end_def finish_cron_report_def cron_report_of_def exit_gated_def list_all_iff)

lemma clean_exit_stop: "clean_exit (cron_stop 1 bk log)"
  by (simp add: clean_exit_def cron_stop_def)

lemma report_sound_none:
  "(\<And>x. fst (f x) \<noteq> CApplied) \<Longrightarrow> report_sound plan (cron_report_of plan note (with_creates f (cp_ops plan)) inst)"
  using with_creates_applied [of _ f "cp_ops plan"]
  by (auto simp: report_sound_def cron_report_of_def with_creates_ops list_all_iff)

lemma report_sound_initial:
  "report_sound plan (cron_report_of plan note (map initial_result (cp_ops plan)) inst)"
  using initial_status by (simp add: report_sound_def cron_report_of_def initial_ops list_all_iff flip: map_map)

lemma observed_applied: "fst (observed_line after x) = CApplied \<longleftrightarrow> contains after (co_line x)"
  by (simp add: observed_line_def)

lemma report_sound_observed:
  "report_sound plan (cron_report_of plan note (with_creates (observed_line after) (cp_ops plan)) after)"
  using with_creates_applied [of _ "observed_line after" "cp_ops plan"]
  by (auto simp: report_sound_def cron_report_of_def with_creates_ops list_all_iff observed_applied)

section \<open>An apply run\<close>

text \<open>The one write of a run, if there is one, and what allowed it.\<close>

definition allowed_install ::
  "(string \<Rightarrow> string) \<Rightarrow> runner \<Rightarrow> cron_plan \<Rightarrow> cron_outcome \<Rightarrow> script_log \<Rightarrow> script_call list \<Rightarrow> bool" where
  "allowed_install sha run plan out log ws \<longleftrightarrow>
     ws = [] \<or>
     (\<exists>current. fst (read_crontab_raw run log) = Inr current \<and>
        (cp_plan_time_hash plan = [] \<or> cp_plan_time_hash plan = cron_plan_dest_crontab_hash sha current) \<and>
        map_option cab_raw_crontab (cu_backup out) = Some current \<and>
        filter is_create (cp_ops plan) \<noteq> [] \<and>
        ws = [install_call (merged_crontab current (filter is_create (cp_ops plan)))])"

definition run_guarded ::
  "(string \<Rightarrow> string) \<Rightarrow> runner \<Rightarrow> cron_plan \<Rightarrow> script_log \<Rightarrow> cron_outcome \<Rightarrow> bool" where
  "run_guarded sha run plan log out \<longleftrightarrow>
     prefix log (cu_log out) \<and>
     allowed_install sha run plan out log (filter is_install (drop (length log) (cu_log out))) \<and>
     clean_exit out \<and>
     (case cu_report out of None \<Rightarrow> True | Some rep \<Rightarrow> report_sound plan rep)"

lemma guarded_stop:
  "filter is_install (drop (length log) log') = [] \<Longrightarrow> prefix log log' \<Longrightarrow>
   run_guarded sha run plan log (cron_stop (Suc 0) bk log')"
  using clean_exit_stop [of bk log'] by (simp add: run_guarded_def allowed_install_def) (simp add: cron_stop_def)

lemma guarded_end:
  assumes "prefix log log'" and "report_sound plan (cron_report_of plan note rs inst)"
    and "allowed_install sha run plan (cron_end env (cron_report_of plan note rs inst) bk log') log
      (filter is_install (drop (length log) log'))"
  shows "run_guarded sha run plan log (cron_end env (cron_report_of plan note rs inst) bk log')"
  using assms clean_exit_end [of env plan "note" rs inst bk log']
  by (simp add: run_guarded_def) (simp add: cron_end_def)

lemma apply_run_cases: "run_guarded sha run plan log (run_cron_apply_writes sha run env plan log)"
proof -
  let ?creates = "filter is_create (cp_ops plan)"
  consider "\<not> cl_input_hash env" | "cl_input_hash env" "?creates = []"
    | "cl_input_hash env" "?creates \<noteq> []" "\<not> cl_dial env"
    | "cl_input_hash env" "?creates \<noteq> []" "cl_dial env" by blast
  then show ?thesis
  proof cases
    case 1
    then show ?thesis by (simp add: run_cron_apply_writes_def Let_def guarded_stop)
  next
    case 2
    then show ?thesis
      by (simp add: run_cron_apply_writes_def Let_def)
        (rule guarded_end; simp add: report_sound_initial allowed_install_def)
  next
    case 3
    then show ?thesis by (simp add: run_cron_apply_writes_def Let_def guarded_stop)
  next
    case 4
    let ?log1 = "log @ [read_call]"
    show ?thesis
    proof (cases rule: read_cases [of run log])
      case (failed e)
      then show ?thesis using 4 by (simp add: run_cron_apply_writes_def Let_def guarded_stop)
    next
      case (ok current)
      let ?now = "cron_plan_dest_crontab_hash sha current"
      let ?bk = "Some \<lparr>cab_format_version = 1, cab_destination_user = cp_destination_user plan,
        cab_raw_crontab = current, cab_sha = ?now\<rparr>"
      let ?merged = "merged_crontab current ?creates"
      consider "cp_plan_time_hash plan \<noteq> []" "cp_plan_time_hash plan \<noteq> ?now"
        | "cp_plan_time_hash plan = [] \<or> cp_plan_time_hash plan = ?now" "\<not> cl_backup env"
        | "cp_plan_time_hash plan = [] \<or> cp_plan_time_hash plan = ?now" "cl_backup env" "\<not> cl_backup_hash env"
        | "cp_plan_time_hash plan = [] \<or> cp_plan_time_hash plan = ?now" "cl_backup env" "cl_backup_hash env"
        by blast
      then show ?thesis
      proof cases
        case 1
        have "run_cron_apply_writes sha run env plan log = cron_end env (cron_report_of plan stale_note
            (with_creates (\<lambda>_. (CRefused, ''crontab changed since plan (stale-plan guard)'')) (cp_ops plan)) []) None ?log1"
          using 1 4 ok by (simp add: run_cron_apply_writes_def Let_def)
        then show ?thesis
          by (simp only:) (rule guarded_end; simp add: report_sound_none allowed_install_def)
      next
        case 2
        then show ?thesis using 4 ok by (auto simp: run_cron_apply_writes_def Let_def guarded_stop)
      next
        case 3
        then show ?thesis using 4 ok by (auto simp: run_cron_apply_writes_def Let_def guarded_stop)
      next
        case go: 4
        have allowed: "allowed_install sha run plan (cron_end env rep ?bk log') log [install_call ?merged]" for rep log'
          using go(1) 4(2) ok by (auto simp: allowed_install_def cron_end_def)
        let ?log2 = "?log1 @ [install_call ?merged]"
        show ?thesis
        proof (cases rule: install_cases [of run ?merged ?log1])
          case (failed e)
          have "run_cron_apply_writes sha run env plan log = cron_end env (cron_report_of plan []
              (with_creates (\<lambda>_. (CFailed, ''install failed: '' @ e)) (cp_ops plan)) []) ?bk ?log2"
            using go 4 ok failed by (auto simp: run_cron_apply_writes_def Let_def)
          then show ?thesis
            by (simp only:) (rule guarded_end; simp add: report_sound_none allowed)
        next
          case installed: ok
          show ?thesis
          proof (cases rule: read_cases [of run ?log2])
            case (failed e)
            have "run_cron_apply_writes sha run env plan log = cron_end env (cron_report_of plan []
                (with_creates (\<lambda>_. (CFailed, ''verify-after read failed: '' @ e)) (cp_ops plan)) []) ?bk
                (?log2 @ [read_call])"
              using go 4 ok installed failed by (auto simp: run_cron_apply_writes_def Let_def)
            then show ?thesis
              by (simp only:) (rule guarded_end; simp add: report_sound_none allowed)
          next
            case after: (ok seen)
            have "run_cron_apply_writes sha run env plan log = cron_end env (cron_report_of plan []
                (with_creates (observed_line seen) (cp_ops plan)) seen) ?bk (?log2 @ [read_call])"
              using go 4 ok installed after by (auto simp: run_cron_apply_writes_def Let_def)
            then show ?thesis
              by (simp only:) (rule guarded_end; simp add: report_sound_observed allowed)
          qed
        qed
      qed
    qed
  qed
qed


section \<open>What an apply does to the crontab\<close>

text \<open>Lines a plan asks for, in the order they are written.\<close>

definition planned_lines :: "cron_op list \<Rightarrow> string list" where
  "planned_lines creates = lines_of CronEnv creates @ lines_of CronJobs creates"

lemma planned_line:
  "x \<in> set creates \<Longrightarrow> co_section x = CronJobs \<or> co_section x = CronEnv \<Longrightarrow> co_line x \<in> set (planned_lines creates)"
  by (auto simp: planned_lines_def lines_of_def)

lemma merged_lines:
  "merged_crontab cur creates = end_line cur @ concat (map (\<lambda>l. l @ [newline]) (planned_lines creates))"
  by (simp add: merged_crontab_def planned_lines_def)

lemma end_line_ends: "end_line cur = [] \<or> (\<exists>c. end_line cur = c @ [newline])"
  by (auto simp: end_line_def has_suffix_iff)

lemma parse_end_line: "parse_crontab sha (end_line cur) = parse_crontab sha cur"
  by (simp add: end_line_def parse_crontab_lines split_byte_append lines_result_append line_result_blank)

text \<open>C1. Installing a plan keeps everything that was in the crontab: the crontab it installs parses to
  the jobs, variables, comments and warnings of the old one, followed by those of the planned lines.\<close>

theorem cron_apply_keeps_crontab:
  assumes "\<forall>x\<in>set creates. newline \<notin> set (co_line x)"
  shows "\<exists>n. parse_crontab sha (merged_crontab cur creates) =
    join_results (parse_crontab sha cur) (lines_result sha n (planned_lines creates))"
proof -
  have "\<forall>l\<in>set (planned_lines creates). newline \<notin> set l"
    using assms by (auto simp: planned_lines_def lines_of_def)
  then show ?thesis
    unfolding merged_lines using parse_appended [OF end_line_ends] parse_end_line by metis
qed

section \<open>Planning again\<close>

lemma jobs_of_section: "cs_jobs (section_of_crontab res) = map job_entry (cr_jobs res)"
  by (simp add: section_of_crontab_def)

lemma job_entry_sha [simp]: "cj_sha (job_entry j) = ct_sha j"
  by (simp add: job_entry_def)

lemma env_entry_name [simp]: "ce_name (env_entry e) = cv_name e"
  by (simp add: env_entry_def)

lemma environment_of_section: "cs_environment (section_of_crontab res) = map env_entry (cr_environment res)"
  by (simp add: section_of_crontab_def)

lemma available_section: "cs_available (section_of_crontab res)"
  by (simp add: section_of_crontab_def)

text \<open>The operations of a plan between two crontabs that could be read.\<close>

lemma plan_ops:
  assumes "cs_available (inv_cron src)" and "cs_available (inv_cron dest)"
  shows "set (cp_ops (build_cron_plan src dest)) =
    cron_job_op (ai_user (inv_account src)) (ai_user (inv_account dest)) (cs_jobs (inv_cron dest))
      ` set (dedup_by cj_sha [] (cs_jobs (inv_cron src))) \<union>
    cron_env_op (cs_environment (inv_cron dest)) ` set (dedup_by ce_name [] (cs_environment (inv_cron src)))"
  using assms
  by (simp add: build_cron_plan_def Let_def plan_cron_envs_def plan_cron_jobs_def new_cron_plan_def)

lemma job_create:
  "is_create (cron_job_op su du dests j) \<longleftrightarrow>
     cj_collected j \<and> cj_enabled j \<and> first_with cj_sha (cj_sha j) dests = None"
  by (simp add: cron_job_op_def is_create_def cron_manual_def cron_op_of_def Let_def case_prod_beta split: option.split)

lemma job_created:
  assumes "is_create (cron_job_op su du dests j)"
  shows "co_section (cron_job_op su du dests j) = CronJobs \<and>
    co_line (cron_job_op su du dests j) = fst (adapt_cron_path (cron_job_line j) su du) \<and>
    co_path_adapted (cron_job_op su du dests j) = snd (adapt_cron_path (cron_job_line j) su du)"
  using assms unfolding job_create
  by (simp add: cron_job_op_def cron_op_of_def Let_def case_prod_beta)

lemma env_create:
  "is_create (cron_env_op dests e) \<longleftrightarrow> ce_collected e \<and> last_with ce_name (ce_name e) dests = None"
  by (simp add: cron_env_op_def is_create_def cron_manual_def cron_op_of_def Let_def split: option.split)

lemma env_created:
  assumes "is_create (cron_env_op dests e)"
  shows "co_section (cron_env_op dests e) = CronEnv \<and> co_line (cron_env_op dests e) = cron_env_text e"
  using assms unfolding env_create
  by (simp add: cron_env_op_def cron_op_of_def Let_def)

lemma not_adapted: "\<not> snd (adapt_cron_path l su du) \<Longrightarrow> fst (adapt_cron_path l su du) = l"
  by (auto simp: adapt_cron_path_def split: if_splits)

lemma lines_have_job:
  assumes "l \<in> set ls" and "\<And>k. \<exists>j. kind_of sha k l = Job j \<and> ct_sha j = h"
  shows "h \<in> ct_sha ` set (cr_jobs (lines_result sha n ls))"
proof -
  obtain i where "i < length ls" "ls ! i = l" using assms(1) by (auto simp: in_set_conv_nth)
  moreover obtain j where "kind_of sha (n + i) l = Job j" "ct_sha j = h" using assms(2) by blast
  ultimately have "j \<in> set (cr_jobs (lines_result sha n ls))" using lines_jobs by blast
  then show ?thesis using \<open>ct_sha j = h\<close> by blast
qed

lemma lines_have_variable:
  assumes "l \<in> set ls" and "\<And>k. \<exists>e. kind_of sha k l = Variable e \<and> cv_name e = h"
  shows "h \<in> cv_name ` set (cr_environment (lines_result sha n ls))"
proof -
  obtain i where "i < length ls" "ls ! i = l" using assms(1) by (auto simp: in_set_conv_nth)
  moreover obtain e where "kind_of sha (n + i) l = Variable e" "cv_name e = h" using assms(2) by blast
  ultimately have "e \<in> set (cr_environment (lines_result sha n ls))" using lines_environment by blast
  then show ?thesis using \<open>cv_name e = h\<close> by blast
qed

text \<open>Two inventories read from crontabs, and the destination after its plan is installed.\<close>

definition after_apply :: "(string \<Rightarrow> string) \<Rightarrow> inventory \<Rightarrow> string \<Rightarrow> inventory \<Rightarrow> inventory" where
  "after_apply sha src cur dest =
     dest\<lparr>inv_cron := section_of_crontab (parse_crontab sha
       (merged_crontab cur (filter is_create (cp_ops (build_cron_plan src dest)))))\<rparr>"

lemma job_line_of_entry:
  assumes "j \<in> set (cr_jobs (parse_crontab sha raw))" and "ct_enabled j"
  shows "cron_job_line (job_entry j) = ct_raw_line j"
proof -
  obtain n l where "kind_of sha n l = Job j" using crontab_job_line [OF assms(1)] by blast
  then have "ct_raw_line j \<noteq> []" using kind_job [of sha n l j] assms(2) by simp
  then show ?thesis by (simp add: cron_job_line_def job_entry_def)
qed

lemma created_lines:
  assumes "inv_cron src = section_of_crontab (parse_crontab sha sraw)"
    and "inv_cron dest = section_of_crontab res"
    and "x \<in> set (cp_ops (build_cron_plan src dest))" and "is_create x" and "\<not> co_path_adapted x"
  shows "(\<exists>j\<in>set (cr_jobs (parse_crontab sha sraw)). ct_enabled j \<and> co_section x = CronJobs \<and>
      co_line x = ct_raw_line j) \<or>
    (\<exists>e\<in>set (cr_environment (parse_crontab sha sraw)). cv_raw e \<noteq> [] \<and> co_section x = CronEnv \<and>
      co_line x = cv_name e @ ''='' @ cv_raw e)"
proof -
  have "cs_available (inv_cron src)" "cs_available (inv_cron dest)"
    using assms(1,2) by (simp_all add: available_section)
  note ops = plan_ops [OF this]
  from assms(3) consider j where "j \<in> set (cs_jobs (inv_cron src))"
      "x = cron_job_op (ai_user (inv_account src)) (ai_user (inv_account dest)) (cs_jobs (inv_cron dest)) j"
    | e where "e \<in> set (cs_environment (inv_cron src))" "x = cron_env_op (cs_environment (inv_cron dest)) e"
    unfolding ops by (elim UnE imageE) (auto dest: subsetD [OF dedup_by_subset])
  then show ?thesis
  proof cases
    case 1
    then obtain j0 where j0: "j0 \<in> set (cr_jobs (parse_crontab sha sraw))" "j = job_entry j0"
      by (auto simp: assms(1) jobs_of_section)
    have "ct_enabled j0" using assms(4) 1(2) j0(2) by (simp add: job_create job_entry_def)
    moreover have "co_section x = CronJobs" "co_line x = cron_job_line j"
      using job_created assms(4,5) 1(2) not_adapted by metis+
    ultimately show ?thesis using j0 job_line_of_entry [OF j0(1)] by auto
  next
    case 2
    then obtain e0 where e0: "e0 \<in> set (cr_environment (parse_crontab sha sraw))" "e = env_entry e0"
      by (auto simp: assms(1) environment_of_section)
    have "cv_raw e0 \<noteq> []" using assms(4) 2(2) e0(2) by (simp add: env_create env_entry_def)
    moreover have "co_section x = CronEnv" "co_line x = cron_env_text e"
      using env_created assms(4) 2(2) by simp_all
    ultimately show ?thesis using e0 by (auto simp: cron_env_text_def env_entry_def)
  qed
qed

lemma created_one_line:
  assumes "inv_cron src = section_of_crontab (parse_crontab sha sraw)"
    and "inv_cron dest = section_of_crontab res"
    and "\<forall>x\<in>set (cp_ops (build_cron_plan src dest)). \<not> co_path_adapted x"
  shows "\<forall>x\<in>set (filter is_create (cp_ops (build_cron_plan src dest))). newline \<notin> set (co_line x)"
proof
  fix x assume "x \<in> set (filter is_create (cp_ops (build_cron_plan src dest)))"
  then have "x \<in> set (cp_ops (build_cron_plan src dest))" "is_create x" by auto
  then show "newline \<notin> set (co_line x)"
    using created_lines [OF assms(1,2)] assms(3) job_line_one_line variable_line_one_line by metis
qed

text \<open>A line written for a create reads back as a job with the hash, or a variable with the name, the
  create was planned for.\<close>

lemma created_job_line:
  assumes "inv_cron src = section_of_crontab (parse_crontab sha sraw)"
    and "inv_cron dest = section_of_crontab res"
    and "\<forall>x\<in>set (cp_ops (build_cron_plan src dest)). \<not> co_path_adapted x"
    and "j \<in> set (dedup_by cj_sha [] (cs_jobs (inv_cron src)))"
    and "is_create (cron_job_op (ai_user (inv_account src)) (ai_user (inv_account dest)) (cs_jobs (inv_cron dest)) j)"
  shows "cj_sha j \<in> ct_sha ` set (cr_jobs (lines_result sha n
    (planned_lines (filter is_create (cp_ops (build_cron_plan src dest))))))"
proof -
  let ?creates = "filter is_create (cp_ops (build_cron_plan src dest))"
  let ?x = "cron_job_op (ai_user (inv_account src)) (ai_user (inv_account dest)) (cs_jobs (inv_cron dest)) j"
  have "cs_available (inv_cron src)" "cs_available (inv_cron dest)"
    by (simp_all add: assms(1,2) available_section)
  then have mem: "?x \<in> set ?creates" using assms(4,5) by (auto simp: plan_ops)
  have line: "co_section ?x = CronJobs" "co_line ?x = cron_job_line j"
    using job_created [OF assms(5)] not_adapted assms(3) mem by (auto simp del: filter_set)
  obtain j0 where j0: "j0 \<in> set (cr_jobs (parse_crontab sha sraw))" "j = job_entry j0"
    using assms(4) dedup_by_subset by (fastforce simp: assms(1) jobs_of_section)
  have en: "ct_enabled j0" using assms(5) j0(2) by (simp add: job_create job_entry_def)
  have "ct_raw_line j0 \<in> set (planned_lines ?creates)"
    using planned_line [OF mem] line job_line_of_entry [OF j0(1) en] j0(2) by metis
  moreover obtain k l where "kind_of sha k l = Job j0" using crontab_job_line [OF j0(1)] by blast
  then have "\<exists>i. kind_of sha k (ct_raw_line j0) = Job i \<and> ct_sha i = ct_sha j0" for k
    using kind_of_job_written en by fastforce
  ultimately have "ct_sha j0 \<in> ct_sha ` set (cr_jobs (lines_result sha n (planned_lines ?creates)))"
    by (rule lines_have_job)
  then show ?thesis by (simp add: j0(2))
qed

lemma created_env_line:
  assumes "inv_cron src = section_of_crontab (parse_crontab sha sraw)"
    and "inv_cron dest = section_of_crontab res"
    and "e \<in> set (dedup_by ce_name [] (cs_environment (inv_cron src)))"
    and "is_create (cron_env_op (cs_environment (inv_cron dest)) e)"
  shows "ce_name e \<in> cv_name ` set (cr_environment (lines_result sha n
    (planned_lines (filter is_create (cp_ops (build_cron_plan src dest))))))"
proof -
  let ?creates = "filter is_create (cp_ops (build_cron_plan src dest))"
  let ?x = "cron_env_op (cs_environment (inv_cron dest)) e"
  have "cs_available (inv_cron src)" "cs_available (inv_cron dest)"
    by (simp_all add: assms(1,2) available_section)
  then have mem: "?x \<in> set ?creates" using assms(3,4) by (auto simp: plan_ops)
  obtain e0 where e0: "e0 \<in> set (cr_environment (parse_crontab sha sraw))" "e = env_entry e0"
    using assms(3) dedup_by_subset by (fastforce simp: assms(1) environment_of_section)
  have raw: "cv_raw e0 \<noteq> []" using assms(4) e0(2) by (simp add: env_create env_entry_def)
  have "cv_name e0 @ ''='' @ cv_raw e0 \<in> set (planned_lines ?creates)"
    using planned_line [OF mem] env_created [OF assms(4)] by (simp add: cron_env_text_def e0(2) env_entry_def)
  moreover obtain k l where "kind_of sha k l = Variable e0" "newline \<notin> set l"
    using crontab_variable_line [OF e0(1)] by blast
  then have "\<exists>i. kind_of sha k (cv_name e0 @ ''='' @ cv_raw e0) = Variable i \<and> cv_name i = cv_name e0" for k
    using kind_of_variable_written raw by fastforce
  ultimately have "cv_name e0 \<in> cv_name ` set (cr_environment (lines_result sha n (planned_lines ?creates)))"
    by (rule lines_have_variable)
  then show ?thesis by (simp add: e0(2))
qed

text \<open>C29. Planning again after an apply asks for nothing more: when both inventories were read from
  crontabs and no path was rewritten, the plan between the source and the destination with the planned
  lines installed has nothing to create.\<close>

theorem cron_replan_converges:
  assumes "inv_cron src = section_of_crontab (parse_crontab sha sraw)"
    and "inv_cron dest = section_of_crontab (parse_crontab sha cur)"
    and "\<forall>x\<in>set (cp_ops (build_cron_plan src dest)). \<not> co_path_adapted x"
  shows "filter is_create (cp_ops (build_cron_plan src (after_apply sha src cur dest))) = []"
proof -
  let ?dest' = "after_apply sha src cur dest"
  let ?creates = "filter is_create (cp_ops (build_cron_plan src dest))"
  have avail: "cs_available (inv_cron src)" "cs_available (inv_cron ?dest')"
    by (simp_all add: assms(1) after_apply_def available_section)
  obtain n where n: "parse_crontab sha (merged_crontab cur ?creates) =
      join_results (parse_crontab sha cur) (lines_result sha n (planned_lines ?creates))"
    using cron_apply_keeps_crontab [OF created_one_line [OF assms]] by blast
  let ?new = "lines_result sha n (planned_lines ?creates)"
  have jobs: "cj_sha ` set (cs_jobs (inv_cron ?dest')) = cj_sha ` set (cs_jobs (inv_cron dest)) \<union> ct_sha ` set (cr_jobs ?new)"
    and env: "ce_name ` set (cs_environment (inv_cron ?dest')) =
      ce_name ` set (cs_environment (inv_cron dest)) \<union> cv_name ` set (cr_environment ?new)"
    by (simp_all add: after_apply_def assms(2) jobs_of_section environment_of_section n image_Un image_image)
  have user: "ai_user (inv_account ?dest') = ai_user (inv_account dest)" by (simp add: after_apply_def)
  have "\<not> is_create (cron_job_op (ai_user (inv_account src)) (ai_user (inv_account dest)) (cs_jobs (inv_cron ?dest')) j)"
    if "j \<in> set (dedup_by cj_sha [] (cs_jobs (inv_cron src)))" for j
    using created_job_line [OF assms that] by (simp add: job_create first_with_None_iff jobs) blast
  moreover have "\<not> is_create (cron_env_op (cs_environment (inv_cron ?dest')) e)"
    if "e \<in> set (dedup_by ce_name [] (cs_environment (inv_cron src)))" for e
    using created_env_line [OF assms(1,2) that] by (simp add: env_create last_with_None_iff env) blast
  ultimately show ?thesis
    by (auto simp: filter_empty_conv plan_ops [OF avail] user)
qed

section \<open>A rewritten path is planned again\<close>

definition whole_lines :: "string \<Rightarrow> bool" where
  "whole_lines s \<longleftrightarrow> s = [] \<or> (\<exists>c. s = c @ [newline])"

definition text_of :: "string list \<Rightarrow> string" where
  "text_of ls = concat (map (\<lambda>l. l @ [newline]) ls)"

lemma whole_lines_text: "whole_lines s \<Longrightarrow> whole_lines (s @ text_of ls)"
  by (cases ls rule: rev_cases) (auto simp: whole_lines_def text_of_def)

lemma split_at_line:
  assumes "whole_lines s" and "newline \<notin> set l"
  shows "\<exists>pre. split_byte newline (s @ l @ newline # r) = pre @ l # split_byte newline r"
  using assms split_byte_append_line [of newline l r] split_byte_append [of newline _ "l @ newline # r"]
  by (auto simp: whole_lines_def)

lemma line_twice:
  assumes "l \<in> set xs" and "l \<in> set ys" and "newline \<notin> set l" and "whole_lines s"
  shows "2 \<le> count_list (split_byte newline (s @ text_of xs @ text_of ys)) l"
proof -
  obtain x1 x2 y1 y2 where xs: "xs = x1 @ l # x2" and ys: "ys = y1 @ l # y2"
    using assms(1,2) by (metis split_list)
  let ?r = "text_of x2 @ text_of y1"
  have "s @ text_of xs @ text_of ys = (s @ text_of x1) @ l @ newline # (?r @ l @ newline # text_of y2)"
    by (simp add: xs ys text_of_def)
  moreover obtain pre where "split_byte newline ((s @ text_of x1) @ l @ newline # (?r @ l @ newline # text_of y2)) =
      pre @ l # split_byte newline (?r @ l @ newline # text_of y2)"
    using split_at_line [OF whole_lines_text [OF assms(4)] assms(3)] by blast
  moreover have "whole_lines ?r"
    using whole_lines_text [OF whole_lines_text [of "[]" x2], of y1] by (simp add: whole_lines_def)
  then obtain pre2 where "split_byte newline (?r @ l @ newline # text_of y2) = pre2 @ l # split_byte newline (text_of y2)"
    using split_at_line assms(3) by blast
  ultimately show ?thesis by simp
qed

lemma merged_twice:
  assumes "l \<in> set (planned_lines xs)" and "l \<in> set (planned_lines ys)" and "newline \<notin> set l"
  shows "2 \<le> count_list (split_byte newline (merged_crontab (merged_crontab cur xs) ys)) l"
proof -
  have w: "whole_lines (end_line cur)" using end_line_ends by (simp add: whole_lines_def)
  have m: "merged_crontab cur xs = end_line cur @ text_of (planned_lines xs)"
    by (simp add: merged_lines text_of_def)
  have e: "end_line (merged_crontab cur xs) = merged_crontab cur xs"
    using whole_lines_text [OF w, of "planned_lines xs"]
    by (auto simp: m whole_lines_def end_line_def has_suffix_iff)
  have "merged_crontab (merged_crontab cur xs) ys = merged_crontab cur xs @ text_of (planned_lines ys)"
    by (simp only: merged_lines [of "merged_crontab cur xs" ys] e text_of_def)
  then have "merged_crontab (merged_crontab cur xs) ys =
      end_line cur @ text_of (planned_lines xs) @ text_of (planned_lines ys)"
    using m by simp
  then show ?thesis using line_twice [OF assms w] by simp
qed

text \<open>When the home directory of the source account was rewritten in a planned job and none of the
  jobs of the crontab after the apply has the hash of the source command, the next plan asks for the
  same line again, and applying it leaves the line in the crontab twice.\<close>

theorem adapted_job_planned_again:
  assumes "cs_available (inv_cron src)" and "cs_available (inv_cron dest)"
    and "j \<in> set (dedup_by cj_sha [] (cs_jobs (inv_cron src)))"
    and "x = cron_job_op (ai_user (inv_account src)) (ai_user (inv_account dest)) (cs_jobs (inv_cron dest)) j"
    and "is_create x"
    and "cj_sha j \<notin> cj_sha ` set (cs_jobs (inv_cron (after_apply sha src cur dest)))"
    and "newline \<notin> set (co_line x)"
  shows "(\<exists>y\<in>set (cp_ops (build_cron_plan src (after_apply sha src cur dest))).
      is_create y \<and> co_line y = co_line x) \<and>
    2 \<le> count_list (split_byte newline
        (merged_crontab (merged_crontab cur (filter is_create (cp_ops (build_cron_plan src dest))))
          (filter is_create (cp_ops (build_cron_plan src (after_apply sha src cur dest)))))) (co_line x)"
proof -
  let ?dest' = "after_apply sha src cur dest"
  let ?y = "cron_job_op (ai_user (inv_account src)) (ai_user (inv_account ?dest')) (cs_jobs (inv_cron ?dest')) j"
  have avail: "cs_available (inv_cron ?dest')" by (simp add: after_apply_def available_section)
  have ops: "x \<in> set (cp_ops (build_cron_plan src dest))" "?y \<in> set (cp_ops (build_cron_plan src ?dest'))"
    using assms(3) by (simp_all add: plan_ops [OF assms(1,2)] plan_ops [OF assms(1) avail] assms(4))
  have cy: "is_create ?y"
    using assms(4-6) by (simp add: job_create first_with_None_iff)
  have user: "ai_user (inv_account ?dest') = ai_user (inv_account dest)" by (simp add: after_apply_def)
  have line: "co_line ?y = co_line x" "co_section ?y = CronJobs" "co_section x = CronJobs"
    using job_created [OF cy] job_created [OF assms(5) [unfolded assms(4)]] by (simp_all add: assms(4) user)
  have "co_line x \<in> set (planned_lines (filter is_create (cp_ops (build_cron_plan src dest))))"
    "co_line x \<in> set (planned_lines (filter is_create (cp_ops (build_cron_plan src ?dest'))))"
    using planned_line [of x "filter is_create (cp_ops (build_cron_plan src dest))"]
      planned_line [of ?y "filter is_create (cp_ops (build_cron_plan src ?dest'))"] ops assms(5) cy line
    by auto
  then show ?thesis using merged_twice assms(7) ops(2) cy line(1) by blast
qed

section \<open>A command scheduled twice\<close>

lemma job_op_shows:
  "co_section (cron_job_op su du dests j) = CronJobs \<and> co_key (cron_job_op su du dests j) = cron_job_key j \<and>
   co_source_value (cron_job_op su du dests j) = cron_job_shown j"
  by (simp add: cron_job_op_def cron_manual_def cron_op_of_def Let_def case_prod_beta split: option.split)

lemma env_op_section: "co_section (cron_env_op dests e) = CronEnv"
  by (simp add: cron_env_op_def cron_manual_def cron_op_of_def Let_def split: option.split)

lemma dedup_is_first:
  assumes "x \<in> set (dedup_by key [] xs)"
  shows "first_with key (key x) xs = Some x"
proof -
  have "find (\<lambda>y. key y = key x) (dedup_by key [] xs) = find (\<lambda>y. key y = key x) xs"
    by (rule dedup_by_first) simp
  moreover have "find (\<lambda>y. key y = key x) (dedup_by key [] xs) = Some x"
  proof -
    obtain y where y: "find (\<lambda>y. key y = key x) (dedup_by key [] xs) = Some y"
      using assms by (cases "find (\<lambda>y. key y = key x) (dedup_by key [] xs)") (auto simp: find_None_iff)
    then have "y \<in> set (dedup_by key [] xs)" "key y = key x"
      by (auto simp: find_Some_iff)
    then show ?thesis using y assms dedup_by_distinct [of key "[]" xs] by (auto simp: distinct_map inj_on_def)
  qed
  ultimately show ?thesis by (simp add: first_with_def)
qed

text \<open>A plan knows one schedule per command: of the source jobs whose masked commands have the same
  hash only the first is planned. A later one with another schedule, or another enabled state, is in no
  operation of the plan.\<close>

theorem second_schedule_not_planned:
  assumes "first_with cj_sha (cj_sha k) (cs_jobs (inv_cron src)) = Some j"
    and "cron_job_shown k \<noteq> cron_job_shown j"
    and "\<forall>i\<in>set (cs_jobs (inv_cron src)). cj_redacted i = cj_redacted k \<longrightarrow> cj_sha i = cj_sha k"
  shows "\<not> (\<exists>x\<in>set (cp_ops (build_cron_plan src dest)). co_section x = CronJobs \<and>
      co_key x = cron_job_key k \<and> co_source_value x = cron_job_shown k)"
proof
  assume "\<exists>x\<in>set (cp_ops (build_cron_plan src dest)). co_section x = CronJobs \<and>
      co_key x = cron_job_key k \<and> co_source_value x = cron_job_shown k"
  then obtain x where x: "x \<in> set (cp_ops (build_cron_plan src dest))" "co_section x = CronJobs"
      "co_key x = cron_job_key k" "co_source_value x = cron_job_shown k" by blast
  have avail: "cs_available (inv_cron src)" "cs_available (inv_cron dest)"
    using x(1) by (auto simp: build_cron_plan_def Let_def new_cron_plan_def split: if_splits)
  obtain i where i: "i \<in> set (dedup_by cj_sha [] (cs_jobs (inv_cron src)))"
    "x = cron_job_op (ai_user (inv_account src)) (ai_user (inv_account dest)) (cs_jobs (inv_cron dest)) i"
    using x(1,2) env_op_section unfolding plan_ops [OF avail] by fastforce
  have "cj_redacted i = cj_redacted k" "cron_job_shown i = cron_job_shown k"
    using x(3,4) job_op_shows by (simp_all add: i(2) cron_job_key_def)
  moreover have "i \<in> set (cs_jobs (inv_cron src))" using i(1) dedup_by_subset by fastforce
  ultimately have "first_with cj_sha (cj_sha k) (cs_jobs (inv_cron src)) = Some i"
    using assms(3) dedup_is_first [OF i(1)] by metis
  then show False using assms(1,2) \<open>cron_job_shown i = cron_job_shown k\<close> by simp
qed

section \<open>A crontab that keeps what it is given\<close>

text \<open>The documented behaviour of the remote side, as a hypothesis: \<open>crontab -\<close> accepts the text it is
  given, \<open>crontab -l\<close> prints it, and the shell's command substitution drops the line breaks at its end.\<close>

fun current_crontab :: "string \<Rightarrow> script_log \<Rightarrow> string" where
  "current_crontab start [] = start"
| "current_crontab start (c # log) =
     current_crontab (if is_install c then (case map_of (snd c) ''CRONTAB_CONTENT'' of None \<Rightarrow> [] | Some t \<Rightarrow> t)
                      else start) log"

definition keeps_crontab :: "runner \<Rightarrow> string \<Rightarrow> bool" where
  "keeps_crontab run start \<longleftrightarrow>
     (\<forall>log content. run log (install_call content) = Inr (''RC=0'' @ [newline])) \<and>
     (\<forall>log. run log read_call =
        Inr (trim_right_byte newline (current_crontab start log) @ [newline] @ ''__CRONTAB_RC:0__'' @ [newline]))"

lemma current_append: "current_crontab start (xs @ ys) = current_crontab (current_crontab start xs) ys"
  by (induction xs arbitrary: start) auto

lemma current_install: "current_crontab start (log @ [install_call t]) = t"
proof -
  have "map_of (snd (install_call t)) ''CRONTAB_CONTENT'' = Some t" by (simp add: install_call_def)
  then show ?thesis by (simp add: current_append)
qed

lemma current_read: "current_crontab start (log @ [read_call]) = current_crontab start log"
  by (simp add: current_append)

lemma marker_line:
  "map_option (\<lambda>m. m 1) (rx_submatch cron_rc_line_re ''__CRONTAB_RC:0__'') = Some ''0''"
  by code_simp

lemma split_marker_ok:
  "split_cron_marker (s @ newline # ''__CRONTAB_RC:0__'' @ [newline]) = Inr (s, 0)"
proof -
  have trim: "trim_right_byte newline (s @ newline # ''__CRONTAB_RC:0__'' @ [newline]) = s @ newline # ''__CRONTAB_RC:0__''"
    by (simp add: trim_right_byte_def newline_def)
  have nl: "newline \<notin> set ''__CRONTAB_RC:0__''" by (simp add: newline_def)
  have "split_byte newline (s @ newline # ''__CRONTAB_RC:0__'') = split_byte newline s @ [''__CRONTAB_RC:0__'']"
    by (simp only: split_byte_append split_byte_no_sep [OF nl])
  moreover obtain m where "rx_submatch cron_rc_line_re ''__CRONTAB_RC:0__'' = Some m" "m 1 = ''0''"
    using marker_line by auto
  moreover have "atoi_digits ''0'' = Inr 0" by code_simp
  ultimately show ?thesis
    unfolding split_cron_marker_def Let_def trim by (simp add: join_split_byte)
qed

lemma kept_read:
  "keeps_crontab run start \<Longrightarrow>
   read_crontab_raw run log = (Inr (trim_right_byte newline (current_crontab start log)), log @ [read_call])"
  using split_marker_ok by (simp add: keeps_crontab_def read_crontab_raw_def)

lemma kept_install:
  "keeps_crontab run start \<Longrightarrow> install_crontab run t log = (Inr (), log @ [install_call t])"
proof -
  assume k: "keeps_crontab run start"
  have "has_suffix (trim_space (''RC=0'' @ [newline])) ''RC=0''" by code_simp
  then show ?thesis using k by (simp add: keeps_crontab_def install_crontab_def)
qed

lemma trimmed_contains:
  assumes "newline \<notin> set l" and "l \<noteq> []"
  shows "contains (trim_right_byte newline (s @ l @ r)) l"
proof -
  obtain l' c where l: "l = l' @ [c]" "c \<noteq> newline" using assms by (cases l rule: rev_cases) auto
  have "\<exists>r'. trim_right_byte newline (s @ l @ r) = s @ l @ r'"
    by (auto simp: trim_right_byte_def dropWhile_append l intro: exI [of _ "[]"])
  then show ?thesis by (auto simp: contains_iff)
qed

lemma trim_right_idem: "trim_right_byte c (trim_right_byte c s) = trim_right_byte c s"
  by (simp add: trim_right_byte_def dropWhile_idem)

lemma planned_in_merged:
  assumes "l \<in> set (planned_lines xs)" and "newline \<notin> set l" and "l \<noteq> []"
  shows "contains (trim_right_byte newline (merged_crontab cur xs)) l"
proof -
  obtain a b where "planned_lines xs = a @ l # b" using assms(1) by (metis split_list)
  then have "merged_crontab cur xs = (end_line cur @ text_of a) @ l @ (newline # text_of b)"
    by (simp add: merged_lines text_of_def)
  then show ?thesis using trimmed_contains [OF assms(2,3)] by metis
qed

definition verdict_on :: "string \<Rightarrow> cron_op \<Rightarrow> cron_verify_result" where
  "verdict_on live x =
     \<lparr>cvr_op = x, cvr_status = fst (verify_cron_op live x), cvr_reason = snd (verify_cron_op live x)\<rparr>"

lemma verify_results: "cvp_results (verify_cron_plan plan live) = map (verdict_on live) (cp_ops plan)"
proof -
  have "cvp_results (foldl (add_verdict live) rep xs) = cvp_results rep @ map (verdict_on live) xs" for rep xs
    by (induction xs arbitrary: rep) (simp_all add: add_verdict_def verdict_on_def Let_def case_prod_beta)
  then show ?thesis by (simp add: verify_cron_plan_def)
qed

lemma create_verified:
  "(is_create x \<Longrightarrow> co_line x \<noteq> [] \<and> contains live (co_line x)) \<Longrightarrow>
   is_create x = (fst (verify_cron_op live x) = CVApplied)"
  by (cases "co_action x") (simp_all add: is_create_def verify_cron_op_def Let_def)

definition all_good :: "cron_local \<Rightarrow> bool" where
  "all_good env \<longleftrightarrow> cl_input_hash env \<and> cl_dial env \<and> cl_backup env \<and> cl_backup_hash env \<and>
     cl_report_json env \<and> cl_report_md env"

lemma observed_creates:
  assumes "\<And>x. x \<in> set xs \<Longrightarrow> is_create x \<Longrightarrow> contains after (co_line x)"
  shows "list_all (\<lambda>r. is_create (cor_op r) = (cor_status r = CApplied)) (with_creates (observed_line after) xs)"
  using assms initial_status
  by (auto simp: with_creates_def list_all_iff Let_def case_prod_beta observed_line_def initial_result_def
      is_create_def split: cron_action.splits)

lemma verified_creates:
  assumes "\<And>x. x \<in> set (cp_ops plan) \<Longrightarrow> is_create x \<Longrightarrow> co_line x \<noteq> [] \<and> contains live (co_line x)"
  shows "list_all (\<lambda>r. is_create (cvr_op r) = (cvr_status r = CVApplied)) (cvp_results (verify_cron_plan plan live))"
proof -
  have "is_create (cvr_op r) = (cvr_status r = CVApplied)" if r: "r \<in> set (map (verdict_on live) (cp_ops plan))" for r
  proof -
    obtain x where x: "x \<in> set (cp_ops plan)" "r = verdict_on live x" using r by auto
    have "is_create x = (fst (verify_cron_op live x) = CVApplied)"
      using assms [OF x(1)] by (rule create_verified)
    then show ?thesis by (simp only: x(2) verdict_on_def cron_verify_result.select_convs)
  qed
  then show ?thesis by (simp only: verify_results list_all_iff) blast
qed

lemma kept_rollback:
  assumes "keeps_crontab run start" and "all_good env" and "cab_format_version bk = 1"
    and "trim_right_byte newline (cab_raw_crontab bk) = cab_raw_crontab bk"
  shows "let undone = run_cron_rollback sha run env (Inr bk) True log in
    cu_exit undone = 0 \<and> trim_right_byte newline (current_crontab start (cu_log undone)) = cab_raw_crontab bk"
proof -
  let ?log = "log @ [install_call (cab_raw_crontab bk)]"
  have "run_cron_rollback sha run env (Inr bk) True log =
      cron_end env (rollback_report bk CApplied []) None (?log @ [read_call])"
    using assms(2-4) by (simp add: run_cron_rollback_def kept_read [OF assms(1)] kept_install [OF assms(1)]
        all_good_def current_install)
  moreover have "cu_exit (cron_end env (rollback_report bk CApplied []) None l) = 0" for l
    using assms(2)
    by (simp add: cron_end_def finish_cron_report_def rollback_report_def summarize_cron_results_def Let_def all_good_def)
  moreover have "current_crontab start (?log @ [read_call]) = cab_raw_crontab bk"
    by (simp only: current_read current_install)
  ultimately show ?thesis using assms(4) by (simp add: cron_end_def)
qed

lemma kept_apply:
  assumes "keeps_crontab run start" and "all_good env" and "cur = trim_right_byte newline (current_crontab start log)"
    and "cp_plan_time_hash plan = [] \<or> cp_plan_time_hash plan = cron_plan_dest_crontab_hash sha cur"
    and "filter is_create (cp_ops plan) \<noteq> []"
    and "seen = trim_right_byte newline (merged_crontab cur (filter is_create (cp_ops plan)))"
  shows "\<exists>log'. run_cron_apply_writes sha run env plan log =
    cron_end env (cron_report_of plan [] (with_creates (observed_line seen) (cp_ops plan)) seen)
      (Some \<lparr>cab_format_version = 1, cab_destination_user = cp_destination_user plan, cab_raw_crontab = cur,
         cab_sha = cron_plan_dest_crontab_hash sha cur\<rparr>) log'"
proof -
  have "current_crontab start (log @ [read_call, install_call t]) = t" for t
    using current_install [of start "log @ [read_call]" t] by simp
  then show ?thesis
    using assms(2,4,5)
    by (auto simp: run_cron_apply_writes_def Let_def kept_read [OF assms(1)] kept_install [OF assms(1)]
        all_good_def assms(3,6))
qed

text \<open>C12. With a crontab that keeps what it is given and nothing failing locally, an apply of planned
  lines reports every create as applied and the verifier agrees; rolling back the backup it wrote exits 0
  and leaves the crontab that was there before, up to line breaks at its end.\<close>

theorem cron_apply_then_rollback:
  assumes "keeps_crontab run start" and "all_good env"
    and "cp_plan_time_hash plan = [] \<or> cp_plan_time_hash plan = cron_plan_dest_crontab_hash sha
      (trim_right_byte newline (current_crontab start log))"
    and "filter is_create (cp_ops plan) \<noteq> []"
    and "\<forall>x\<in>set (filter is_create (cp_ops plan)). co_line x \<noteq> [] \<and> newline \<notin> set (co_line x) \<and>
      (co_section x = CronJobs \<or> co_section x = CronEnv)"
  shows "let out = run_cron_apply_writes sha run env plan log in
    \<exists>rep bk. cu_report out = Some rep \<and> cu_backup out = Some bk \<and>
      list_all (\<lambda>r. is_create (cor_op r) = (cor_status r = CApplied)) (car_results rep) \<and>
      list_all (\<lambda>r. is_create (cvr_op r) = (cvr_status r = CVApplied))
        (cvp_results (verify_cron_plan plan (car_installed rep))) \<and>
      (let undone = run_cron_rollback sha run env (Inr bk) True (cu_log out) in
        cu_exit undone = 0 \<and>
        trim_right_byte newline (current_crontab start (cu_log undone)) =
          trim_right_byte newline (current_crontab start log))"
proof -
  define cur where "cur = trim_right_byte newline (current_crontab start log)"
  define seen where "seen = trim_right_byte newline (merged_crontab cur (filter is_create (cp_ops plan)))"
  let ?bk = "\<lparr>cab_format_version = 1, cab_destination_user = cp_destination_user plan, cab_raw_crontab = cur,
      cab_sha = cron_plan_dest_crontab_hash sha cur\<rparr>"
  let ?rep = "cron_report_of plan [] (with_creates (observed_line seen) (cp_ops plan)) seen"
  obtain log' where out: "run_cron_apply_writes sha run env plan log = cron_end env ?rep (Some ?bk) log'"
    using kept_apply [OF assms(1,2) cur_def assms(3) [folded cur_def] assms(4) seen_def] by blast
  have shows_line: "co_line x \<noteq> [] \<and> contains seen (co_line x)" if "x \<in> set (cp_ops plan)" "is_create x" for x
  proof -
    have x: "x \<in> set (filter is_create (cp_ops plan))" using that by simp
    then show ?thesis using planned_in_merged planned_line [OF x] bspec [OF assms(5) x] unfolding seen_def by blast
  qed
  have "car_results ?rep = with_creates (observed_line seen) (cp_ops plan)" "car_installed ?rep = seen"
    by (simp_all add: cron_report_of_def)
  then have "list_all (\<lambda>r. is_create (cor_op r) = (cor_status r = CApplied)) (car_results ?rep)"
    "list_all (\<lambda>r. is_create (cvr_op r) = (cvr_status r = CVApplied))
      (cvp_results (verify_cron_plan plan (car_installed ?rep)))"
    using observed_creates verified_creates shows_line by metis+
  moreover have "let undone = run_cron_rollback sha run env (Inr ?bk) True log' in cu_exit undone = 0 \<and>
      trim_right_byte newline (current_crontab start (cu_log undone)) = cab_raw_crontab ?bk"
    by (rule kept_rollback [OF assms(1,2)]) (simp_all add: cur_def trim_right_idem)
  ultimately show ?thesis
    unfolding out Let_def cur_def [symmetric]
    by (intro exI [of _ ?rep] exI [of _ ?bk]) (simp add: cron_end_def)
qed

section \<open>The laws at work\<close>

lemma parse_ended_line:
  "newline \<notin> set l \<Longrightarrow> parse_crontab sha (l @ [newline]) = result_of_kind (kind_of sha 1 l)"
  by (simp add: parse_crontab_lines split_byte_append_line line_result_blank) (simp add: line_result_kind)

lemma macro_job:
  assumes "l = m @ CHR '' '' # c" and "m \<in> set cron_macros" and "trim_space (CHR '' '' # c) = c" and "c \<noteq> []"
    and "trim_space l = l" and "newline \<notin> set l"
  shows "\<exists>j. kind_of sha n l = Job j \<and> ct_sha j = sha256_tag sha (redact_cron_command c) \<and> ct_enabled j"
proof -
  have m: "\<exists>w. m = CHR ''@'' # w" "list_all (\<lambda>c. \<not> blank c) m"
    using assms(2) by (auto simp: cron_macros_def blank_def)
  have head: "\<not> has_prefix l ''#''" "has_prefix l ''@''" "l \<noteq> []"
    using m(1) assms(1) by (auto simp: has_prefix_def)
  have sp: "blank CHR '' ''" by (simp add: blank_def)
  have cut: "takeWhile (\<lambda>c. \<not> blank c) l = m" "dropWhile (\<lambda>c. \<not> blank c) l = CHR '' '' # c"
    "list_ex blank l"
    unfolding assms(1) using m(2) sp by (induction m) auto
  have "env_split l = None"
    using m(1) by (auto simp: env_split_def assms(1) is_alpha_def is_upper_def is_lower_def byte_def)
  then have "rx_submatch cron_env_line l = None" using cron_env_line_find [OF assms(6)] by simp
  moreover have "try_parse_job sha l = Some ((job_of_command sha c)\<lparr>ct_type := ''macro'', ct_macro := m\<rparr>)"
    unfolding try_parse_job_def Let_def cut by (simp add: head cut assms(2-4))
  ultimately show ?thesis
    unfolding kind_of_def Let_def assms(5) by (simp add: head job_of_command_def)
qed

definition an_inventory :: "string \<Rightarrow> cron_section \<Rightarrow> inventory" where
  "an_inventory user sec = (new_empty_inventory [] user [] [])\<lparr>inv_cron := sec\<rparr>"

definition a_job :: "string \<Rightarrow> string \<Rightarrow> cron_job" where
  "a_job macro command =
     \<lparr>cj_type = ''macro'', cj_minute = [], cj_hour = [], cj_day_of_month = [], cj_month = [], cj_day_of_week = [],
      cj_macro = macro, cj_redacted = command, cj_clear = command, cj_sha = ''sha256:'' @ command, cj_raw_sha = [],
      cj_raw_line = macro @ '' '' @ command, cj_enabled = True, cj_line = 1, cj_warnings = [], cj_collected = True\<rparr>"

definition jobs_only :: "cron_job list \<Rightarrow> cron_section" where
  "jobs_only js = new_empty_cron_section\<lparr>cs_available := True, cs_jobs := js\<rparr>"

theorem second_schedule_not_planned_witness:
  "\<not> (\<exists>x\<in>set (cp_ops (build_cron_plan
       (an_inventory ''u'' (jobs_only [a_job ''@daily'' ''x'', a_job ''@hourly'' ''x'']))
       (an_inventory ''v'' (jobs_only [])))).
     co_section x = CronJobs \<and> co_key x = ''x'' \<and> co_source_value x = ''@hourly enabled=true'')"
proof -
  let ?src = "an_inventory ''u'' (jobs_only [a_job ''@daily'' ''x'', a_job ''@hourly'' ''x''])"
  have js: "cs_jobs (inv_cron ?src) = [a_job ''@daily'' ''x'', a_job ''@hourly'' ''x'']"
    by (simp add: an_inventory_def jobs_only_def)
  have "first_with cj_sha (cj_sha (a_job ''@hourly'' ''x'')) (cs_jobs (inv_cron ?src)) = Some (a_job ''@daily'' ''x'')"
    unfolding js by (simp add: first_with_def a_job_def)
  moreover have "cron_job_shown (a_job ''@hourly'' ''x'') \<noteq> cron_job_shown (a_job ''@daily'' ''x'')" by code_simp
  moreover have "\<forall>i\<in>set (cs_jobs (inv_cron ?src)). cj_redacted i = cj_redacted (a_job ''@hourly'' ''x'') \<longrightarrow>
      cj_sha i = cj_sha (a_job ''@hourly'' ''x'')"
    unfolding js by (simp add: a_job_def)
  ultimately have "\<not> (\<exists>x\<in>set (cp_ops (build_cron_plan ?src (an_inventory ''v'' (jobs_only [])))).
      co_section x = CronJobs \<and> co_key x = cron_job_key (a_job ''@hourly'' ''x'') \<and>
      co_source_value x = cron_job_shown (a_job ''@hourly'' ''x''))"
    by (rule second_schedule_not_planned)
  moreover have "cron_job_key (a_job ''@hourly'' ''x'') = ''x''" by (simp add: cron_job_key_def a_job_def)
  moreover have "cron_job_shown (a_job ''@hourly'' ''x'') = ''@hourly enabled=true''" by code_simp
  ultimately show ?thesis by (simp only: not_False_eq_True)
qed

text \<open>One job of user \<open>u\<close> moves to user \<open>v\<close>; the hash function is the identity.\<close>

abbreviation (input) moving :: inventory where
  "moving \<equiv> an_inventory ''u'' (jobs_only [a_job ''@daily'' ''/home/u/x''])"

abbreviation (input) target :: inventory where
  "target \<equiv> an_inventory ''v'' (jobs_only [])"

lemma moving_op:
  "co_line (cron_job_op ''u'' ''v'' [] (a_job ''@daily'' ''/home/u/x'')) = ''@daily /home/v/x''"
  "is_create (cron_job_op ''u'' ''v'' [] (a_job ''@daily'' ''/home/u/x''))"
  by code_simp+

lemma moving_merged:
  "merged_crontab [] (filter is_create (cp_ops (build_cron_plan moving target))) = ''@daily /home/v/x'' @ [newline]"
  by code_simp

theorem adapted_job_planned_again_witness:
  "(\<exists>y\<in>set (cp_ops (build_cron_plan moving (after_apply (\<lambda>s. s) moving [] target))).
      is_create y \<and> co_line y = ''@daily /home/v/x'') \<and>
    2 \<le> count_list (split_byte newline
        (merged_crontab (merged_crontab [] (filter is_create (cp_ops (build_cron_plan moving target))))
          (filter is_create (cp_ops (build_cron_plan moving (after_apply (\<lambda>s. s) moving [] target))))))
        ''@daily /home/v/x''"
proof -
  let ?j = "a_job ''@daily'' ''/home/u/x''" and ?l = "''@daily /home/v/x''"
  let ?x = "cron_job_op ''u'' ''v'' [] ?j"
  have inv: "cs_jobs (inv_cron moving) = [?j]" "cs_jobs (inv_cron target) = []"
    "cs_available (inv_cron moving)" "cs_available (inv_cron target)"
    "ai_user (inv_account moving) = ''u''" "ai_user (inv_account target) = ''v''"
    by (simp_all add: an_inventory_def jobs_only_def new_empty_inventory_def)
  have nl: "newline \<notin> set ?l" by (simp add: newline_def)
  obtain k where k: "kind_of (\<lambda>s. s) 1 ?l = Job k" "ct_sha k = sha256_tag (\<lambda>s. s) (redact_cron_command ''/home/v/x'')"
      "ct_enabled k"
  proof -
    have "\<exists>j. kind_of (\<lambda>s. s) 1 ?l = Job j \<and>
        ct_sha j = sha256_tag (\<lambda>s. s) (redact_cron_command ''/home/v/x'') \<and> ct_enabled j"
    proof (rule macro_job [OF _ _ _ _ _ nl])
      show "?l = ''@daily'' @ CHR '' '' # ''/home/v/x''" by simp
      show "''@daily'' \<in> set cron_macros" by (simp add: cron_macros_def)
      show "trim_space (CHR '' '' # ''/home/v/x'') = ''/home/v/x''" by code_simp
      show "trim_space ?l = ?l" by code_simp
    qed simp
    then show ?thesis using that by blast
  qed
  have plain: "redact_cron_command ''/home/v/x'' = ''/home/v/x''"
    by (rule redact_plain) code_simp
  have "parse_crontab (\<lambda>s. s) (?l @ [newline]) = result_of_kind (kind_of (\<lambda>s. s) 1 ?l)"
    using nl by (rule parse_ended_line)
  then have jobs: "cr_jobs (parse_crontab (\<lambda>s. s) (?l @ [newline])) = [k]"
    unfolding k(1) by (simp add: result_of_kind_def new_crontab_result_def)
  have "cj_sha ` set (cs_jobs (inv_cron (after_apply (\<lambda>s. s) moving [] target))) = {''sha256:/home/v/x''}"
    unfolding after_apply_def moving_merged
    by (simp add: jobs_of_section jobs [unfolded append.simps] k(2) plain sha256_tag_def)
  then have gone: "cj_sha ?j \<notin> cj_sha ` set (cs_jobs (inv_cron (after_apply (\<lambda>s. s) moving [] target)))"
    by (simp add: a_job_def)
  have first: "?j \<in> set (dedup_by cj_sha [] (cs_jobs (inv_cron moving)))" by (simp only: inv) simp
  have op: "?x = cron_job_op (ai_user (inv_account moving)) (ai_user (inv_account target)) (cs_jobs (inv_cron target)) ?j"
    by (simp only: inv)
  show ?thesis
    by (rule adapted_job_planned_again [OF inv(3,4) first op moving_op(2) gone, unfolded moving_op(1), OF nl])
qed

lemma same_user_not_adapted:
  assumes "ai_user (inv_account src) = ai_user (inv_account dest)"
    and "cs_available (inv_cron src)" and "cs_available (inv_cron dest)"
  shows "\<forall>x\<in>set (cp_ops (build_cron_plan src dest)). \<not> co_path_adapted x"
proof -
  have "\<not> co_path_adapted (cron_job_op u u dests j)" for u dests j
    by (simp add: cron_job_op_def adapt_cron_path_def cron_manual_def cron_op_of_def Let_def split: option.split)
  moreover have "\<not> co_path_adapted (cron_env_op dests e)" for dests e
    by (simp add: cron_env_op_def cron_manual_def cron_op_of_def Let_def split: option.split)
  ultimately show ?thesis unfolding plan_ops [OF assms(2,3)] assms(1) by blast
qed

theorem cron_replan_converges_witness:
  "let src = an_inventory ''u'' (section_of_crontab (parse_crontab (\<lambda>s. s) (''MAILTO=x'' @ [newline] @ ''@daily y'')));
       dest = an_inventory ''u'' (section_of_crontab (parse_crontab (\<lambda>s. s) ''@hourly z''))
   in filter is_create (cp_ops (build_cron_plan src (after_apply (\<lambda>s. s) src ''@hourly z'' dest))) = []"
  unfolding Let_def
  by (rule cron_replan_converges [OF _ _ same_user_not_adapted])
    (simp_all add: an_inventory_def new_empty_inventory_def available_section)

definition keeper :: "string \<Rightarrow> runner" where
  "keeper start log c =
     (if is_install c then Inr (''RC=0'' @ [newline])
      else Inr (trim_right_byte newline (current_crontab start log) @ [newline] @ ''__CRONTAB_RC:0__'' @ [newline]))"

lemma keeper_keeps: "keeps_crontab (keeper start) start"
  by (simp add: keeps_crontab_def keeper_def)

definition nothing_fails :: cron_local where
  "nothing_fails = \<lparr>cl_input_hash = True, cl_dial = True, cl_backup = True, cl_backup_hash = True,
     cl_report_json = True, cl_report_md = True\<rparr>"

theorem cron_apply_then_rollback_witness:
  "let out = run_cron_apply_writes (\<lambda>s. s) (keeper ''@hourly z'') nothing_fails (build_cron_plan moving target) [] in
    \<exists>rep bk. cu_report out = Some rep \<and> cu_backup out = Some bk \<and>
      list_all (\<lambda>r. is_create (cor_op r) = (cor_status r = CApplied)) (car_results rep) \<and>
      list_all (\<lambda>r. is_create (cvr_op r) = (cvr_status r = CVApplied))
        (cvp_results (verify_cron_plan (build_cron_plan moving target) (car_installed rep))) \<and>
      (let undone = run_cron_rollback (\<lambda>s. s) (keeper ''@hourly z'') nothing_fails (Inr bk) True (cu_log out) in
        cu_exit undone = 0 \<and>
        trim_right_byte newline (current_crontab ''@hourly z'' (cu_log undone)) =
          trim_right_byte newline (current_crontab ''@hourly z'' []))"
proof (rule cron_apply_then_rollback [OF keeper_keeps])
  show "all_good nothing_fails" by (simp add: all_good_def nothing_fails_def)
  have "cp_plan_time_hash (build_cron_plan moving target) = []" by code_simp
  then show "cp_plan_time_hash (build_cron_plan moving target) = [] \<or>
      cp_plan_time_hash (build_cron_plan moving target) = cron_plan_dest_crontab_hash (\<lambda>s. s)
        (trim_right_byte newline (current_crontab ''@hourly z'' []))" ..
  show "filter is_create (cp_ops (build_cron_plan moving target)) \<noteq> []" by code_simp
  have "list_all (\<lambda>x. co_line x \<noteq> [] \<and> newline \<notin> set (co_line x) \<and>
      (co_section x = CronJobs \<or> co_section x = CronEnv)) (filter is_create (cp_ops (build_cron_plan moving target)))"
    by code_simp
  then show "\<forall>x\<in>set (filter is_create (cp_ops (build_cron_plan moving target))).
      co_line x \<noteq> [] \<and> newline \<notin> set (co_line x) \<and> (co_section x = CronJobs \<or> co_section x = CronEnv)"
    by (simp only: list_all_iff)
qed

end
