(* ===== verification/PhpSerialize.thy ===== *)
theory PhpSerialize
  imports GoStrings
begin

text \<open>
  The decoder of PHP's \<open>serialize()\<close> format (internal/phpserialize/phpserialize.go).

  A decoded value is a \<open>php\<close>; the decoder is a position in the text, passed along and returned.
  Go's run-time failures are modelled: every index and slice of the text is a read that fails with
  \<open>Panic\<close> out of range, so that the absence of panics is a theorem and not an assumption. Arrays
  nest at most 64 deep, which is the recursion's measure.

  Floats are the only values the program does not compute with: \<open>strconv.ParseFloat\<close> and the
  text \<open>fmt\<close> prints for a float are the pair \<open>fl\<close> of parameters.
\<close>

section \<open>Values and errors\<close>

datatype 'f php =
  PStr string | PInt int | PFloat 'f | PBool bool | PNull | PArr "(string \<times> 'f php) list"

datatype php_error =
    TooLarge nat
  | UnexpectedEnd nat
  | UnsupportedType char nat
  | Expected string nat string
  | Unterminated char nat
  | BadInteger string
  | NegativeLength int nat
  | LengthBeyondInt32 int nat
  | LengthOverruns int nat
  | BadDouble string
  | TruncatedBool
  | TooDeep
  | NegativeCount int
  | CountBeyondLimit int
  | CountBeyondInput int int
  | Panic

record 'f float_text =
  ft_parse :: "string \<Rightarrow> 'f option"
  ft_show :: "'f \<Rightarrow> string"

definition max_input_bytes :: nat where "max_input_bytes = 50 * 1024 * 1024"

definition max_array_elements :: nat where "max_array_elements = 100000"

definition max_depth :: nat where "max_depth = 64"

section \<open>Reading the text\<close>

definition byte_at :: "string \<Rightarrow> nat \<Rightarrow> php_error + char" where
  "byte_at s p = (if p < length s then Inr (s ! p) else Inl Panic)"

definition slice :: "string \<Rightarrow> nat \<Rightarrow> nat \<Rightarrow> php_error + string" where
  "slice s a b = (if a \<le> b \<and> b \<le> length s then Inr (take (b - a) (drop a s)) else Inl Panic)"

definition snippet_at :: "string \<Rightarrow> nat \<Rightarrow> php_error + string" where
  "snippet_at s p = slice s p (min (p + 16) (length s))"

definition expect :: "string \<Rightarrow> string \<Rightarrow> nat \<Rightarrow> php_error + nat" where
  "expect lit s p =
     bindr (slice s p (length s)) (\<lambda>rest.
       if has_prefix rest lit then Inr (p + length lit)
       else bindr (snippet_at s p) (\<lambda>got. Inl (Expected lit p got)))"

text \<open>The position of the first \<open>delim\<close> from \<open>p\<close> on, or the end of the text.\<close>

definition seek :: "char \<Rightarrow> string \<Rightarrow> nat \<Rightarrow> nat" where
  "seek delim s p = p + length (takeWhile (\<lambda>c. c \<noteq> delim) (drop p s))"

definition read_int_until :: "char \<Rightarrow> string \<Rightarrow> nat \<Rightarrow> php_error + int \<times> nat" where
  "read_int_until delim s p =
     (let q = seek delim s p
      in if length s \<le> q then Inl (Unterminated delim p)
         else bindr (slice s p q) (\<lambda>digits.
           case parse_int64 digits of
             None \<Rightarrow> Inl (BadInteger digits)
           | Some n \<Rightarrow> Inr (n, q + 1)))"

section \<open>Scalars\<close>

definition php_str :: "string \<Rightarrow> nat \<Rightarrow> php_error + 'f php \<times> nat" where
  "php_str s p =
     bindr (expect ''s:'' s p) (\<lambda>p.
     bindr (read_int_until CHR '':'' s p) (\<lambda>(n, p).
     bindr (expect [CHR 0x22] s p) (\<lambda>p.
       if n < 0 then Inl (NegativeLength n p)
       else if n > 2 ^ 31 - 1 then Inl (LengthBeyondInt32 n p)
       else if n > int (length s) - int p then Inl (LengthOverruns n p)
       else bindr (slice s p (p + nat n)) (\<lambda>val.
            bindr (expect [CHR 0x22, CHR '';''] s (p + nat n)) (\<lambda>p.
              Inr (PStr val, p))))))"

definition php_intval :: "string \<Rightarrow> nat \<Rightarrow> php_error + 'f php \<times> nat" where
  "php_intval s p =
     bindr (expect ''i:'' s p) (\<lambda>p.
     bindr (read_int_until CHR '';'' s p) (\<lambda>(n, p). Inr (PInt n, p)))"

definition php_doubleval :: "'f float_text \<Rightarrow> string \<Rightarrow> nat \<Rightarrow> php_error + 'f php \<times> nat" where
  "php_doubleval fl s p =
     bindr (expect ''d:'' s p) (\<lambda>start.
       let q = seek CHR '';'' s start
       in bindr (slice s start q) (\<lambda>digits.
            case ft_parse fl digits of
              None \<Rightarrow> Inl (BadDouble digits)
            | Some f \<Rightarrow> bindr (expect '';'' s q) (\<lambda>p. Inr (PFloat f, p))))"

definition php_boolval :: "string \<Rightarrow> nat \<Rightarrow> php_error + 'f php \<times> nat" where
  "php_boolval s p =
     bindr (expect ''b:'' s p) (\<lambda>p.
       if length s \<le> p then Inl TruncatedBool
       else bindr (byte_at s p) (\<lambda>c.
            bindr (expect '';'' s (p + 1)) (\<lambda>p. Inr (PBool (c = CHR ''1''), p))))"

definition php_null :: "string \<Rightarrow> nat \<Rightarrow> php_error + 'f php \<times> nat" where
  "php_null s p = bindr (expect ''N;'' s p) (\<lambda>p. Inr (PNull, p))"

section \<open>Arrays\<close>

text \<open>The text \<open>fmt\<close> prints for a value with \<open>%v\<close>: a map in the order of its keys.\<close>

primrec php_show :: "('f \<Rightarrow> string) \<Rightarrow> 'f php \<Rightarrow> string" where
  "php_show fs (PStr x) = x"
| "php_show fs (PInt i) = itoa i"
| "php_show fs (PFloat f) = fs f"
| "php_show fs (PBool b) = format_bool b"
| "php_show fs PNull = ''<nil>''"
| "php_show fs (PArr m) =
     ''map['' @ join '' '' (map (\<lambda>(k, t). k @ '':'' @ t) (sort_key fst (map (map_prod id (php_show fs)) m)))
       @ '']''"

definition key_string :: "'f float_text \<Rightarrow> 'f php \<Rightarrow> string" where
  "key_string fl k =
     (case k of PStr x \<Rightarrow> x | PInt i \<Rightarrow> itoa i | _ \<Rightarrow> php_show (ft_show fl) k)"

text \<open>The loop over the declared number of elements; \<open>rec\<close> decodes one value.\<close>

primrec php_entries ::
  "'f float_text \<Rightarrow> (nat \<Rightarrow> php_error + 'f php \<times> nat) \<Rightarrow> nat \<Rightarrow> (string, 'f php) gomap \<Rightarrow> nat
     \<Rightarrow> php_error + (string, 'f php) gomap \<times> nat" where
  "php_entries fl rec 0 out p = Inr (out, p)"
| "php_entries fl rec (Suc n) out p =
     bindr (rec p) (\<lambda>(k, p).
     bindr (rec p) (\<lambda>(v, p).
       php_entries fl rec n (AList.update (key_string fl k) v out) p))"

definition php_array ::
  "'f float_text \<Rightarrow> string \<Rightarrow> (nat \<Rightarrow> php_error + 'f php \<times> nat) \<Rightarrow> nat \<Rightarrow> php_error + 'f php \<times> nat"
  where
  "php_array fl s rec p =
     bindr (expect ''a:'' s p) (\<lambda>p.
     bindr (read_int_until CHR '':'' s p) (\<lambda>(count, p).
       if count < 0 then Inl (NegativeCount count)
       else if count > int max_array_elements then Inl (CountBeyondLimit count)
       else if count > int (length s) - int p then Inl (CountBeyondInput count (int (length s) - int p))
       else
         bindr (expect ''{'' s p) (\<lambda>p.
         bindr (php_entries fl rec (nat count) [] p) (\<lambda>(out, p).
         bindr (expect ''}'' s p) (\<lambda>p. Inr (PArr out, p))))))"

definition value_at ::
  "'f float_text \<Rightarrow> string \<Rightarrow> (nat \<Rightarrow> php_error + 'f php \<times> nat) \<Rightarrow> nat \<Rightarrow> php_error + 'f php \<times> nat"
  where
  "value_at fl s arr p =
     (if length s \<le> p then Inl (UnexpectedEnd p)
      else bindr (byte_at s p) (\<lambda>c.
        if c = CHR ''s'' then php_str s p
        else if c = CHR ''i'' then php_intval s p
        else if c = CHR ''d'' then php_doubleval fl s p
        else if c = CHR ''b'' then php_boolval s p
        else if c = CHR ''N'' then php_null s p
        else if c = CHR ''a'' then arr p
        else Inl (UnsupportedType c p)))"

text \<open>The first argument is \<open>maxDepth - d.depth\<close>, how much deeper an array may still open.\<close>

primrec php_value :: "'f float_text \<Rightarrow> string \<Rightarrow> nat \<Rightarrow> nat \<Rightarrow> php_error + 'f php \<times> nat" where
  "php_value fl s 0 = value_at fl s (\<lambda>p. Inl TooDeep)"
| "php_value fl s (Suc d) = value_at fl s (php_array fl s (php_value fl s d))"

definition unserialize :: "'f float_text \<Rightarrow> string \<Rightarrow> php_error + 'f php" where
  "unserialize fl s =
     (if max_input_bytes < length s then Inl (TooLarge (length s))
      else bindr (php_value fl s max_depth 0) (\<lambda>(v, p). Inr v))"

definition as_string :: "(string, 'f php) gomap \<Rightarrow> string \<Rightarrow> string" where
  "as_string m key = (case map_of m key of Some (PStr x) \<Rightarrow> x | _ \<Rightarrow> [])"

end
