(* ===== verification/PhpLaws.thy ===== *)
theory PhpLaws
  imports PhpSerialize
begin

text \<open>
  The decoder of PHP data never panics, whatever its input, and what it accepts is well formed
  (\<open>php_ok\<close>); a reference encoder is undone by it.
\<close>

section \<open>Well-formed values\<close>

primrec php_ok :: "'f php \<Rightarrow> nat \<Rightarrow> bool" where
  "php_ok (PStr x) d = (length x \<le> max_input_bytes)"
| "php_ok (PInt i) d = (- (2 ^ 63) \<le> i \<and> i < 2 ^ 63)"
| "php_ok (PFloat f) d = True"
| "php_ok (PBool b) d = True"
| "php_ok PNull d = True"
| "php_ok (PArr m) d =
     (0 < d \<and> length m \<le> max_array_elements \<and> distinct (map fst m)
       \<and> list_all (\<lambda>(k, ok). ok (d - 1)) (map (map_prod id php_ok) m))"

lemma php_ok_PArr:
  "php_ok (PArr m) d \<longleftrightarrow>
     0 < d \<and> length m \<le> max_array_elements \<and> distinct (map fst m) \<and> (\<forall>v\<in>snd ` set m. php_ok v (d - 1))"
  by (auto simp: list_all_iff)

section \<open>Safe readers\<close>

text \<open>A result that is no panic, stays inside the text and whose value satisfies \<open>Q\<close>.\<close>

definition reads :: "string \<Rightarrow> ('a \<Rightarrow> bool) \<Rightarrow> php_error + 'a \<times> nat \<Rightarrow> bool" where
  "reads s Q r = (case r of Inl e \<Rightarrow> e \<noteq> Panic | Inr (x, p) \<Rightarrow> Q x \<and> p \<le> length s)"

lemma reads_Inl [simp]: "reads s Q (Inl e) \<longleftrightarrow> e \<noteq> Panic"
  and reads_Inr [simp]: "reads s Q (Inr (x, p)) \<longleftrightarrow> Q x \<and> p \<le> length s"
  by (simp_all add: reads_def)

lemma php_reads_bind [inv_intros]:
  "reads s Q r \<Longrightarrow> (\<And>x p. Q x \<Longrightarrow> p \<le> length s \<Longrightarrow> reads s R (f (x, p))) \<Longrightarrow> reads s R (bindr r f)"
  by (cases r) auto

lemma slice_in_range: "a \<le> b \<Longrightarrow> b \<le> length s \<Longrightarrow> slice s a b = Inr (take (b - a) (drop a s))"
  by (simp add: slice_def)

lemma reads_mono: "reads s Q r \<Longrightarrow> (\<And>x. Q x \<Longrightarrow> R x) \<Longrightarrow> reads s R r"
  by (auto simp: reads_def split: sum.splits)

lemma slice_rest: "p \<le> length s \<Longrightarrow> slice s p (length s) = Inr (drop p s)"
  by (simp add: slice_def)

lemma expect_bind [inv_intros]:
  assumes "p \<le> length s" and "p + length lit \<le> length s \<Longrightarrow> reads s R (f (p + length lit))"
  shows "reads s R (bindr (expect lit s p) f)"
proof (cases "has_prefix (drop p s) lit")
  case True
  then have "length lit \<le> length s - p"
    by (auto simp: has_prefix_def dest: prefix_length_le)
  then show ?thesis using True assms by (simp add: expect_def slice_in_range)
next
  case False
  then show ?thesis using assms(1) by (simp add: expect_def slice_in_range snippet_at_def)
qed

lemma seek_range: "p \<le> length s \<Longrightarrow> p \<le> seek d s p \<and> seek d s p \<le> length s"
  using length_takeWhile_le [of "\<lambda>c. c \<noteq> d" "drop p s"] by (simp add: seek_def)

lemma read_int_reads:
  assumes "p \<le> length s"
  shows "reads s (\<lambda>n. - (2 ^ 63) \<le> n \<and> n < 2 ^ 63) (read_int_until d s p)"
  using seek_range [OF assms, of d]
  by (auto simp: read_int_until_def Let_def slice_in_range dest: parse_int64_range split: option.splits)

section \<open>Scalars and arrays\<close>

lemma php_str_reads:
  assumes "p \<le> length s" and "length s \<le> max_input_bytes"
  shows "reads s (\<lambda>v. php_ok v d) (php_str s p)"
  unfolding php_str_def
  by (intro expect_bind assms(1), rule php_reads_bind [OF read_int_reads], simp, clarify)
     (use assms(2) in \<open>auto intro!: expect_bind simp: slice_in_range\<close>)

lemma php_intval_reads: "p \<le> length s \<Longrightarrow> reads s (\<lambda>v. php_ok v d) (php_intval s p)"
  unfolding php_intval_def
  by (intro expect_bind, simp, rule php_reads_bind [OF read_int_reads]) auto

lemma php_doubleval_reads: "p \<le> length s \<Longrightarrow> reads s (\<lambda>v. php_ok v d) (php_doubleval fl s p)"
  unfolding php_doubleval_def Let_def
  by (intro expect_bind, simp)
     (use seek_range [of "p + 2" s "CHR '';''"] in
       \<open>auto intro!: expect_bind simp: slice_in_range split: option.splits\<close>)

lemma php_boolval_reads: "p \<le> length s \<Longrightarrow> reads s (\<lambda>v. php_ok v d) (php_boolval s p)"
  unfolding php_boolval_def
  by (intro expect_bind, simp) (auto intro!: expect_bind simp: byte_at_def)

lemma php_null_reads: "p \<le> length s \<Longrightarrow> reads s (\<lambda>v. php_ok v d) (php_null s p)"
  unfolding php_null_def by (intro expect_bind) auto

lemma php_entries_reads:
  assumes "\<And>p. p \<le> length s \<Longrightarrow> reads s (\<lambda>v. php_ok v d) (rec p)"
    and "p \<le> length s" and "distinct (map fst out)" and "\<forall>v\<in>snd ` set out. php_ok v d"
  shows "reads s (\<lambda>m. length m \<le> length out + n \<and> distinct (map fst m) \<and> (\<forall>v\<in>snd ` set m. php_ok v d))
           (php_entries fl rec n out p)"
  using assms(2-)
proof (induction n arbitrary: out p)
  case (Suc n)
  have step: "reads s (\<lambda>m. length m \<le> length out + Suc n \<and> distinct (map fst m) \<and> (\<forall>v\<in>snd ` set m. php_ok v d))
      (php_entries fl rec n (AList.update k v out) p)"
    if "php_ok v d" "p \<le> length s" for k v p
  proof -
    let ?m = "AList.update k v out"
    have "length ?m \<le> Suc (length out)" by (induction out) auto
    moreover have "distinct (map fst ?m)" using Suc.prems(2) by (simp add: distinct_update)
    moreover have "snd ` set ?m \<subseteq> insert v (snd ` set out)" by (induction out) auto
    then have "\<forall>w\<in>snd ` set ?m. php_ok w d" using that(1) Suc.prems(3) by blast
    ultimately show ?thesis
      by (intro reads_mono [OF Suc.IH [OF that(2)]]) auto
  qed
  show ?case
    unfolding php_entries.simps
  proof (rule php_reads_bind [OF assms(1) [OF Suc.prems(1)]], unfold prod.case)
    fix k q
    assume "q \<le> length s"
    then show "reads s (\<lambda>m. length m \<le> length out + Suc n \<and> distinct (map fst m) \<and> (\<forall>v\<in>snd ` set m. php_ok v d))
      (bindr (rec q) (\<lambda>(v, p). php_entries fl rec n (AList.update (key_string fl k) v out) p))"
      by (rule php_reads_bind [OF assms(1)], unfold prod.case) (rule step)
  qed
qed simp

lemma php_array_reads:
  assumes rec: "\<And>p. p \<le> length s \<Longrightarrow> reads s (\<lambda>v. php_ok v d) (rec p)" and "p \<le> length s"
  shows "reads s (\<lambda>v. php_ok v (Suc d)) (php_array fl s rec p)"
proof -
  have tail: "reads s (\<lambda>v. php_ok v (Suc d)) (bindr (expect ''{'' s p) (\<lambda>p.
         bindr (php_entries fl rec (nat c) [] p) (\<lambda>(out, p).
         bindr (expect ''}'' s p) (\<lambda>p. Inr (PArr out, p)))))"
    if "p \<le> length s" "0 \<le> c" "c \<le> int max_array_elements" for p c
    by (intro expect_bind that(1), rule php_reads_bind [OF php_entries_reads [OF rec]])
       (use that in \<open>auto intro!: expect_bind simp: php_ok_PArr simp del: php_ok.simps(6)\<close>)
  show ?thesis
    unfolding php_array_def
    by (intro expect_bind assms(2), rule php_reads_bind [OF read_int_reads]) (auto intro: tail)
qed

lemma value_at_reads:
  assumes "\<And>p. p \<le> length s \<Longrightarrow> reads s (\<lambda>v. php_ok v d) (arr p)"
    and "p \<le> length s" and "length s \<le> max_input_bytes"
  shows "reads s (\<lambda>v. php_ok v d) (value_at fl s arr p)"
  using assms
  by (simp add: value_at_def byte_at_def php_str_reads php_intval_reads php_doubleval_reads
      php_boolval_reads php_null_reads)

lemma php_value_reads:
  assumes "length s \<le> max_input_bytes"
  shows "p \<le> length s \<Longrightarrow> reads s (\<lambda>v. php_ok v d) (php_value fl s d p)"
proof (induction d arbitrary: p)
  case 0
  show ?case unfolding php_value.simps by (rule value_at_reads) (use 0 assms in auto)
next
  case (Suc d)
  show ?case
    unfolding php_value.simps
    by (rule value_at_reads [OF php_array_reads [OF Suc.IH]]) (use Suc.prems assms in auto)
qed

text \<open>C31. Type soundness of the decoder. On every byte string, hostile ones included, it returns a
  value or an error of its own, never a run-time panic from an index or slice out of range; and a
  value it returns is well formed: integers fit in 64 bits, strings are no longer than the input
  limit, arrays nest at most 64 deep, hold at most 100,000 entries and no key twice.
\<close>

theorem unserialize_sound:
  "case unserialize fl s of Inl e \<Rightarrow> e \<noteq> Panic | Inr v \<Rightarrow> php_ok v max_depth"
proof (cases "max_input_bytes < length s")
  case False
  then have "reads s (\<lambda>v. php_ok v max_depth) (php_value fl s max_depth 0)"
    by (intro php_value_reads) auto
  with False show ?thesis
    unfolding unserialize_def reads_def
    by (cases "php_value fl s max_depth 0") auto
qed (simp add: unserialize_def)

section \<open>A reference encoder\<close>

definition encode_str :: "string \<Rightarrow> string" where
  "encode_str x = ''s:'' @ itoa (int (length x)) @ '':'' @ [CHR 0x22] @ x @ [CHR 0x22, CHR '';'']"

primrec php_encode :: "('f \<Rightarrow> string) \<Rightarrow> 'f php \<Rightarrow> string" where
  "php_encode fs (PStr x) = encode_str x"
| "php_encode fs (PInt i) = ''i:'' @ itoa i @ '';''"
| "php_encode fs (PFloat f) = ''d:'' @ fs f @ '';''"
| "php_encode fs (PBool b) = ''b:'' @ (if b then ''1'' else ''0'') @ '';''"
| "php_encode fs PNull = ''N;''"
| "php_encode fs (PArr m) =
     ''a:'' @ itoa (int (length m)) @ '':'' @ ''{''
       @ concat (map (\<lambda>(k, t). encode_str k @ t) (map (map_prod id (php_encode fs)) m)) @ ''}''"

definition float_text_ok :: "'f float_text \<Rightarrow> bool" where
  "float_text_ok fl \<longleftrightarrow>
     (\<forall>f. ft_parse fl (ft_show fl f) = Some f \<and> CHR '';'' \<notin> set (ft_show fl f))"

text \<open>The text from a position on.\<close>

definition at :: "string \<Rightarrow> nat \<Rightarrow> string \<Rightarrow> bool" where
  "at s p t \<longleftrightarrow> p \<le> length s \<and> drop p s = t"

lemma at_append: "at s p (a @ t) \<Longrightarrow> at s (p + length a) t"
proof -
  assume a: "at s p (a @ t)"
  then have "length s - p = length a + length t"
    by (metis at_def length_append length_drop)
  moreover have "drop (p + length a) s = drop (length a) (drop p s)" by (simp add: add.commute)
  then have "drop (p + length a) s = t" using a by (simp only: at_def) simp
  moreover have "p \<le> length s" using a by (simp add: at_def)
  ultimately show ?thesis unfolding at_def by linarith
qed

lemma at_expect: "at s p (lit @ t) \<Longrightarrow> expect lit s p = Inr (p + length lit)"
  by (simp add: at_def expect_def slice_rest has_prefix_def)

lemma at_seek: "at s p (a @ d # t) \<Longrightarrow> d \<notin> set a \<Longrightarrow> seek d s p = p + length a"
  by (auto simp: at_def seek_def takeWhile_append)

lemma at_length: "at s p (a @ t) \<Longrightarrow> p + length a \<le> length s"
  using at_append [of s p a t] by (simp add: at_def)

lemma at_slice: "at s p (a @ t) \<Longrightarrow> slice s p (p + length a) = Inr a"
  using at_length [of s p a t] by (simp add: slice_def at_def)

lemma at_read_int:
  assumes "at s p (itoa n @ d # t)" and "\<not> is_digit d" and "d \<noteq> CHR ''-''"
    and "- (2 ^ 63) \<le> n" and "n < 2 ^ 63"
  shows "read_int_until d s p = Inr (n, p + length (itoa n) + 1)"
proof -
  have "d \<notin> set (itoa n)" using assms(2,3) by (auto dest: itoa_chars)
  then have q: "seek d s p = p + length (itoa n)" by (rule at_seek [OF assms(1)])
  have "p + length (itoa n @ [d]) \<le> length s"
    by (rule at_length [of _ _ _ t]) (use assms(1) in simp)
  then show ?thesis
    by (simp add: read_int_until_def q at_slice [OF assms(1)] parse_int64_itoa [OF assms(4,5)])
qed

text \<open>A read that gives \<open>x\<close> and leaves the text \<open>t\<close> to be read.\<close>

definition leaves :: "string \<Rightarrow> 'a \<Rightarrow> string \<Rightarrow> php_error + 'a \<times> nat \<Rightarrow> bool" where
  "leaves s x t r \<longleftrightarrow> (\<exists>q. r = Inr (x, q) \<and> at s q t)"

lemma leaves_Inr: "at s q t \<Longrightarrow> leaves s x t (Inr (x, q))"
  by (simp add: leaves_def)

lemma leaves_bind:
  "leaves s x t r \<Longrightarrow> (\<And>q. at s q t \<Longrightarrow> leaves s y u (f (x, q))) \<Longrightarrow> leaves s y u (bindr r f)"
  by (auto simp: leaves_def)

lemma leaves_expect:
  "at s p (lit @ t) \<Longrightarrow> (\<And>q. at s q t \<Longrightarrow> leaves s y u (f q)) \<Longrightarrow> leaves s y u (bindr (expect lit s p) f)"
  using at_append by (simp add: at_expect)

lemma leaves_read_int:
  assumes "at s p (itoa n @ [d] @ t)" and "\<not> is_digit d" and "d \<noteq> CHR ''-''"
    and "- (2 ^ 63) \<le> n" and "n < 2 ^ 63"
  shows "leaves s n t (read_int_until d s p)"
proof -
  have "at s p (itoa n @ d # t)" using assms(1) by simp
  from at_read_int [OF this assms(2-)] show ?thesis
    using at_append [OF at_append [OF assms(1)]] by (simp add: leaves_def)
qed

lemma separators: "\<not> is_digit CHR '':''" "\<not> is_digit CHR '';''"
  by (simp_all add: is_digit_def byte_def)

lemma decode_str:
  assumes "at s p (encode_str x @ t)" and lim: "length s \<le> max_input_bytes"
  shows "leaves s (PStr x) t (php_str s p)"
proof -
  let ?q = "[CHR 0x22, CHR '';'']"
  have a: "at s p (''s:'' @ itoa (int (length x)) @ '':'' @ [CHR 0x22] @ x @ ?q @ t)"
    using assms(1) by (simp add: encode_str_def)
  have body: "leaves s (PStr x) t
      (if int (length x) < 0 then Inl (NegativeLength (int (length x)) q)
       else if int (length x) > 2 ^ 31 - 1 then Inl (LengthBeyondInt32 (int (length x)) q)
       else if int (length x) > int (length s) - int q then Inl (LengthOverruns (int (length x)) q)
       else bindr (slice s q (q + nat (int (length x)))) (\<lambda>val.
            bindr (expect ?q s (q + nat (int (length x)))) (\<lambda>p. Inr (PStr val, p))))"
    if q: "at s q (x @ ?q @ t)" for q
    using at_length [OF q] lim
    by (auto simp: max_input_bytes_def at_slice [OF q]
        intro!: leaves_expect [OF at_append [OF q]] leaves_Inr)
  have small: "int (length x) < 2 ^ 63"
    using at_length [of s p "''s:'' @ itoa (int (length x)) @ '':'' @ [CHR 0x22] @ x" "?q @ t"] a lim
    by (simp add: max_input_bytes_def)
  show ?thesis
    unfolding php_str_def
  proof (rule leaves_expect [OF a], rule leaves_bind)
    fix p1
    assume "at s p1 (itoa (int (length x)) @ '':'' @ [CHR 0x22] @ x @ ?q @ t)"
    then show "leaves s (int (length x)) ([CHR 0x22] @ x @ ?q @ t) (read_int_until CHR '':'' s p1)"
      by (rule leaves_read_int) (use small separators in auto)
  qed (unfold prod.case, rule leaves_expect, assumption, rule body)
qed

text \<open>One entry after the other.\<close>

lemma decode_entries:
  assumes rec: "\<And>v p t. v \<in> snd ` set m \<Longrightarrow> at s p (php_encode fs v @ t) \<Longrightarrow> leaves s v t (rec p)"
    and key: "\<And>x p t. at s p (encode_str x @ t) \<Longrightarrow> leaves s (PStr x) t (rec p)"
    and "at s p (concat (map (\<lambda>(k, t). encode_str k @ t) (map (map_prod id (php_encode fs)) m)) @ t)"
    and "distinct (map fst (out @ m))"
  shows "leaves s (out @ m) t (php_entries fl rec (length m) out p)"
  using assms(1,3,4)
proof (induction m arbitrary: out p)
  case Nil
  then show ?case by (simp add: leaves_Inr)
next
  case (Cons kv m)
  obtain k v where kv: "kv = (k, v)" by fastforce
  let ?rest = "concat (map (\<lambda>(k, t). encode_str k @ t) (map (map_prod id (php_encode fs)) m)) @ t"
  have a: "at s p (encode_str k @ php_encode fs v @ ?rest)" using Cons.prems(2) kv by (simp add: id_def)
  have "AList.update k v out = out @ [(k, v)]"
    using Cons.prems(3) kv by (induction out) auto
  then have IH: "leaves s (out @ kv # m) t (php_entries fl rec (length m) (AList.update k v out) q)"
    if "at s q ?rest" for q
    using Cons.IH [of q "out @ [(k, v)]"] Cons.prems that kv by (simp add: id_def)
  show ?case
    unfolding list.size(4) add_0_right add_Suc_right php_entries.simps
  proof (rule leaves_bind [OF key [OF a]], unfold prod.case)
    fix q
    assume "at s q (php_encode fs v @ ?rest)"
    then have "leaves s v ?rest (rec q)" using Cons.prems(1) kv by simp
    then show "leaves s (out @ kv # m) t (bindr (rec q)
        (\<lambda>(v, p). php_entries fl rec (length m) (AList.update (key_string fl (PStr k)) v out) p))"
      by (rule leaves_bind) (simp add: key_string_def IH)
  qed
qed

lemma length_le_encoded:
  "length m \<le> length (concat (map (\<lambda>(k, t). encode_str k @ t) (map (map_prod id f) m)))"
  by (induction m) (auto simp: encode_str_def)

lemma decode_array:
  assumes rec: "\<And>v p t. v \<in> snd ` set m \<Longrightarrow> at s p (php_encode fs v @ t) \<Longrightarrow> leaves s v t (rec p)"
    and key: "\<And>x p t. at s p (encode_str x @ t) \<Longrightarrow> leaves s (PStr x) t (rec p)"
    and a: "at s p (php_encode fs (PArr m) @ t)"
    and m: "distinct (map fst m)" "length m \<le> max_array_elements"
  shows "leaves s (PArr m) t (php_array fl s rec p)"
proof -
  let ?n = "int (length m)"
  let ?b = "concat (map (\<lambda>(k, t). encode_str k @ t) (map (map_prod id (php_encode fs)) m))"
  have a': "at s p (''a:'' @ itoa ?n @ '':'' @ ''{'' @ ?b @ ''}'' @ t)" using a by simp
  have body: "leaves s (PArr m) t
      (if ?n < 0 then Inl (NegativeCount ?n)
       else if ?n > int max_array_elements then Inl (CountBeyondLimit ?n)
       else if ?n > int (length s) - int q then Inl (CountBeyondInput ?n (int (length s) - int q))
       else bindr (expect ''{'' s q) (\<lambda>p.
            bindr (php_entries fl rec (nat ?n) [] p) (\<lambda>(out, p).
            bindr (expect ''}'' s p) (\<lambda>p. Inr (PArr out, p)))))"
    if q: "at s q (''{'' @ ?b @ ''}'' @ t)" for q
  proof -
    have "q + length (''{'' @ ?b) \<le> length s" by (rule at_length) (use q in simp)
    then have "q + length m \<le> length s" using length_le_encoded [of m "php_encode fs"] by simp
    then have ok: "\<not> ?n < 0" "\<not> ?n > int max_array_elements" "\<not> ?n > int (length s) - int q"
      using m(2) by auto
    have "leaves s ([] @ m) (''}'' @ t) (php_entries fl rec (length m) [] q')"
      if "at s q' (?b @ ''}'' @ t)" for q'
      by (rule decode_entries [OF rec key that]) (use m(1) in auto)
    then have ents: "leaves s m (''}'' @ t) (php_entries fl rec (nat ?n) [] q')"
      if "at s q' (?b @ ''}'' @ t)" for q'
      using that by simp
    show ?thesis
      unfolding if_not_P [OF ok(1)] if_not_P [OF ok(2)] if_not_P [OF ok(3)]
      by (rule leaves_expect [OF q], rule leaves_bind [OF ents], assumption, unfold prod.case,
          rule leaves_expect, assumption, rule leaves_Inr)
  qed
  show ?thesis
    unfolding php_array_def
  proof (rule leaves_expect [OF a'], rule leaves_bind)
    fix p1
    assume "at s p1 (itoa ?n @ '':'' @ ''{'' @ ?b @ ''}'' @ t)"
    then show "leaves s ?n (''{'' @ ?b @ ''}'' @ t) (read_int_until CHR '':'' s p1)"
      by (rule leaves_read_int) (use m(2) separators in \<open>auto simp: max_array_elements_def\<close>)
  qed (unfold prod.case, rule body)
qed

text \<open>The first byte of an encoding selects the reader.\<close>

lemma value_at_first:
  "at s p (c # t) \<Longrightarrow> value_at fl s arr p =
     (if c = CHR ''s'' then php_str s p
      else if c = CHR ''i'' then php_intval s p
      else if c = CHR ''d'' then php_doubleval fl s p
      else if c = CHR ''b'' then php_boolval s p
      else if c = CHR ''N'' then php_null s p
      else if c = CHR ''a'' then arr p
      else Inl (UnsupportedType c p))"
proof -
  assume a: "at s p (c # t)"
  have "p < length s" using at_length [of s p "[c]" t] a by simp
  moreover have "s ! p = c" using a calculation by (metis at_def nth_via_drop)
  ultimately show ?thesis by (simp add: value_at_def byte_at_def)
qed

lemma decode_scalars:
  "at s p (''i:'' @ itoa i @ '';'' @ t) \<Longrightarrow> php_ok (PInt i :: 'f php) d \<Longrightarrow>
     leaves s (PInt i :: 'f php) t (php_intval s p)"
  "at s p (''b:'' @ [c] @ '';'' @ t) \<Longrightarrow> leaves s (PBool (c = CHR ''1'')) t (php_boolval s p)"
  "at s p (''N;'' @ t) \<Longrightarrow> leaves s PNull t (php_null s p)"
proof -
  assume a: "at s p (''i:'' @ itoa i @ '';'' @ t)" and ok: "php_ok (PInt i :: 'f php) d"
  show "leaves s (PInt i :: 'f php) t (php_intval s p)"
    unfolding php_intval_def
  proof (rule leaves_expect [OF a], rule leaves_bind)
    fix q
    assume "at s q (itoa i @ '';'' @ t)"
    then show "leaves s i t (read_int_until CHR '';'' s q)"
      by (rule leaves_read_int) (use ok separators in auto)
  qed (simp add: leaves_Inr)
next
  assume a: "at s p (''b:'' @ [c] @ '';'' @ t)"
  show "leaves s (PBool (c = CHR ''1'')) t (php_boolval s p)"
    unfolding php_boolval_def
  proof (rule leaves_expect [OF a])
    fix q
    assume q: "at s q ([c] @ '';'' @ t)"
    then have "q < length s" using at_length [of s q "[c]" "'';'' @ t"] by simp
    moreover have "s ! q = c" using q by (metis append_Cons at_def nth_via_drop)
    moreover have "at s (q + 1) ('';'' @ t)" using at_append [OF q] by simp
    ultimately show "leaves s (PBool (c = CHR ''1'')) t
        (if length s \<le> q then Inl TruncatedBool
         else bindr (byte_at s q) (\<lambda>c. bindr (expect '';'' s (q + 1)) (\<lambda>p. Inr (PBool (c = CHR ''1''), p))))"
      by (auto simp: byte_at_def intro!: leaves_expect [of s "Suc q" "'';''" t] leaves_Inr)
  qed
next
  assume "at s p (''N;'' @ t)"
  then show "leaves s PNull t (php_null s p)"
    unfolding php_null_def by (rule leaves_expect) (rule leaves_Inr)
qed

lemma decode_float:
  assumes "float_text_ok fl" and a: "at s p (''d:'' @ ft_show fl f @ '';'' @ t)"
  shows "leaves s (PFloat f) t (php_doubleval fl s p)"
  unfolding php_doubleval_def Let_def
proof (rule leaves_expect [OF a])
  fix q
  assume q: "at s q (ft_show fl f @ '';'' @ t)"
  have "seek CHR '';'' s q = q + length (ft_show fl f)"
    by (rule at_seek [of _ _ _ _ t]) (use q assms(1) in \<open>auto simp: float_text_ok_def\<close>)
  then show "leaves s (PFloat f) t (bindr (slice s q (seek CHR '';'' s q)) (\<lambda>digits.
      case ft_parse fl digits of
        None \<Rightarrow> Inl (BadDouble digits)
      | Some f \<Rightarrow> bindr (expect '';'' s (seek CHR '';'' s q)) (\<lambda>p. Inr (PFloat f, p))))"
    using assms(1)
    by (auto simp: at_slice [OF q] float_text_ok_def intro!: leaves_expect [OF at_append [OF q]] leaves_Inr)
qed

lemma php_value_step: "\<exists>arr. php_value fl s d = value_at fl s arr"
  by (cases d) auto

lemma decode_encoded:
  assumes "float_text_ok fl" and lim: "length s \<le> max_input_bytes"
  shows "at s p (php_encode (ft_show fl) v @ t) \<Longrightarrow> php_ok v d \<Longrightarrow> leaves s v t (php_value fl s d p)"
proof (induction v arbitrary: p t d)
  case (PStr x)
  then show ?case
    using php_value_step [of fl s d] decode_str [OF _ lim] by (auto simp: encode_str_def value_at_first)
next
  case (PArr m)
  then obtain d' where d: "d = Suc d'" by (cases d) auto
  have ok: "distinct (map fst m)" "length m \<le> max_array_elements" "\<forall>v\<in>snd ` set m. php_ok v d'"
    using PArr.prems(2) unfolding php_ok_PArr d by auto
  have key: "leaves s (PStr x) t (php_value fl s d' p)" if "at s p (encode_str x @ t)" for x p t
    using php_value_step [of fl s d'] decode_str [OF that lim] that
    by (auto simp: encode_str_def value_at_first)
  have "leaves s (PArr m) t (php_array fl s (php_value fl s d') p)"
    by (rule decode_array [OF _ key PArr.prems(1) ok(1,2)]) (use PArr.IH ok(3) in fastforce)
  then show ?case using PArr.prems(1) by (simp add: d value_at_first)
next
  case (PInt i)
  then show ?case
    using php_value_step [of fl s d] decode_scalars(1) [of s p i t d] by (auto simp: value_at_first)
next
  case (PFloat f)
  then show ?case
    using php_value_step [of fl s d] decode_float [OF assms(1), of s p f t] by (auto simp: value_at_first)
next
  case (PBool b)
  then show ?case
    using php_value_step [of fl s d] decode_scalars(2) [of s p "if b then CHR ''1'' else CHR ''0''" t]
    by (auto simp: value_at_first split: if_splits)
next
  case PNull
  then show ?case
    using php_value_step [of fl s d] decode_scalars(3) [of s p t] by (auto simp: value_at_first)
qed

text \<open>Encoding and decoding. A well-formed value, written in PHP's format and followed by any other
  bytes, is what the decoder returns, as long as the whole text is within the input limit: the
  length prefixes make strings with quotes, semicolons or braces in them unambiguous, and the
  decoder's guards on lengths, counts and nesting reject nothing that is really there.
\<close>

theorem unserialize_encoded:
  assumes "float_text_ok fl" and "php_ok v max_depth"
    and "length (php_encode (ft_show fl) v @ rest) \<le> max_input_bytes"
  shows "unserialize fl (php_encode (ft_show fl) v @ rest) = Inr v"
proof -
  let ?s = "php_encode (ft_show fl) v @ rest"
  have "leaves ?s v rest (php_value fl ?s max_depth 0)"
    by (rule decode_encoded [OF assms(1,3) _ assms(2)]) (simp add: at_def)
  then show ?thesis using assms(3) by (auto simp: unserialize_def leaves_def)
qed

definition half :: "unit float_text" where
  "half = \<lparr>ft_parse = (\<lambda>s. if s = ''0.5'' then Some () else None), ft_show = (\<lambda>_. ''0.5'')\<rparr>"

definition registry_sample :: "unit php" where
  "registry_sample = PArr [(''26_1'', PArr [(''softdb'', PStr ''u_wp''),
      (''softdbpass'', PStr [CHR ''a'', CHR 0x22, CHR '';'', CHR ''}'']), (''n'', PInt (- 3)),
      (''f'', PFloat ()), (''b'', PBool True), (''x'', PNull)])]"

lemma unserialize_encoded_witness:
  "unserialize half (php_encode (ft_show half) registry_sample @ ''tail'') = Inr registry_sample"
proof (rule unserialize_encoded)
  show "float_text_ok half" by (simp add: float_text_ok_def half_def)
  show "php_ok registry_sample max_depth"
    by (simp add: registry_sample_def max_depth_def max_input_bytes_def max_array_elements_def)
  show "length (php_encode (ft_show half) registry_sample @ ''tail'') \<le> max_input_bytes"
    by (simp add: registry_sample_def half_def max_input_bytes_def encode_str_def itoa_def digits_of.simps)
qed

end
