(* ===== verification/DbPlan.thy ===== *)
theory DbPlan
  imports Validate PhpSerialize
begin

text \<open>
  Planning the database half of the migration (internal/dbmig: plan.go, preflight.go, softaculous.go,
  the path helpers of discover.go, staleconfig.go, detect.go and transfer.go): the source databases,
  the credentials found in the sites' configuration files and in the Softaculous registry, and the
  naming policy of both accounts give one plan item per database; the preflight refuses a plan that
  would overwrite one database with another. Log lines and the prose of the reports are not
  modelled; the data they are printed from is.
\<close>

section \<open>Data\<close>

record creds =
  c_name :: string
  c_user :: string
  c_password :: string
  c_host :: string
  c_prefix :: string

definition no_creds :: creds where
  "no_creds = \<lparr>c_name = [], c_user = [], c_password = [], c_host = [], c_prefix = []\<rparr>"

datatype cms_kind =
    KindUnknown | WordPress | Joomla | Drupal | Moodle | Magento | PrestaShop | OpenCart | Laravel
  | SuiteCRM | MantisBT | Dolibarr | MyBB | PhpBB | SMF | Chamilo | Piwigo | Coppermine | MediaWiki
  | Nextcloud | TYPO3 | Concrete | CubeCart | LimeSurvey | Matomo

record site_creds =
  sc_docroot :: string
  sc_config_path :: string
  sc_kind :: cms_kind
  sc_registry :: bool
  sc_creds :: creds

record config_ref =
  cr_docroot :: string
  cr_config_path :: string
  cr_table_prefix :: string
  cr_kind :: cms_kind

record plan_item =
  pi_src_db :: string
  pi_src_user :: string
  pi_dest_db :: string
  pi_dest_user :: string
  pi_password :: string
  pi_disk_usage :: int
  pi_configs :: "config_ref list"
  pi_orphan :: bool

record name_prefix =
  np_enabled :: bool
  np_value :: string

record name_mapping =
  nm_source :: name_prefix
  nm_destination :: name_prefix

record database_entry =
  db_database :: string
  db_disk_usage :: int
  db_users :: "string list"

record db_user_entry =
  du_user :: string
  du_databases :: "string list"

record override =
  ov_user :: string
  ov_password :: string

text \<open>A Go map of strings gives the empty text for a key it does not hold.\<close>

definition str_at :: "('k, string) gomap \<Rightarrow> 'k \<Rightarrow> string" where
  "str_at m k = (case map_of m k of None \<Rightarrow> [] | Some v \<Rightarrow> v)"

definition list_at :: "('k, 'a list) gomap \<Rightarrow> 'k \<Rightarrow> 'a list" where
  "list_at m k = (case map_of m k of None \<Rightarrow> [] | Some v \<Rightarrow> v)"

section \<open>Names\<close>

definition prefix_of :: "string \<Rightarrow> string" where
  "prefix_of name = (case cut_byte CHR ''_'' name of None \<Rightarrow> [] | Some (a, b) \<Rightarrow> a @ ''_'')"

definition remap :: "string \<Rightarrow> string \<Rightarrow> string \<Rightarrow> string" where
  "remap name src dest =
     (if src = [] \<or> \<not> has_prefix name src then name else dest @ trim_prefix name src)"

definition remap_name :: "string \<Rightarrow> name_mapping \<Rightarrow> string" where
  "remap_name name m =
     (if np_enabled (nm_source m) \<and> \<not> has_prefix name (np_value (nm_source m)) then name
      else
        (let suffix = (if np_enabled (nm_source m) then trim_prefix name (np_value (nm_source m)) else name)
         in if np_enabled (nm_destination m) then np_value (nm_destination m) @ suffix else suffix))"

fun derive_src_prefix :: "database_entry list \<Rightarrow> string" where
  "derive_src_prefix [] = []"
| "derive_src_prefix (db # dbs) =
     (let p = prefix_of (db_database db) in if p \<noteq> [] then p else derive_src_prefix dbs)"

section \<open>The credential index\<close>

record cred_index =
  ci_configs :: "(string, config_ref list) gomap"
  ci_owner :: "(string, string) gomap"
  ci_password :: "(string, string) gomap"
  ci_owner_registry :: "(string, string) gomap"
  ci_password_registry :: "(string, string) gomap"

definition no_index :: cred_index where
  "no_index = \<lparr>ci_configs = [], ci_owner = [], ci_password = [], ci_owner_registry = [],
     ci_password_registry = []\<rparr>"

text \<open>\<open>if _, ok := m[k]; !ok && v != "" { m[k] = v }\<close>.\<close>

definition put_first :: "string \<Rightarrow> string \<Rightarrow> (string, string) gomap \<Rightarrow> (string, string) gomap" where
  "put_first k v m = (if map_of m k = None \<and> v \<noteq> [] then m @ [(k, v)] else m)"

definition config_of :: "site_creds \<Rightarrow> config_ref" where
  "config_of sc =
     \<lparr>cr_docroot = sc_docroot sc, cr_config_path = sc_config_path sc,
      cr_table_prefix = c_prefix (sc_creds sc), cr_kind = sc_kind sc\<rparr>"

definition index_step :: "cred_index \<Rightarrow> site_creds \<Rightarrow> cred_index" where
  "index_step ix sc =
     (let c = sc_creds sc; db = c_name c
      in if db = [] then ix
         else if sc_registry sc then
           ix\<lparr>ci_owner_registry := put_first db (c_user c) (ci_owner_registry ix),
              ci_password_registry := put_first db (c_password c) (ci_password_registry ix)\<rparr>
         else
           ix\<lparr>ci_configs := add_group db (config_of sc) (ci_configs ix),
              ci_owner := put_first db (c_user c) (ci_owner ix),
              ci_password := put_first db (c_password c) (ci_password ix)\<rparr>)"

text \<open>Folding the registry's values in where no configuration supplied one.\<close>

definition fill_gaps :: "(string, string) gomap \<Rightarrow> (string, string) gomap \<Rightarrow> (string, string) gomap" where
  "fill_gaps registry m =
     foldl (\<lambda>m (db, v). if str_at m db = [] then AList.update db v m else m) m registry"

definition cred_index_of :: "site_creds list \<Rightarrow> cred_index" where
  "cred_index_of creds =
     (let ix = foldl index_step no_index creds
      in ix\<lparr>ci_owner := fill_gaps (ci_owner_registry ix) (ci_owner ix),
            ci_password := fill_gaps (ci_password_registry ix) (ci_password ix)\<rparr>)"

text \<open>The grantee the API reports: the first user of the database, else the first user that lists it.\<close>

definition api_owner :: "database_entry list \<Rightarrow> db_user_entry list \<Rightarrow> (string, string) gomap" where
  "api_owner dbs users =
     (let m = foldl (\<lambda>m db. case db_users db of [] \<Rightarrow> m | u # _ \<Rightarrow> AList.update (db_database db) u m) [] dbs
      in foldl (\<lambda>m u. foldl (\<lambda>m d. if map_of m d = None then AList.update d (du_user u) m else m) m (du_databases u))
           m users)"

section \<open>The plan\<close>

definition plan_db ::
  "cred_index \<Rightarrow> (string, string) gomap \<Rightarrow> name_mapping \<Rightarrow> (string, override) gomap \<Rightarrow> database_entry \<Rightarrow> plan_item"
  where
  "plan_db ix api m overrides db =
     (let name = db_database db;
          owner0 = str_at (ci_owner ix) name;
          owner1 = (if owner0 = [] then str_at api name else owner0);
          owner2 = (if owner1 = [] then name else owner1);
          password0 = str_at (ci_password ix) name;
          (owner, password) =
            (case map_of overrides name of
               None \<Rightarrow> (owner2, password0)
             | Some ov \<Rightarrow> (if ov_user ov \<noteq> [] then ov_user ov else owner2,
                           if ov_password ov \<noteq> [] then ov_password ov else password0));
          cfgs = list_at (ci_configs ix) name
      in \<lparr>pi_src_db = name, pi_src_user = owner, pi_dest_db = remap_name name m,
          pi_dest_user = remap_name owner m, pi_password = password, pi_disk_usage = db_disk_usage db,
          pi_configs = cfgs, pi_orphan = (cfgs = [])\<rparr>)"

definition build_plan_with_mapping ::
  "database_entry list \<Rightarrow> db_user_entry list \<Rightarrow> site_creds list \<Rightarrow> name_mapping \<Rightarrow> (string, override) gomap
     \<Rightarrow> plan_item list" where
  "build_plan_with_mapping dbs users creds m overrides =
     sort_key pi_src_db (map (plan_db (cred_index_of creds) (api_owner dbs users) m overrides) dbs)"

definition build_plan ::
  "database_entry list \<Rightarrow> db_user_entry list \<Rightarrow> site_creds list \<Rightarrow> string \<Rightarrow> string
     \<Rightarrow> (string, override) gomap \<Rightarrow> plan_item list" where
  "build_plan dbs users creds src dest overrides =
     (let src = (if src = [] then derive_src_prefix dbs else src)
      in build_plan_with_mapping dbs users creds
           \<lparr>nm_source = \<lparr>np_enabled = (src \<noteq> []), np_value = src\<rparr>,
            nm_destination = \<lparr>np_enabled = (dest \<noteq> []), np_value = dest\<rparr>\<rparr> overrides)"

section \<open>The Softaculous registry\<close>

definition softaculous_path :: string where
  "softaculous_path = ''$HOME/.softaculous/installations.php''"

fun serialized_payload :: "string \<Rightarrow> string" where
  "serialized_payload [] = []"
| "serialized_payload (c # s) =
     (if c = CHR ''a'' \<and> (case s of d # e # _ \<Rightarrow> d = CHR '':'' \<and> is_digit e | _ \<Rightarrow> False)
      then c # s else serialized_payload s)"

definition registry_creds :: "(string, 'f php) gomap \<Rightarrow> site_creds" where
  "registry_creds m =
     \<lparr>sc_docroot = as_string m ''softpath'', sc_config_path = softaculous_path, sc_kind = KindUnknown,
      sc_registry = True,
      sc_creds = \<lparr>c_name = as_string m ''softdb'', c_user = as_string m ''softdbuser'',
        c_password = as_string m ''softdbpass'', c_host = as_string m ''softdbhost'',
        c_prefix = as_string m ''dbprefix''\<rparr>\<rparr>"

text \<open>The loop visits the decoded array in the order it is given in: Go's order for a map is any.\<close>

definition registry_entries :: "(string, 'f php) gomap \<Rightarrow> site_creds list" where
  "registry_entries entries =
     concat (map (\<lambda>(k, entry). case entry of
         PArr m \<Rightarrow> if as_string m ''softdb'' = [] then [] else [registry_creds m]
       | _ \<Rightarrow> []) entries)"

definition parse_softaculous :: "'f float_text \<Rightarrow> string \<Rightarrow> site_creds list" where
  "parse_softaculous fl raw =
     (let payload = serialized_payload raw
      in if payload = [] then []
         else case unserialize fl payload of
           Inr (PArr entries) \<Rightarrow> registry_entries entries
         | _ \<Rightarrow> [])"

section \<open>Paths\<close>

definition trim_right_byte :: "char \<Rightarrow> string \<Rightarrow> string" where
  "trim_right_byte c s = rev (dropWhile (\<lambda>d. d = c) (rev s))"

definition map_config_path :: "string \<Rightarrow> string \<Rightarrow> string \<Rightarrow> string" where
  "map_config_path path src dest =
     (let src = trim_right_byte CHR ''/'' src; dest = trim_right_byte CHR ''/'' dest
      in if src = [] \<or> dest = [] then path
         else if path = src then dest
         else if \<not> has_prefix path (src @ ''/'') then path
         else dest @ trim_prefix path src)"

definition docroot_of :: "string list \<Rightarrow> string \<Rightarrow> string" where
  "docroot_of docroots path =
     foldl (\<lambda>best dr. if dr \<noteq> [] \<and> has_prefix path dr \<and> length best < length dr then dr else best) [] docroots"

definition docroot_is_handled :: "string \<Rightarrow> string list \<Rightarrow> bool" where
  "docroot_is_handled dr handled =
     (let dr = trim_right_byte CHR ''/'' dr
      in dr \<noteq> [] \<and>
         list_ex (\<lambda>h. let h = trim_right_byte CHR ''/'' h
                      in h \<noteq> [] \<and> (h = dr \<or> has_prefix h (dr @ ''/'') \<or> has_prefix dr (h @ ''/'')))
           handled)"

definition is_non_live_config_path :: "string \<Rightarrow> bool" where
  "is_non_live_config_path p =
     (let lower = to_lower p;
          (dir, base) = (case cut_last_byte CHR ''/'' lower of None \<Rightarrow> ([], lower) | Some (d, b) \<Rightarrow> (d, b));
          stem = rev (dropWhile (\<lambda>c. is_digit c \<or> c = CHR ''~'') (rev base))
      in list_ex (\<lambda>seg. contains seg ''backup'') (split_byte CHR ''/'' dir)
       \<or> base = ''error_log'' \<or> base = ''php_errorlog'' \<or> has_suffix base ''.log''
       \<or> contains base ''backup'' \<or> has_suffix base ''~''
       \<or> list_ex (has_suffix stem) [''.bak'', ''.old'', ''.orig'', ''.save'', ''.swp'', ''.swo'']
       \<or> list_ex (contains base) [''.bak.'', ''.old.'', ''.orig.'', ''.save.''])"

definition is_local_db_host :: "string \<Rightarrow> bool" where
  "is_local_db_host host =
     (let h = trim_space (trim_prefix (trim_space host) ''p:'');
          h = (if has_prefix h ''['' then
                 (case cut_byte CHR '']'' h of None \<Rightarrow> h | Some (a, b) \<Rightarrow> drop 1 a)
               else if contains h ''::'' then h
               else (case cut_byte CHR '':'' h of None \<Rightarrow> h | Some (a, b) \<Rightarrow> a))
      in to_lower h \<in> {[], ''localhost'', ''127.0.0.1'', ''::1''})"

section \<open>Preflight\<close>

datatype conflict_kind = ConflictDestDB | ConflictDestUser

fun conflict_rank :: "conflict_kind \<Rightarrow> nat" where
  "conflict_rank ConflictDestDB = 0"
| "conflict_rank ConflictDestUser = 1"

record plan_conflict =
  pc_kind :: conflict_kind
  pc_key :: string
  pc_src_dbs :: "string list"

definition conflict_order :: "plan_conflict \<Rightarrow> nat \<times> string" where
  "conflict_order c = (conflict_rank (pc_kind c), pc_key c)"

definition dest_db_conflicts :: "plan_item list \<Rightarrow> plan_conflict list" where
  "dest_db_conflicts plan =
     concat (map (\<lambda>(dest, its).
         if 1 < length its
         then [\<lparr>pc_kind = ConflictDestDB, pc_key = dest, pc_src_dbs = sort (map pi_src_db its)\<rparr>] else [])
       (group_by pi_dest_db plan))"

definition dest_user_conflicts :: "plan_item list \<Rightarrow> plan_conflict list" where
  "dest_user_conflicts plan =
     concat (map (\<lambda>(user, its).
         let pwds = remdups (map pi_password its)
         in if length its < 2 then []
            else if length pwds = 1 \<and> [] \<notin> set pwds then []
            else [\<lparr>pc_kind = ConflictDestUser, pc_key = user, pc_src_dbs = sort (map pi_src_db its)\<rparr>])
       (group_by pi_dest_user plan))"

definition validate_plan :: "plan_item list \<Rightarrow> plan_conflict list" where
  "validate_plan plan = sort_key conflict_order (dest_db_conflicts plan @ dest_user_conflicts plan)"

datatype name_problem = InvalidName validate_error | MissingPrefix string | TooLong int

record name_violation =
  nv_src_db :: string
  nv_field :: string
  nv_name :: string
  nv_max :: int
  nv_problem :: name_problem

definition database_name_length :: "string \<Rightarrow> int" where
  "database_name_length name = int (length name) + int (length (filter (\<lambda>c. c = CHR ''_'') name))"

definition byte_name_length :: "string \<Rightarrow> int" where
  "byte_name_length name = int (length name)"

definition validate_dest_name ::
  "string \<Rightarrow> string \<Rightarrow> string \<Rightarrow> int \<Rightarrow> name_prefix \<Rightarrow> (string \<Rightarrow> int) \<Rightarrow> name_violation list" where
  "validate_dest_name src field name limit dest_prefix name_len =
     (let v = \<lambda>p. \<lparr>nv_src_db = src, nv_field = field, nv_name = name, nv_max = limit, nv_problem = p\<rparr>
      in (case db_name name of Inl e \<Rightarrow> [v (InvalidName e)] | Inr _ \<Rightarrow> [])
         @ (if np_enabled dest_prefix \<and> \<not> has_prefix name (np_value dest_prefix) then [v (MissingPrefix (np_value dest_prefix))] else [])
         @ (if 0 < limit \<and> limit < name_len name then [v (TooLong (name_len name))] else []))"

definition violation_order :: "name_violation \<Rightarrow> string \<times> string \<times> string" where
  "violation_order v = (nv_src_db v, nv_field v, nv_name v)"

definition validate_dest_name_limits ::
  "plan_item list \<Rightarrow> int \<Rightarrow> int \<Rightarrow> name_prefix \<Rightarrow> name_violation list" where
  "validate_dest_name_limits plan max_db max_user dest_prefix =
     sort_key violation_order
       (concat (map (\<lambda>it.
            validate_dest_name (pi_src_db it) ''destination database'' (pi_dest_db it) max_db dest_prefix database_name_length
            @ validate_dest_name (pi_src_db it) ''destination user'' (pi_dest_user it) max_user dest_prefix byte_name_length)
          plan))"

end
