(* ===== verification/DbPlanLaws.thy ===== *)
theory DbPlanLaws
  imports DbPlan
begin

text \<open>
  What the database plan promises: each source database gets exactly the item that a direct reading
  of the rules gives it; a plan the preflight accepts never sends two databases to one destination
  and never leaves a shared user with two passwords.
\<close>

section \<open>The index, read declaratively\<close>

definition first_set :: "('a \<Rightarrow> string) \<Rightarrow> 'a list \<Rightarrow> string" where
  "first_set f xs = (case find (\<lambda>x. f x \<noteq> []) xs of None \<Rightarrow> [] | Some x \<Rightarrow> f x)"

definition creds_for :: "bool \<Rightarrow> string \<Rightarrow> site_creds list \<Rightarrow> site_creds list" where
  "creds_for registry db creds =
     filter (\<lambda>sc. sc_registry sc = registry \<and> c_name (sc_creds sc) = db \<and> db \<noteq> []) creds"

abbreviation user_of :: "site_creds \<Rightarrow> string" where "user_of sc \<equiv> c_user (sc_creds sc)"

abbreviation password_of :: "site_creds \<Rightarrow> string" where "password_of sc \<equiv> c_password (sc_creds sc)"

lemma find_in_append: "find P (xs @ ys) = (case find P xs of None \<Rightarrow> find P ys | Some x \<Rightarrow> Some x)"
  by (induction xs) auto

lemma first_set_snoc: "first_set f (xs @ [x]) = (if first_set f xs = [] then f x else first_set f xs)"
proof (cases "find (\<lambda>x. f x \<noteq> []) xs")
  case (Some y)
  then have "f y \<noteq> []" by (metis (mono_tags, lifting) find_Some_iff)
  with Some show ?thesis by (simp add: first_set_def find_in_append)
qed (simp add: first_set_def find_in_append)

text \<open>A map that keeps the first value that is not empty.\<close>

definition keeps_first :: "(string, string) gomap \<Rightarrow> (string \<Rightarrow> string) \<Rightarrow> bool" where
  "keeps_first m v \<longleftrightarrow> (\<forall>k. map_of m k = (if v k = [] then None else Some (v k)))"

lemma keeps_first_put:
  "keeps_first m v \<Longrightarrow> keeps_first (put_first k x m) (v(k := if v k = [] then x else v k))"
  by (auto simp: keeps_first_def put_first_def map_add_def fun_upd_def split: option.split if_splits)

lemma keeps_first_cong: "keeps_first m v \<Longrightarrow> (\<And>k. v k = w k) \<Longrightarrow> keeps_first m w"
  by (simp add: keeps_first_def)

definition indexes :: "cred_index \<Rightarrow> site_creds list \<Rightarrow> bool" where
  "indexes ix creds \<longleftrightarrow>
     (\<forall>db. list_at (ci_configs ix) db = map config_of (creds_for False db creds)) \<and>
     keeps_first (ci_owner ix) (\<lambda>db. first_set user_of (creds_for False db creds)) \<and>
     keeps_first (ci_password ix) (\<lambda>db. first_set password_of (creds_for False db creds)) \<and>
     keeps_first (ci_owner_registry ix) (\<lambda>db. first_set user_of (creds_for True db creds)) \<and>
     keeps_first (ci_password_registry ix) (\<lambda>db. first_set password_of (creds_for True db creds))"

lemma creds_for_snoc:
  "creds_for r db (cs @ [sc]) =
     (if sc_registry sc = r \<and> c_name (sc_creds sc) = db \<and> db \<noteq> []
      then creds_for r db cs @ [sc] else creds_for r db cs)"
  by (simp add: creds_for_def)

lemma index_step_indexes: "indexes ix cs \<Longrightarrow> indexes (index_step ix sc) (cs @ [sc])"
proof -
  assume ix: "indexes ix cs"
  have put: "keeps_first (put_first db x m) (\<lambda>k. first_set f (creds_for r k (cs @ [sc])))"
    if "keeps_first m (\<lambda>k. first_set f (creds_for r k cs))" "f sc = x"
      "c_name (sc_creds sc) = db" "db \<noteq> []" "sc_registry sc = r" for db x m f r
    by (rule keeps_first_cong [OF keeps_first_put [OF that(1)]])
       (use that in \<open>auto simp: creds_for_snoc first_set_snoc\<close>)
  have same: "keeps_first m (\<lambda>k. first_set f (creds_for r k (cs @ [sc])))"
    if "keeps_first m (\<lambda>k. first_set f (creds_for r k cs))"
      "c_name (sc_creds sc) = [] \<or> sc_registry sc \<noteq> r" for m f r
    by (rule keeps_first_cong [OF that(1)]) (use that(2) in \<open>auto simp: creds_for_snoc\<close>)
  have group: "list_at (add_group k x g) db = (if db = k then list_at g db @ [x] else list_at g db)" for k x g db
    by (auto simp: list_at_def map_of_add_group split: option.split)
  let ?n = "c_name (sc_creds sc)"
  consider "?n = []" | "?n \<noteq> []" "sc_registry sc" | "?n \<noteq> []" "\<not> sc_registry sc" by blast
  then show ?thesis
  proof cases
    case 1
    then have "index_step ix sc = ix" by (simp add: index_step_def)
    moreover have "creds_for r db (cs @ [sc]) = creds_for r db cs" for r db
      using 1 by (auto simp: creds_for_snoc)
    ultimately show ?thesis using ix unfolding indexes_def by simp
  next
    case 2
    then have "index_step ix sc =
        ix\<lparr>ci_owner_registry := put_first ?n (user_of sc) (ci_owner_registry ix),
           ci_password_registry := put_first ?n (password_of sc) (ci_password_registry ix)\<rparr>"
      by (simp add: index_step_def Let_def)
    then show ?thesis
      using ix 2 unfolding indexes_def
      by (simp add: put same) (simp add: creds_for_snoc)
  next
    case 3
    then have "index_step ix sc =
        ix\<lparr>ci_configs := add_group ?n (config_of sc) (ci_configs ix),
           ci_owner := put_first ?n (user_of sc) (ci_owner ix),
           ci_password := put_first ?n (password_of sc) (ci_password ix)\<rparr>"
      by (simp add: index_step_def Let_def)
    then show ?thesis
      using ix 3 unfolding indexes_def
      by (simp add: put same group) (auto simp: creds_for_snoc)
  qed
qed

lemma indexes_foldl: "indexes (foldl index_step no_index creds) creds"
proof (induction creds rule: rev_induct)
  case Nil
  show ?case
    by (simp add: indexes_def no_index_def list_at_def creds_for_def keeps_first_def first_set_def)
next
  case (snoc sc creds)
  then show ?case by (simp add: index_step_indexes)
qed

lemma str_at_update: "str_at (AList.update k v m) j = (if j = k then v else str_at m j)"
  by (simp add: str_at_def update_conv')

lemma fill_gaps_distinct:
  "distinct (map fst r) \<Longrightarrow>
     str_at (fill_gaps r m) k = (if str_at m k = [] then str_at r k else str_at m k)"
proof (induction r arbitrary: m)
  case (Cons kv r)
  obtain j v where kv: "kv = (j, v)" by fastforce
  have "map_of r j = None" using Cons.prems kv by (auto simp: map_of_eq_None_iff)
  with Cons kv show ?case by (auto simp: fill_gaps_def str_at_update) (auto simp: str_at_def)
qed (simp add: fill_gaps_def str_at_def)

lemma put_first_distinct: "distinct (map fst m) \<Longrightarrow> distinct (map fst (put_first k v m))"
  by (auto simp: put_first_def map_of_eq_None_iff)

lemma registry_distinct:
  "distinct (map fst (ci_owner_registry (foldl index_step no_index creds))) \<and>
   distinct (map fst (ci_password_registry (foldl index_step no_index creds)))"
  by (induction creds rule: rev_induct)
     (auto simp: no_index_def index_step_def Let_def put_first_distinct)

lemma str_at_keeps_first: "keeps_first m v \<Longrightarrow> str_at m k = v k"
  by (simp add: keeps_first_def str_at_def)

lemma cred_index_lookup:
  "list_at (ci_configs (cred_index_of creds)) db = map config_of (creds_for False db creds)"
  "str_at (ci_owner (cred_index_of creds)) db =
     first_set id [first_set user_of (creds_for False db creds), first_set user_of (creds_for True db creds)]"
  "str_at (ci_password (cred_index_of creds)) db =
     first_set id [first_set password_of (creds_for False db creds), first_set password_of (creds_for True db creds)]"
  using indexes_foldl [of creds] registry_distinct [of creds]
  by (auto simp: cred_index_of_def Let_def indexes_def fill_gaps_distinct str_at_keeps_first first_set_def)

section \<open>The owner the API reports\<close>

definition api_grantee :: "database_entry list \<Rightarrow> db_user_entry list \<Rightarrow> string \<Rightarrow> string" where
  "api_grantee dbs users name =
     (case last_with db_database name (filter (\<lambda>db. db_users db \<noteq> []) dbs) of
        Some db \<Rightarrow> hd (db_users db)
      | None \<Rightarrow>
          (case find (\<lambda>u. name \<in> set (du_databases u)) users of
             Some u \<Rightarrow> du_user u
           | None \<Rightarrow> []))"

lemma api_dbs:
  "map_of (foldl (\<lambda>m db. case db_users db of [] \<Rightarrow> m | u # _ \<Rightarrow> AList.update (db_database db) u m) [] dbs) name =
     map_option (\<lambda>db. hd (db_users db)) (last_with db_database name (filter (\<lambda>db. db_users db \<noteq> []) dbs))"
  by (induction dbs rule: rev_induct)
     (auto simp: last_with_def update_conv' split: list.split)

lemma api_user_dbs:
  "map_of (foldl (\<lambda>m d. if map_of m d = None then AList.update d v m else m) m ds) name =
     (if map_of m name = None \<and> name \<in> set ds then Some v else map_of m name)"
  by (induction ds arbitrary: m) (auto simp: update_conv')

lemma api_users:
  "map_of (foldl (\<lambda>m u. foldl (\<lambda>m d. if map_of m d = None then AList.update d (du_user u) m else m) m (du_databases u))
           m users) name =
     (case map_of m name of
        Some v \<Rightarrow> Some v
      | None \<Rightarrow> map_option du_user (find (\<lambda>u. name \<in> set (du_databases u)) users))"
proof (induction users arbitrary: m)
  case (Cons u users)
  then show ?case
    by (cases "map_of m name"; cases "name \<in> set (du_databases u)") (simp_all add: api_user_dbs)
qed (simp split: option.split)

lemma api_owner_lookup: "str_at (api_owner dbs users) name = api_grantee dbs users name"
  by (simp add: str_at_def api_owner_def Let_def api_users api_dbs api_grantee_def split: option.split)

section \<open>The plan is the one the rules give\<close>

definition overridden :: "(override \<Rightarrow> string) \<Rightarrow> (string, override) gomap \<Rightarrow> string \<Rightarrow> string" where
  "overridden f overrides name = (case map_of overrides name of None \<Rightarrow> [] | Some ov \<Rightarrow> f ov)"

text \<open>The rules, one line per field: an override, then the sites' own configurations in order, then
  the registry, then the API's grantee, then the database's own name.\<close>

definition rule_item ::
  "database_entry list \<Rightarrow> db_user_entry list \<Rightarrow> site_creds list \<Rightarrow> name_mapping \<Rightarrow> (string, override) gomap
     \<Rightarrow> database_entry \<Rightarrow> plan_item" where
  "rule_item dbs users creds m overrides db =
     (let name = db_database db;
          owner = first_set id [overridden ov_user overrides name,
            first_set user_of (creds_for False name creds), first_set user_of (creds_for True name creds),
            api_grantee dbs users name, name]
      in \<lparr>pi_src_db = name, pi_src_user = owner, pi_dest_db = remap_name name m,
          pi_dest_user = remap_name owner m,
          pi_password = first_set id [overridden ov_password overrides name,
            first_set password_of (creds_for False name creds), first_set password_of (creds_for True name creds)],
          pi_disk_usage = db_disk_usage db, pi_configs = map config_of (creds_for False name creds),
          pi_orphan = (creds_for False name creds = [])\<rparr>)"

lemma plan_db_rule:
  "plan_db (cred_index_of creds) (api_owner dbs users) m overrides db = rule_item dbs users creds m overrides db"
  by (cases "map_of overrides (db_database db)")
     (auto simp: plan_db_def rule_item_def Let_def cred_index_lookup api_owner_lookup overridden_def first_set_def)

text \<open>C32. The plan holds one item per source database, in the order of their names, and each item is
  what the rules say: owner and password from the host's overrides, else from the first
  configuration on disk that states one, else from the Softaculous registry, else (the owner) the
  grantee the API reports, else the database's name; all the configurations on disk that name the
  database, and only those, are to be rewritten; a database none of them names is an orphan.
\<close>

theorem plan_follows_rules:
  "build_plan_with_mapping dbs users creds m overrides =
     sort_key pi_src_db (map (rule_item dbs users creds m overrides) dbs)"
  by (simp add: build_plan_with_mapping_def plan_db_rule [abs_def])

section \<open>The preflight\<close>

text \<open>Two items that would share a destination user agree on a password that is known.\<close>

definition users_agree :: "plan_item \<Rightarrow> plan_item \<Rightarrow> bool" where
  "users_agree a b \<longleftrightarrow>
     (if pi_dest_user a = pi_dest_user b then pi_password a = pi_password b \<and> pi_password a \<noteq> [] else True)"

definition plan_safe :: "plan_item list \<Rightarrow> bool" where
  "plan_safe plan \<longleftrightarrow> distinct (map pi_dest_db plan) \<and> sorted_wrt users_agree plan"

lemma distinct_by_filter: "distinct (map f xs) \<longleftrightarrow> (\<forall>k. length (filter (\<lambda>x. f x = k) xs) \<le> 1)"
proof (induction xs)
  case (Cons x xs)
  have "(\<forall>k. length (filter (\<lambda>y. f y = k) (x # xs)) \<le> 1) \<longleftrightarrow>
      filter (\<lambda>y. f y = f x) xs = [] \<and> (\<forall>k. length (filter (\<lambda>y. f y = k) xs) \<le> 1)"
    (is "?L \<longleftrightarrow> ?R")
  proof
    assume L: ?L
    have "filter (\<lambda>y. f y = f x) xs = []" using spec [OF L, of "f x"] by simp
    moreover have "length (filter (\<lambda>y. f y = k) xs) \<le> 1" for k
      using spec [OF L, of k] by (cases "f x = k") auto
    ultimately show ?R by blast
  qed auto
  moreover have "filter (\<lambda>y. f y = f x) xs = [] \<longleftrightarrow> f x \<notin> f ` set xs"
    unfolding filter_empty_conv by (metis (mono_tags, lifting) image_iff)
  ultimately show ?case using Cons by simp
qed simp

lemma group_by_all:
  "(\<forall>p\<in>set (group_by f xs). P (snd p)) \<longleftrightarrow> (\<forall>k. P (filter (\<lambda>x. f x = k) xs) \<or> filter (\<lambda>x. f x = k) xs = [])"
proof -
  have "(\<forall>p\<in>set (group_by f xs). P (snd p)) \<longleftrightarrow> (\<forall>k g. (k, g) \<in> set (group_by f xs) \<longrightarrow> P g)" by auto
  also have "\<dots> \<longleftrightarrow> (\<forall>k. P (filter (\<lambda>x. f x = k) xs) \<or> filter (\<lambda>x. f x = k) xs = [])"
    unfolding group_by_mem_iff by blast
  finally show ?thesis .
qed

lemma concat_map_Nil: "concat (map f xs) = [] \<longleftrightarrow> (\<forall>x\<in>set xs. f x = [])"
  by simp

lemma no_dest_db_conflict: "dest_db_conflicts plan = [] \<longleftrightarrow> distinct (map pi_dest_db plan)"
proof -
  have "dest_db_conflicts plan = [] \<longleftrightarrow> (\<forall>p\<in>set (group_by pi_dest_db plan). length (snd p) \<le> 1)"
    unfolding dest_db_conflicts_def concat_map_Nil
    by (rule ball_cong [OF refl]) (simp add: split_beta not_less)
  also have "\<dots> \<longleftrightarrow> (\<forall>k. length (filter (\<lambda>x. pi_dest_db x = k) plan) \<le> 1)"
    unfolding group_by_all [where P = "\<lambda>g. length g \<le> 1"] by fastforce
  finally show ?thesis by (simp add: distinct_by_filter)
qed

abbreviation same_password :: "plan_item \<Rightarrow> plan_item \<Rightarrow> bool" where
  "same_password a b \<equiv> pi_password a = pi_password b \<and> pi_password a \<noteq> []"

lemma users_agree_by_filter:
  "sorted_wrt users_agree xs \<longleftrightarrow> (\<forall>k. sorted_wrt same_password (filter (\<lambda>x. pi_dest_user x = k) xs))"
proof (induction xs)
  case (Cons x xs)
  have "(\<forall>k. sorted_wrt same_password (filter (\<lambda>y. pi_dest_user y = k) (x # xs))) \<longleftrightarrow>
      (\<forall>y\<in>set xs. users_agree x y) \<and> (\<forall>k. sorted_wrt same_password (filter (\<lambda>y. pi_dest_user y = k) xs))"
    by (auto simp: users_agree_def)
  then show ?case using Cons by simp
qed simp

lemma same_password_list:
  "2 \<le> length g \<Longrightarrow>
     sorted_wrt same_password g \<longleftrightarrow> length (remdups (map pi_password g)) = 1 \<and> [] \<notin> set (map pi_password g)"
proof -
  assume "2 \<le> length g"
  then obtain a b r where g: "g = a # b # r" by (cases g; cases "tl g") auto
  have "sorted_wrt same_password g \<longleftrightarrow> set (map pi_password g) = {pi_password a} \<and> pi_password a \<noteq> []"
    unfolding g by (induction r arbitrary: b) auto
  also have "\<dots> \<longleftrightarrow> card (set (map pi_password g)) = 1 \<and> [] \<notin> set (map pi_password g)"
  proof -
    have "pi_password a \<in> set (map pi_password g)" using g by simp
    then show ?thesis by (metis card_1_singletonE is_singletonI is_singleton_altdef singletonD singletonI)
  qed
  finally show ?thesis by (simp add: length_remdups_card_conv)
qed

lemma no_dest_user_conflict: "dest_user_conflicts plan = [] \<longleftrightarrow> sorted_wrt users_agree plan"
proof -
  have iff: "(if length g < 2 then True else length (remdups (map pi_password g)) = 1 \<and> [] \<notin> set (map pi_password g))
      \<longleftrightarrow> sorted_wrt same_password g" for g
  proof (cases "length g < 2")
    case True
    then show ?thesis by (cases g) auto
  next
    case False
    then show ?thesis using same_password_list [of g] by simp
  qed
  have "dest_user_conflicts plan = [] \<longleftrightarrow> (\<forall>p\<in>set (group_by pi_dest_user plan). sorted_wrt same_password (snd p))"
    unfolding dest_user_conflicts_def concat_map_Nil iff [symmetric]
    by (rule ball_cong [OF refl]) (simp add: split_beta Let_def)
  also have "\<dots> \<longleftrightarrow> (\<forall>k. sorted_wrt same_password (filter (\<lambda>x. pi_dest_user x = k) plan))"
    unfolding group_by_all [where P = "sorted_wrt same_password"]
  proof (intro all_cong1 iffI)
    fix k
    assume "sorted_wrt same_password (filter (\<lambda>x. pi_dest_user x = k) plan) \<or> filter (\<lambda>x. pi_dest_user x = k) plan = []"
    then show "sorted_wrt same_password (filter (\<lambda>x. pi_dest_user x = k) plan)"
      by (elim disjE) (assumption, erule ssubst, rule sorted_wrt.simps(1) [THEN iffD2], rule TrueI)
  qed (erule disjI1)
  finally show ?thesis by (simp add: users_agree_by_filter)
qed

lemma validate_plan_safe: "validate_plan plan = [] \<longleftrightarrow> plan_safe plan"
  unfolding validate_plan_def plan_safe_def sort_key_empty_iff append_is_Nil_conv
    no_dest_db_conflict no_dest_user_conflict by (rule refl)

text \<open>C33. The preflight is exact: it reports no conflict if and only if no two items go to one
  destination database and any two items that share a destination user carry one password, which
  is known. Both directions matter: no unsafe plan passes, and no safe plan is refused.
\<close>

theorem preflight_exact:
  "validate_plan plan = [] \<longleftrightarrow> distinct (map pi_dest_db plan) \<and> sorted_wrt users_agree plan"
  using validate_plan_safe [of plan] by (simp add: plan_safe_def)

section \<open>Paths and the registry\<close>

lemma has_prefix_append [simp]: "has_prefix (a @ b) a"
  by (simp add: has_prefix_def)

lemma trim_prefix_append [simp]: "trim_prefix (a @ b) a = b"
  by (simp add: trim_prefix_def)

lemma trim_right_byte_idem: "trim_right_byte c (trim_right_byte c s) = trim_right_byte c s"
  by (simp add: trim_right_byte_def)

lemma map_config_path_under:
  assumes "trim_right_byte CHR ''/'' src \<noteq> []" "trim_right_byte CHR ''/'' dest \<noteq> []"
    and "rel = [] \<or> has_prefix rel ''/''"
  shows "map_config_path (trim_right_byte CHR ''/'' src @ rel) src dest = trim_right_byte CHR ''/'' dest @ rel"
proof (cases "rel = []")
  case True
  then show ?thesis using assms by (simp add: map_config_path_def)
next
  case False
  then obtain r where "rel = ''/'' @ r"
    using assms(3) by (auto simp: has_prefix_def prefix_def)
  then have "has_prefix (trim_right_byte CHR ''/'' src @ rel) (trim_right_byte CHR ''/'' src @ ''/'')"
    by (simp add: has_prefix_def)
  then show ?thesis using assms False by (simp add: map_config_path_def)
qed

text \<open>The place of a configuration on the destination. A path at or under the source's document
  root, whatever slashes that root is written with, maps to the same place under the destination's
  root, and mapping it back gives the path.
\<close>

theorem config_path_mapped:
  assumes "trim_right_byte CHR ''/'' src \<noteq> []" "trim_right_byte CHR ''/'' dest \<noteq> []"
    and "rel = [] \<or> has_prefix rel ''/''"
    and "path = trim_right_byte CHR ''/'' src @ rel"
  shows "map_config_path path src dest = trim_right_byte CHR ''/'' dest @ rel \<and>
    map_config_path (map_config_path path src dest) dest src = path"
  using assms map_config_path_under by simp

lemma config_path_mapped_witness:
  "map_config_path ''/home/a/site/wp-config.php'' ''/home/a/site/'' ''/home/b/www'' = ''/home/b/www/wp-config.php'' \<and>
   map_config_path ''/home/b/www/wp-config.php'' ''/home/b/www'' ''/home/a/site/'' = ''/home/a/site/wp-config.php''"
proof -
  let ?p = "map_config_path ''/home/a/site/wp-config.php'' ''/home/a/site/'' ''/home/b/www''"
  have c: "?p = trim_right_byte CHR ''/'' ''/home/b/www'' @ ''/wp-config.php'' \<and>
      map_config_path ?p ''/home/b/www'' ''/home/a/site/'' = ''/home/a/site/wp-config.php''"
    by (rule config_path_mapped) (simp_all add: trim_right_byte_def has_prefix_def)
  moreover have "trim_right_byte CHR ''/'' ''/home/b/www'' @ ''/wp-config.php'' = ''/home/b/www/wp-config.php''"
    by (simp add: trim_right_byte_def)
  ultimately have p: "?p = ''/home/b/www/wp-config.php''" by (elim conjE) (rule trans)
  from c [unfolded p] have "map_config_path ''/home/b/www/wp-config.php'' ''/home/b/www'' ''/home/a/site/''
      = ''/home/a/site/wp-config.php''" by (elim conjE)
  with p show ?thesis by (rule conjI)
qed

text \<open>The longest document root that is a textual prefix need not contain the path.\<close>

lemma docroot_of_sibling:
  "docroot_of [''/home/a/www'', ''/home/a/www/wp''] ''/home/a/www/wp2/config.php'' = ''/home/a/www/wp'' \<and>
   map_config_path ''/home/a/www/wp2/config.php'' ''/home/a/www/wp'' ''/home/b/wp'' = ''/home/a/www/wp2/config.php''"
  by (simp add: docroot_of_def has_prefix_def map_config_path_def trim_right_byte_def)

definition twice_registered :: "(string, unit php) gomap" where
  "twice_registered =
     [(''26_1'', PArr [(''softdb'', PStr ''a_wp''), (''softdbuser'', PStr ''a_u''), (''softdbpass'', PStr ''old'')]),
      (''26_2'', PArr [(''softdb'', PStr ''a_wp''), (''softdbuser'', PStr ''a_u''), (''softdbpass'', PStr ''new'')])]"

definition plan_from_registry :: "(string, unit php) gomap \<Rightarrow> plan_item list" where
  "plan_from_registry entries =
     build_plan [\<lparr>db_database = ''a_wp'', db_disk_usage = 0, db_users = []\<rparr>] [] (registry_entries entries) [] ''b_'' []"

text \<open>The registry is decoded into a map and its entries are visited in the map's order, which is
  any order; the first password met is the one that is kept. Two entries for one database with two
  passwords therefore give two different plans for one and the same registry: planning is not a
  function of its input.
\<close>

theorem registry_order_decides_password:
  "same_map twice_registered (rev twice_registered) \<and>
   map pi_password (plan_from_registry twice_registered) = [''old''] \<and>
   map pi_password (plan_from_registry (rev twice_registered)) = [''new'']"
proof -
  have "same_map twice_registered (rev twice_registered)"
    by (simp add: same_map_def twice_registered_def)
  moreover have "map pi_password (plan_from_registry twice_registered) = [''old'']" by code_simp
  moreover have "map pi_password (plan_from_registry (rev twice_registered)) = [''new'']" by code_simp
  ultimately show ?thesis by blast
qed

end
