(* ===== verification/MigData.thy ===== *)
theory MigData
  imports DbPlan
begin

text \<open>
  The data a migration run works on and the questions its phases ask of it (internal/model,
  internal/migrate: data.go, domain_type_issues.go, dbfiles_common.go, selected_domains.go,
  scope_filter.go). Messages are kept where the code branches on them, and otherwise as the data
  they are printed from.
\<close>

section \<open>Domains and mailboxes (internal/model)\<close>

datatype domain_type = MainDom | AddonDom | SubDom | ParkedDom

record domain =
  dm_name :: string
  dm_type :: domain_type

record mailbox =
  mb_domain :: string
  mb_user :: string
  mb_hash :: string
  mb_scheme :: string
  mb_active :: bool

definition mb_email :: "mailbox \<Rightarrow> string" where
  "mb_email m = mb_user m @ ''@'' @ mb_domain m"

datatype domain_action = AlreadyPresent | CreateAddon | CreateSub

definition action_for :: "domain_type \<Rightarrow> bool \<Rightarrow> domain_action" where
  "action_for src exists_on_dest =
     (if exists_on_dest then AlreadyPresent else if src = SubDom then CreateSub else CreateAddon)"

definition expected_destination_type :: "domain_type \<Rightarrow> domain_type" where
  "expected_destination_type src = (if src = SubDom then SubDom else AddonDom)"

definition compatible_destination_type :: "domain_type \<Rightarrow> domain_type \<Rightarrow> bool" where
  "compatible_destination_type src dest = (dest = expected_destination_type src)"

definition hash_scheme :: "string \<Rightarrow> string" where
  "hash_scheme h =
     (if h = [] then ''EMPTY''
      else if has_prefix h ''$6$'' then ''SHA-512''
      else if has_prefix h ''$5$'' then ''SHA-256''
      else if has_prefix h ''$2'' then ''bcrypt''
      else if has_prefix h ''$1$'' then ''MD5 (weak)''
      else if has_prefix h ''$y$'' then ''yescrypt''
      else if has_prefix h ''$argon2'' then ''Argon2''
      else if hd h = CHR ''!'' \<or> hd h = CHR ''*'' then ''LOCKED/none''
      else ''unknown'')"

section \<open>The run's data\<close>

record docroot_entry =
  dr_domain :: string
  dr_document_root :: string
  dr_type :: string

record mysql_restrictions =
  mr_max_db :: int
  mr_max_user :: int
  mr_prefix :: "string option"

record type_issue =
  ti_domain :: string
  ti_dest_docroot :: string
  ti_dest_docroot_type :: string
  ti_warn_mail :: bool
  ti_block_web :: bool
  ti_block_db_config :: bool
  ti_reason :: string

record migration =
  mg_src_domains :: "domain list"
  mg_dest_domains :: "domain list"
  mg_dest_domain_set :: "string list"
  mg_mailboxes :: "mailbox list"
  mg_failed :: "string list"
  mg_blocked :: "(string, string) gomap"
  mg_type_issues :: "(string, type_issue) gomap"
  mg_src_docroots :: "docroot_entry list"
  mg_dest_docroots :: "docroot_entry list"
  mg_databases :: "database_entry list"
  mg_db_users :: "db_user_entry list"
  mg_site_creds :: "site_creds list"
  mg_dest_databases :: "database_entry list"
  mg_src_restrictions :: mysql_restrictions
  mg_dest_restrictions :: mysql_restrictions

abbreviation on_dest :: "migration \<Rightarrow> string \<Rightarrow> bool" where
  "on_dest pd domain \<equiv> domain_has (\<lambda>k. k \<in> set (mg_dest_domain_set pd)) domain"

definition domain_failed :: "migration \<Rightarrow> string \<Rightarrow> bool" where
  "domain_failed pd domain = (domain_key domain \<in> set (mg_failed pd))"

definition domain_blocked :: "migration \<Rightarrow> string \<Rightarrow> string option" where
  "domain_blocked pd domain = map_of (mg_blocked pd) (domain_key domain)"

definition domain_unavailable :: "migration \<Rightarrow> string \<Rightarrow> bool" where
  "domain_unavailable pd domain = (domain_failed pd domain \<or> domain_blocked pd domain \<noteq> None)"

definition domain_unavailable_reason :: "migration \<Rightarrow> string \<Rightarrow> string" where
  "domain_unavailable_reason pd domain =
     (if domain_failed pd domain then ''domain '' @ [CHR 0x27] @ domain @ [CHR 0x27] @ '' creation failed''
      else (case domain_blocked pd domain of Some reason \<Rightarrow> reason | None \<Rightarrow> []))"

definition unique_dest_domain_matches :: "domain list \<Rightarrow> string \<Rightarrow> string list" where
  "unique_dest_domain_matches ds domain =
     map dm_name (dedup_by dm_name [] (filter (\<lambda>d. domain_equal (dm_name d) domain) ds))"

definition dest_domain_name_for :: "migration \<Rightarrow> string \<Rightarrow> string option" where
  "dest_domain_name_for pd domain =
     (case unique_dest_domain_matches (mg_dest_domains pd) domain of
        [] \<Rightarrow> if on_dest pd domain then Some domain else None
      | [d] \<Rightarrow> (case check_domain (domain_key d) of Inl e \<Rightarrow> None | Inr _ \<Rightarrow> Some d)
      | _ \<Rightarrow> None)"

section \<open>Document roots\<close>

definition strip_slashes :: "string \<Rightarrow> string" where
  "strip_slashes d =
     (let t = trim_right_byte CHR ''/'' d in if t = [] \<and> d \<noteq> [] then ''/'' else t)"

definition has_path_prefix :: "string \<Rightarrow> string \<Rightarrow> bool" where
  "has_path_prefix path d =
     (let d = strip_slashes d
      in if path = d then True
         else if length path \<le> length d then False
         else take (length d) path = d \<and> path ! length d = CHR ''/'')"

definition src_docroot_containing :: "migration \<Rightarrow> string \<Rightarrow> docroot_entry option" where
  "src_docroot_containing pd path =
     foldl (\<lambda>best e.
         if dr_document_root e = [] then best
         else if has_path_prefix path (dr_document_root e)
           \<and> (case best of None \<Rightarrow> 0 | Some b \<Rightarrow> length (dr_document_root b)) < length (dr_document_root e)
         then Some e else best)
       None (mg_src_docroots pd)"

definition unique_dest_docroot_matches :: "docroot_entry list \<Rightarrow> string \<Rightarrow> docroot_entry list" where
  "unique_dest_docroot_matches roots domain =
     dedup_by (\<lambda>e. dr_domain e @ nul @ dr_document_root e) []
       (filter (\<lambda>e. domain_equal (dr_domain e) domain) roots)"

definition docroot_collision_note :: "string \<Rightarrow> docroot_entry list \<Rightarrow> string" where
  "docroot_collision_note domain matches =
     ''destination canonical domain collision for '' @ go_quote domain @ '': ''
       @ join ''; '' (sort (map (\<lambda>e. dr_domain e @ '' -> '' @ dr_document_root e) matches))"

text \<open>The destination's document root of a domain (empty when it has none), or why there is none.\<close>

definition dest_docroot_for :: "migration \<Rightarrow> string \<Rightarrow> string + string" where
  "dest_docroot_for pd domain =
     (case unique_dest_docroot_matches (mg_dest_docroots pd) domain of
        [] \<Rightarrow> Inr []
      | [e] \<Rightarrow> Inr (dr_document_root e)
      | es \<Rightarrow> Inl (docroot_collision_note domain es))"

definition missing_docroot :: "migration \<Rightarrow> string \<Rightarrow> bool" where
  "missing_docroot pd domain = (on_dest pd domain \<and> dest_docroot_for pd domain = Inr [])"

section \<open>Domain types (domain_type_issues.go)\<close>

definition docroot_type :: "string \<Rightarrow> domain_type option" where
  "docroot_type raw =
     (if raw = ''main_domain'' then Some MainDom
      else if raw = ''addon_domain'' then Some AddonDom
      else if raw = ''sub_domain'' then Some SubDom
      else if raw = ''parked_domain'' then Some ParkedDom
      else None)"

fun type_text :: "domain_type \<Rightarrow> string" where
  "type_text MainDom = ''main''"
| "type_text AddonDom = ''addon''"
| "type_text SubDom = ''sub''"
| "type_text ParkedDom = ''parked''"

text \<open>The one element a filter leaves, if it is the only one.\<close>

definition the_only :: "('a \<Rightarrow> bool) \<Rightarrow> 'a list \<Rightarrow> 'a option" where
  "the_only P xs = (case filter P xs of [x] \<Rightarrow> Some x | _ \<Rightarrow> None)"

definition same_name_main_to_main :: "domain \<Rightarrow> domain \<Rightarrow> docroot_entry option \<Rightarrow> bool" where
  "same_name_main_to_main src dest doc =
     (dm_type src = MainDom \<and> dm_type dest = MainDom \<and> domain_equal (dm_name src) (dm_name dest)
        \<and> (case doc of None \<Rightarrow> False | Some e \<Rightarrow> docroot_type (dr_type e) = Some MainDom))"

text \<open>\<open>DomainTypeIssue.Reason\<close> of a mismatch.\<close>

definition mismatch_reason :: "domain \<Rightarrow> domain \<Rightarrow> docroot_entry option \<Rightarrow> string" where
  "mismatch_reason src dest doc =
     ''destination domain type mismatch for '' @ dm_name src @ '': source '' @ type_text (dm_type src)
       @ '' expects destination '' @ type_text (expected_destination_type (dm_type src))
       @ '', destination has '' @ type_text (dm_type dest) @ '' '' @ go_quote (dm_name dest)
       @ (case doc of None \<Rightarrow> [] | Some e \<Rightarrow>
            if dr_type e = [] then []
            else '' (docroot type '' @ dr_type e
              @ (if dr_document_root e = [] then [] else '' at '' @ dr_document_root e) @ '')'')"

definition classify_type_issue :: "domain \<Rightarrow> domain \<Rightarrow> docroot_entry option \<Rightarrow> type_issue option" where
  "classify_type_issue src dest doc =
     (if same_name_main_to_main src dest doc then None
      else
        (let mismatch = (\<not> compatible_destination_type (dm_type src) (dm_type dest));
             doc_bad = (case doc of None \<Rightarrow> False | Some e \<Rightarrow>
               (case docroot_type (dr_type e) of
                  None \<Rightarrow> True
                | Some t \<Rightarrow> t \<noteq> dm_type dest \<or> t = MainDom \<or> t = ParkedDom));
             dest_bad = (dm_type dest = MainDom \<or> dm_type dest = ParkedDom);
             bad = (mismatch \<or> doc_bad \<or> dest_bad)
         in if \<not> bad then None
            else Some \<lparr>ti_domain = dm_name src,
              ti_dest_docroot = (case doc of None \<Rightarrow> [] | Some e \<Rightarrow> dr_document_root e),
              ti_dest_docroot_type = (case doc of None \<Rightarrow> [] | Some e \<Rightarrow> dr_type e),
              ti_warn_mail = bad, ti_block_web = bad, ti_block_db_config = bad,
              ti_reason = mismatch_reason src dest doc\<rparr>))"

definition refusing_issue :: "string \<Rightarrow> docroot_entry option \<Rightarrow> string \<Rightarrow> type_issue" where
  "refusing_issue domain doc reason =
     \<lparr>ti_domain = domain, ti_dest_docroot = (case doc of None \<Rightarrow> [] | Some e \<Rightarrow> dr_document_root e),
      ti_dest_docroot_type = (case doc of None \<Rightarrow> [] | Some e \<Rightarrow> dr_type e),
      ti_warn_mail = True, ti_block_web = True, ti_block_db_config = True, ti_reason = reason\<rparr>"

definition type_collision_issue :: "string \<Rightarrow> domain list \<Rightarrow> docroot_entry option \<Rightarrow> type_issue" where
  "type_collision_issue domain matches doc =
     refusing_issue domain doc
       (''destination canonical domain collision for '' @ go_quote domain @ '': ''
        @ join ''; '' (sort (map (\<lambda>d. dm_name d @ '' ('' @ type_text (dm_type d) @ '')'') matches)))"

definition unknown_source_issue :: "string \<Rightarrow> docroot_entry option \<Rightarrow> type_issue" where
  "unknown_source_issue domain doc =
     refusing_issue domain doc
       (''destination domain type cannot be validated for '' @ go_quote domain
        @ '': selected web/DB domain is absent from source domain inventory and source docroot type is unknown; refusing web copy and DB config rewrite'')"

definition type_issue_of :: "migration \<Rightarrow> string \<Rightarrow> type_issue option" where
  "type_issue_of pd domain = map_of (mg_type_issues pd) (domain_key domain)"

text \<open>The issue that blocks a domain's configuration rewrites, if any.\<close>

definition db_config_issue :: "migration \<Rightarrow> string \<Rightarrow> type_issue option" where
  "db_config_issue pd domain =
     (case type_issue_of pd domain of
        Some i \<Rightarrow> if ti_block_db_config i then Some i else None
      | None \<Rightarrow> None)"

definition selected_source_domain :: "migration \<Rightarrow> string \<Rightarrow> domain option" where
  "selected_source_domain pd domain =
     (case the_only (\<lambda>d. domain_equal (dm_name d) domain) (mg_src_domains pd) of
        Some d \<Rightarrow> Some d
      | None \<Rightarrow>
          (case the_only (\<lambda>e. domain_equal (dr_domain e) domain) (mg_src_docroots pd) of
             None \<Rightarrow> None
           | Some e \<Rightarrow> map_option (\<lambda>t. \<lparr>dm_name = dr_domain e, dm_type = t\<rparr>) (docroot_type (dr_type e))))"

section \<open>The databases' plan and its guards (dbfiles_common.go)\<close>

definition restrictions_known :: "mysql_restrictions \<Rightarrow> bool" where
  "restrictions_known r = (0 < mr_max_db r \<or> 0 < mr_max_user r \<or> mr_prefix r \<noteq> None)"

definition mysql_name_prefix :: "mysql_restrictions \<Rightarrow> string \<Rightarrow> name_prefix" where
  "mysql_name_prefix r legacy =
     (if restrictions_known r then
        (case mr_prefix r of
           None \<Rightarrow> \<lparr>np_enabled = False, np_value = []\<rparr>
         | Some p \<Rightarrow> \<lparr>np_enabled = True, np_value = p\<rparr>)
      else \<lparr>np_enabled = (legacy \<noteq> []), np_value = legacy\<rparr>)"

definition legacy_src_prefix :: "database_entry list \<Rightarrow> string" where
  "legacy_src_prefix dbs =
     (case find (\<lambda>db. CHR ''_'' \<in> set (db_database db)) dbs of
        None \<Rightarrow> []
      | Some db \<Rightarrow> takeWhile (\<lambda>c. c \<noteq> CHR ''_'') (db_database db) @ ''_'')"

definition db_name_mapping :: "migration \<Rightarrow> name_mapping" where
  "db_name_mapping pd =
     \<lparr>nm_source = mysql_name_prefix (mg_src_restrictions pd) (legacy_src_prefix (mg_databases pd)),
      nm_destination = mysql_name_prefix (mg_dest_restrictions pd) []\<rparr>"

definition db_plan :: "migration \<Rightarrow> (string, override) gomap \<Rightarrow> plan_item list" where
  "db_plan pd overrides =
     build_plan_with_mapping (mg_databases pd) (mg_db_users pd) (mg_site_creds pd) (db_name_mapping pd) overrides"

definition db_plan_name_violations :: "migration \<Rightarrow> plan_item list \<Rightarrow> name_violation list" where
  "db_plan_name_violations pd plan =
     (if \<not> restrictions_known (mg_dest_restrictions pd) then []
      else validate_dest_name_limits plan (mr_max_db (mg_dest_restrictions pd)) (mr_max_user (mg_dest_restrictions pd))
             (nm_destination (db_name_mapping pd)))"

definition db_all_domains_failed :: "migration \<Rightarrow> plan_item \<Rightarrow> bool" where
  "db_all_domains_failed pd it =
     (if (mg_failed pd = [] \<and> mg_blocked pd = []) \<or> pi_configs it = [] then False
      else
        (let entries = List.map_filter (\<lambda>c. src_docroot_containing pd (cr_config_path c)) (pi_configs it)
         in list_all (\<lambda>e. domain_unavailable pd (dr_domain e)) entries \<and> entries \<noteq> []))"

definition format_unavailable_reasons :: "string list \<Rightarrow> string" where
  "format_unavailable_reasons reasons =
     (let unique = remdups (filter (\<lambda>r. r \<noteq> []) reasons)
      in if unique = [] then [] else '': '' @ join ''; '' (sort unique))"

text \<open>What the loop of \<open>dbAllDomainsUnavailableForApply\<close> has seen, or that a safe site needs the
  database.\<close>

record unavailable_scan =
  us_resolved :: bool
  us_unresolved :: bool
  us_unavailable :: bool
  us_type_blocked :: bool
  us_reasons :: "string list"

fun scan_unavailable :: "migration \<Rightarrow> config_ref list \<Rightarrow> unavailable_scan \<Rightarrow> unavailable_scan option" where
  "scan_unavailable pd [] us = Some us"
| "scan_unavailable pd (c # cs) us =
     (case src_docroot_containing pd (cr_config_path c) of
        None \<Rightarrow> scan_unavailable pd cs (us\<lparr>us_unresolved := True\<rparr>)
      | Some e \<Rightarrow>
          (let us = us\<lparr>us_resolved := True\<rparr>
           in if domain_unavailable pd (dr_domain e) then
                (let reason = domain_unavailable_reason pd (dr_domain e)
                 in scan_unavailable pd cs
                      (us\<lparr>us_unavailable := True,
                          us_reasons := us_reasons us @ (if reason = [] then [] else [reason])\<rparr>))
              else if db_config_issue pd (dr_domain e) \<noteq> None then
                scan_unavailable pd cs (us\<lparr>us_type_blocked := True\<rparr>)
              else None))"

definition reason_both :: string where
  "reason_both = ''all referencing domains failed creation, are blocked by domain creation preflight, or have unsafe destination domain type bindings''"

definition reason_type :: string where
  "reason_type = ''all referencing site configs are blocked by destination domain type compatibility; DB data not imported to avoid a database cutover with no safe destination config''"

definition reason_unavailable :: string where
  "reason_unavailable = ''all referencing domains failed creation or are blocked by domain creation preflight''"

text \<open>\<open>Some reason\<close>: the database is skipped.\<close>

definition db_unavailable :: "migration \<Rightarrow> plan_item \<Rightarrow> string option" where
  "db_unavailable pd it =
     (if pi_configs it = [] then None
      else
        (case scan_unavailable pd (pi_configs it) \<lparr>us_resolved = False, us_unresolved = False,
                us_unavailable = False, us_type_blocked = False, us_reasons = []\<rparr> of
           None \<Rightarrow> None
         | Some us \<Rightarrow>
             if \<not> us_resolved us \<or> us_unresolved us then None
             else if us_unavailable us \<and> us_type_blocked us
               then Some (reason_both @ format_unavailable_reasons (us_reasons us))
             else if us_type_blocked us then Some reason_type
             else Some (reason_unavailable @ format_unavailable_reasons (us_reasons us))))"

definition unavailable_reason_fails_db :: "string \<Rightarrow> bool" where
  "unavailable_reason_fails_db reason = contains reason ''destination domain type''"

definition db_config_type_issue_reasons :: "migration \<Rightarrow> plan_item \<Rightarrow> string list" where
  "db_config_type_issue_reasons pd it =
     sort (dedup_by id []
       (List.map_filter (\<lambda>c. case src_docroot_containing pd (cr_config_path c) of
            None \<Rightarrow> None
          | Some e \<Rightarrow> map_option ti_reason (db_config_issue pd (dr_domain e))) (pi_configs it)))"

section \<open>The domains a run uses (selected_domains.go)\<close>

record run_options =
  ro_mail :: bool
  ro_file :: bool
  ro_db :: bool
  ro_only_domain :: string
  ro_only_mailbox :: string

record domain_use =
  use_domain :: string
  use_flow :: string
  use_item :: string

definition selected_uses :: "migration \<Rightarrow> run_options \<Rightarrow> (string, override) gomap \<Rightarrow> domain_use list" where
  "selected_uses pd opts overrides =
     dedup_by (\<lambda>u. use_domain u @ nul @ use_flow u @ nul @ use_item u) []
       ((if ro_mail opts
         then map (\<lambda>m. \<lparr>use_domain = mb_domain m, use_flow = ''mail'', use_item = mb_email m\<rparr>) (mg_mailboxes pd)
         else [])
        @ (if ro_file opts
           then map (\<lambda>e. \<lparr>use_domain = dr_domain e, use_flow = ''web'', use_item = dr_document_root e\<rparr>)
                  (mg_src_docroots pd)
           else [])
        @ (if ro_db opts
           then concat (map (\<lambda>it. List.map_filter (\<lambda>c.
                  map_option (\<lambda>e. \<lparr>use_domain = dr_domain e, use_flow = ''db'',
                      use_item = cr_config_path c @ '' for '' @ pi_src_db it\<rparr>)
                    (src_docroot_containing pd (cr_config_path c))) (pi_configs it))
                (db_plan pd overrides))
           else []))"

definition selected_domain_set :: "domain_use list \<Rightarrow> string list" where
  "selected_domain_set uses =
     remdups (map (\<lambda>u. domain_key (use_domain u)) (filter (\<lambda>u. use_domain u \<noteq> []) uses))"

definition source_domain_set :: "migration \<Rightarrow> string list" where
  "source_domain_set pd = remdups (map (\<lambda>d. domain_key (dm_name d)) (mg_src_domains pd))"

definition in_set :: "string list \<Rightarrow> string \<Rightarrow> bool" where
  "in_set ks name = domain_has (\<lambda>k. k \<in> set ks) name"

definition absent_reason :: "domain_use list \<Rightarrow> string" where
  "absent_reason uses =
     ''domain absent from source domain inventory and destination; Step 8 cannot create it (referenced by ''
       @ join ''; '' (sort (map (\<lambda>u. use_flow u @ '': '' @ use_item u) uses)) @ '')''"

text \<open>\<open>updateSelectedDomainCoverage\<close>: the selected domains that are on neither side are blocked.\<close>

definition update_coverage ::
  "migration \<Rightarrow> run_options \<Rightarrow> (string, override) gomap \<Rightarrow> migration \<times> domain_use list" where
  "update_coverage pd opts overrides =
     (let uses = selected_uses pd opts overrides;
          bad = filter (\<lambda>u. use_domain u \<noteq> [] \<and> \<not> in_set (source_domain_set pd) (use_domain u)
                          \<and> \<not> on_dest pd (use_domain u)) uses;
          groups = sort_key fst (group_by (\<lambda>u. domain_key (use_domain u)) bad)
      in (pd\<lparr>mg_blocked := map (\<lambda>(k, us). (k, absent_reason us)) groups\<rparr>, uses))"

text \<open>\<open>updateDomainTypeIssuesForUses\<close>.\<close>

definition type_issue_for :: "migration \<Rightarrow> domain_use list \<Rightarrow> type_issue option" where
  "type_issue_for pd uses =
     (let raw = use_domain (hd uses);
          dests = filter (\<lambda>d. domain_equal (dm_name d) raw) (mg_dest_domains pd);
          doc = the_only (\<lambda>e. domain_equal (dr_domain e) raw) (mg_dest_docroots pd)
      in case dests of
           [] \<Rightarrow> None
         | [dest] \<Rightarrow>
             (case selected_source_domain pd raw of
                None \<Rightarrow> if list_ex (\<lambda>u. use_flow u = ''web'' \<or> use_flow u = ''db'') uses
                        then Some (unknown_source_issue raw doc) else None
              | Some src \<Rightarrow> classify_type_issue src dest doc)
         | _ \<Rightarrow> Some (type_collision_issue raw dests doc))"

definition update_type_issues :: "migration \<Rightarrow> domain_use list \<Rightarrow> migration" where
  "update_type_issues pd uses =
     (let groups = group_by (\<lambda>u. domain_key (use_domain u)) (filter (\<lambda>u. use_domain u \<noteq> []) uses);
          issues = List.map_filter (\<lambda>(k, us). type_issue_for pd us) (sort_key fst groups)
      in pd\<lparr>mg_type_issues :=
           (if uses = [] \<or> mg_dest_domains pd = [] then []
            else foldl (\<lambda>m i. AList.update (domain_key (ti_domain i)) i m) []
                   (sort_key (\<lambda>i. domain_key (ti_domain i)) issues))\<rparr>)"

section \<open>Narrowing the run (scope_filter.go)\<close>

definition split_mailbox :: "string \<Rightarrow> (string \<times> string) option" where
  "split_mailbox addr =
     (case cut_last_byte CHR ''@'' addr of
        Some (l, d) \<Rightarrow> if l = [] \<or> d = [] then None else Some (l, d)
      | None \<Rightarrow> None)"

definition is_mailbox :: "string \<Rightarrow> string \<Rightarrow> mailbox \<Rightarrow> bool" where
  "is_mailbox l d m = (mb_user m = l \<and> domain_equal (mb_domain m) d)"

datatype scope_error = InvalidMailbox string | MailboxNotFound string | DomainNotFound string

definition apply_scope_filter :: "migration \<Rightarrow> run_options \<Rightarrow> bool \<Rightarrow> bool \<Rightarrow> scope_error + migration" where
  "apply_scope_filter pd opts do_mail do_file =
     (if ro_only_mailbox opts \<noteq> [] then
        (case split_mailbox (ro_only_mailbox opts) of
           None \<Rightarrow> Inl (InvalidMailbox (ro_only_mailbox opts))
         | Some (l, d) \<Rightarrow>
             if \<not> list_ex (is_mailbox l d) (mg_mailboxes pd) then Inl (MailboxNotFound (ro_only_mailbox opts))
             else Inr (pd\<lparr>mg_mailboxes := filter (is_mailbox l d) (mg_mailboxes pd)\<rparr>))
      else if ro_only_domain opts \<noteq> [] then
        (if \<not> in_set (source_domain_set pd) (ro_only_domain opts) then Inl (DomainNotFound (ro_only_domain opts))
         else
           Inr (pd\<lparr>mg_mailboxes := (if do_mail
                     then filter (\<lambda>m. domain_equal (mb_domain m) (ro_only_domain opts)) (mg_mailboxes pd)
                     else mg_mailboxes pd),
                   mg_src_docroots := (if do_file
                     then filter (\<lambda>e. domain_equal (dr_domain e) (ro_only_domain opts)) (mg_src_docroots pd)
                     else mg_src_docroots pd)\<rparr>))
      else Inr pd)"

end
