(* ===== verification/MigLaws.thy ===== *)
theory MigLaws
  imports MigData DbPlanLaws
begin

text \<open>
  What the guards of the database flow guarantee: a database is skipped only when every site that uses
  it is provably without a safe destination (\<open>database_skipped_iff\<close>), and the document root a
  configuration is attributed to is the innermost one that contains it.
\<close>

section \<open>When a database is skipped\<close>

text \<open>The site a configuration belongs to is known and cannot be served on the destination.\<close>

definition config_unavailable :: "migration \<Rightarrow> config_ref \<Rightarrow> bool" where
  "config_unavailable pd c \<longleftrightarrow>
     (case src_docroot_containing pd (cr_config_path c) of
        None \<Rightarrow> False
      | Some e \<Rightarrow> domain_unavailable pd (dr_domain e) \<or> db_config_issue pd (dr_domain e) \<noteq> None)"

definition config_safe :: "migration \<Rightarrow> config_ref \<Rightarrow> bool" where
  "config_safe pd c \<longleftrightarrow>
     (case src_docroot_containing pd (cr_config_path c) of
        None \<Rightarrow> False
      | Some e \<Rightarrow> \<not> domain_unavailable pd (dr_domain e) \<and> db_config_issue pd (dr_domain e) = None)"

definition config_resolved :: "migration \<Rightarrow> config_ref \<Rightarrow> bool" where
  "config_resolved pd c \<longleftrightarrow> src_docroot_containing pd (cr_config_path c) \<noteq> None"

lemma unavailable_iff: "config_unavailable pd c \<longleftrightarrow> config_resolved pd c \<and> \<not> config_safe pd c"
  by (auto simp: config_unavailable_def config_safe_def config_resolved_def split: option.splits)

lemma scan_None_iff: "scan_unavailable pd cs us = None \<longleftrightarrow> list_ex (config_safe pd) cs"
proof (induction pd cs us rule: scan_unavailable.induct)
  case (2 pd c cs us)
  then show ?case
    by (cases "src_docroot_containing pd (cr_config_path c)") (auto simp: config_safe_def Let_def)
qed simp

lemma scan_marks:
  "scan_unavailable pd cs us = Some us' \<Longrightarrow>
     (us_resolved us' \<longleftrightarrow> us_resolved us \<or> list_ex (config_resolved pd) cs) \<and>
     (us_unresolved us' \<longleftrightarrow> us_unresolved us \<or> list_ex (\<lambda>c. \<not> config_resolved pd c) cs)"
proof (induction pd cs us rule: scan_unavailable.induct)
  case (2 pd c cs us)
  show ?case
  proof (cases "src_docroot_containing pd (cr_config_path c)")
    case None
    then show ?thesis using 2 by (simp add: config_resolved_def)
  next
    case (Some e)
    then show ?thesis using 2 by (auto simp: config_resolved_def Let_def split: if_splits)
  qed
qed simp

text \<open>C37. A database is skipped if and only if a configuration uses it and every configuration that does
  belongs to a known site that is unavailable on the destination or bound to an unsafe domain there. A
  database no configuration names, one that a healthy site still needs, and one that is used by a
  configuration of an unknown site are all migrated.\<close>

theorem database_skipped_iff:
  "db_unavailable pd it \<noteq> None \<longleftrightarrow> pi_configs it \<noteq> [] \<and> list_all (config_unavailable pd) (pi_configs it)"
proof (cases "pi_configs it = []")
  case False
  let ?us = "\<lparr>us_resolved = False, us_unresolved = False, us_unavailable = False, us_type_blocked = False, us_reasons = []\<rparr>"
  show ?thesis
  proof (cases "scan_unavailable pd (pi_configs it) ?us")
    case None
    then have "list_ex (config_safe pd) (pi_configs it)" using scan_None_iff by blast
    then show ?thesis using None False
      by (auto simp: db_unavailable_def list_ex_iff list_all_iff unavailable_iff)
  next
    case (Some us)
    then have safe: "\<not> list_ex (config_safe pd) (pi_configs it)" using scan_None_iff by (metis option.distinct(1))
    have "db_unavailable pd it \<noteq> None \<longleftrightarrow> us_resolved us \<and> \<not> us_unresolved us"
      using False Some by (simp add: db_unavailable_def)
    also have "\<dots> \<longleftrightarrow> list_ex (config_resolved pd) (pi_configs it) \<and> list_all (config_resolved pd) (pi_configs it)"
      using scan_marks [OF Some] by (auto simp: list_ex_iff list_all_iff)
    also have "\<dots> \<longleftrightarrow> list_all (config_resolved pd) (pi_configs it)"
      using False by (cases "pi_configs it") (auto simp: list_ex_iff list_all_iff)
    finally show ?thesis using False safe by (auto simp: list_ex_iff list_all_iff unavailable_iff)
  qed
qed (simp add: db_unavailable_def)

section \<open>The innermost document root\<close>

lemma docroot_fold:
  fixes path :: string
  defines "len b \<equiv> (case b of None \<Rightarrow> 0 | Some e \<Rightarrow> length (dr_document_root e))"
  defines "ok e \<equiv> dr_document_root e \<noteq> [] \<and> has_path_prefix path (dr_document_root e)"
  defines "pick \<equiv> (\<lambda>best e. if dr_document_root e = [] then best
         else if has_path_prefix path (dr_document_root e) \<and> len best < length (dr_document_root e) then Some e else best)"
  shows "case foldl pick b es of
      None \<Rightarrow> b = None \<and> list_all (\<lambda>e. \<not> ok e) es
    | Some e \<Rightarrow> (b = Some e \<or> e \<in> set es \<and> ok e) \<and> len b \<le> length (dr_document_root e)
        \<and> list_all (\<lambda>e'. ok e' \<longrightarrow> length (dr_document_root e') \<le> length (dr_document_root e)) es"
proof (induction es arbitrary: b)
  case Nil
  then show ?case by (cases b) (simp_all add: len_def)
next
  case (Cons e es)
  have step: "pick b e = (if ok e \<and> len b < length (dr_document_root e) then Some e else b)"
    by (simp add: pick_def ok_def)
  show ?case
  proof (cases "ok e \<and> len b < length (dr_document_root e)")
    case True
    with Cons.IH [of "Some e"] step show ?thesis
      by (cases "foldl pick (Some e) es") (auto simp: len_def)
  next
    case False
    have "ok e \<Longrightarrow> 0 < length (dr_document_root e)" by (simp add: ok_def)
    with False Cons.IH [of b] step show ?thesis
      by (cases "foldl pick b es"; cases b) (auto simp: len_def)
  qed
qed

lemma src_docroot_innermost:
  "case src_docroot_containing pd path of
     None \<Rightarrow> list_all (\<lambda>e. \<not> (dr_document_root e \<noteq> [] \<and> has_path_prefix path (dr_document_root e))) (mg_src_docroots pd)
   | Some e \<Rightarrow> e \<in> set (mg_src_docroots pd) \<and> has_path_prefix path (dr_document_root e)
       \<and> list_all (\<lambda>e'. dr_document_root e' \<noteq> [] \<and> has_path_prefix path (dr_document_root e')
            \<longrightarrow> length (dr_document_root e') \<le> length (dr_document_root e)) (mg_src_docroots pd)"
  using docroot_fold [where path = path and b = None and es = "mg_src_docroots pd"]
  unfolding src_docroot_containing_def by (auto split: option.splits)

end
