(* ===== verification/PhpConfig.thy ===== *)
theory PhpConfig
  imports GoRegexp DbPlan
begin

text \<open>
  Reading and rewriting PHP configuration (internal/wpconfig: phpcomments.go, wpconfig.go,
  ambiguity.go). Comments are blanked in place, so that a match in the blanked text is a place in the
  original; the rewrite replaces exactly the bytes of a value; a second, structurally different
  reading decides whether the value that was replaced is the one PHP would use.
\<close>

section \<open>Comments (phpcomments.go)\<close>

definition newline :: char where "newline = CHR 0x0A"

definition quote1 :: char where "quote1 = CHR 0x27"

definition quote2 :: char where "quote2 = CHR 0x22"

definition backslash :: char where "backslash = CHR 0x5C"

definition is_quote :: "char \<Rightarrow> bool" where
  "is_quote c = (c = quote1 \<or> c = quote2)"

definition blank_char :: "char \<Rightarrow> char" where
  "blank_char c = (if c = newline then c else CHR '' '')"

definition blanked :: "string \<Rightarrow> string" where "blanked s = map blank_char s"

text \<open>The text after an opening quote \<open>q\<close>: what belongs to the literal, the closing quote included, and
  what follows.\<close>

fun literal_rest :: "char \<Rightarrow> string \<Rightarrow> string \<times> string" where
  "literal_rest q [] = ([], [])"
| "literal_rest q [c] = ([c], [])"
| "literal_rest q (c # d # s) =
     (if c = backslash then (let (a, b) = literal_rest q s in (c # d # a, b))
      else if c = q then ([c], d # s)
      else (let (a, b) = literal_rest q (d # s) in (c # a, b)))"

text \<open>The text after a comment's opening: up to and including its close, or all of it.\<close>

fun block_rest :: "string \<Rightarrow> string \<times> string" where
  "block_rest [] = ([], [])"
| "block_rest [c] = ([c], [])"
| "block_rest (c # d # s) =
     (if c = CHR ''*'' \<and> d = CHR ''/'' then ([c, d], s)
      else (let (a, b) = block_rest (d # s) in (c # a, b)))"

lemma literal_rest_split: "fst (literal_rest q s) @ snd (literal_rest q s) = s"
  by (induction q s rule: literal_rest.induct) (auto simp: split_beta)

lemma block_rest_split: "fst (block_rest s) @ snd (block_rest s) = s"
  by (induction s rule: block_rest.induct) (auto simp: split_beta)

lemma literal_rest_shorter: "length (snd (literal_rest q s)) \<le> length s"
  by (metis le_add2 length_append literal_rest_split)

lemma block_rest_shorter: "length (snd (block_rest s)) \<le> length s"
  by (metis le_add2 length_append block_rest_split)

lemma dropWhile_shorter: "length (dropWhile P s) \<le> length s"
  by (rule length_dropWhile_le)

definition starts_line_comment :: "string \<Rightarrow> bool" where
  "starts_line_comment s = (has_prefix s ''#'' \<or> has_prefix s ''//'')"

definition line_of :: "string \<Rightarrow> string" where "line_of s = takeWhile (\<lambda>c. c \<noteq> newline) s"

definition after_line :: "string \<Rightarrow> string" where "after_line s = dropWhile (\<lambda>c. c \<noteq> newline) s"

function strip_comments :: "string \<Rightarrow> string" where
  "strip_comments [] = []"
| "strip_comments (c # s) =
     (if is_quote c then c # fst (literal_rest c s) @ strip_comments (snd (literal_rest c s))
      else if starts_line_comment (c # s)
        then blanked (line_of (c # s)) @ strip_comments (after_line (c # s))
      else if has_prefix (c # s) ''/*''
        then blanked (take 2 (c # s) @ fst (block_rest (drop 1 s))) @ strip_comments (snd (block_rest (drop 1 s)))
      else c # strip_comments s)"
  by pat_completeness auto
termination
proof (relation "measure length", goal_cases)
  case (3 c s)
  then have "c \<noteq> newline" by (auto simp: starts_line_comment_def has_prefix_def newline_def)
  then show ?case by (simp add: after_line_def le_imp_less_Suc dropWhile_shorter)
next
  case (4 c s)
  have "length (snd (block_rest (drop 1 s))) \<le> length (drop 1 s)" by (rule block_rest_shorter)
  then show ?case by simp
qed (auto simp: le_imp_less_Suc literal_rest_shorter)

section \<open>Escaping (wpconfig.go)\<close>

fun php_unescape :: "char \<Rightarrow> string \<Rightarrow> string" where
  "php_unescape q (c # d # s) =
     (if c = backslash
         \<and> (d = backslash \<or> (q = quote1 \<and> d = quote1) \<or> (q = quote2 \<and> (d = quote2 \<or> d = CHR ''$'')))
      then d # php_unescape q s
      else c # php_unescape q (d # s))"
| "php_unescape q s = s"

definition php_escape :: "char \<Rightarrow> string \<Rightarrow> string" where
  "php_escape q v =
     (let v = replace_all [backslash] [backslash, backslash] v
      in if q = quote2
         then replace_all ''$'' [backslash, CHR ''$''] (replace_all [quote2] [backslash, quote2] v)
         else replace_all [quote1] [backslash, quote1] v)"

section \<open>Patterns\<close>

definition any_quote :: rx where "any_quote = Ch is_quote"

text \<open>The characters of a literal delimited by \<open>q\<close>: escape pairs and anything but \<open>q\<close> and the backslash.\<close>

definition literal_body :: "char \<Rightarrow> rx" where
  "literal_body q =
     Many (Or (Cat (byte_of backslash) any_on_line) (Ch (\<lambda>c. c \<noteq> q \<and> c \<noteq> backslash)))"

definition define_prefix :: "string \<Rightarrow> rx" where
  "define_prefix name =
     cats [lit ''define'', spaces, lit ''('', spaces, any_quote, lit name, any_quote, spaces, lit '','', spaces]"

definition define_rx :: "string \<Rightarrow> char \<Rightarrow> rx" where
  "define_rx name q =
     cats [Group 1 (Cat (define_prefix name) (byte_of q)), Group 2 (literal_body q),
           Group 3 (cats [byte_of q, spaces, lit '')'', spaces, opt (lit '';'')])]"

definition define_value_rx :: "string \<Rightarrow> char \<Rightarrow> rx" where
  "define_value_rx name q =
     cats [define_prefix name, byte_of q, Group 1 (literal_body q), byte_of q, spaces, lit '')'']"

definition prefix_rx :: "char \<Rightarrow> rx" where
  "prefix_rx q =
     cats [lit ''$table_prefix'', spaces, lit ''='', spaces, byte_of q, Group 1 (literal_body q), byte_of q,
           spaces, opt (lit '';'')]"

text \<open>A match: the offset where it begins, its groups and the length of the text after it.\<close>

record rx_loc =
  rl_start :: nat
  rl_groups :: "(nat \<times> string) list"
  rl_rest :: nat

definition rx_loc_of :: "rx \<Rightarrow> string \<Rightarrow> rx_loc option" where
  "rx_loc_of r s =
     map_option (\<lambda>(pre, p, t, g). \<lparr>rl_start = length pre, rl_groups = g, rl_rest = length t\<rparr>) (rx_find r None s)"

text \<open>Whichever of the single-quoted and the double-quoted form begins earlier, with its quote.\<close>

definition leftmost :: "rx_loc option \<Rightarrow> rx_loc option \<Rightarrow> (char \<times> rx_loc) option" where
  "leftmost a b =
     (case a of
        None \<Rightarrow> map_option (Pair quote2) b
      | Some x \<Rightarrow>
          (case b of
             None \<Rightarrow> Some (quote1, x)
           | Some y \<Rightarrow> if rl_start y < rl_start x then Some (quote2, y) else Some (quote1, x)))"

definition find_quoted :: "(char \<Rightarrow> rx) \<Rightarrow> string \<Rightarrow> (char \<times> rx_loc) option" where
  "find_quoted r s = leftmost (rx_loc_of (r quote1) s) (rx_loc_of (r quote2) s)"

text \<open>The unescaped value that group \<open>n\<close> of the leftmost form holds, or nothing.\<close>

definition read_quoted :: "nat \<Rightarrow> (char \<Rightarrow> rx) \<Rightarrow> string \<Rightarrow> string" where
  "read_quoted n r content =
     (case find_quoted r (strip_comments content) of
        None \<Rightarrow> []
      | Some (q, loc) \<Rightarrow> php_unescape q (rx_group (rl_groups loc) n))"

definition extract_define :: "string \<Rightarrow> string \<Rightarrow> string" where
  "extract_define content name = read_quoted 1 (define_value_rx name) content"

definition extract_prefix :: "string \<Rightarrow> string" where
  "extract_prefix content = read_quoted 1 prefix_rx content"

definition wp_parse :: "string \<Rightarrow> creds" where
  "wp_parse content =
     \<lparr>c_name = extract_define content ''DB_NAME'', c_user = extract_define content ''DB_USER'',
      c_password = extract_define content ''DB_PASSWORD'', c_host = extract_define content ''DB_HOST'',
      c_prefix = extract_prefix content\<rparr>"

text \<open>The bytes of group 2, which follows group 1 at the start of the match, are replaced.\<close>

definition replace_quoted :: "(char \<Rightarrow> rx) \<Rightarrow> string \<Rightarrow> string \<Rightarrow> string option" where
  "replace_quoted r content value =
     (case find_quoted r (strip_comments content) of
        None \<Rightarrow> None
      | Some (q, loc) \<Rightarrow>
          (let a = rl_start loc + length (rx_group (rl_groups loc) 1);
               b = a + length (rx_group (rl_groups loc) 2)
           in Some (take a content @ php_escape q value @ drop b content)))"

definition replace_define :: "string \<Rightarrow> string \<Rightarrow> string \<Rightarrow> string" where
  "replace_define content name value =
     (case replace_quoted (define_rx name) content value of None \<Rightarrow> content | Some t \<Rightarrow> t)"

definition wp_rewrite :: "string \<Rightarrow> string \<Rightarrow> string \<Rightarrow> string \<Rightarrow> string" where
  "wp_rewrite content name user password =
     (let out = content;
          out = (if name \<noteq> [] then replace_define out ''DB_NAME'' name else out);
          out = (if user \<noteq> [] then replace_define out ''DB_USER'' user else out)
      in if password \<noteq> [] then replace_define out ''DB_PASSWORD'' password else out)"

end
