(* ===== verification/PhpMask.thy ===== *)
theory PhpMask
  imports PhpConfig
begin

text \<open>
  The second opinion on a rewritten configuration (internal/wpconfig/ambiguity.go): a view of the
  file in which everything PHP does not execute is blanked (inline HTML, comments, heredoc bodies),
  and the checks that compare it with what the rewrite acted on.
\<close>

section \<open>What PHP executes\<close>

definition ident_start :: "char \<Rightarrow> bool" where
  "ident_start c = (c = CHR ''_'' \<or> is_upper c \<or> is_lower c)"

definition ident_part :: "char \<Rightarrow> bool" where
  "ident_part c = (ident_start c \<or> is_digit c)"

definition blank_or_tab :: "char \<Rightarrow> bool" where
  "blank_or_tab c = (c = CHR '' '' \<or> c = CHR 0x09)"

text \<open>The inline HTML before the next opening tag.\<close>

fun html_of :: "string \<Rightarrow> string" where
  "html_of [] = []"
| "html_of (c # s) = (if has_prefix (c # s) ''<?'' then [] else c # html_of s)"

definition open_tag_length :: "string \<Rightarrow> nat" where
  "open_tag_length t = (if has_prefix t ''<?php'' then 5 else if has_prefix t ''<?='' then 3 else 2)"

text \<open>A heredoc's opener after \<open><<<\<close>: the label and the length up to the body.\<close>

definition heredoc_opener :: "string \<Rightarrow> (string \<times> nat) option" where
  "heredoc_opener s =
     (let t = dropWhile blank_or_tab s;
          quoted = (t \<noteq> [] \<and> is_quote (hd t));
          u = (if quoted then tl t else t)
      in if u = [] \<or> \<not> ident_start (hd u) then None
         else
           (let label = hd u # takeWhile ident_part (tl u);
                v = dropWhile ident_part (tl u)
            in if quoted \<and> (v = [] \<or> hd v \<noteq> hd t) then None
               else
                 (let w = (if quoted then tl v else v);
                      x = (if has_prefix w [CHR 0x0D] then tl w else w)
                  in if x = [] \<or> hd x \<noteq> newline then None
                     else Some (label, length s - length x + 1))))"

definition label_line :: "string \<Rightarrow> string \<Rightarrow> bool" where
  "label_line label s =
     (let t = dropWhile blank_or_tab s; after = drop (length label) t
      in has_prefix t label \<and> (after = [] \<or> \<not> ident_part (hd after)))"

text \<open>The length of a heredoc's body, up to the line of its closing label or the end of the text.\<close>

function heredoc_body :: "string \<Rightarrow> string \<Rightarrow> nat" where
  "heredoc_body label s =
     (if s = [] \<or> label_line label s then 0
      else if after_line s = [] then length s
      else length (line_of s) + 1 + heredoc_body label (tl (after_line s)))"
  by pat_completeness auto
termination
proof (relation "measure (\<lambda>(label, s). length s)", goal_cases)
  case (2 label s)
  have "length (after_line s) \<le> length s" by (simp add: after_line_def length_dropWhile_le)
  then show ?case using 2 by (cases "after_line s") auto
qed simp

declare heredoc_body.simps [simp del]

function mask :: "bool \<Rightarrow> string \<Rightarrow> string" where
  "mask in_php [] = []"
| "mask in_php (c # s) =
     (if \<not> in_php then
        (let t = drop (length (html_of (c # s))) (c # s)
         in blanked (html_of (c # s)) @ take (open_tag_length t) t @ mask True (drop (open_tag_length t) t))
      else if has_prefix (c # s) ''?>'' then take 2 (c # s) @ mask False (drop 1 s)
      else if is_quote c then c # fst (literal_rest c s) @ mask True (snd (literal_rest c s))
      else if starts_line_comment (c # s)
        then blanked (line_of (c # s)) @ mask True (after_line (c # s))
      else if has_prefix (c # s) ''/*''
        then blanked (take 2 (c # s) @ fst (block_rest (drop 1 s))) @ mask True (snd (block_rest (drop 1 s)))
      else if has_prefix (c # s) ''<<<'' then
        (case heredoc_opener (drop 2 s) of
           None \<Rightarrow> take 3 (c # s) @ mask True (drop 2 s)
         | Some (label, n) \<Rightarrow>
             (let body = drop (2 + n) s; m = heredoc_body label body
              in take (3 + n) (c # s) @ blanked (take m body) @ mask True (drop m body)))
      else c # mask True s)"
  by pat_completeness auto
termination
proof (relation "measure (\<lambda>(in_php, s). length s)", goal_cases)
  case (2 in_php c s)
  then show ?case by (simp add: open_tag_length_def) 
next
  case (5 in_php c s)
  then have "c \<noteq> newline" by (auto simp: starts_line_comment_def has_prefix_def newline_def)
  then show ?case by (simp add: after_line_def le_imp_less_Suc length_dropWhile_le)
next
  case (6 in_php c s)
  have "length (snd (block_rest (drop 1 s))) \<le> length (drop 1 s)" by (rule block_rest_shorter)
  then show ?case by simp
qed (auto simp: le_imp_less_Suc literal_rest_shorter)

definition mask_non_code :: "string \<Rightarrow> string" where
  "mask_non_code content = mask False content"

text \<open>The bodies of the remaining literals; an escape pair is stepped over as it is.\<close>

fun blank_literal :: "char \<Rightarrow> string \<Rightarrow> string" where
  "blank_literal q (c # d # s) =
     (if c = backslash then c # d # blank_literal q s
      else if c = q then c # d # s
      else blank_char c # blank_literal q (d # s))"
| "blank_literal q [c] = (if c = q then [c] else [blank_char c])"
| "blank_literal q [] = []"

function blank_strings :: "string \<Rightarrow> string" where
  "blank_strings [] = []"
| "blank_strings (c # s) =
     (if is_quote c
      then c # blank_literal c (fst (literal_rest c s)) @ blank_strings (snd (literal_rest c s))
      else c # blank_strings s)"
  by pat_completeness auto
termination
  by (relation "measure length") (auto simp: le_imp_less_Suc literal_rest_shorter)

definition mask_non_code_and_strings :: "string \<Rightarrow> string" where
  "mask_non_code_and_strings content = blank_strings (mask_non_code content)"

section \<open>The live value\<close>

text \<open>The raw body of the literal after its opening quote, up to the closing quote or the end.\<close>

fun raw_literal :: "char \<Rightarrow> string \<Rightarrow> string" where
  "raw_literal q (c # d # s) =
     (if c = backslash then c # d # raw_literal q s
      else if c = q then []
      else c # raw_literal q (d # s))"
| "raw_literal q [c] = (if c = q then [] else [c])"
| "raw_literal q [] = []"

definition php_space :: "char \<Rightarrow> bool" where
  "php_space c = (c = CHR '' '' \<or> c = CHR 0x09 \<or> c = newline \<or> c = CHR 0x0D)"

text \<open>\<open>None\<close>: not a quoted literal, but an expression.\<close>

definition live_literal :: "string \<Rightarrow> string option" where
  "live_literal s =
     (let t = dropWhile php_space s
      in if t = [] \<or> \<not> is_quote (hd t) then None
         else Some (php_unescape (hd t) (raw_literal (hd t) (tl t))))"

definition define_head_rx :: "string \<Rightarrow> rx" where
  "define_head_rx name =
     cats [lit ''define'', spaces, lit ''('', spaces, any_quote, lit name, any_quote, spaces, lit '','']"

text \<open>\<open>None\<close>: no definition in code; otherwise its value, if that is a literal.\<close>

definition first_live_define :: "string \<Rightarrow> string \<Rightarrow> string option option" where
  "first_live_define masked name =
     map_option (\<lambda>(pre, p, rest, g). live_literal rest) (rx_find (define_head_rx name) None masked)"

datatype ambiguity =
    Provable
  | OnlyInText string
  | NonLiteral string
  | OtherValue string
  | ManyDeclarations string nat
  | ComputedName
  | NonCodeBlock string
  | OtherBlock string
  | DuplicateKey string string nat

definition check_define_constant :: "string \<Rightarrow> string \<Rightarrow> ambiguity" where
  "check_define_constant content name =
     (let blind = extract_define content name
      in case first_live_define (mask_non_code content) name of
           None \<Rightarrow> if blind \<noteq> [] then OnlyInText name else Provable
         | Some None \<Rightarrow> NonLiteral name
         | Some (Some v) \<Rightarrow> if v \<noteq> blind then OtherValue name else Provable)"

datatype binding = BindFirst | BindLast

text \<open>The declarations are located with the literals blanked, the value is read with them.\<close>

definition check_quoted_cutover ::
  "string \<Rightarrow> rx \<Rightarrow> binding \<Rightarrow> bool \<Rightarrow> string \<Rightarrow> string \<Rightarrow> ambiguity" where
  "check_quoted_cutover content anchor bind unique blind label =
     (let locs = rx_find_all anchor (mask_non_code_and_strings content)
      in if locs = [] then (if blind \<noteq> [] then OnlyInText label else Provable)
         else if unique \<and> 1 < length locs then ManyDeclarations label (length locs)
         else
           (let (off, t, g) = (if bind = BindLast then last locs else hd locs)
            in case live_literal (drop (off + length t) (mask_non_code content)) of
                 None \<Rightarrow> NonLiteral label
               | Some v \<Rightarrow> if v \<noteq> blind then OtherValue label else Provable))"

definition any_define_rx :: rx where
  "any_define_rx = cats [WordEdge, lit ''define'', spaces, lit ''('']"

definition literal_name_define_rx :: rx where
  "literal_name_define_rx =
     cats [WordEdge, lit ''define'', spaces, lit ''('', spaces, any_quote, Ch ident_start, Many (Ch ident_part),
           any_quote, spaces, lit '','']"

definition has_computed_define_name :: "string \<Rightarrow> bool" where
  "has_computed_define_name content =
     (let masked = mask_non_code content
      in length (rx_find_all literal_name_define_rx masked) < length (rx_find_all any_define_rx masked))"

end
