(* ===== verification/DnsZone.thy ===== *)
theory DnsZone
  imports Cpanel DnsPlan
begin

text \<open>
  \<open>internal/cpanel/dns_zones.go\<close> and \<open>dns_apply.go\<close>: reading a zone of the host and editing it. The records of
  an answer carry base64 fields, decoded here as \<open>encoding/base64\<close> does; an edit names the serial the
  zone must still have, lines to remove and records to add. The JSON coding of the types is a parameter.
\<close>

section \<open>Base64\<close>

definition b64_alphabet :: string where
  "b64_alphabet = ''ABCDEFGHIJKLMNOPQRSTUVWXYZabcdefghijklmnopqrstuvwxyz0123456789+/''"

definition b64_digit :: "char \<Rightarrow> nat option" where
  "b64_digit c =
     (if is_upper c then Some (byte c - 65)
      else if is_lower c then Some (byte c - 71)
      else if is_digit c then Some (byte c + 4)
      else if c = CHR ''+'' then Some 62
      else if c = CHR ''/'' then Some 63
      else None)"

text \<open>Quanta of four characters; only the last may be padded. Trailing bits are ignored.\<close>

fun b64_quanta :: "string \<Rightarrow> string option" where
  "b64_quanta [] = Some []"
| "b64_quanta (a # b # c # d # s) =
     (case (b64_digit a, b64_digit b) of
        (Some x, Some y) \<Rightarrow>
          (if c = CHR ''='' then
             (if d = CHR ''='' \<and> s = [] then Some [char_of (4 * x + y div 16)] else None)
           else (case b64_digit c of
               None \<Rightarrow> None
             | Some z \<Rightarrow>
                 if d = CHR ''='' then
                   (if s = [] then Some [char_of (4 * x + y div 16), char_of (16 * y + z div 4)] else None)
                 else (case b64_digit d of
                     None \<Rightarrow> None
                   | Some w \<Rightarrow>
                       map_option (\<lambda>t. char_of (4 * x + y div 16) # char_of (16 * y + z div 4)
                                        # char_of (64 * z + w) # t) (b64_quanta s))))
      | _ \<Rightarrow> None)"
| "b64_quanta s = None"

definition b64_decode :: "string \<Rightarrow> string option" where
  "b64_decode s = b64_quanta (filter (\<lambda>c. c \<noteq> CHR 0x0A \<and> c \<noteq> CHR 0x0D) s)"

definition hex_text :: "string \<Rightarrow> string" where
  "hex_text s = concat (map (\<lambda>c. [hex_digit (byte c div 16), hex_digit (byte c mod 16)]) s)"

definition decode_b64_field :: "string \<Rightarrow> string option" where
  "decode_b64_field s =
     map_option (\<lambda>b. if valid_utf8 b then b else hex_text b) (b64_decode s)"

section \<open>Records\<close>

record raw_record =
  rr_dname :: string
  rr_record_type :: string
  rr_data :: "string list"
  rr_ttl :: int
  rr_line :: int
  rr_type :: string

text \<open>Go's \<open>int\<close>: 64 bits.\<close>

definition wrap64 :: "int \<Rightarrow> int" where
  "wrap64 n = (n + 2 ^ 63) mod 2 ^ 64 - 2 ^ 63"

fun parse_digits :: "int \<Rightarrow> string \<Rightarrow> int option" where
  "parse_digits n [] = Some n"
| "parse_digits n (c # s) =
     (if is_digit c then parse_digits (wrap64 (n * 10 + (int (byte c) - 48))) s else None)"

definition parse_int :: "string \<Rightarrow> int option" where
  "parse_int s = parse_digits 0 s"

definition or_raw :: "string \<Rightarrow> string" where
  "or_raw s = (case decode_b64_field s of None \<Rightarrow> s | Some t \<Rightarrow> t)"

definition normalize_record :: "(raw_record \<Rightarrow> string) \<Rightarrow> raw_record \<Rightarrow> dns_record" where
  "normalize_record raw_json r =
     (let d = map or_raw (rr_data r);
          rec = \<lparr>dr_type = rr_record_type r, dr_name = or_raw (rr_dname r), dr_ttl = rr_ttl r, dr_value = [],
            dr_priority = 0, dr_exchange = [], dr_address = [], dr_target = [], dr_txtdata = [], dr_class = [],
            dr_line = rr_line r, dr_raw = []\<rparr>
      in if rr_record_type r = ''A'' \<or> rr_record_type r = ''AAAA'' then
           (case d of [] \<Rightarrow> rec | v # _ \<Rightarrow> rec\<lparr>dr_address := v, dr_value := v\<rparr>)
         else if rr_record_type r = ''CNAME'' \<or> rr_record_type r = ''NS'' then
           (case d of [] \<Rightarrow> rec | v # _ \<Rightarrow> rec\<lparr>dr_target := v, dr_value := v\<rparr>)
         else if rr_record_type r = ''MX'' then
           (case d of
              [] \<Rightarrow> rec
            | [e] \<Rightarrow> rec\<lparr>dr_exchange := e, dr_value := e\<rparr>
            | p # e # _ \<Rightarrow> rec\<lparr>dr_exchange := e, dr_value := e,
                dr_priority := (case parse_int p of None \<Rightarrow> 0 | Some n \<Rightarrow> n)\<rparr>)
         else if rr_record_type r = ''TXT'' then
           (case d of [] \<Rightarrow> rec | _ \<Rightarrow> rec\<lparr>dr_txtdata := concat d, dr_value := concat d\<rparr>)
         else (case d of [] \<Rightarrow> rec | v # _ \<Rightarrow> rec\<lparr>dr_value := v\<rparr>)\<lparr>dr_raw := raw_json r\<rparr>)"

definition normalize_uapi_records :: "(raw_record \<Rightarrow> string) \<Rightarrow> raw_record list \<Rightarrow> dns_record list" where
  "normalize_uapi_records raw_json rs =
     sort_key dr_line (map (normalize_record raw_json) (filter (\<lambda>r. rr_type r = ''record'') rs))"

section \<open>The host\<close>

record add_record =
  ad_dname :: string
  ad_ttl :: int
  ad_type :: string
  ad_data :: "string list"

text \<open>\<open>dh_soa\<close> decodes the record types and data of an answer, \<open>dh_edit\<close> the new serial; the last two
  print a record.\<close>

record dns_host =
  dh_host :: host
  dh_zone :: "string \<Rightarrow> string + raw_record list envelope"
  dh_soa :: "string \<Rightarrow> string + (string \<times> string list) list"
  dh_edit :: "string \<Rightarrow> string + string envelope"
  dh_add_json :: "add_record \<Rightarrow> string"
  dh_raw_json :: "raw_record \<Rightarrow> string"

definition run_uapi_raw ::
  "(string \<Rightarrow> string + 'a envelope) \<Rightarrow> host \<Rightarrow> string \<Rightarrow> string \<Rightarrow> (string, string) gomap \<Rightarrow> call_log
   \<Rightarrow> (string + 'a \<times> string) \<times> call_log" where
  "run_uapi_raw dec ho modname fn args log =
     ((case ho_run ho log (uapi_args_script modname fn args) of
         Inl e \<Rightarrow> Inl (modname @ ''::'' @ fn @ '': '' @ e)
       | Inr out \<Rightarrow> bindr (parse_uapi dec modname fn out) (\<lambda>d. Inr (d, out))),
      log @ [\<lparr>ac_tool = ''uapi'', ac_module = modname, ac_fn = fn, ac_args = args\<rparr>])"

definition fetch_dns_zone_raw ::
  "dns_host \<Rightarrow> string \<Rightarrow> call_log \<Rightarrow> (string + dns_record list \<times> string) \<times> call_log" where
  "fetch_dns_zone_raw dh zone log =
     map_ok (\<lambda>(d, raw). (normalize_uapi_records (dh_raw_json dh) d, raw))
       (run_uapi_raw (dh_zone dh) (dh_host dh) ''DNS'' ''parse_zone'' [(''zone'', zone)] log)"

text \<open>The serial of the first SOA record with three fields.\<close>

definition soa_serial :: "(string \<times> string list) list \<Rightarrow> string + string" where
  "soa_serial recs =
     (case List.find (\<lambda>(t, d). t = ''SOA'' \<and> 3 \<le> length d) recs of
        None \<Rightarrow> Inl ''no SOA record found in zone response''
      | Some (t, d) \<Rightarrow>
          (case b64_decode (d ! 2) of
             None \<Rightarrow> Inl (''decode SOA serial base64 '' @ go_quote (d ! 2))
           | Some s \<Rightarrow>
               if trim_space s = [] then Inl ''SOA serial is empty after decode'' else Inr (trim_space s)))"

definition extract_soa_serial :: "dns_host \<Rightarrow> string \<Rightarrow> string + string" where
  "extract_soa_serial dh raw =
     (case dh_soa dh raw of Inl e \<Rightarrow> Inl (''parse zone response: '' @ e) | Inr recs \<Rightarrow> soa_serial recs)"

section \<open>Edits\<close>

definition numbered :: "string \<Rightarrow> string list \<Rightarrow> (string, string) gomap" where
  "numbered key vs = map (\<lambda>(i, v). (key @ ''-'' @ itoa (int i), v)) (zip [0..<length vs] vs)"

definition edit_args :: "dns_host \<Rightarrow> string \<Rightarrow> string \<Rightarrow> int list \<Rightarrow> add_record list \<Rightarrow> (string, string) gomap" where
  "edit_args dh zone serial removes adds =
     [(''zone'', zone), (''serial'', serial)] @ numbered ''remove'' (map itoa removes)
       @ numbered ''add'' (map (dh_add_json dh) adds)"

definition mass_edit_zone_batch ::
  "dns_host \<Rightarrow> string \<Rightarrow> string \<Rightarrow> int list \<Rightarrow> add_record list \<Rightarrow> call_log \<Rightarrow> (string + string) \<times> call_log" where
  "mass_edit_zone_batch dh zone serial removes adds log =
     run_uapi (dh_edit dh) (dh_host dh) ''DNS'' ''mass_edit_zone'' (edit_args dh zone serial removes adds) log"

definition mass_edit_zone_add ::
  "dns_host \<Rightarrow> string \<Rightarrow> string \<Rightarrow> add_record list \<Rightarrow> call_log \<Rightarrow> (string + string) \<times> call_log" where
  "mass_edit_zone_add dh zone serial adds log =
     run_uapi (dh_edit dh) (dh_host dh) ''DNS'' ''mass_edit_zone'' (edit_args dh zone serial [] adds) log"

definition mass_edit_zone_remove ::
  "dns_host \<Rightarrow> string \<Rightarrow> string \<Rightarrow> int list \<Rightarrow> call_log \<Rightarrow> (string + string) \<times> call_log" where
  "mass_edit_zone_remove dh zone serial removes log =
     run_uapi (dh_edit dh) (dh_host dh) ''DNS'' ''mass_edit_zone'' (edit_args dh zone serial removes []) log"

definition is_stale_serial_error :: "string \<Rightarrow> bool" where
  "is_stale_serial_error e = contains e ''does not match the DNS zone''"

end
