(* ===== verification/DnsCmd.thy ===== *)
theory DnsCmd
  imports DnsZone
begin

text \<open>
  \<open>cmd/cpanel-self-migration/dns_apply_cmd.go\<close> and \<open>internal/accountinventory/dnsapply.go\<close>: the command that
  writes a DNS plan to the zones of the destination, one atomic edit per zone, and the rollback of such
  a run. The host is the parameter of \<open>DnsZone\<close>; the local file system and the SSH dial only decide
  whether a step succeeds and are the booleans of \<open>dns_env\<close>. Messages on the terminal are left out.
\<close>

section \<open>Reports and backups (dnsapply.go)\<close>

datatype dns_status = DApplied | DSkipped | DManual | DFailed | DRefused | DSkippedReplaceV1

record dns_op_result =
  dor_op :: plan_op
  dor_status :: dns_status
  dor_reason :: string

record dns_zone_result =
  dzr_zone :: string
  dzr_ops :: "dns_op_result list"
  dzr_new_serial :: string

record dns_apply_summary =
  dsm_applied :: nat
  dsm_skipped :: nat
  dsm_manual :: nat
  dsm_failed :: nat
  dsm_refused :: nat

record dns_apply_report =
  dap_run_mode :: string
  dap_backup_note :: string
  dap_zones :: "dns_zone_result list"
  dap_summary :: dns_apply_summary

definition count_results :: "(dns_status \<Rightarrow> bool) \<Rightarrow> dns_zone_result list \<Rightarrow> nat" where
  "count_results P zs = length (filter (\<lambda>r. P (dor_status r)) (concat (map dzr_ops zs)))"

definition summarize_dns_results :: "dns_zone_result list \<Rightarrow> dns_apply_summary" where
  "summarize_dns_results zs =
     \<lparr>dsm_applied = count_results (\<lambda>s. s = DApplied) zs,
      dsm_skipped = count_results (\<lambda>s. s = DSkipped \<or> s = DSkippedReplaceV1) zs,
      dsm_manual = count_results (\<lambda>s. s = DManual) zs,
      dsm_failed = count_results (\<lambda>s. s = DFailed) zs,
      dsm_refused = count_results (\<lambda>s. s = DRefused) zs\<rparr>"

text \<open>A backup keeps the records, the answer they came from and the serial.\<close>

record dns_backup_zone =
  dbz_zone :: string
  dbz_records :: "dns_record list"
  dbz_raw :: string
  dbz_serial :: string

record dns_apply_backup =
  dab_format_version :: int
  dab_zones :: "dns_backup_zone list"

section \<open>Names and values\<close>

definition equal_fold :: "string \<Rightarrow> string \<Rightarrow> bool" where
  "equal_fold a b \<longleftrightarrow> to_lower a = to_lower b"

definition no_dot :: "string \<Rightarrow> string" where
  "no_dot s = trim_suffix (to_lower s) ''.''"

definition dns_canon_to_relative :: "string \<Rightarrow> string \<Rightarrow> string" where
  "dns_canon_to_relative canonical zone =
     (let z = to_lower zone @ ''.''; c = to_lower canonical
      in if c = z then z
         else if has_suffix c (''.'' @ z) then trim_suffix c (''.'' @ z)
         else canonical)"

definition dns_canon_live_name :: "string \<Rightarrow> string \<Rightarrow> string" where
  "dns_canon_live_name name zone =
     (let n = to_lower name
      in if n = ''@'' \<or> n = [] then to_lower zone @ ''.''
         else if has_suffix n ''.'' then n
         else n @ ''.'' @ to_lower zone @ ''.'')"

definition dns_data_match :: "plan_record \<Rightarrow> dns_record \<Rightarrow> bool" where
  "dns_data_match planned live =
     (let d = pl_data planned
      in if pl_type planned = ''A'' \<or> pl_type planned = ''AAAA'' then
           (case d of [] \<Rightarrow> False | v # _ \<Rightarrow> equal_fold v (dr_address live))
         else if pl_type planned = ''CNAME'' then
           (case d of [] \<Rightarrow> False | v # _ \<Rightarrow> no_dot v = no_dot (dr_target live))
         else if pl_type planned = ''MX'' then
           (case d of p # e # _ \<Rightarrow> itoa (dr_priority live) = p \<and> no_dot e = no_dot (dr_exchange live)
            | _ \<Rightarrow> False)
         else if pl_type planned = ''TXT'' then concat d = dr_txtdata live
         else False)"

text \<open>The record of this type and name, as the command identifies it in a listing.\<close>

definition same_rrset :: "string \<Rightarrow> string \<Rightarrow> string \<Rightarrow> dns_record \<Rightarrow> bool" where
  "same_rrset ty name zone f \<longleftrightarrow> equal_fold (dr_type f) ty \<and> dns_canon_live_name (dr_name f) zone = to_lower name"

definition dns_record_present :: "plan_record \<Rightarrow> dns_record list \<Rightarrow> string \<Rightarrow> bool" where
  "dns_record_present rec fresh zone \<longleftrightarrow>
     list_ex (\<lambda>f. same_rrset (pl_type rec) (pl_name rec) zone f \<and> dns_data_match rec f) fresh"

definition dns_verify_add_op_present :: "plan_op \<Rightarrow> dns_record list \<Rightarrow> string \<Rightarrow> bool" where
  "dns_verify_add_op_present x fresh zone \<longleftrightarrow> list_all (\<lambda>rec. dns_record_present rec fresh zone) (op_records x)"

definition dns_live_matches_canon_value :: "dns_record \<Rightarrow> string \<Rightarrow> bool" where
  "dns_live_matches_canon_value live v =
     (if dr_type live = ''A'' \<or> dr_type live = ''AAAA'' then equal_fold (dr_address live) v
      else if dr_type live = ''CNAME'' then no_dot (dr_target live) = no_dot v
      else if dr_type live = ''MX'' then
        (case cut_byte (hd nul) v of
           None \<Rightarrow> False
         | Some (p, e) \<Rightarrow> itoa (dr_priority live) = p \<and> no_dot (dr_exchange live) = no_dot e)
      else if dr_type live = ''TXT'' then dr_txtdata live = v
      else False)"

definition dns_old_values_still_present :: "plan_op \<Rightarrow> dns_record list \<Rightarrow> string \<Rightarrow> bool" where
  "dns_old_values_still_present x fresh zone \<longleftrightarrow>
     list_ex (\<lambda>dv. list_ex (\<lambda>f. same_rrset (op_type x) (op_name x) zone f
                                \<and> dns_live_matches_canon_value f dv) fresh) (op_destination_values x)"

section \<open>The precondition of a replace\<close>

text \<open>The line of a live record for every value of the plan, each line used once, or the first value
  that has none.\<close>

fun claim_lines :: "dns_record list \<Rightarrow> int list \<Rightarrow> string list \<Rightarrow> string + int list" where
  "claim_lines matching used [] = Inr []"
| "claim_lines matching used (dv # dvs) =
     (case List.find (\<lambda>f. dr_line f \<notin> set used \<and> dns_live_matches_canon_value f dv) matching of
        None \<Rightarrow> Inl dv
      | Some f \<Rightarrow> bindr (claim_lines matching (dr_line f # used) dvs) (\<lambda>ls. Inr (dr_line f # ls)))"

definition dns_replace_precondition ::
  "plan_op \<Rightarrow> dns_record list \<Rightarrow> string \<Rightarrow> (dns_status \<times> string) + int list" where
  "dns_replace_precondition x live zone =
     (let matching = filter (same_rrset (op_type x) (op_name x) zone) live;
          old = op_destination_values x
      in if matching = [] then Inl (DRefused, ''rrset not found on destination '' @ emdash @ '' cannot replace what is absent'')
         else if old = [] then Inl (DRefused, ''plan has no destination values for this replace op '' @ emdash @ '' re-plan required'')
         else if length matching \<noteq> length old then
           Inl (DRefused, ''rrset has '' @ itoa (int (length matching)) @ '' record(s) but plan expected ''
             @ itoa (int (length old)) @ '' '' @ emdash
             @ '' drift detected (records added or removed since plan-time), re-plan required'')
         else if list_all (\<lambda>rec. dns_record_present rec matching zone) (op_records x) then
           Inl (DSkipped, ''already_present: destination already has the desired values'')
         else (case claim_lines matching [] old of
             Inl dv \<Rightarrow> Inl (DRefused, ''plan-time destination value '' @ go_quote dv
               @ '' not found in the live zone '' @ emdash @ '' drift detected, re-plan required'')
           | Inr lines \<Rightarrow> Inr lines))"

section \<open>One zone\<close>

text \<open>What the loop over the operations of a zone decides before the edit: a final status, or the lines
  the operation removes.\<close>

datatype write_decision = Settled dns_status string | Planned "int list"

definition decide_write :: "dns_record list \<Rightarrow> string \<Rightarrow> plan_op \<Rightarrow> write_decision" where
  "decide_write live zone x =
     (case op_action x of
        Skip \<Rightarrow> Settled DSkipped []
      | Manual \<Rightarrow> Settled DManual []
      | Replace \<Rightarrow>
          (case dns_replace_precondition x live zone of
             Inl (st, reason) \<Rightarrow> Settled st reason
           | Inr lines \<Rightarrow> Planned lines)
      | Add \<Rightarrow> Planned []
      | OtherAction a \<Rightarrow>
          Settled DFailed (''unknown plan action '' @ go_quote a @ '' '' @ emdash @ '' malformed or hand-edited plan''))"

definition add_record_of :: "string \<Rightarrow> plan_record \<Rightarrow> add_record" where
  "add_record_of zone rec =
     \<lparr>ad_dname = dns_canon_to_relative (pl_name rec) zone, ad_ttl = pl_ttl rec, ad_type = pl_type rec,
      ad_data = pl_data rec\<rparr>"

definition planned_lines :: "dns_record list \<Rightarrow> string \<Rightarrow> plan_op \<Rightarrow> int list" where
  "planned_lines live zone x = (case decide_write live zone x of Planned ls \<Rightarrow> ls | _ \<Rightarrow> [])"

definition is_planned :: "dns_record list \<Rightarrow> string \<Rightarrow> plan_op \<Rightarrow> bool" where
  "is_planned live zone x = (case decide_write live zone x of Planned _ \<Rightarrow> True | _ \<Rightarrow> False)"

definition zone_removes :: "dns_record list \<Rightarrow> string \<Rightarrow> plan_op list \<Rightarrow> int list" where
  "zone_removes live zone xs = concat (map (planned_lines live zone) xs)"

definition zone_adds :: "dns_record list \<Rightarrow> string \<Rightarrow> plan_op list \<Rightarrow> add_record list" where
  "zone_adds live zone xs =
     concat (map (\<lambda>x. map (add_record_of zone) (op_records x)) (filter (is_planned live zone) xs))"

text \<open>What became of the edit.\<close>

datatype edit_outcome =
  NotEdited | EditError dns_status string | RefetchError string | Fresh "dns_record list"

definition edit_error :: "string \<Rightarrow> dns_status \<times> string" where
  "edit_error e =
     (if is_stale_serial_error e then (DRefused, ''stale serial '' @ emdash @ '' zone was modified since fetch'')
      else (DFailed, e))"

text \<open>The status of a planned operation: the placeholder, then what the outcome of the edit overwrites.\<close>

definition planned_status :: "edit_outcome \<Rightarrow> string \<Rightarrow> plan_op \<Rightarrow> dns_status \<times> string" where
  "planned_status oc zone x =
     (let (st0, reason0) =
        (if op_records x = [] then
           (DFailed, ''op has no records '' @ emdash @ '' malformed or hand-edited plan'') else (DApplied, []))
      in case oc of
           NotEdited \<Rightarrow> (st0, reason0)
         | EditError st reason \<Rightarrow> (st, reason)
         | RefetchError e \<Rightarrow> (DFailed, ''verify-after re-fetch failed: '' @ e)
         | Fresh fresh \<Rightarrow>
             if \<not> dns_verify_add_op_present x fresh zone then
               (DFailed, ''write reported success but the records are not observable in the fresh zone'')
             else if op_action x = Replace \<and> dns_old_values_still_present x fresh zone then
               (DFailed, ''new values present but old values still in zone '' @ emdash @ '' remove may have failed'')
             else (DApplied, reason0))"

definition op_result :: "edit_outcome \<Rightarrow> dns_record list \<Rightarrow> string \<Rightarrow> plan_op \<Rightarrow> dns_op_result" where
  "op_result oc live zone x =
     (let (st, reason) =
        (case decide_write live zone x of Settled st reason \<Rightarrow> (st, reason) | Planned _ \<Rightarrow> planned_status oc zone x)
      in \<lparr>dor_op = x, dor_status = st, dor_reason = reason\<rparr>)"

text \<open>The edit and the reading after it.\<close>

definition edit_zone ::
  "dns_host \<Rightarrow> string \<Rightarrow> string \<Rightarrow> dns_record list \<Rightarrow> plan_op list \<Rightarrow> call_log \<Rightarrow> (edit_outcome \<times> string) \<times> call_log"
  where
  "edit_zone dh zone serial live xs log =
     (let removes = zone_removes live zone xs; adds = zone_adds live zone xs
      in if list_ex (is_planned live zone) xs \<and> adds \<noteq> [] then
           (let (res, log1) =
              (if list_ex (\<lambda>x. op_action x = Replace) xs \<or> removes \<noteq> []
               then mass_edit_zone_batch dh zone serial removes adds log
               else mass_edit_zone_add dh zone serial adds log)
            in case res of
                 Inl e \<Rightarrow> ((case edit_error e of (st, reason) \<Rightarrow> (EditError st reason, [])), log1)
               | Inr new_serial \<Rightarrow>
                   (let (fr, log2) = fetch_dns_zone_raw dh zone log1
                    in case fr of
                         Inl e \<Rightarrow> ((RefetchError e, new_serial), log2)
                       | Inr (fresh, raw) \<Rightarrow> ((Fresh fresh, new_serial), log2)))
         else ((NotEdited, []), log))"

text \<open>The live state of a zone: its records, the raw answer and the serial.\<close>

type_synonym live_zones = "(string, dns_record list \<times> string \<times> string) gomap"

definition is_write_action :: "plan_op \<Rightarrow> bool" where
  "is_write_action x \<longleftrightarrow> op_action x = Add \<or> op_action x = Replace"

definition not_fetched :: "plan_op \<Rightarrow> dns_op_result" where
  "not_fetched x =
     (if is_write_action x then \<lparr>dor_op = x, dor_status = DFailed, dor_reason = ''zone live state not fetched''\<rparr>
      else op_result NotEdited [] [] x)"

definition process_zone :: "dns_host \<Rightarrow> live_zones \<Rightarrow> plan_zone \<Rightarrow> call_log \<Rightarrow> dns_zone_result \<times> call_log" where
  "process_zone dh live pz log =
     (case map_of live (pz_zone pz) of
        None \<Rightarrow> (\<lparr>dzr_zone = pz_zone pz, dzr_ops = map not_fetched (pz_ops pz), dzr_new_serial = []\<rparr>, log)
      | Some (records, raw, serial) \<Rightarrow>
          (let ((oc, new_serial), log1) = edit_zone dh (pz_zone pz) serial records (pz_ops pz) log
           in (\<lparr>dzr_zone = pz_zone pz, dzr_ops = map (op_result oc records (pz_zone pz)) (pz_ops pz),
                dzr_new_serial = new_serial\<rparr>, log1)))"

fun process_zones ::
  "dns_host \<Rightarrow> live_zones \<Rightarrow> plan_zone list \<Rightarrow> call_log \<Rightarrow> dns_zone_result list \<times> call_log" where
  "process_zones dh live [] log = ([], log)"
| "process_zones dh live (pz # pzs) log =
     (let (r, log1) = process_zone dh live pz log; (rs, log2) = process_zones dh live pzs log1
      in (r # rs, log2))"

section \<open>The apply run\<close>

definition writable_zones :: "dns_plan \<Rightarrow> string list" where
  "writable_zones plan =
     sort (remdups (map pz_zone (filter (\<lambda>pz. list_ex is_write_action (pz_ops pz)) (dp_zones plan))))"

fun fetch_zones :: "dns_host \<Rightarrow> string list \<Rightarrow> call_log \<Rightarrow> (string + live_zones) \<times> call_log" where
  "fetch_zones dh [] log = (Inr [], log)"
| "fetch_zones dh (z # zs) log =
     (case fetch_dns_zone_raw dh z log of
        (Inl e, log1) \<Rightarrow> (Inl e, log1)
      | (Inr (records, raw), log1) \<Rightarrow>
          (case extract_soa_serial dh raw of
             Inl e \<Rightarrow> (Inl e, log1)
           | Inr serial \<Rightarrow>
               (let (r, log2) = fetch_zones dh zs log1
                in (bindr r (\<lambda>live. Inr ((z, records, raw, serial) # live)), log2))))"

record dns_env =
  de_input_hash :: bool
  de_dial :: bool
  de_backup :: bool
  de_backup_hash :: bool
  de_report_json :: bool
  de_report_md :: bool

record dns_outcome =
  do_exit :: nat
  do_report :: "dns_apply_report option"
  do_backup :: "dns_apply_backup option"
  do_log :: call_log

definition exit_drift :: nat where "exit_drift = 3"

definition finish_dns_report :: "dns_env \<Rightarrow> dns_apply_report \<Rightarrow> nat" where
  "finish_dns_report env rep =
     (if \<not> de_report_json env \<or> \<not> de_report_md env then 1
      else if dsm_failed (dap_summary rep) > 0 then 1
      else if dsm_refused (dap_summary rep) > 0 then exit_drift
      else 0)"

definition dns_stop :: "nat \<Rightarrow> dns_apply_backup option \<Rightarrow> call_log \<Rightarrow> dns_outcome" where
  "dns_stop code bk log = \<lparr>do_exit = code, do_report = None, do_backup = bk, do_log = log\<rparr>"

definition dns_end :: "dns_env \<Rightarrow> string \<Rightarrow> string \<Rightarrow> dns_apply_backup option \<Rightarrow> dns_zone_result list \<times> call_log \<Rightarrow> dns_outcome"
  where
  "dns_end env mode note bk r =
     (let rep = \<lparr>dap_run_mode = mode, dap_backup_note = note, dap_zones = fst r,
        dap_summary = summarize_dns_results (fst r)\<rparr>
      in \<lparr>do_exit = finish_dns_report env rep, do_report = Some rep, do_backup = bk, do_log = snd r\<rparr>)"

definition backup_of :: "live_zones \<Rightarrow> dns_apply_backup" where
  "backup_of live =
     \<lparr>dab_format_version = 1, dab_zones = map (\<lambda>(z, records, raw, serial).
        \<lparr>dbz_zone = z, dbz_records = records, dbz_raw = raw, dbz_serial = serial\<rparr>) live\<rparr>"

definition run_dns_apply_writes :: "dns_host \<Rightarrow> dns_env \<Rightarrow> dns_plan \<Rightarrow> call_log \<Rightarrow> dns_outcome" where
  "run_dns_apply_writes dh env plan log =
     (let zones = writable_zones plan
      in if \<not> de_input_hash env then dns_stop 1 None log
         else if zones = [] then
           dns_end env ''apply'' (''no write was decided (every op skipped or manual) '' @ emdash @ '' nothing to back up'')
             None (process_zones dh [] (dp_zones plan) log)
         else if \<not> de_dial env then dns_stop 1 None log
         else (case fetch_zones dh zones log of
             (Inl e, log1) \<Rightarrow> dns_stop 1 None log1
           | (Inr live, log1) \<Rightarrow>
               if \<not> de_backup env then dns_stop 1 None log1
               else if \<not> de_backup_hash env then dns_stop 1 (Some (backup_of live)) log1
               else dns_end env ''apply'' [] (Some (backup_of live)) (process_zones dh live (dp_zones plan) log1)))"

section \<open>The rollback run\<close>

definition backup_entry_to_plan_record :: "dns_record \<Rightarrow> string \<Rightarrow> plan_record" where
  "backup_entry_to_plan_record e zone =
     \<lparr>pl_name = dns_canon_live_name (dr_name e) zone, pl_type = dr_type e, pl_ttl = dr_ttl e,
      pl_data =
        (if dr_type e = ''A'' \<or> dr_type e = ''AAAA'' then [dr_address e]
         else if dr_type e = ''CNAME'' then [dns_canon_live_name (dr_target e) zone]
         else if dr_type e = ''MX'' then [itoa (dr_priority e), dns_canon_live_name (dr_exchange e) zone]
         else if dr_type e = ''TXT'' then [dr_txtdata e]
         else [])\<rparr>"

definition dns_backup_records_for_op :: "dns_apply_backup \<Rightarrow> string \<Rightarrow> string \<Rightarrow> string \<Rightarrow> plan_record list" where
  "dns_backup_records_for_op bk zone ty name =
     (case List.find (\<lambda>bz. dbz_zone bz = zone) (dab_zones bk) of
        None \<Rightarrow> []
      | Some bz \<Rightarrow> map (\<lambda>r. backup_entry_to_plan_record r zone)
                    (filter (same_rrset ty name zone) (dbz_records bz)))"

definition find_record_line :: "plan_record \<Rightarrow> dns_record list \<Rightarrow> string \<Rightarrow> int" where
  "find_record_line planned live zone =
     (case List.find (\<lambda>f. same_rrset (pl_type planned) (pl_name planned) zone f \<and> dns_data_match planned f) live of
        None \<Rightarrow> -1
      | Some f \<Rightarrow> dr_line f)"

record rollback_target =
  rt_zone :: string
  rt_replace :: bool
  rt_type :: string
  rt_name :: string
  rt_records :: "plan_record list"
  rt_old :: "plan_record list"

definition target_of :: "dns_apply_backup \<Rightarrow> string \<Rightarrow> dns_op_result \<Rightarrow> rollback_target option" where
  "target_of bk zone r =
     (let x = dor_op r;
          t = \<lparr>rt_zone = zone, rt_replace = False, rt_type = op_type x, rt_name = op_name x,
               rt_records = op_records x, rt_old = []\<rparr>
      in if dor_status r \<noteq> DApplied then None
         else if op_action x = Add then Some t
         else if op_action x = Replace then
           Some (t\<lparr>rt_replace := True, rt_old := dns_backup_records_for_op bk zone (op_type x) (op_name x)\<rparr>)
         else None)"

definition rollback_targets :: "dns_apply_backup \<Rightarrow> dns_zone_result list \<Rightarrow> rollback_target list" where
  "rollback_targets bk zs =
     concat (map (\<lambda>zr. List.map_filter (target_of bk (dzr_zone zr)) (dzr_ops zr)) zs)"

definition target_lines :: "dns_record list \<Rightarrow> string \<Rightarrow> rollback_target \<Rightarrow> int list" where
  "target_lines live zone t =
     filter (\<lambda>l. 0 \<le> l) (map (\<lambda>rec. find_record_line rec live zone) (rt_records t))"

definition decide_rollback :: "dns_record list \<Rightarrow> string \<Rightarrow> rollback_target \<Rightarrow> write_decision" where
  "decide_rollback live zone t =
     (let lines = target_lines live zone t
      in if lines = [] \<and> \<not> rt_replace t then
           Settled DSkipped (''records already absent '' @ emdash @ '' nothing to remove'')
         else if lines = [] then
           Settled DRefused (''applied records not found in zone '' @ emdash @ '' cannot reverse replace'')
         else if rt_replace t \<and> rt_old t = [] then
           Settled DRefused (''backup has no pre-apply records for this rrset '' @ emdash
             @ '' refusing to leave the zone without old or new values'')
         else Planned lines)"

definition rollback_removes :: "dns_record list \<Rightarrow> string \<Rightarrow> rollback_target list \<Rightarrow> int list" where
  "rollback_removes live zone ts =
     concat (map (\<lambda>t. case decide_rollback live zone t of Planned ls \<Rightarrow> ls | _ \<Rightarrow> []) ts)"

definition restores :: "dns_record list \<Rightarrow> string \<Rightarrow> rollback_target \<Rightarrow> bool" where
  "restores live zone t \<longleftrightarrow>
     rt_replace t \<and> (case decide_rollback live zone t of Planned _ \<Rightarrow> True | _ \<Rightarrow> False)"

definition rollback_adds :: "dns_record list \<Rightarrow> string \<Rightarrow> rollback_target list \<Rightarrow> add_record list" where
  "rollback_adds live zone ts =
     concat (map (\<lambda>t. map (add_record_of zone) (rt_old t)) (filter (restores live zone) ts))"

definition rollback_status :: "edit_outcome \<Rightarrow> string \<Rightarrow> rollback_target \<Rightarrow> dns_status \<times> string" where
  "rollback_status oc zone t =
     (case oc of
        NotEdited \<Rightarrow> (DApplied, [])
      | EditError st reason \<Rightarrow> (st, reason)
      | RefetchError e \<Rightarrow> (DFailed, ''rollback verify-after re-fetch failed: '' @ e)
      | Fresh fresh \<Rightarrow>
          if list_ex (\<lambda>rec. dns_record_present rec fresh zone) (rt_records t) then
            (DFailed, ''remove reported success but records are still present'')
          else if rt_replace t \<and> rt_old t \<noteq> [] \<and> \<not> list_all (\<lambda>rec. dns_record_present rec fresh zone) (rt_old t) then
            (DFailed, ''old records not observable after restore'')
          else (DApplied, []))"

definition target_op :: "plan_action \<Rightarrow> rollback_target \<Rightarrow> plan_record list \<Rightarrow> plan_op" where
  "target_op a t recs =
     \<lparr>op_action = a, op_type = rt_type t, op_name = rt_name t, op_reason = [], op_records = recs,
      op_source_values = [], op_destination_values = [], op_ttl_capped = False\<rparr>"

definition rollback_result :: "edit_outcome \<Rightarrow> dns_record list \<Rightarrow> string \<Rightarrow> rollback_target \<Rightarrow> dns_op_result" where
  "rollback_result oc live zone t =
     (let (st, reason) =
        (case decide_rollback live zone t of Settled st reason \<Rightarrow> (st, reason) | Planned _ \<Rightarrow> rollback_status oc zone t)
      in \<lparr>dor_op = target_op (if rt_replace t then Replace else Add) t (rt_records t), dor_status = st, dor_reason = reason\<rparr>)"

text \<open>The code puts the record type into the action of an operation it could not try.\<close>

definition failed_target :: "string \<Rightarrow> rollback_target \<Rightarrow> dns_op_result" where
  "failed_target reason t =
     \<lparr>dor_op = target_op (OtherAction (rt_type t)) t [], dor_status = DFailed, dor_reason = reason\<rparr>"

definition undo_zone ::
  "dns_host \<Rightarrow> string \<Rightarrow> string \<Rightarrow> dns_record list \<Rightarrow> rollback_target list \<Rightarrow> call_log \<Rightarrow> edit_outcome \<times> call_log"
  where
  "undo_zone dh zone serial live ts log =
     (let removes = rollback_removes live zone ts
      in if removes \<noteq> [] then
           (let (res, log1) =
              (if list_ex (restores live zone) ts
               then mass_edit_zone_batch dh zone serial removes (rollback_adds live zone ts) log
               else mass_edit_zone_remove dh zone serial removes log)
            in case res of
                 Inl e \<Rightarrow> ((case edit_error e of (st, reason) \<Rightarrow> EditError st reason), log1)
               | Inr new_serial \<Rightarrow>
                   (let (fr, log2) = fetch_dns_zone_raw dh zone log1
                    in case fr of
                         Inl e \<Rightarrow> (RefetchError e, log2)
                       | Inr (fresh, raw) \<Rightarrow> (Fresh fresh, log2)))
         else (NotEdited, log))"

definition rollback_zone ::
  "dns_host \<Rightarrow> string \<times> rollback_target list \<Rightarrow> call_log \<Rightarrow> dns_zone_result \<times> call_log" where
  "rollback_zone dh zt log =
     (let (zone, ts) = zt;
          done = (\<lambda>rs. \<lparr>dzr_zone = zone, dzr_ops = rs, dzr_new_serial = []\<rparr>)
      in case fetch_dns_zone_raw dh zone log of
           (Inl e, log1) \<Rightarrow> (done (map (failed_target (''rollback re-fetch failed: '' @ e)) ts), log1)
         | (Inr (records, raw), log1) \<Rightarrow>
             (case extract_soa_serial dh raw of
                Inl e \<Rightarrow> (done (map (failed_target (''rollback serial extraction failed: '' @ e)) ts), log1)
              | Inr serial \<Rightarrow>
                  (let (oc, log2) = undo_zone dh zone serial records ts log1
                   in (done (map (rollback_result oc records zone) ts), log2))))"

fun rollback_zones ::
  "dns_host \<Rightarrow> (string \<times> rollback_target list) list \<Rightarrow> call_log \<Rightarrow> dns_zone_result list \<times> call_log" where
  "rollback_zones dh [] log = ([], log)"
| "rollback_zones dh (zt # zts) log =
     (let (r, log1) = rollback_zone dh zt log; (rs, log2) = rollback_zones dh zts log1 in (r # rs, log2))"

definition degraded_zone :: "dns_backup_zone \<Rightarrow> dns_zone_result" where
  "degraded_zone bz =
     \<lparr>dzr_zone = dbz_zone bz,
      dzr_ops = [\<lparr>dor_op = \<lparr>op_action = Manual, op_type = [], op_name = [],
          op_reason = ''degraded rollback '' @ emdash @ '' no report available'', op_records = [],
          op_source_values = [], op_destination_values = [], op_ttl_capped = False\<rparr>,
        dor_status = DManual, dor_reason = []\<rparr>],
      dzr_new_serial = []\<rparr>"

text \<open>The loaded files are arguments; \<open>yes\<close> is \<open>--yes-apply-writes\<close>, \<open>accept\<close> is \<open>--accept-report-loss\<close>.\<close>

definition run_dns_rollback ::
  "dns_host \<Rightarrow> dns_env \<Rightarrow> string + dns_apply_backup \<Rightarrow> string + dns_apply_report \<Rightarrow> bool \<Rightarrow> bool \<Rightarrow> call_log
   \<Rightarrow> dns_outcome" where
  "run_dns_rollback dh env loaded report accept yes log =
     (case loaded of
        Inl e \<Rightarrow> dns_stop 1 None log
      | Inr bk \<Rightarrow>
          if dab_format_version bk \<noteq> 1 then dns_stop 1 None log
          else
           (case report of
              Inl e \<Rightarrow>
                if \<not> accept then dns_stop 1 None log
                else if \<not> yes then dns_stop 0 None log
                else dns_end env ''rollback'' [] None (map degraded_zone (dab_zones bk), log)
            | Inr rep \<Rightarrow>
                (let ts = rollback_targets bk (dap_zones rep)
                 in if \<not> yes then dns_stop 0 None log
                    else if ts = [] then
                      dns_end env ''rollback''
                        (''no applied ops found in the report '' @ emdash @ '' nothing to roll back'') None ([], log)
                    else if \<not> de_dial env then dns_stop 1 None log
                    else dns_end env ''rollback'' [] None (rollback_zones dh (group_by rt_zone ts) log))))"

text \<open>\<open>runDNSApplyCmd\<close> after flag parsing.\<close>

definition run_dns_apply_cmd ::
  "dns_host \<Rightarrow> dns_env \<Rightarrow> (string + dns_plan) option \<Rightarrow> (string + dns_apply_backup) option
   \<Rightarrow> string + dns_apply_report \<Rightarrow> bool \<Rightarrow> bool \<Rightarrow> call_log \<Rightarrow> dns_outcome" where
  "run_dns_apply_cmd dh env plan backup report accept yes log =
     (case (backup, plan) of
        (Some _, Some _) \<Rightarrow> dns_stop 2 None log
      | (Some bk, None) \<Rightarrow> run_dns_rollback dh env bk report accept yes log
      | (None, None) \<Rightarrow> dns_stop 1 None log
      | (None, Some (Inl e)) \<Rightarrow> dns_stop 1 None log
      | (None, Some (Inr p)) \<Rightarrow>
          if dp_format_version p \<noteq> 1 then dns_stop 1 None log
          else if \<not> yes then dns_stop 0 None log
          else run_dns_apply_writes dh env p log)"

end
