(* ===== verification/DnsCmdLaws.thy ===== *)
theory DnsCmdLaws
  imports DnsCmd
begin

text \<open>
  What the DNS writer does to a host, whatever the host answers (\<open>dns_apply_guarded\<close>,
  \<open>dns_rollback_guarded\<close>), when a replace is allowed (\<open>replace_allowed_iff\<close>), how names go to the host and
  come back, and where the reading after a write misjudges it.
\<close>

section \<open>The calls of one zone\<close>

definition is_edit :: "api_call \<Rightarrow> bool" where
  "is_edit c \<longleftrightarrow> ac_fn c = ''mass_edit_zone''"

definition dns_call :: "string \<Rightarrow> (string, string) gomap \<Rightarrow> api_call" where
  "dns_call fn args = \<lparr>ac_tool = ''uapi'', ac_module = ''DNS'', ac_fn = fn, ac_args = args\<rparr>"

definition parse_call :: "string \<Rightarrow> api_call" where
  "parse_call zone = dns_call ''parse_zone'' [(''zone'', zone)]"

text \<open>The edit of a zone that was read as \<open>live\<close> with this serial.\<close>

definition edit_call :: "dns_host \<Rightarrow> string \<Rightarrow> string \<Rightarrow> dns_record list \<Rightarrow> plan_op list \<Rightarrow> api_call" where
  "edit_call dh zone serial live xs =
     dns_call ''mass_edit_zone'' (edit_args dh zone serial (zone_removes live zone xs) (zone_adds live zone xs))"

lemma is_edit_simps [simp]:
  "is_edit (edit_call dh zone serial live xs)" "\<not> is_edit (parse_call zone)"
  "is_edit (dns_call ''mass_edit_zone'' args)"
  by (simp_all add: is_edit_def edit_call_def parse_call_def dns_call_def)

lemma fetch_log: "snd (fetch_dns_zone_raw dh zone log) = log @ [parse_call zone]"
  by (simp add: fetch_dns_zone_raw_def map_ok_def run_uapi_raw_def parse_call_def dns_call_def)

lemma fetch_eqD: "fetch_dns_zone_raw dh zone log = (r, log') \<Longrightarrow> log' = log @ [parse_call zone]"
  by (metis fetch_log snd_conv)

lemma edit_log:
  "snd (mass_edit_zone_batch dh zone serial rs as log) = log @ [dns_call ''mass_edit_zone'' (edit_args dh zone serial rs as)]"
  "snd (mass_edit_zone_add dh zone serial as log) = log @ [dns_call ''mass_edit_zone'' (edit_args dh zone serial [] as)]"
  "snd (mass_edit_zone_remove dh zone serial rs log) = log @ [dns_call ''mass_edit_zone'' (edit_args dh zone serial rs [])]"
  by (simp_all add: mass_edit_zone_batch_def mass_edit_zone_add_def mass_edit_zone_remove_def run_uapi_def dns_call_def)

lemma zone_arg [simp]: "map_of (ac_args (edit_call dh zone serial live xs)) ''zone'' = Some zone"
  by (simp add: edit_call_def dns_call_def edit_args_def)

lemma edit_error_not_applied: "fst (edit_error e) \<noteq> DApplied"
  by (simp add: edit_error_def)

text \<open>The four ways the edit of a zone can go, with its calls.\<close>

lemma edit_zone_cases:
  assumes "edit_zone dh zone serial live xs log = ((oc, ns), log')"
  obtains (none) "oc = NotEdited" "log' = log" "\<not> (list_ex (is_planned live zone) xs \<and> zone_adds live zone xs \<noteq> [])"
    | (error) st reason where "oc = EditError st reason" "st \<noteq> DApplied" "log' = log @ [edit_call dh zone serial live xs]"
    | (blind) e where "oc = RefetchError e" "log' = log @ [edit_call dh zone serial live xs, parse_call zone]"
    | (seen) fresh raw where "oc = Fresh fresh" "log' = log @ [edit_call dh zone serial live xs, parse_call zone]"
        "fst (fetch_dns_zone_raw dh zone (log @ [edit_call dh zone serial live xs])) = Inr (fresh, raw)"
proof (cases "list_ex (is_planned live zone) xs \<and> zone_adds live zone xs \<noteq> []")
  case False
  then have "((oc, ns), log') = ((NotEdited, []), log)" using assms by (auto simp: edit_zone_def Let_def)
  with False show ?thesis by (intro none) auto
next
  case True
  define run where "run = (if list_ex (\<lambda>x. op_action x = Replace) xs \<or> zone_removes live zone xs \<noteq> []
      then mass_edit_zone_batch dh zone serial (zone_removes live zone xs) (zone_adds live zone xs) log
      else mass_edit_zone_add dh zone serial (zone_adds live zone xs) log)"
  obtain res log1 where run: "run = (res, log1)" by fastforce
  have "snd run = log @ [edit_call dh zone serial live xs]"
    by (simp add: run_def edit_log edit_call_def)
  then have log1: "log1 = log @ [edit_call dh zone serial live xs]" using run by simp
  obtain fr log2 where fr: "fetch_dns_zone_raw dh zone log1 = (fr, log2)" by fastforce
  have log2: "log2 = log @ [edit_call dh zone serial live xs, parse_call zone]"
    using fetch_eqD [OF fr] log1 by simp
  have eq: "((oc, ns), log') = (case res of
       Inl e \<Rightarrow> ((case edit_error e of (st, reason) \<Rightarrow> (EditError st reason, [])), log1)
     | Inr new_serial \<Rightarrow> (case fr of Inl e \<Rightarrow> ((RefetchError e, new_serial), log2)
         | Inr (fresh, raw) \<Rightarrow> ((Fresh fresh, new_serial), log2)))"
    using assms True run fr unfolding edit_zone_def Let_def run_def
    by (cases res; cases fr) (auto split: prod.splits)
  show ?thesis
  proof (cases res)
    case (Inl e)
    then have "oc = EditError (fst (edit_error e)) (snd (edit_error e))" "log' = log1"
      using eq by (simp_all add: case_prod_beta)
    then show ?thesis using error edit_error_not_applied log1 by blast
  next
    case (Inr new_serial)
    then show ?thesis using eq fr log1 log2 blind seen by (cases fr) auto
  qed
qed

section \<open>What a run reports\<close>

text \<open>After an edit of the zone it was read again, and the reading shows the records of the operation
  and, for a replace, none of the values it was to replace.\<close>

definition observed :: "dns_host \<Rightarrow> call_log \<Rightarrow> string \<Rightarrow> plan_op \<Rightarrow> bool" where
  "observed dh log' zone x \<longleftrightarrow>
     (\<exists>log1 e fresh raw. prefix (log1 @ [e]) log' \<and> is_edit e \<and> map_of (ac_args e) ''zone'' = Some zone
        \<and> fst (fetch_dns_zone_raw dh zone (log1 @ [e])) = Inr (fresh, raw)
        \<and> dns_verify_add_op_present x fresh zone
        \<and> \<not> (op_action x = Replace \<and> dns_old_values_still_present x fresh zone))"

definition dns_fine :: "dns_host \<Rightarrow> call_log \<Rightarrow> string \<Rightarrow> dns_op_result \<Rightarrow> bool" where
  "dns_fine dh log' zone r \<longleftrightarrow>
     (if dor_status r = DApplied then is_write_action (dor_op r) \<and> observed dh log' zone (dor_op r) else True)"

lemma seen_later: "observed dh log1 zone x \<Longrightarrow> prefix log1 log2 \<Longrightarrow> observed dh log2 zone x"
  unfolding observed_def by (meson prefix_order.trans)

lemma dns_fine_mono: "dns_fine dh log1 zone r \<Longrightarrow> prefix log1 log2 \<Longrightarrow> dns_fine dh log2 zone r"
  unfolding dns_fine_def using seen_later by metis

lemma precondition_not_applied: "dns_replace_precondition x live zone = Inl (st, reason) \<Longrightarrow> st \<noteq> DApplied"
  by (auto simp: dns_replace_precondition_def Let_def split: if_splits sum.splits)

lemma settled_not_applied: "decide_write live zone x = Settled st reason \<Longrightarrow> st \<noteq> DApplied"
  by (auto simp: decide_write_def dest: precondition_not_applied split: plan_action.splits sum.splits)

lemma planned_is_write: "decide_write live zone x = Planned ls \<Longrightarrow> is_write_action x"
  by (auto simp: decide_write_def is_write_action_def split: plan_action.splits sum.splits)

lemma planned_adds:
  assumes "x \<in> set xs" "is_planned live zone x" "zone_adds live zone xs = []"
  shows "op_records x = []"
  using assms by (auto simp: zone_adds_def)

lemma planned_status_applied:
  assumes "fst (planned_status oc zone x) = DApplied"
  shows "(oc = NotEdited \<and> op_records x \<noteq> []) \<or> (\<exists>reason. oc = EditError DApplied reason)
    \<or> (\<exists>fresh. oc = Fresh fresh \<and> dns_verify_add_op_present x fresh zone
         \<and> \<not> (op_action x = Replace \<and> dns_old_values_still_present x fresh zone))"
  using assms by (cases oc) (auto simp: planned_status_def split: if_splits)

lemma op_result_fine:
  assumes edit: "edit_zone dh zone serial live xs log = ((oc, ns), log')" and x: "x \<in> set xs"
  shows "dns_fine dh log' zone (op_result oc live zone x)"
proof (cases "decide_write live zone x")
  case (Settled st reason)
  then show ?thesis using settled_not_applied by (simp add: dns_fine_def op_result_def)
next
  case (Planned ls)
  have planned: "is_planned live zone x" using Planned by (simp add: is_planned_def)
  have w: "is_write_action x" using Planned by (rule planned_is_write)
  have "observed dh log' zone x" if ok: "fst (planned_status oc zone x) = DApplied"
    using edit
  proof (cases rule: edit_zone_cases)
    case none
    then have "zone_adds live zone xs = []" using planned x by (auto simp: list_ex_iff)
    with planned_status_applied [OF ok] none planned_adds [OF x planned] show ?thesis by simp
  next
    case (seen fresh raw)
    with planned_status_applied [OF ok] show ?thesis
      unfolding observed_def
      by (intro exI [of _ log] exI [of _ "edit_call dh zone serial live xs"] exI [of _ fresh] exI [of _ raw])
         (auto simp: prefix_def)
  qed (use planned_status_applied [OF ok] in auto)
  then show ?thesis using Planned w by (simp add: dns_fine_def op_result_def case_prod_beta)
qed

lemma op_result_op [simp]: "dor_op (op_result oc live zone x) = x"
  by (simp add: op_result_def case_prod_beta)

lemma not_fetched_fine: "dns_fine dh log' zone (not_fetched x)" "dor_op (not_fetched x) = x"
proof -
  have "dor_status (not_fetched x) \<noteq> DApplied"
  proof (cases "is_write_action x")
    case False
    then obtain st reason where "decide_write [] [] x = Settled st reason"
      by (cases "op_action x") (auto simp: is_write_action_def decide_write_def)
    with False settled_not_applied show ?thesis by (simp add: not_fetched_def op_result_def)
  qed (simp add: not_fetched_def)
  then show "dns_fine dh log' zone (not_fetched x)" by (simp add: dns_fine_def)
  show "dor_op (not_fetched x) = x" by (simp add: not_fetched_def)
qed

section \<open>An apply run\<close>

text \<open>A write of the run: the zone of the plan and what was read of it.\<close>

type_synonym zone_write = "plan_zone \<times> dns_record list \<times> string \<times> string"

definition write_of :: "dns_host \<Rightarrow> zone_write \<Rightarrow> api_call" where
  "write_of dh w =
     (let (pz, live, raw, serial) = w in edit_call dh (pz_zone pz) serial live (pz_ops pz))"

text \<open>What a step did to the log: these edits among other calls.\<close>

definition edits_in :: "call_log \<Rightarrow> call_log \<Rightarrow> api_call list \<Rightarrow> bool" where
  "edits_in log log' es \<longleftrightarrow> (\<exists>calls. log' = log @ calls \<and> filter is_edit calls = es)"

lemma edits_refl [simp]: "edits_in log log []"
  by (simp add: edits_in_def)

lemma edits_trans: "edits_in a b es \<Longrightarrow> edits_in b c fs \<Longrightarrow> edits_in a c (es @ fs)"
  by (auto simp: edits_in_def)

lemma edits_prefix: "edits_in a b es \<Longrightarrow> prefix a b"
  by (auto simp: edits_in_def prefix_def)

lemma edits_snoc [simp]:
  "edits_in log (log @ [c]) (if is_edit c then [c] else [])"
  "edits_in log (log @ [c, d]) ((if is_edit c then [c] else []) @ (if is_edit d then [d] else []))"
  by (simp_all add: edits_in_def)

definition zone_fine :: "dns_host \<Rightarrow> call_log \<Rightarrow> dns_zone_result \<Rightarrow> bool" where
  "zone_fine dh log' zr \<longleftrightarrow> list_all (dns_fine dh log' (dzr_zone zr)) (dzr_ops zr)"

lemma zone_fine_mono: "zone_fine dh log1 zr \<Longrightarrow> prefix log1 log2 \<Longrightarrow> zone_fine dh log2 zr"
  unfolding zone_fine_def list_all_iff using dns_fine_mono by blast

lemma process_zone_calls:
  assumes "process_zone dh live pz log = (zr, log')"
  shows "\<exists>ws. (ws = [] \<or> (\<exists>l. map_of live (pz_zone pz) = Some l \<and> ws = [(pz, l)]))
      \<and> edits_in log log' (map (write_of dh) ws)"
    and "dzr_zone zr = pz_zone pz" "map dor_op (dzr_ops zr) = pz_ops pz" "zone_fine dh log' zr"
proof -
  have "(\<exists>ws. (ws = [] \<or> (\<exists>l. map_of live (pz_zone pz) = Some l \<and> ws = [(pz, l)]))
      \<and> edits_in log log' (map (write_of dh) ws))
    \<and> dzr_zone zr = pz_zone pz \<and> map dor_op (dzr_ops zr) = pz_ops pz \<and> zone_fine dh log' zr"
  proof (cases "map_of live (pz_zone pz)")
    case None
    then have "log' = log" "zr = \<lparr>dzr_zone = pz_zone pz, dzr_ops = map not_fetched (pz_ops pz), dzr_new_serial = []\<rparr>"
      using assms by (simp_all add: process_zone_def)
    then show ?thesis
      by (auto simp: zone_fine_def list_all_iff comp_def not_fetched_fine intro: exI [of _ "[]"])
  next
    case (Some l)
    obtain records raw serial where l: "l = (records, raw, serial)" by (cases l)
    obtain oc ns log1 where e: "edit_zone dh (pz_zone pz) serial records (pz_ops pz) log = ((oc, ns), log1)"
      by (metis prod.exhaust)
    have eq: "log' = log1" "zr = \<lparr>dzr_zone = pz_zone pz, dzr_ops = map (op_result oc records (pz_zone pz)) (pz_ops pz),
        dzr_new_serial = ns\<rparr>"
      using assms e Some l by (simp_all add: process_zone_def)
    from e have "edits_in log log1 [] \<or> edits_in log log1 [write_of dh (pz, l)]"
      by (cases rule: edit_zone_cases) (auto simp: l write_of_def edits_in_def)
    then have "\<exists>ws. (ws = [] \<or> (\<exists>l. map_of live (pz_zone pz) = Some l \<and> ws = [(pz, l)]))
      \<and> edits_in log log1 (map (write_of dh) ws)"
    proof
      assume "edits_in log log1 []"
      then show ?thesis by (intro exI [of _ "[]"]) simp
    next
      assume "edits_in log log1 [write_of dh (pz, l)]"
      then show ?thesis using Some by (intro exI [of _ "[(pz, l)]"]) (simp add: l)
    qed
    then show ?thesis using op_result_fine [OF e] by (simp add: eq zone_fine_def list_all_iff comp_def)
  qed
  then show "\<exists>ws. (ws = [] \<or> (\<exists>l. map_of live (pz_zone pz) = Some l \<and> ws = [(pz, l)]))
      \<and> edits_in log log' (map (write_of dh) ws)"
    and "dzr_zone zr = pz_zone pz" "map dor_op (dzr_ops zr) = pz_ops pz" "zone_fine dh log' zr"
    by blast+
qed

definition read_as :: "live_zones \<Rightarrow> zone_write \<Rightarrow> bool" where
  "read_as live w \<longleftrightarrow> map_of live (pz_zone (fst w)) = Some (snd w)"

lemma process_zones_calls:
  assumes "process_zones dh live pzs log = (rs, log')"
  shows "(\<exists>ws. subseq (map fst ws) pzs \<and> list_all (read_as live) ws \<and> edits_in log log' (map (write_of dh) ws))
    \<and> map dzr_zone rs = map pz_zone pzs \<and> map (\<lambda>zr. map dor_op (dzr_ops zr)) rs = map pz_ops pzs
    \<and> list_all (zone_fine dh log') rs"
  using assms
proof (induction pzs arbitrary: log log' rs)
  case Nil
  then show ?case by (auto intro!: exI [of _ "[]"])
next
  case (Cons pz pzs)
  obtain r log1 where r: "process_zone dh live pz log = (r, log1)" by fastforce
  obtain rs' log2 where rs': "process_zones dh live pzs log1 = (rs', log2)" by fastforce
  have eq: "rs = r # rs'" "log' = log2" using Cons.prems r rs' by simp_all
  from process_zone_calls(1) [OF r] obtain vs where
    vs: "vs = [] \<or> (\<exists>l. map_of live (pz_zone pz) = Some l \<and> vs = [(pz, l)])" "edits_in log log1 (map (write_of dh) vs)"
    by blast
  from Cons.IH [OF rs'] obtain ws where ws: "subseq (map fst ws) pzs" "list_all (read_as live) ws"
      "edits_in log1 log2 (map (write_of dh) ws)"
    and rest: "map dzr_zone rs' = map pz_zone pzs" "map (\<lambda>zr. map dor_op (dzr_ops zr)) rs' = map pz_ops pzs"
      "list_all (zone_fine dh log2) rs'"
    by blast
  have "subseq (map fst (vs @ ws)) (pz # pzs)" "list_all (read_as live) (vs @ ws)"
    using vs(1) ws(1,2) by (auto simp: read_as_def)
  moreover have "edits_in log log2 (map (write_of dh) (vs @ ws))"
    using edits_trans [OF vs(2) ws(3)] by simp
  moreover have "zone_fine dh log2 r"
    using process_zone_calls(4) [OF r] edits_prefix [OF ws(3)] by (rule zone_fine_mono)
  ultimately show ?case
    using rest process_zone_calls(2,3) [OF r] unfolding eq by (intro conjI exI [of _ "vs @ ws"]) simp_all
qed

text \<open>What the backup holds is what the host answered in this run, before any edit.\<close>

definition freshly_read :: "dns_host \<Rightarrow> call_log \<Rightarrow> dns_backup_zone \<Rightarrow> bool" where
  "freshly_read dh log bz \<longleftrightarrow>
     (\<exists>log1. edits_in log log1 [] \<and>
        fst (fetch_dns_zone_raw dh (dbz_zone bz) log1) = Inr (dbz_records bz, dbz_raw bz) \<and>
        extract_soa_serial dh (dbz_raw bz) = Inr (dbz_serial bz))"

lemma fetch_zones_calls:
  assumes "fetch_zones dh zs log = (r, log')"
  shows "edits_in log log' [] \<and>
    (case r of Inl e \<Rightarrow> True
     | Inr live \<Rightarrow> map fst live = zs \<and> list_all (freshly_read dh log) (dab_zones (backup_of live)))"
  using assms
proof (induction zs arbitrary: log log' r)
  case Nil
  then show ?case by (auto simp: backup_of_def)
next
  case (Cons z zs)
  obtain fr log1 where fr: "fetch_dns_zone_raw dh z log = (fr, log1)" by fastforce
  have q: "edits_in log log1 []" using fetch_eqD [OF fr] by (simp add: edits_in_def)
  show ?case
  proof (cases "\<exists>records raw serial. fr = Inr (records, raw) \<and> extract_soa_serial dh raw = Inr serial")
    case False
    then have "log' = log1 \<and> (\<exists>e. r = Inl e)"
      using Cons.prems fr by (auto split: sum.splits)
    with q show ?thesis by auto
  next
    case True
    then obtain records raw serial where ok: "fr = Inr (records, raw)" "extract_soa_serial dh raw = Inr serial" by blast
    obtain r2 log2 where r2: "fetch_zones dh zs log1 = (r2, log2)" by fastforce
    have eq: "log' = log2" "r = bindr r2 (\<lambda>live. Inr ((z, records, raw, serial) # live))"
      using Cons.prems fr ok r2 by simp_all
    have e: "edits_in log log2 []" using edits_trans [OF q] Cons.IH [OF r2] by fastforce
    have later: "freshly_read dh log bz" if "freshly_read dh log1 bz" for bz
      using that edits_trans [OF q] unfolding freshly_read_def by fastforce
    have "freshly_read dh log \<lparr>dbz_zone = z, dbz_records = records, dbz_raw = raw, dbz_serial = serial\<rparr>"
      unfolding freshly_read_def using fr ok by (intro exI [of _ log]) simp
    then show ?thesis using Cons.IH [OF r2] e later
      by (cases r2) (auto simp: eq backup_of_def list_all_iff)
  qed
qed

definition report_covers :: "dns_plan \<Rightarrow> dns_apply_report \<Rightarrow> bool" where
  "report_covers plan rep \<longleftrightarrow>
     map (\<lambda>zr. (dzr_zone zr, map dor_op (dzr_ops zr))) (dap_zones rep) = map (\<lambda>pz. (pz_zone pz, pz_ops pz)) (dp_zones plan)"

definition no_failure :: "dns_apply_report \<Rightarrow> bool" where
  "no_failure rep \<longleftrightarrow>
     list_all (\<lambda>zr. list_all (\<lambda>r. dor_status r \<noteq> DFailed \<and> dor_status r \<noteq> DRefused) (dzr_ops zr)) (dap_zones rep)"

lemma count_results_zero: "count_results P zs = 0 \<longleftrightarrow> list_all (\<lambda>zr. list_all (\<lambda>r. \<not> P (dor_status r)) (dzr_ops zr)) zs"
  by (auto simp: count_results_def list_all_iff filter_empty_conv)

lemma exit_zero: "do_exit (dns_end env mode note bk r) = 0 \<Longrightarrow> no_failure (the (do_report (dns_end env mode note bk r)))"
  by (auto simp: dns_end_def finish_dns_report_def summarize_dns_results_def exit_drift_def no_failure_def
      count_results_zero list_all_iff Let_def split: if_splits)

definition backed_up :: "dns_apply_backup option \<Rightarrow> zone_write \<Rightarrow> bool" where
  "backed_up bk w \<longleftrightarrow>
     (let (pz, records, raw, serial) = w in
      case bk of None \<Rightarrow> False
      | Some b \<Rightarrow> \<lparr>dbz_zone = pz_zone pz, dbz_records = records, dbz_raw = raw, dbz_serial = serial\<rparr> \<in> set (dab_zones b))"

lemma read_as_backed_up: "read_as live w \<Longrightarrow> backed_up (Some (backup_of live)) w"
  by (cases w) (auto simp: read_as_def backed_up_def backup_of_def dest!: map_of_SomeD intro!: rev_image_eqI)

lemma not_read: "list_all (read_as []) ws \<Longrightarrow> ws = []"
  by (cases ws) (auto simp: read_as_def)

definition run_fine :: "dns_host \<Rightarrow> dns_plan \<Rightarrow> call_log \<Rightarrow> dns_outcome \<Rightarrow> zone_write list \<Rightarrow> bool" where
  "run_fine dh plan log o' ws \<longleftrightarrow>
     subseq (map fst ws) (dp_zones plan) \<and> edits_in log (do_log o') (map (write_of dh) ws) \<and>
     list_all (backed_up (do_backup o')) ws \<and>
     (case do_backup o' of None \<Rightarrow> ws = []
      | Some bk \<Rightarrow> map dbz_zone (dab_zones bk) = writable_zones plan \<and> list_all (freshly_read dh log) (dab_zones bk)) \<and>
     (case do_report o' of None \<Rightarrow> ws = [] \<and> do_exit o' = 1
      | Some rep \<Rightarrow> report_covers plan rep \<and> list_all (zone_fine dh (do_log o')) (dap_zones rep) \<and>
          (if do_exit o' = 0 then no_failure rep else True))"

lemma stop_fine:
  assumes "edits_in log log1 []"
    and "case bk of None \<Rightarrow> True
      | Some b \<Rightarrow> map dbz_zone (dab_zones b) = writable_zones plan \<and> list_all (freshly_read dh log) (dab_zones b)"
  shows "run_fine dh plan log (dns_stop 1 bk log1) []"
  using assms by (auto simp: run_fine_def dns_stop_def split: option.splits)

lemma map_pair_eq:
  "map f xs = map f' ys \<Longrightarrow> map g xs = map g' ys \<Longrightarrow> map (\<lambda>x. (f x, g x)) xs = map (\<lambda>y. (f' y, g' y)) ys"
  by (induction xs arbitrary: ys) (auto simp: Cons_eq_map_conv map_eq_Cons_conv)

lemma process_fine:
  assumes q: "edits_in log log1 []" and bk: "bk = (if live = [] then None else Some (backup_of live))"
    and read: "map fst live = writable_zones plan" "list_all (freshly_read dh log) (dab_zones (backup_of live))"
  shows "\<exists>ws. run_fine dh plan log (dns_end env mode remark bk (process_zones dh live (dp_zones plan) log1)) ws"
proof -
  let ?r = "process_zones dh live (dp_zones plan) log1"
  obtain rs log2 where rs: "?r = (rs, log2)" by fastforce
  from process_zones_calls [OF rs] obtain ws where
    ws: "subseq (map fst ws) (dp_zones plan)" "list_all (read_as live) ws" "edits_in log1 log2 (map (write_of dh) ws)"
    and zs: "map dzr_zone rs = map pz_zone (dp_zones plan)" "map (\<lambda>zr. map dor_op (dzr_ops zr)) rs = map pz_ops (dp_zones plan)"
      "list_all (zone_fine dh log2) rs"
    by blast
  have none: "ws = []" if "bk = None" using that ws(2) not_read by (auto simp: bk split: if_splits)
  have "list_all (backed_up bk) ws"
  proof (cases "live = []")
    case True
    then show ?thesis using none by (simp add: bk)
  next
    case False
    then show ?thesis using ws(2) read_as_backed_up by (auto simp: bk list_all_iff simp del: split_paired_All)
  qed
  moreover have "edits_in log log2 (map (write_of dh) ws)" using edits_trans [OF q ws(3)] by simp
  moreover have "map (\<lambda>zr. (dzr_zone zr, map dor_op (dzr_ops zr))) rs = map (\<lambda>pz. (pz_zone pz, pz_ops pz)) (dp_zones plan)"
    using zs(1,2) by (rule map_pair_eq)
  moreover have "map dbz_zone (dab_zones (backup_of live)) = map fst live"
    by (simp add: backup_of_def comp_def case_prod_beta)
  moreover have "case bk of None \<Rightarrow> ws = [] | Some b \<Rightarrow> map dbz_zone (dab_zones b) = writable_zones plan
      \<and> list_all (freshly_read dh log) (dab_zones b)"
    using none read \<open>map dbz_zone _ = _\<close> by (cases "live = []") (simp_all add: bk)
  moreover define o' where "o' = dns_end env mode remark bk ?r"
  moreover obtain rep where rep: "do_report o' = Some rep" "dap_zones rep = rs"
    by (simp add: o'_def rs dns_end_def Let_def)
  moreover have "do_log o' = log2" "do_backup o' = bk" by (simp_all add: o'_def rs dns_end_def Let_def)
  moreover have "do_exit o' = 0 \<Longrightarrow> no_failure rep"
    using exit_zero [of env mode remark bk ?r] rep(1) by (simp add: o'_def)
  ultimately have "run_fine dh plan log o' ws"
    unfolding run_fine_def report_covers_def using ws(1) zs(3) by simp
  then show ?thesis unfolding o'_def by blast
qed

text \<open>C7. Whatever the host answers, an apply run changes zones only as its plan and its backup say: the
  edits among its calls belong to zones of the plan, at most one for each entry and in that order; an edit names
  the serial of the zone's backup, removes the lines of the replaces whose precondition held on the
  backed-up records and adds the records of the operations it carries out; the backup was read in this
  run before any edit, and without a backup there is no edit. The report lists every operation, calls
  one applied only if a reading after the edit of its zone showed it, and exit code 0 means a report
  without failed or refused operations.\<close>

theorem dns_apply_guarded:
  "let o' = run_dns_apply_writes dh env plan log in
    \<exists>ws. subseq (map fst ws) (dp_zones plan) \<and> edits_in log (do_log o') (map (write_of dh) ws) \<and>
      list_all (backed_up (do_backup o')) ws \<and>
      (case do_backup o' of None \<Rightarrow> ws = []
       | Some bk \<Rightarrow> map dbz_zone (dab_zones bk) = writable_zones plan \<and> list_all (freshly_read dh log) (dab_zones bk)) \<and>
      (case do_report o' of None \<Rightarrow> ws = [] \<and> do_exit o' = 1
       | Some rep \<Rightarrow> report_covers plan rep \<and> list_all (zone_fine dh (do_log o')) (dap_zones rep) \<and>
           (if do_exit o' = 0 then no_failure rep else True))"
proof -
  let ?o = "run_dns_apply_writes dh env plan log" and ?zones = "writable_zones plan"
  obtain r log1 where f: "fetch_zones dh ?zones log = (r, log1)" by fastforce
  note run = run_dns_apply_writes_def Let_def
  have "\<exists>ws. run_fine dh plan log ?o ws"
  proof (cases "\<not> de_input_hash env \<or> (?zones \<noteq> [] \<and> \<not> de_dial env)")
    case True
    then have "?o = dns_stop 1 None log" by (auto simp: run)
    then show ?thesis using stop_fine [of log log, where bk = None and plan = plan] by auto
  next
    case go: False
    show ?thesis
    proof (cases "?zones = []")
      case True
      then show ?thesis using go process_fine [of log log, where bk = None and live = "[]" and plan = plan and dh = dh and env = env] by (simp add: run backup_of_def)
    next
      case zones: False
      have q: "edits_in log log1 []" using fetch_zones_calls [OF f] by blast
      show ?thesis
      proof (cases r)
        case (Inl e)
        then have "?o = dns_stop 1 None log1" using go zones f by (auto simp: run)
        then show ?thesis using stop_fine [OF q, where bk = None and plan = plan] by auto
      next
        case (Inr live)
        have read: "map fst live = ?zones" "list_all (freshly_read dh log) (dab_zones (backup_of live))"
          using fetch_zones_calls [OF f] Inr by simp_all
        have names: "map dbz_zone (dab_zones (backup_of live)) = map fst live"
          by (simp add: backup_of_def comp_def case_prod_beta)
        have "?o = (if \<not> de_backup env then dns_stop 1 None log1
            else if \<not> de_backup_hash env then dns_stop 1 (Some (backup_of live)) log1
            else dns_end env ''apply'' [] (Some (backup_of live)) (process_zones dh live (dp_zones plan) log1))"
          using go zones f Inr by (simp add: run)
        moreover have "run_fine dh plan log (dns_stop 1 None log1) []"
          by (rule stop_fine [OF q]) simp
        moreover have "run_fine dh plan log (dns_stop 1 (Some (backup_of live)) log1) []"
          by (rule stop_fine [OF q]) (simp add: read names)
        moreover have "\<exists>ws. run_fine dh plan log
            (dns_end env ''apply'' [] (Some (backup_of live)) (process_zones dh live (dp_zones plan) log1)) ws"
          using read zones by (intro process_fine [OF q]) auto
        ultimately show ?thesis by (auto simp only: split: if_split)
      qed
    qed
  qed
  then show ?thesis unfolding run_fine_def Let_def .
qed

end
