(* ===== verification/DnsReplace.thy ===== *)
theory DnsReplace
  imports DnsCmdLaws DnsVerifyLaws
begin

text \<open>
  The decisions of the DNS writer about single records: when a replace is allowed and what it removes,
  how a name goes to the host and comes back, and three places where the reading after a write, or the
  restore from a backup, misjudges what the host holds.
\<close>

section \<open>When a replace is allowed\<close>

abbreviation live_rrset :: "plan_op \<Rightarrow> dns_record list \<Rightarrow> string \<Rightarrow> dns_record list" where
  "live_rrset x live zone \<equiv> filter (same_rrset (op_type x) (op_name x) zone) live"

text \<open>The records, in some order, are the values.\<close>

definition carries :: "dns_record list \<Rightarrow> string list \<Rightarrow> bool" where
  "carries rs vs \<longleftrightarrow> (\<exists>fs. mset fs = mset rs \<and> list_all2 dns_live_matches_canon_value fs vs)"

lemma matching_type:
  "dns_live_matches_canon_value f v \<Longrightarrow> dr_type f \<in> {''A'', ''AAAA'', ''CNAME'', ''MX'', ''TXT''}"
  by (auto simp: dns_live_matches_canon_value_def split: if_splits)

lemma same_type:
  assumes "dns_live_matches_canon_value f v" "dns_live_matches_canon_value g w" "to_lower (dr_type f) = to_lower (dr_type g)"
  shows "dr_type f = dr_type g"
  using matching_type [OF assms(1)] matching_type [OF assms(2)] assms(3)
  by (auto simp: to_lower_def lower_char_def is_upper_def byte_def)

text \<open>Two records of an rrset that carry one value carry the same values.\<close>

lemma match_exchange:
  assumes "dns_live_matches_canon_value f v" "dns_live_matches_canon_value f w" "dns_live_matches_canon_value g v"
    and "to_lower (dr_type f) = to_lower (dr_type g)"
  shows "dns_live_matches_canon_value g w"
  using assms(1-3) same_type [OF assms(1,3,4)]
  by (auto simp: dns_live_matches_canon_value_def equal_fold_def split: if_splits option.splits)

lemma claim_lines_sound:
  "claim_lines m used dvs = Inr ls \<Longrightarrow>
     \<exists>fs. ls = map dr_line fs \<and> list_all2 dns_live_matches_canon_value fs dvs \<and> set fs \<subseteq> set m
        \<and> distinct ls \<and> set ls \<inter> set used = {}"
proof (induction dvs arbitrary: used ls)
  case (Cons dv dvs)
  from Cons.prems obtain f ls' where f: "List.find (\<lambda>f. dr_line f \<notin> set used \<and> dns_live_matches_canon_value f dv) m = Some f"
      and ls': "claim_lines m (dr_line f # used) dvs = Inr ls'" "ls = dr_line f # ls'"
    by (auto simp: bindr_ok_iff split: option.splits)
  from Cons.IH [OF ls'(1)] obtain fs where "ls' = map dr_line fs" "list_all2 dns_live_matches_canon_value fs dvs"
      "set fs \<subseteq> set m" "distinct ls'" "set ls' \<inter> set (dr_line f # used) = {}" by blast
  then show ?case using f ls'(2) by (intro exI [of _ "f # fs"]) (auto simp: find_Some_iff)
qed simp

lemma swap_in_list:
  assumes "list_all2 R fs vs" "distinct (g # fs)" "\<And>v. R f v \<Longrightarrow> R g v"
  shows "list_all2 R (map (\<lambda>h. if h = f then g else h) fs) vs \<and> distinct (map (\<lambda>h. if h = f then g else h) fs)
    \<and> set (map (\<lambda>h. if h = f then g else h) fs) \<subseteq> insert g (set fs) - {f}
       \<union> (if g = f then {f} else {})"
proof -
  have "list_all2 R (map (\<lambda>h. if h = f then g else h) fs) vs"
    using assms(1,3) by (auto simp: list_all2_conv_all_nth)
  moreover have "distinct (map (\<lambda>h. if h = f then g else h) fs)"
    using assms(2) by (auto simp: distinct_map inj_on_def)
  ultimately show ?thesis by auto
qed

lemma claim_lines_complete:
  assumes lines: "distinct (map dr_line m)" and types: "\<forall>f\<in>set m. \<forall>g\<in>set m. to_lower (dr_type f) = to_lower (dr_type g)"
    and "distinct fs" "set fs \<subseteq> {f \<in> set m. dr_line f \<notin> set used}" "list_all2 dns_live_matches_canon_value fs dvs"
  shows "\<exists>ls. claim_lines m used dvs = Inr ls"
  using assms(3-)
proof (induction dvs arbitrary: used fs)
  case (Cons dv dvs)
  then obtain g fs' where fs: "fs = g # fs'" by (cases fs) auto
  have g: "g \<in> set m" "dr_line g \<notin> set used" "dns_live_matches_canon_value g dv"
    and rest: "list_all2 dns_live_matches_canon_value fs' dvs" using Cons.prems fs by auto
  obtain f where f: "List.find (\<lambda>f. dr_line f \<notin> set used \<and> dns_live_matches_canon_value f dv) m = Some f"
    using g by (cases "List.find (\<lambda>f. dr_line f \<notin> set used \<and> dns_live_matches_canon_value f dv) m")
       (auto simp: find_None_iff)
  then have f': "f \<in> set m" "dr_line f \<notin> set used" "dns_live_matches_canon_value f dv"
    by (auto simp: find_Some_iff)
  have line_inj: "h = f" if "h \<in> set m" "dr_line h = dr_line f" for h
    using lines that f'(1) by (auto simp: distinct_map dest: inj_onD)
  have "dns_live_matches_canon_value g v" if "dns_live_matches_canon_value f v" for v
    using match_exchange [OF f'(3) that g(3)] types f'(1) g(1) by blast
  from swap_in_list [OF rest _ this] Cons.prems(1) fs
  obtain hs where hs: "list_all2 dns_live_matches_canon_value hs dvs" "distinct hs"
      "set hs \<subseteq> insert g (set fs') - {f} \<union> (if g = f then {f} else {})" "f \<notin> set fs' \<or> g \<noteq> f \<or> f \<notin> set hs" "hs = map (\<lambda>h. if h = f then g else h) fs'"
    by auto
  have "f \<notin> set hs" using hs(5) Cons.prems(1) fs by auto
  then have "set hs \<subseteq> {h \<in> set m. dr_line h \<notin> set (dr_line f # used)}"
    using hs(3) Cons.prems(2) g line_inj unfolding fs by (auto split: if_splits)
  from Cons.IH [OF hs(2) this hs(1)] f show ?case by auto
qed simp

lemma live_rrset_types: "\<forall>f\<in>set (live_rrset x live zone). \<forall>g\<in>set (live_rrset x live zone). to_lower (dr_type f) = to_lower (dr_type g)"
  by (auto simp: same_rrset_def equal_fold_def)

lemma claim_lines_carries:
  assumes "distinct (map dr_line live)" and len: "length (live_rrset x live zone) = length vs"
  shows "case claim_lines (live_rrset x live zone) [] vs of
      Inr ls \<Rightarrow> carries (live_rrset x live zone) vs \<and> mset ls = mset (map dr_line (live_rrset x live zone))
    | Inl dv \<Rightarrow> \<not> carries (live_rrset x live zone) vs"
proof -
  let ?m = "live_rrset x live zone"
  have lines: "distinct (map dr_line ?m)" using assms(1) by (rule distinct_map_filter)
  then have m: "distinct ?m" by (simp add: distinct_map)
  show ?thesis
  proof (cases "claim_lines ?m [] vs")
    case (Inr ls)
    from claim_lines_sound [OF Inr] obtain fs where fs: "ls = map dr_line fs"
      "list_all2 dns_live_matches_canon_value fs vs" "set fs \<subseteq> set ?m" "distinct ls" by blast
    have "distinct fs" using fs(1,4) by (simp add: distinct_map)
    moreover have "length fs = length ?m" using fs(2) len by (simp add: list_all2_lengthD)
    ultimately have "set fs = set ?m" using fs(3) m by (metis card_subset_eq distinct_card finite_set)
    then have "mset fs = mset ?m" using \<open>distinct fs\<close> m set_eq_iff_mset_eq_distinct by blast
    then show ?thesis using fs(1,2) Inr by (auto simp: carries_def)
  next
    case (Inl dv)
    have "\<not> carries ?m vs"
    proof
      assume "carries ?m vs"
      then obtain fs where fs: "mset fs = mset ?m" "list_all2 dns_live_matches_canon_value fs vs"
        by (auto simp: carries_def)
      have "distinct fs" "set fs = set ?m" using fs(1) m by (metis mset_eq_imp_distinct_iff, metis mset_eq_setD)
      with claim_lines_complete [OF lines live_rrset_types, of fs "[]" vs] fs(2) Inl show False by auto
    qed
    then show ?thesis using Inl by simp
  qed
qed

text \<open>C34. When a replace may touch the zone. The live rrset is compared with the plan: a replace goes
  ahead if and only if the live records are, one by one, the values the plan saw, and not all desired
  records are there already; then the lines it removes are exactly the lines of the live rrset. It is
  skipped only when everything desired is there, and refused only when there is no rrset or the records
  are not those of the plan.\<close>

theorem replace_allowed_iff:
  assumes "distinct (map dr_line live)"
  shows "case dns_replace_precondition x live zone of
      Inr lines \<Rightarrow> live_rrset x live zone \<noteq> [] \<and> carries (live_rrset x live zone) (op_destination_values x)
        \<and> \<not> dns_verify_add_op_present x (live_rrset x live zone) zone
        \<and> mset lines = mset (map dr_line (live_rrset x live zone))
    | Inl (st, reason) \<Rightarrow>
        (if st = DSkipped then dns_verify_add_op_present x (live_rrset x live zone) zone
         else st = DRefused \<and> (live_rrset x live zone = [] \<or> \<not> carries (live_rrset x live zone) (op_destination_values x)))"
proof -
  let ?m = "live_rrset x live zone" and ?old = "op_destination_values x"
  have short: "\<not> carries ?m ?old" if "length ?m \<noteq> length ?old"
    using that unfolding carries_def by (metis list_all2_lengthD mset_eq_length)
  consider "?m = []" | "?m \<noteq> []" "length ?m \<noteq> length ?old"
    | "?m \<noteq> []" "length ?m = length ?old" "dns_verify_add_op_present x ?m zone"
    | "?m \<noteq> []" "length ?m = length ?old" "\<not> dns_verify_add_op_present x ?m zone" by blast
  then show ?thesis
  proof cases
    case 2
    then show ?thesis using short by (auto simp: dns_replace_precondition_def Let_def)
  next
    case 4
    then show ?thesis using claim_lines_carries [OF assms 4(2)]
      by (auto simp: dns_replace_precondition_def Let_def dns_verify_add_op_present_def split: sum.splits)
  qed (auto simp: dns_replace_precondition_def Let_def dns_verify_add_op_present_def)
qed

definition demo_address :: "int \<Rightarrow> string \<Rightarrow> string \<Rightarrow> dns_record" where
  "demo_address line name a =
     \<lparr>dr_type = ''A'', dr_name = name, dr_ttl = 300, dr_value = a, dr_priority = 0, dr_exchange = [], dr_address = a,
      dr_target = [], dr_txtdata = [], dr_class = [], dr_line = line, dr_raw = []\<rparr>"

definition demo_planned :: "string \<Rightarrow> string \<Rightarrow> plan_record" where
  "demo_planned name a = \<lparr>pl_name = name, pl_type = ''A'', pl_ttl = 300, pl_data = [a]\<rparr>"

definition demo_replace :: "string list \<Rightarrow> string list \<Rightarrow> plan_op" where
  "demo_replace new old =
     \<lparr>op_action = Replace, op_type = ''A'', op_name = ''w.a.it.'', op_reason = [], op_records = map (demo_planned ''w.a.it.'') new,
      op_source_values = [], op_destination_values = old, op_ttl_capped = False\<rparr>"

lemma replace_allowed_iff_witness:
  "let live = [demo_address 3 ''w'' ''1.1.1.1'', demo_address 4 ''w'' ''2.2.2.2'', demo_address 5 ''v'' ''9.9.9.9''];
       x = demo_replace [''3.3.3.3''] [''2.2.2.2'', ''1.1.1.1'']
   in dns_replace_precondition x live ''a.it'' = Inr [4, 3] \<and> carries (live_rrset x live ''a.it'') (op_destination_values x)"
proof -
  let ?live = "[demo_address 3 ''w'' ''1.1.1.1'', demo_address 4 ''w'' ''2.2.2.2'', demo_address 5 ''v'' ''9.9.9.9'']"
  let ?x = "demo_replace [''3.3.3.3''] [''2.2.2.2'', ''1.1.1.1'']"
  have "dns_replace_precondition ?x ?live ''a.it'' = Inr [4, 3]" by code_simp
  moreover have "distinct (map dr_line ?live)" by (simp add: demo_address_def)
  ultimately show ?thesis using replace_allowed_iff [of ?live ?x "''a.it''"] by (simp add: Let_def)
qed

section \<open>Names\<close>

lemma suffix_split: "has_suffix c z \<Longrightarrow> c = trim_suffix c z @ z"
  by (auto simp: has_suffix_iff trim_suffix_append)

text \<open>A name below the zone, as the planner writes it: not empty, not the shorthand of the apex, and without
  a dot at its end.\<close>

definition proper_label :: "string \<Rightarrow> bool" where
  "proper_label rel \<longleftrightarrow> rel \<noteq> [] \<and> rel \<noteq> ''@'' \<and> \<not> has_suffix rel ''.''"

lemma has_suffix_append [simp]: "has_suffix (s @ p) p"
  by (auto simp: has_suffix_iff)

lemma to_lower_eq_Nil [simp]: "to_lower s = [] \<longleftrightarrow> s = []"
  by (simp add: to_lower_def)

lemma apex_named:
  assumes "to_lower c = to_lower zone @ ''.''"
  shows "dns_canon_to_relative c zone = to_lower zone @ ''.''
    \<and> dns_canon_live_name (dns_canon_to_relative c zone) zone = to_lower c"
  using assms by (auto simp: dns_canon_to_relative_def dns_canon_live_name_def to_lower_idem to_lower_append
      Let_def append_eq_Cons_conv to_lower_def lower_char_def is_upper_def byte_def)

lemma relative_named:
  assumes c: "to_lower c = rel @ ''.'' @ to_lower zone @ ''.''" and rel: "proper_label rel"
  shows "dns_canon_to_relative c zone = rel \<and> dns_canon_live_name (dns_canon_to_relative c zone) zone = to_lower c"
proof -
  have low: "to_lower rel = rel"
  proof -
    have "to_lower rel @ to_lower (''.'' @ to_lower zone @ ''.'') = rel @ ''.'' @ to_lower zone @ ''.''"
      using c by (metis to_lower_append to_lower_idem)
    then show ?thesis by (metis append_eq_append_conv length_to_lower)
  qed
  have "to_lower c \<noteq> to_lower zone @ ''.''" using c rel by (auto simp: proper_label_def)
  moreover have "has_suffix (to_lower c) (''.'' @ to_lower zone @ ''.'')" using c by simp
  ultimately have "dns_canon_to_relative c zone = rel"
    using c by (simp add: dns_canon_to_relative_def Let_def trim_suffix_append del: append_assoc append.simps)
  then show ?thesis using rel low c by (simp add: dns_canon_live_name_def proper_label_def)
qed

definition in_zone :: "string \<Rightarrow> string \<Rightarrow> bool" where
  "in_zone c zone \<longleftrightarrow>
     to_lower c = to_lower zone @ ''.'' \<or> (\<exists>rel. proper_label rel \<and> to_lower c = rel @ ''.'' @ to_lower zone @ ''.'')"

text \<open>The name of a record goes to the host and comes back. A canonical name of the zone is sent in
  the form the host accepts (relative, and the apex never as the shorthand the host refuses), and the
  name the host then lists is read as the name that was sent, so a written record is found again.\<close>

theorem names_survive_host:
  assumes "in_zone c zone"
  shows "dns_canon_live_name (dns_canon_to_relative c zone) zone = to_lower c \<and> dns_canon_to_relative c zone \<noteq> ''@''"
  using assms unfolding in_zone_def
proof (elim disjE exE conjE)
  assume "to_lower c = to_lower zone @ ''.''"
  with apex_named [OF this] show ?thesis by (auto simp: append_eq_Cons_conv)
next
  fix rel assume "proper_label rel" "to_lower c = rel @ ''.'' @ to_lower zone @ ''.''"
  with relative_named [OF this(2,1)] show ?thesis by (metis proper_label_def)
qed

lemma names_survive_host_witness:
  "dns_canon_live_name (dns_canon_to_relative ''Mail.A.it.'' ''a.it'') ''a.it'' = ''mail.a.it.'' \<and>
   dns_canon_to_relative ''Mail.A.it.'' ''a.it'' \<noteq> ''@''"
proof -
  have low: "to_lower ''Mail.A.it.'' = ''mail.a.it.''" by code_simp
  have "to_lower ''Mail.A.it.'' = ''mail'' @ ''.'' @ to_lower ''a.it'' @ ''.''" by code_simp
  moreover have "proper_label ''mail''" by code_simp
  ultimately have "in_zone ''Mail.A.it.'' ''a.it''" unfolding in_zone_def by blast
  from names_survive_host [OF this] show ?thesis unfolding low .
qed

section \<open>Misjudged readings\<close>

lemma nul_not_in_itoa: "hd nul \<notin> set (itoa i)"
  using itoa_no_control [of "hd nul" i] by (auto simp: nul_def byte_def)

lemma cut_nul: "cut_byte (hd nul) (itoa n @ nul @ e) = Some (itoa n, e)"
proof -
  have "\<forall>c\<in>set (itoa n). c \<noteq> CHR 0x00" using nul_not_in_itoa [of n] by (auto simp: nul_def)
  then show ?thesis by (simp add: cut_byte_def nul_def takeWhile_append dropWhile_append)
qed

lemma upper_lower_char: "upper_char (lower_char c) = upper_char c"
  by (auto simp: lower_char_def upper_char_def is_upper_def is_lower_def byte_char_of) (simp add: byte_def)

lemma desired_match:
  assumes "desired_value rec = Inr v" "dns_data_match rec f" "dr_type f = pl_type rec" "pl_type rec \<in> set actionable_types"
  shows "dns_live_matches_canon_value f v"
  using assms cut_nul
  by (auto simp: desired_value_def dns_data_match_def dns_live_matches_canon_value_def actionable_types_def Let_def
      length_Suc_conv numeral_2_eq_2 equal_fold_def join_Nil_concat split: if_splits list.splits)

text \<open>C35. A replace that keeps one of the old values is reported as failed, whatever was done. When a
  desired record is also one of the values the plan saw on the destination (one of two mail exchangers
  changes, the other stays), the reading after the edit that shows the desired record shows an old value
  as well, and the operation is called failed; with exactly the desired records in the zone too.\<close>

theorem overlapping_replace_fails:
  assumes "op_action x = Replace" "op_type x \<in> set actionable_types"
    and rec: "rec \<in> set (op_records x)" "pl_type rec = op_type x" "pl_name rec = op_name x"
    and v: "desired_value rec = Inr v" "v \<in> set (op_destination_values x)"
    and fresh: "list_all (\<lambda>f. dr_type f = to_upper (dr_type f)) fresh"
  shows "fst (planned_status (Fresh fresh) zone x) = DFailed"
proof (cases "dns_verify_add_op_present x fresh zone")
  case True
  then obtain f where f: "f \<in> set fresh" "same_rrset (op_type x) (op_name x) zone f" "dns_data_match rec f"
    using rec by (auto simp: dns_verify_add_op_present_def dns_record_present_def list_all_iff list_ex_iff)
  have "dr_type f = pl_type rec"
  proof -
    have "dr_type f = to_upper (dr_type f)" using f(1) fresh by (simp add: list_all_iff)
    also have "\<dots> = to_upper (to_lower (dr_type f))" by (simp add: to_upper_def to_lower_def upper_lower_char)
    also have "to_lower (dr_type f) = to_lower (op_type x)" using f(2) by (simp add: same_rrset_def equal_fold_def)
    finally have "dr_type f = to_upper (to_lower (op_type x))" .
    moreover have "list_all (\<lambda>t. to_upper (to_lower t) = t) actionable_types" by code_simp
    then have "to_upper (to_lower (op_type x)) = op_type x" using assms(2) by (simp add: list_all_iff)
    ultimately show ?thesis using rec(2) by simp
  qed
  then have "dns_live_matches_canon_value f v"
    using desired_match [OF v(1) f(3)] assms(2) rec(2) by simp
  then have "dns_old_values_still_present x fresh zone"
    using f v(2) by (auto simp: dns_old_values_still_present_def list_ex_iff)
  with True assms(1) show ?thesis by (simp add: planned_status_def case_prod_beta)
qed (simp add: planned_status_def case_prod_beta)


text \<open>An apex with two TXT records, of which the destination has one: the planner plans the replace, and
  the zone that holds exactly what was planned is judged a failure.\<close>

definition demo_txt :: "int \<Rightarrow> string \<Rightarrow> dns_record" where
  "demo_txt line t =
     \<lparr>dr_type = ''TXT'', dr_name = ''a.it.'', dr_ttl = 300, dr_value = t, dr_priority = 0, dr_exchange = [], dr_address = [],
      dr_target = [], dr_txtdata = t, dr_class = [], dr_line = line, dr_raw = []\<rparr>"

definition demo_txt_op :: plan_op where
  "demo_txt_op =
     \<lparr>op_action = Replace, op_type = ''TXT'', op_name = ''a.it.'', op_reason = [],
      op_records = [\<lparr>pl_name = ''a.it.'', pl_type = ''TXT'', pl_ttl = 300, pl_data = [''g=1'']\<rparr>,
        \<lparr>pl_name = ''a.it.'', pl_type = ''TXT'', pl_ttl = 300, pl_data = [''v=spf1 a'']\<rparr>],
      op_source_values = [''g=1'', ''v=spf1 a''], op_destination_values = [''g=1'', ''v=spf1 b''], op_ttl_capped = False\<rparr>"

lemma overlapping_replace_fails_witness:
  "let live = [demo_txt 1 ''v=spf1 b'', demo_txt 2 ''g=1'']; after = [demo_txt 1 ''v=spf1 a'', demo_txt 2 ''g=1'']
   in map_option pz_ops (build_zone_plan ''a.it'' after live []) = Some [demo_txt_op]
    \<and> dns_replace_precondition demo_txt_op live ''a.it'' = Inr [2, 1]
    \<and> fst (planned_status (Fresh after) ''a.it'' demo_txt_op) = DFailed"
proof -
  let ?live = "[demo_txt 1 ''v=spf1 b'', demo_txt 2 ''g=1'']" and ?after = "[demo_txt 1 ''v=spf1 a'', demo_txt 2 ''g=1'']"
  have "map_option pz_ops (build_zone_plan ''a.it'' ?after ?live []) = Some [demo_txt_op]" by code_simp
  moreover have "dns_replace_precondition demo_txt_op ?live ''a.it'' = Inr [2, 1]" by code_simp
  moreover have "fst (planned_status (Fresh ?after) ''a.it'' demo_txt_op) = DFailed"
  proof (rule overlapping_replace_fails)
    show "op_action demo_txt_op = Replace" "op_type demo_txt_op \<in> set actionable_types"
      by (simp_all add: demo_txt_op_def actionable_types_def)
    show "hd (op_records demo_txt_op) \<in> set (op_records demo_txt_op)"
        "pl_type (hd (op_records demo_txt_op)) = op_type demo_txt_op" "pl_name (hd (op_records demo_txt_op)) = op_name demo_txt_op"
        "''g=1'' \<in> set (op_destination_values demo_txt_op)"
      by (simp_all add: demo_txt_op_def)
    show "desired_value (hd (op_records demo_txt_op)) = Inr ''g=1''" by code_simp
    show "list_all (\<lambda>f. dr_type f = to_upper (dr_type f)) ?after" by code_simp
  qed
  ultimately show ?thesis by (simp add: Let_def)
qed

text \<open>Restoring a long TXT value writes one segment, whatever its length; the plan splits it.\<close>

lemma restore_keeps_one_segment:
  "dr_type e = ''TXT'' \<Longrightarrow> pl_data (backup_entry_to_plan_record e zone) = [dr_txtdata e]"
  by (simp add: backup_entry_to_plan_record_def)

text \<open>An add without records is malformed, and called applied when another operation of its zone is written.\<close>

lemma malformed_add_applied:
  "op_action x = Add \<Longrightarrow> op_records x = [] \<Longrightarrow>
     fst (planned_status NotEdited zone x) = DFailed \<and> fst (planned_status (Fresh fresh) zone x) = DApplied"
  by (simp add: planned_status_def dns_verify_add_op_present_def)

text \<open>An add is carried out without looking at the zone: what is there already is written again.\<close>

lemma add_ignores_zone: "op_action x = Add \<Longrightarrow> decide_write live zone x = Planned []"
  by (simp add: decide_write_def)

end
