(* ===== verification/DnsUndoLaws.thy ===== *)
theory DnsUndoLaws
  imports DnsCmdLaws
begin

text \<open>
  What a DNS rollback does to a host, whatever the host answers: it edits a zone at most once, directly
  after reading it, and only to take back what the report says was applied.
\<close>

section \<open>The calls of one zone\<close>

definition undo_call :: "dns_host \<Rightarrow> string \<Rightarrow> string \<Rightarrow> dns_record list \<Rightarrow> rollback_target list \<Rightarrow> api_call" where
  "undo_call dh zone serial live ts =
     dns_call ''mass_edit_zone'' (edit_args dh zone serial (rollback_removes live zone ts) (rollback_adds live zone ts))"

lemma no_adds: "\<not> list_ex (restores live zone) ts \<Longrightarrow> rollback_adds live zone ts = []"
  by (auto simp: rollback_adds_def list_ex_iff filter_empty_conv)

lemma undo_zone_cases:
  assumes "undo_zone dh zone serial live ts log = (oc, log')"
  obtains (none) "oc = NotEdited" "log' = log" "rollback_removes live zone ts = []"
    | (error) st reason where "oc = EditError st reason" "st \<noteq> DApplied" "log' = log @ [undo_call dh zone serial live ts]"
    | (blind) e where "oc = RefetchError e" "log' = log @ [undo_call dh zone serial live ts, parse_call zone]"
    | (seen) fresh raw where "oc = Fresh fresh" "log' = log @ [undo_call dh zone serial live ts, parse_call zone]"
        "fst (fetch_dns_zone_raw dh zone (log @ [undo_call dh zone serial live ts])) = Inr (fresh, raw)"
proof (cases "rollback_removes live zone ts = []")
  case True
  with assms show ?thesis by (intro none) (auto simp: undo_zone_def Let_def)
next
  case False
  define run where "run = (if list_ex (restores live zone) ts
      then mass_edit_zone_batch dh zone serial (rollback_removes live zone ts) (rollback_adds live zone ts) log
      else mass_edit_zone_remove dh zone serial (rollback_removes live zone ts) log)"
  obtain res log1 where run: "run = (res, log1)" by fastforce
  have "snd run = log @ [undo_call dh zone serial live ts]"
    by (simp add: run_def edit_log undo_call_def no_adds)
  then have log1: "log1 = log @ [undo_call dh zone serial live ts]" using run by simp
  obtain fr log2 where fr: "fetch_dns_zone_raw dh zone log1 = (fr, log2)" by fastforce
  have log2: "log2 = log @ [undo_call dh zone serial live ts, parse_call zone]"
    using fetch_eqD [OF fr] log1 by simp
  have eq: "(oc, log') = (case res of
       Inl e \<Rightarrow> ((case edit_error e of (st, reason) \<Rightarrow> EditError st reason), log1)
     | Inr new_serial \<Rightarrow> (case fr of Inl e \<Rightarrow> (RefetchError e, log2) | Inr (fresh, raw) \<Rightarrow> (Fresh fresh, log2)))"
    using assms False run fr unfolding undo_zone_def Let_def run_def
    by (cases res; cases fr) (auto split: prod.splits)
  show ?thesis
  proof (cases res)
    case (Inl e)
    then have "oc = EditError (fst (edit_error e)) (snd (edit_error e))" "log' = log1"
      using eq by (simp_all add: case_prod_beta)
    then show ?thesis using error edit_error_not_applied log1 by blast
  next
    case (Inr new_serial)
    then show ?thesis using eq fr log1 log2 blind seen by (cases fr) auto
  qed
qed

section \<open>What a rollback reports\<close>

text \<open>After an edit of the zone it was read again, and the reading shows none of the records the apply had
  written and all the records the backup had.\<close>

definition undone :: "dns_host \<Rightarrow> call_log \<Rightarrow> string \<Rightarrow> rollback_target \<Rightarrow> bool" where
  "undone dh log' zone t \<longleftrightarrow>
     (\<exists>log1 e fresh raw. prefix (log1 @ [e]) log' \<and> is_edit e
        \<and> fst (fetch_dns_zone_raw dh zone (log1 @ [e])) = Inr (fresh, raw)
        \<and> \<not> list_ex (\<lambda>rec. dns_record_present rec fresh zone) (rt_records t)
        \<and> (if rt_replace t then rt_old t \<noteq> [] \<and> list_all (\<lambda>rec. dns_record_present rec fresh zone) (rt_old t) else True))"

definition undo_fine :: "dns_host \<Rightarrow> call_log \<Rightarrow> string \<Rightarrow> rollback_target \<Rightarrow> dns_op_result \<Rightarrow> bool" where
  "undo_fine dh log' zone t r \<longleftrightarrow> (if dor_status r = DApplied then undone dh log' zone t else True)"

lemma undone_mono: "undone dh log1 zone t \<Longrightarrow> prefix log1 log2 \<Longrightarrow> undone dh log2 zone t"
  unfolding undone_def by (meson prefix_order.trans)

lemma undo_fine_mono: "undo_fine dh log1 zone t r \<Longrightarrow> prefix log1 log2 \<Longrightarrow> undo_fine dh log2 zone t r"
  unfolding undo_fine_def using undone_mono by metis

lemma settled_rollback: "decide_rollback live zone t = Settled st reason \<Longrightarrow> st \<noteq> DApplied"
  by (auto simp: decide_rollback_def Let_def split: if_splits)

lemma planned_rollback:
  "decide_rollback live zone t = Planned ls \<Longrightarrow> ls \<noteq> [] \<and> (rt_replace t \<longrightarrow> rt_old t \<noteq> [])"
  by (auto simp: decide_rollback_def Let_def split: if_splits)

lemma rollback_result_fine:
  assumes undo: "undo_zone dh zone serial live ts log = (oc, log')" and t: "t \<in> set ts"
  shows "undo_fine dh log' zone t (rollback_result oc live zone t)"
proof (cases "decide_rollback live zone t")
  case (Settled st reason)
  then show ?thesis using settled_rollback by (simp add: undo_fine_def rollback_result_def)
next
  case (Planned ls)
  then have "ls \<noteq> []" "rt_replace t \<longrightarrow> rt_old t \<noteq> []" using planned_rollback by blast+
  moreover have "rollback_removes live zone ts \<noteq> []"
    using Planned t \<open>ls \<noteq> []\<close> by (auto simp: rollback_removes_def intro!: bexI [of _ t])
  moreover have "undone dh log' zone t" if ok: "fst (rollback_status oc zone t) = DApplied"
    using undo
  proof (cases rule: undo_zone_cases)
    case (seen fresh raw)
    then show ?thesis using ok calculation
      unfolding undone_def
      by (intro exI [of _ log] exI [of _ "undo_call dh zone serial live ts"] exI [of _ fresh] exI [of _ raw])
         (auto simp: rollback_status_def prefix_def undo_call_def split: if_splits)
  qed (use ok calculation in \<open>auto simp: rollback_status_def\<close>)
  ultimately show ?thesis using Planned by (simp add: undo_fine_def rollback_result_def case_prod_beta)
qed

section \<open>A rollback run\<close>

type_synonym zone_undo = "(string \<times> rollback_target list) \<times> dns_record list \<times> string"

definition undo_of :: "dns_host \<Rightarrow> zone_undo \<Rightarrow> api_call" where
  "undo_of dh w = (let ((zone, ts), live, serial) = w in undo_call dh zone serial live ts)"

text \<open>The edit comes directly after the reading it rests on.\<close>

definition read_before :: "dns_host \<Rightarrow> call_log \<Rightarrow> zone_undo \<Rightarrow> bool" where
  "read_before dh log' w \<longleftrightarrow>
     (let ((zone, ts), live, serial) = w in
      \<exists>log1 raw. prefix (log1 @ [parse_call zone, undo_of dh w]) log'
        \<and> fst (fetch_dns_zone_raw dh zone log1) = Inr (live, raw) \<and> extract_soa_serial dh raw = Inr serial)"

definition zone_undone :: "dns_host \<Rightarrow> call_log \<Rightarrow> string \<times> rollback_target list \<Rightarrow> dns_zone_result \<Rightarrow> bool" where
  "zone_undone dh log' zt zr \<longleftrightarrow>
     dzr_zone zr = fst zt \<and> list_all2 (undo_fine dh log' (fst zt)) (snd zt) (dzr_ops zr)"

lemma zone_undone_mono: "zone_undone dh log1 zt zr \<Longrightarrow> prefix log1 log2 \<Longrightarrow> zone_undone dh log2 zt zr"
  unfolding zone_undone_def by (auto elim!: list_all2_mono dest: undo_fine_mono)

lemma read_before_mono: "read_before dh log1 w \<Longrightarrow> prefix log1 log2 \<Longrightarrow> read_before dh log2 w"
  unfolding read_before_def Let_def by (auto intro: prefix_order.trans)

lemma failed_target_fine [simp]: "undo_fine dh log' zone t (failed_target reason t)"
  by (simp add: undo_fine_def failed_target_def)

lemma rollback_zone_calls:
  assumes "rollback_zone dh zt log = (zr, log')"
  shows "\<exists>ws. (ws = [] \<or> (\<exists>l. ws = [(zt, l)])) \<and> edits_in log log' (map (undo_of dh) ws)
      \<and> list_all (read_before dh log') ws \<and> zone_undone dh log' zt zr"
proof -
  obtain zone ts where zt: "zt = (zone, ts)" by (cases zt)
  obtain fr log1 where fr: "fetch_dns_zone_raw dh zone log = (fr, log1)" by fastforce
  have log1: "log1 = log @ [parse_call zone]" by (rule fetch_eqD [OF fr])
  show ?thesis
  proof (cases "\<exists>live raw serial. fr = Inr (live, raw) \<and> extract_soa_serial dh raw = Inr serial")
    case False
    then have "log' = log1 \<and> (\<exists>reason. zr = \<lparr>dzr_zone = zone, dzr_ops = map (failed_target reason) ts, dzr_new_serial = []\<rparr>)"
      using assms zt fr by (auto simp: rollback_zone_def split: sum.splits)
    then show ?thesis
      by (intro exI [of _ "[]"]) (auto simp: zt zone_undone_def log1 edits_in_def list_all2_conv_all_nth)
  next
    case True
    then obtain live raw serial where ok: "fr = Inr (live, raw)" "extract_soa_serial dh raw = Inr serial" by blast
    obtain oc log2 where oc: "undo_zone dh zone serial live ts log1 = (oc, log2)" by fastforce
    have eq: "log' = log2" "zr = \<lparr>dzr_zone = zone, dzr_ops = map (rollback_result oc live zone) ts, dzr_new_serial = []\<rparr>"
      using assms zt fr ok oc by (simp_all add: rollback_zone_def)
    have fine: "zone_undone dh log' zt zr"
      using rollback_result_fine [OF oc] by (simp add: eq zt zone_undone_def list_all2_conv_all_nth)
    have rb: "read_before dh log' (zt, live, serial)" if "prefix (log1 @ [undo_call dh zone serial live ts]) log'"
      using that fr ok log1 unfolding read_before_def by (auto simp: zt undo_of_def)
    from oc have "edits_in log log' [] \<or> edits_in log log' [undo_of dh (zt, live, serial)] \<and> read_before dh log' (zt, live, serial)"
    proof (cases rule: undo_zone_cases)
      case none
      then show ?thesis by (simp add: eq log1 edits_in_def)
    qed (use rb in \<open>auto simp: eq log1 edits_in_def undo_of_def zt undo_call_def prefix_def\<close>)
    then show ?thesis
    proof
      assume "edits_in log log' []"
      then show ?thesis using fine by (intro exI [of _ "[]"]) simp
    next
      assume "edits_in log log' [undo_of dh (zt, live, serial)] \<and> read_before dh log' (zt, live, serial)"
      then show ?thesis using fine by (intro exI [of _ "[(zt, live, serial)]"]) auto
    qed
  qed
qed

lemma rollback_zones_calls:
  assumes "rollback_zones dh zts log = (rs, log')"
  shows "\<exists>ws. subseq (map fst ws) zts \<and> edits_in log log' (map (undo_of dh) ws)
      \<and> list_all (read_before dh log') ws \<and> list_all2 (zone_undone dh log') zts rs"
  using assms
proof (induction zts arbitrary: log log' rs)
  case Nil
  then show ?case by (auto intro!: exI [of _ "[]"])
next
  case (Cons zt zts)
  obtain r log1 where r: "rollback_zone dh zt log = (r, log1)" by fastforce
  obtain rs' log2 where rs': "rollback_zones dh zts log1 = (rs', log2)" by fastforce
  have eq: "rs = r # rs'" "log' = log2" using Cons.prems r rs' by simp_all
  from rollback_zone_calls [OF r] obtain vs where vs: "vs = [] \<or> (\<exists>l. vs = [(zt, l)])"
      "edits_in log log1 (map (undo_of dh) vs)" "list_all (read_before dh log1) vs" "zone_undone dh log1 zt r" by blast
  from Cons.IH [OF rs'] obtain ws where ws: "subseq (map fst ws) zts" "edits_in log1 log2 (map (undo_of dh) ws)"
      "list_all (read_before dh log2) ws" "list_all2 (zone_undone dh log2) zts rs'" by blast
  have later: "prefix log1 log2" using ws(2) by (rule edits_prefix)
  have "subseq (map fst (vs @ ws)) (zt # zts)" using vs(1) ws(1) by auto
  moreover have "edits_in log log2 (map (undo_of dh) (vs @ ws))" using edits_trans [OF vs(2) ws(2)] by simp
  moreover have "list_all (read_before dh log2) (vs @ ws)"
    using list.pred_mono_strong [OF vs(3) read_before_mono [OF _ later]] ws(3) by simp
  moreover have "zone_undone dh log2 zt r" using vs(4) later by (rule zone_undone_mono)
  ultimately show ?case using ws(4) unfolding eq by (intro exI [of _ "vs @ ws"]) simp
qed

text \<open>The targets of a run, by zone; none without a backup of a known format and a report.\<close>

definition rollback_plan ::
  "string + dns_apply_backup \<Rightarrow> string + dns_apply_report \<Rightarrow> (string \<times> rollback_target list) list" where
  "rollback_plan loaded report =
     (case (loaded, report) of
        (Inr bk, Inr rep) \<Rightarrow>
          if dab_format_version bk = 1 then group_by rt_zone (rollback_targets bk (dap_zones rep)) else []
      | _ \<Rightarrow> [])"


end
