(* ===== verification/CmsConfig.thy ===== *)
theory CmsConfig
  imports PhpMask
begin

text \<open>
  The configuration formats of the applications in \<open>internal/dbmig\<close>: how credentials are read
  (\<open>cmsconfig.go\<close>), rewritten in place (\<open>cmsrewrite.go\<close>) and checked by a second opinion
  (\<open>ambiguity.go\<close>). Patterns are those of the code; where it uses the offsets of a match, the match is
  split by groups whose lengths are the offsets.
\<close>

section \<open>Quoted values (extractQuoted, replaceQuotedAfter)\<close>

definition quoted_after :: "rx \<Rightarrow> rx \<Rightarrow> char \<Rightarrow> rx" where
  "quoted_after pre post q = cats [pre, byte_of q, Group 1 (literal_body q), byte_of q, post]"

definition extract_quoted :: "string \<Rightarrow> rx \<Rightarrow> rx \<Rightarrow> string" where
  "extract_quoted content pre post = read_quoted 1 (quoted_after pre post) content"

definition match_quoted :: "rx \<Rightarrow> char \<Rightarrow> rx" where
  "match_quoted pre q = cats [Group 1 (Cat pre (byte_of q)), Group 2 (literal_body q), Group 3 (byte_of q)]"

text \<open>The content is left as it is when there is no such literal.\<close>

definition replace_quoted_after :: "string \<Rightarrow> rx \<Rightarrow> string \<Rightarrow> string" where
  "replace_quoted_after content pre v =
     (case replace_quoted (match_quoted pre) content v of None \<Rightarrow> content | Some t \<Rightarrow> t)"

definition visibility :: rx where
  "visibility = ors [lit ''public'', lit ''protected'', lit ''private'', lit ''var'']"

definition assign_pre :: "string \<Rightarrow> rx" where
  "assign_pre name = cats [opt visibility, spaces, lit (CHR ''$'' # name), spaces, lit ''='', spaces]"

definition php_assign :: "string \<Rightarrow> string \<Rightarrow> string" where
  "php_assign name content = extract_quoted content (assign_pre name) (Cat spaces (lit '';''))"

definition array_key_pre :: "string \<Rightarrow> rx" where
  "array_key_pre key = cats [any_quote, lit key, any_quote, spaces, lit ''=>'', spaces]"

definition php_array_key :: "string \<Rightarrow> string \<Rightarrow> string" where
  "php_array_key key content = extract_quoted content (array_key_pre key) Eps"

definition define_pre :: "string \<Rightarrow> rx" where
  "define_pre name = cats [lit ''define('', spaces, any_quote, lit name, any_quote, spaces, lit '','', spaces]"

definition php_define :: "string \<Rightarrow> string \<Rightarrow> string" where
  "php_define name content = extract_quoted content (define_pre name) Eps"

definition cfg_prop_pre :: "string \<Rightarrow> rx" where
  "cfg_prop_pre prop = cats [lit ''$CFG->'', lit prop, spaces, lit ''='', spaces]"

text \<open>An element of an array variable: \<open>$name['key'] =\<close>.\<close>

definition indexed_pre :: "string \<Rightarrow> string \<Rightarrow> rx" where
  "indexed_pre name key =
     cats [lit (CHR ''$'' # name), spaces, lit ''['', spaces, any_quote, lit key, any_quote, spaces, lit '']'', spaces, lit ''='', spaces]"

definition php_indexed :: "string \<Rightarrow> string \<Rightarrow> string \<Rightarrow> string" where
  "php_indexed name content key = extract_quoted content (indexed_pre name key) Eps"

section \<open>Bounded array blocks (arrayBlockBounds)\<close>

text \<open>How far the closing quote is, from just behind the opening one.\<close>

fun literal_end :: "char \<Rightarrow> string \<Rightarrow> nat option" where
  "literal_end q [] = None"
| "literal_end q [c] = (if c = q \<and> c \<noteq> backslash then Some 0 else None)"
| "literal_end q (c # d # s) =
     (if c = backslash then map_option (\<lambda>n. n + 2) (literal_end q s)
      else if c = q then Some 0
      else map_option Suc (literal_end q (d # s)))"

definition skip_php_string_literal :: "string \<Rightarrow> nat \<Rightarrow> nat" where
  "skip_php_string_literal s i =
     (case literal_end (s ! i) (drop (Suc i) s) of Some n \<Rightarrow> Suc i + n | None \<Rightarrow> length s - 1)"

lemma skip_forward: "i < length s \<Longrightarrow> length s - Suc (skip_php_string_literal s i) < length s - i"
  by (auto simp: skip_php_string_literal_def split: option.split)

function close_from :: "string \<Rightarrow> char \<Rightarrow> char \<Rightarrow> nat \<Rightarrow> nat \<Rightarrow> nat option" where
  "close_from s opener closer i depth =
     (if length s \<le> i then None
      else if is_quote (s ! i) then close_from s opener closer (Suc (skip_php_string_literal s i)) depth
      else if s ! i = opener then close_from s opener closer (Suc i) (Suc depth)
      else if s ! i = closer
      then (if depth \<le> 1 then Some i else close_from s opener closer (Suc i) (depth - 1))
      else close_from s opener closer (Suc i) depth)"
  by pat_completeness auto
termination
  by (relation "measure (\<lambda>(s, opener, closer, i, depth). length s - i)") (auto simp: not_le skip_forward)

declare close_from.simps [simp del]

definition matching_array_close :: "string \<Rightarrow> nat \<Rightarrow> char \<Rightarrow> char \<Rightarrow> nat option" where
  "matching_array_close s body opener closer = close_from s opener closer body 1"

definition closer_of :: "char \<Rightarrow> char" where
  "closer_of opener = (if opener = CHR ''('' then CHR '')'' else CHR '']'')"

definition array_opener :: rx where
  "array_opener = Or (lit ''['') (cats [lit ''array'', spaces, lit ''(''])"

definition array_key_open :: "string \<Rightarrow> rx" where
  "array_key_open key = Cat (array_key_pre key) array_opener"

text \<open>Where the leftmost match ends.\<close>

definition rx_end :: "rx \<Rightarrow> string \<Rightarrow> nat option" where
  "rx_end r s = map_option (\<lambda>(pre, p, t, g). length s - length t) (rx_find r None s)"

definition slice :: "nat \<Rightarrow> nat \<Rightarrow> string \<Rightarrow> string" where
  "slice lo hi s = drop lo (take hi s)"

function child_from :: "string \<Rightarrow> nat \<Rightarrow> rx \<Rightarrow> nat \<Rightarrow> nat \<Rightarrow> nat option" where
  "child_from s hi anchored i depth =
     (if hi \<le> i \<or> length s \<le> i then None
      else if s ! i = CHR ''['' \<or> s ! i = CHR ''('' then child_from s hi anchored (Suc i) (Suc depth)
      else if s ! i = CHR '']'' \<or> s ! i = CHR '')'' then child_from s hi anchored (Suc i) (depth - 1)
      else if is_quote (s ! i)
      then (case (if depth = 0 then rx_end anchored (slice i hi s) else None) of
              Some n \<Rightarrow> Some (i + n)
            | None \<Rightarrow> child_from s hi anchored (Suc (skip_php_string_literal s i)) depth)
      else child_from s hi anchored (Suc i) depth)"
  by pat_completeness auto
termination
  by (relation "measure (\<lambda>(s, hi, anchored, i, depth). length s - i)") (auto simp: not_le skip_forward)

declare child_from.simps [simp del]

definition child_array_key_open :: "string \<Rightarrow> nat \<Rightarrow> nat \<Rightarrow> string \<Rightarrow> nat option" where
  "child_array_key_open s lo hi key = child_from s hi (Cat BeginText (array_key_open key)) lo 0"

text \<open>The first key may stand anywhere, every other one must be a direct child.\<close>

fun walk_blocks :: "string \<Rightarrow> bool \<Rightarrow> nat \<Rightarrow> nat \<Rightarrow> string list \<Rightarrow> (nat \<times> nat) option" where
  "walk_blocks s first lo hi [] = Some (lo, hi)"
| "walk_blocks s first lo hi (k # ks) =
     (case (if first then map_option (\<lambda>n. lo + n) (rx_end (array_key_open k) (slice lo hi s))
            else child_array_key_open s lo hi k) of
        None \<Rightarrow> None
      | Some body \<Rightarrow>
          (let opener = s ! (body - 1)
           in case matching_array_close s body opener (closer_of opener) of
                None \<Rightarrow> None
              | Some end \<Rightarrow> walk_blocks s False body end ks))"

definition array_block_bounds :: "string \<Rightarrow> string list \<Rightarrow> (nat \<times> nat) option" where
  "array_block_bounds content keys =
     (let s = strip_comments content in walk_blocks s True 0 (length s) keys)"

definition block_after :: "string \<Rightarrow> string list \<Rightarrow> string" where
  "block_after content keys =
     (case array_block_bounds content keys of None \<Rightarrow> [] | Some (a, b) \<Rightarrow> slice a b content)"

section \<open>Drupal's block (drupalBlockSpan)\<close>

definition any_text :: rx where "any_text = Lazy (Ch (\<lambda>c. True))"

definition array_end :: rx where
  "array_end = cats [Or (lit '')'') (lit '']''), spaces, lit '';'']"

text \<open>Group 2 is what stands before the body.\<close>

definition drupal_default_rx :: rx where
  "drupal_default_rx =
     cats [Group 2 (cats [lit ''$databases'', spaces, lit ''['', spaces, any_quote, lit ''default'', any_quote, spaces, lit '']'',
             spaces, lit ''['', spaces, any_quote, lit ''default'', any_quote, spaces, lit '']'', spaces, lit ''='', spaces,
             Or (cats [lit ''array'', spaces, lit ''('']) (lit ''['')]),
           Group 1 any_text, array_end]"

definition drupal_any_rx :: rx where
  "drupal_any_rx =
     cats [Group 2 (cats [lit ''$databases'', WordEdge, any_text, Or (cats [lit ''array'', spaces, lit ''('']) (lit ''['')]),
           Group 1 any_text, array_end]"

definition drupal_body_end :: "string \<Rightarrow> nat \<Rightarrow> (nat \<times> nat) option" where
  "drupal_body_end content body =
     (if body = 0 \<or> length content < body then None
      else
        (let opener = content ! (body - 1)
         in map_option (Pair body) (matching_array_close (strip_comments content) body opener (closer_of opener))))"

definition drupal_block_span :: "string \<Rightarrow> (nat \<times> nat) option" where
  "drupal_block_span content =
     (let loc = strip_comments content; ms = rx_find_all drupal_default_rx loc
      in if ms \<noteq> [] then (case last ms of (off, t, g) \<Rightarrow> drupal_body_end content (off + length (rx_group g 2)))
         else (case rx_find drupal_any_rx None loc of
                 None \<Rightarrow> None
               | Some (pre, p, t, g) \<Rightarrow> drupal_body_end content (length pre + length (rx_group g 2))))"

section \<open>.env files (dotEnvScan)\<close>

record env_assign =
  ea_key :: string
  ea_raw :: string
  ea_start :: nat
  ea_end :: nat

definition env_key_char :: "char \<Rightarrow> bool" where
  "env_key_char c \<longleftrightarrow> c = CHR ''_'' \<or> c = CHR ''.'' \<or> is_upper c \<or> is_lower c \<or> is_digit c"

definition next_line :: "string \<Rightarrow> string" where
  "next_line s = drop 1 (dropWhile (\<lambda>c. c \<noteq> newline) s)"

text \<open>The length of a quoted value behind its opening quote, the closing one included; nothing when it is
  not closed.\<close>

fun quoted_extent :: "char \<Rightarrow> string \<Rightarrow> nat option" where
  "quoted_extent q [] = None"
| "quoted_extent q [c] = (if q \<noteq> quote2 \<and> c = newline then None else if c = q then Some 1 else None)"
| "quoted_extent q (c # d # s) =
     (if q = quote2 \<and> c = backslash then map_option (\<lambda>n. n + 2) (quoted_extent q s)
      else if q \<noteq> quote2 \<and> c = newline then None
      else if c = q then Some 1
      else map_option Suc (quoted_extent q (d # s)))"

definition env_export :: "string \<Rightarrow> string" where
  "env_export t =
     (if has_prefix t ''export'' \<and> 6 < length t \<and> blank_or_tab (t ! 6) then dropWhile blank_or_tab (drop 6 t) else t)"

text \<open>An assignment on the line, if it is one: its key, and the text behind the equals sign.\<close>

definition env_assignment :: "string \<Rightarrow> (string \<times> string) option" where
  "env_assignment t =
     (let u = env_export t; key = takeWhile env_key_char u; v = dropWhile blank_or_tab (drop (length key) u)
      in if key = [] \<or> v = [] \<or> hd v \<noteq> CHR ''='' then None else Some (key, tl v))"

definition env_value :: "string \<Rightarrow> string option" where
  "env_value m =
     (let p = dropWhile blank_or_tab m
      in if p \<noteq> [] \<and> is_quote (hd p)
         then map_option (\<lambda>n. take (length m - length p + 1 + n) m) (quoted_extent (hd p) (tl p))
         else Some (takeWhile (\<lambda>c. c \<noteq> newline) m))"

lemma next_line_le: "length (next_line s) \<le> length s"
  using length_dropWhile_le [of "\<lambda>c. c \<noteq> newline" s] by (simp add: next_line_def)

lemma next_line_less: "s \<noteq> [] \<Longrightarrow> length (next_line s) < length s"
proof -
  assume "s \<noteq> []"
  then have "0 < length s" by simp
  with length_dropWhile_le [of "\<lambda>c. c \<noteq> newline" s] show ?thesis
    unfolding next_line_def length_drop by linarith
qed

lemma env_export_le: "length (env_export t) \<le> length t"
  using length_dropWhile_le [of blank_or_tab "drop 6 t"] unfolding env_export_def length_drop by (auto split: if_splits)

lemma env_assignment_shorter: "env_assignment t = Some (key, m) \<Longrightarrow> length m < length t"
proof -
  assume a: "env_assignment t = Some (key, m)"
  let ?v = "dropWhile blank_or_tab (drop (length (takeWhile env_key_char (env_export t))) (env_export t))"
  have v: "?v \<noteq> []" "m = tl ?v" using a by (auto simp: env_assignment_def Let_def split: if_splits)
  have "length ?v \<le> length t"
    using length_dropWhile_le [of blank_or_tab] env_export_le [of t] by (metis diff_le_self le_trans length_drop)
  with v show ?thesis by (cases ?v) auto
qed

text \<open>\<open>n\<close> is the length of the whole text, so that positions can be told from what is left.\<close>

function env_scan :: "nat \<Rightarrow> string \<Rightarrow> env_assign list option" where
  "env_scan n s =
     (if s = [] then Some []
      else
        (let t = dropWhile blank_or_tab s
         in if t = [] \<or> hd t = newline \<or> hd t = CHR ''#'' then env_scan n (next_line t)
            else
              (case env_assignment t of
                 None \<Rightarrow> env_scan n (next_line t)
               | Some (key, m) \<Rightarrow>
                   (case env_value m of
                      None \<Rightarrow> None
                    | Some v \<Rightarrow>
                        map_option ((#) \<lparr>ea_key = key, ea_raw = trim_space v, ea_start = n - length m,
                                         ea_end = n - length m + length v\<rparr>)
                          (env_scan n (next_line (drop (length v) m)))))))"
  by pat_completeness auto
termination
proof (relation "measure (\<lambda>(n, s). length s)", goal_cases)
  case (2 n s t)
  then have "length t \<le> length s" using length_dropWhile_le by simp
  then show ?case using 2 next_line_less [of t] by (cases "t = []") (auto simp: next_line_def)
next
  case (3 n s t)
  then have "length t \<le> length s" "t \<noteq> []" using length_dropWhile_le by auto
  then show ?case using next_line_less [of t] by simp
next
  case (4 n s t x key m v)
  then have "length m < length t" "length t \<le> length s" using env_assignment_shorter length_dropWhile_le by auto
  then show ?case using next_line_le [of "drop (length v) m"] by simp
qed simp

declare env_scan.simps [simp del]

definition dot_env_scan :: "string \<Rightarrow> env_assign list option" where
  "dot_env_scan content = env_scan (length content) content"

fun unquote_double :: "string \<Rightarrow> string" where
  "unquote_double [] = []"
| "unquote_double [c] = (if c = quote2 then [] else [c])"
| "unquote_double (c # d # s) =
     (if c = backslash \<and> (d = quote2 \<or> d = backslash) then d # unquote_double s
      else if c = quote2 then []
      else c # unquote_double (d # s))"

definition dot_env_unquote :: "string \<Rightarrow> string" where
  "dot_env_unquote raw =
     (case raw of
        [] \<Rightarrow> []
      | c # s \<Rightarrow>
          if c = quote1 then takeWhile (\<lambda>d. d \<noteq> quote1) s
          else if c = quote2 then unquote_double s
          else takeWhile (\<lambda>d. \<not> (blank_or_tab d \<or> d = CHR ''#'')) raw)"

text \<open>The last assignment of the key, which is the one the runtime binds.\<close>

definition last_assign :: "string \<Rightarrow> env_assign list \<Rightarrow> env_assign option" where
  "last_assign key as = last_with ea_key key as"

definition dot_env_value :: "string \<Rightarrow> string \<Rightarrow> string" where
  "dot_env_value content key =
     (case dot_env_scan content of
        None \<Rightarrow> []
      | Some as \<Rightarrow>
          (case last_assign key as of None \<Rightarrow> [] | Some a \<Rightarrow> dot_env_unquote (trim_space (ea_raw a))))"

definition dot_env_quote :: "string \<Rightarrow> string" where
  "dot_env_quote v =
     (if quote1 \<notin> set v then quote1 # v @ [quote1]
      else if \<not> contains_any v [CHR ''$'', backslash, quote2, newline, CHR 0x0D] then quote2 # v @ [quote2]
      else quote1 # v @ [quote1])"

definition set_dot_env :: "string \<Rightarrow> string \<Rightarrow> string \<Rightarrow> string" where
  "set_dot_env content key v =
     (case dot_env_scan content of
        None \<Rightarrow> content
      | Some as \<Rightarrow>
          (case last_assign key as of
             None \<Rightarrow> content
           | Some a \<Rightarrow> take (ea_start a) content @ dot_env_quote v @ drop (ea_end a) content))"

section \<open>INI files\<close>

definition ini_section_rx :: "string \<Rightarrow> rx" where
  "ini_section_rx name =
     cats [BeginLine, spaces, lit ''['', lit name, lit '']'', spaces, EndLine, Group 1 any_text,
           Or (cats [BeginLine, spaces, lit ''['', some_of (none_of '']''), lit '']'', spaces, EndLine]) EndText]"

definition ini_section :: "string \<Rightarrow> string \<Rightarrow> string" where
  "ini_section content name =
     (case rx_submatch (ini_section_rx name) content of None \<Rightarrow> [] | Some g \<Rightarrow> g 1)"

definition ini_value_rx :: "string \<Rightarrow> rx" where
  "ini_value_rx key = cats [BeginLine, spaces, lit key, spaces, lit ''='', spaces, Group 1 (Many any_on_line), EndLine]"

definition ini_value :: "string \<Rightarrow> string \<Rightarrow> string" where
  "ini_value body key =
     (case rx_submatch (ini_value_rx key) body of
        None \<Rightarrow> [] | Some g \<Rightarrow> trim_cutset (trim_space (g 1)) [quote2, quote1])"

end
