(* ===== verification/CmsKinds.thy ===== *)
theory CmsKinds
  imports CmsConfig
begin

text \<open>
  The applications: one parser each and the order in which they are tried (\<open>cmsconfig.go\<close>), the rewriters
  that exist (\<open>cmsrewrite.go\<close>), the second opinion (\<open>ambiguity.go\<close>) and what is checked of a rewritten
  configuration (\<open>transfer.go\<close>).
\<close>

section \<open>Parsers\<close>

definition creds_of :: "string \<Rightarrow> string \<Rightarrow> string \<Rightarrow> string \<Rightarrow> string \<Rightarrow> creds" where
  "creds_of name user password host table_prefix =
     \<lparr>c_name = name, c_user = user, c_password = password, c_host = host, c_prefix = table_prefix\<rparr>"

definition parse_joomla :: "string \<Rightarrow> creds" where
  "parse_joomla content =
     (let c = creds_of (php_assign ''db'' content) (php_assign ''user'' content) (php_assign ''password'' content)
                (php_assign ''host'' content) (php_assign ''dbprefix'' content)
      in if c_name c \<noteq> [] \<and> contains content ''JConfig'' then c
         else if c_name c \<noteq> [] \<and> php_assign ''dbprefix'' content \<noteq> [] then c
         else no_creds)"

definition parse_drupal :: "string \<Rightarrow> creds" where
  "parse_drupal content =
     (case drupal_block_span content of
        None \<Rightarrow> no_creds
      | Some (a, b) \<Rightarrow>
          (let block = slice a b content
           in creds_of (php_array_key ''database'' block) (php_array_key ''username'' block) (php_array_key ''password'' block)
                (php_array_key ''host'' block) (php_array_key ''prefix'' block)))"

definition parse_dot_env :: "string \<Rightarrow> creds" where
  "parse_dot_env content =
     creds_of (dot_env_value content ''DB_DATABASE'') (dot_env_value content ''DB_USERNAME'')
       (dot_env_value content ''DB_PASSWORD'') (dot_env_value content ''DB_HOST'') []"

definition parse_presta_shop :: "string \<Rightarrow> creds" where
  "parse_presta_shop content =
     creds_of (php_define ''_DB_NAME_'' content) (php_define ''_DB_USER_'' content) (php_define ''_DB_PASSWD_'' content)
       (php_define ''_DB_SERVER_'' content) (php_define ''_DB_PREFIX_'' content)"

definition parse_open_cart :: "string \<Rightarrow> creds" where
  "parse_open_cart content =
     creds_of (php_define ''DB_DATABASE'' content) (php_define ''DB_USERNAME'' content) (php_define ''DB_PASSWORD'' content)
       (php_define ''DB_HOSTNAME'' content) (php_define ''DB_PREFIX'' content)"

definition parse_media_wiki :: "string \<Rightarrow> creds" where
  "parse_media_wiki content =
     creds_of (php_assign ''wgDBname'' content) (php_assign ''wgDBuser'' content) (php_assign ''wgDBpassword'' content)
       (php_assign ''wgDBserver'' content) (php_assign ''wgDBprefix'' content)"

definition parse_phpbb :: "string \<Rightarrow> creds" where
  "parse_phpbb content =
     (let c = creds_of (php_assign ''dbname'' content) (php_assign ''dbuser'' content) (php_assign ''dbpasswd'' content)
                (php_assign ''dbhost'' content) (php_assign ''table_prefix'' content)
      in if c_name c \<noteq> [] \<and> (c_password c \<noteq> [] \<or> contains content ''$dbpasswd'') then c else no_creds)"

definition my_bb_pre :: "string \<Rightarrow> rx" where
  "my_bb_pre key =
     cats [lit ''$config'', spaces, lit ''['', spaces, any_quote, lit ''database'', any_quote, spaces, lit '']'',
           spaces, lit ''['', spaces, any_quote, lit key, any_quote, spaces, lit '']'', spaces, lit ''='', spaces]"

definition parse_my_bb :: "string \<Rightarrow> creds" where
  "parse_my_bb content =
     (let cfg = (\<lambda>key. extract_quoted content (my_bb_pre key) Eps)
      in creds_of (cfg ''database'') (cfg ''username'') (cfg ''password'') (cfg ''hostname'') (cfg ''table_prefix''))"

definition parse_smf :: "string \<Rightarrow> creds" where
  "parse_smf content =
     creds_of (php_assign ''db_name'' content) (php_assign ''db_user'' content) (php_assign ''db_passwd'' content)
       (php_assign ''db_server'' content) (php_assign ''db_prefix'' content)"

definition moodle_cfg_value :: "string \<Rightarrow> string \<Rightarrow> string" where
  "moodle_cfg_value content prop = extract_quoted content (cfg_prop_pre prop) Eps"

definition parse_moodle :: "string \<Rightarrow> creds" where
  "parse_moodle content =
     creds_of (moodle_cfg_value content ''dbname'') (moodle_cfg_value content ''dbuser'') (moodle_cfg_value content ''dbpass'')
       (moodle_cfg_value content ''dbhost'') (moodle_cfg_value content ''prefix'')"

definition parse_dolibarr :: "string \<Rightarrow> creds" where
  "parse_dolibarr content =
     creds_of (php_assign ''dolibarr_main_db_name'' content) (php_assign ''dolibarr_main_db_user'' content)
       (php_assign ''dolibarr_main_db_pass'' content) (php_assign ''dolibarr_main_db_host'' content) []"

definition parse_suite_crm :: "string \<Rightarrow> creds" where
  "parse_suite_crm content =
     (if \<not> contains content ''dbconfig'' then no_creds
      else creds_of (php_array_key ''db_name'' content) (php_array_key ''db_user_name'' content)
             (php_array_key ''db_password'' content) (php_array_key ''db_host_name'' content) [])"

definition parse_mantis_bt :: "string \<Rightarrow> creds" where
  "parse_mantis_bt content =
     creds_of (php_assign ''g_database_name'' content) (php_assign ''g_db_username'' content)
       (php_assign ''g_db_password'' content) (php_assign ''g_hostname'' content) []"

definition parse_nextcloud :: "string \<Rightarrow> creds" where
  "parse_nextcloud content =
     (if \<not> contains content ''$CONFIG'' then no_creds
      else creds_of (php_array_key ''dbname'' content) (php_array_key ''dbuser'' content) (php_array_key ''dbpassword'' content)
             (php_array_key ''dbhost'' content) (php_array_key ''dbtableprefix'' content))"

definition parse_coppermine :: "string \<Rightarrow> creds" where
  "parse_coppermine content =
     (let cfg = php_indexed ''CONFIG'' content
      in creds_of (cfg ''dbname'') (cfg ''dbuser'') (cfg ''dbpass'') (cfg ''dbserver'') (cfg ''table_prefix''))"

definition parse_chamilo :: "string \<Rightarrow> creds" where
  "parse_chamilo content =
     (let cfg = php_indexed ''_configuration'' content
      in creds_of (cfg ''main_database'') (cfg ''db_user'') (cfg ''db_password'') (cfg ''db_host'') [])"

definition parse_piwigo :: "string \<Rightarrow> creds" where
  "parse_piwigo content =
     (let cfg = php_indexed ''conf'' content
      in creds_of (cfg ''db_base'') (cfg ''db_user'') (cfg ''db_password'') (cfg ''db_host'') (cfg ''prefix''))"

definition parse_magento_env :: "string \<Rightarrow> creds" where
  "parse_magento_env content =
     (let block = block_after content [''connection'', ''default'']
      in if block = [] then no_creds
         else creds_of (php_array_key ''dbname'' block) (php_array_key ''username'' block) (php_array_key ''password'' block)
                (php_array_key ''host'' block) (php_array_key ''table_prefix'' content))"

definition parse_typo3 :: "string \<Rightarrow> creds" where
  "parse_typo3 content =
     (let block = block_after content [''Connections'', ''Default'']
      in if block = [] then no_creds
         else creds_of (php_array_key ''dbname'' block) (php_array_key ''user'' block) (php_array_key ''password'' block)
                (php_array_key ''host'' block) [])"

definition parse_concrete :: "string \<Rightarrow> creds" where
  "parse_concrete content =
     (let block = block_after content [''databases'']
      in if block = [] then no_creds
         else creds_of (php_array_key ''database'' block) (php_array_key ''username'' block) (php_array_key ''password'' block)
                (php_array_key ''server'' block) [])"

definition parse_cube_cart :: "string \<Rightarrow> creds" where
  "parse_cube_cart content =
     (let cfg = php_indexed ''glob'' content
      in creds_of (cfg ''dbdatabase'') (cfg ''dbusername'') (cfg ''dbpassword'') (cfg ''dbhost'') (cfg ''dbprefix''))"

definition lime_db_name :: rx where
  "lime_db_name =
     cats [lit ''connectionString'', any_quote, spaces, lit ''=>'', spaces, any_quote, Many (none_of [quote1, quote2]),
           lit ''dbname='', Group 1 (some_of (none_of [CHR '';'', quote1, quote2]))]"

definition parse_lime_survey :: "string \<Rightarrow> creds" where
  "parse_lime_survey content =
     (let name = (case rx_submatch lime_db_name (strip_comments content) of None \<Rightarrow> [] | Some g \<Rightarrow> g 1)
      in if name = [] then no_creds
         else creds_of name (php_array_key ''username'' content) (php_array_key ''password'' content) []
                (php_array_key ''tablePrefix'' content))"

definition parse_matomo_ini :: "string \<Rightarrow> creds" where
  "parse_matomo_ini content =
     (let sec = ini_section content ''database''
      in if sec = [] then no_creds
         else creds_of (ini_value sec ''dbname'') (ini_value sec ''username'') (ini_value sec ''password'')
                (ini_value sec ''host'') (ini_value sec ''tables_prefix''))"

definition all_parsers :: "(cms_kind \<times> (string \<Rightarrow> creds)) list" where
  "all_parsers =
     [(WordPress, wp_parse), (SuiteCRM, parse_suite_crm), (MantisBT, parse_mantis_bt), (Moodle, parse_moodle),
      (Dolibarr, parse_dolibarr), (MyBB, parse_my_bb), (PhpBB, parse_phpbb), (SMF, parse_smf), (Chamilo, parse_chamilo),
      (Piwigo, parse_piwigo), (Coppermine, parse_coppermine), (MediaWiki, parse_media_wiki), (Joomla, parse_joomla),
      (Drupal, parse_drupal), (Nextcloud, parse_nextcloud), (Magento, parse_magento_env), (TYPO3, parse_typo3),
      (Concrete, parse_concrete), (PrestaShop, parse_presta_shop), (OpenCart, parse_open_cart),
      (CubeCart, parse_cube_cart), (LimeSurvey, parse_lime_survey), (Matomo, parse_matomo_ini), (Laravel, parse_dot_env)]"

fun first_recognized :: "(cms_kind \<times> (string \<Rightarrow> creds)) list \<Rightarrow> string \<Rightarrow> creds \<times> cms_kind" where
  "first_recognized [] content = (no_creds, KindUnknown)"
| "first_recognized ((kind, parse) # ps) content =
     (if c_name (parse content) \<noteq> [] then (parse content, kind) else first_recognized ps content)"

definition parse_cms_config :: "string \<Rightarrow> creds \<times> cms_kind" where
  "parse_cms_config content = first_recognized all_parsers content"

section \<open>Rewriters\<close>

text \<open>An empty value leaves a field as it is.\<close>

definition set_three :: "(string \<Rightarrow> string \<Rightarrow> string \<Rightarrow> string) \<Rightarrow> string list \<Rightarrow> string \<Rightarrow> string \<Rightarrow> string \<Rightarrow> string \<Rightarrow> string" where
  "set_three put keys content name user password =
     (let out = (if name \<noteq> [] then put content (keys ! 0) name else content);
          out = (if user \<noteq> [] then put out (keys ! 1) user else out)
      in if password \<noteq> [] then put out (keys ! 2) password else out)"

definition put_quoted :: "(string \<Rightarrow> rx) \<Rightarrow> string \<Rightarrow> string \<Rightarrow> string \<Rightarrow> string" where
  "put_quoted pre content key v = replace_quoted_after content (pre key) v"

definition rewrite_joomla :: "string \<Rightarrow> string \<Rightarrow> string \<Rightarrow> string \<Rightarrow> string" where
  "rewrite_joomla = set_three (put_quoted assign_pre) [''db'', ''user'', ''password'']"

definition rewrite_block ::
    "(nat \<times> nat) option \<Rightarrow> string list \<Rightarrow> string \<Rightarrow> string \<Rightarrow> string \<Rightarrow> string \<Rightarrow> string" where
  "rewrite_block span keys content name user password =
     (case span of
        None \<Rightarrow> content
      | Some (a, b) \<Rightarrow>
          take a content @ set_three (put_quoted array_key_pre) keys (slice a b content) name user password @ drop b content)"

definition rewrite_drupal :: "string \<Rightarrow> string \<Rightarrow> string \<Rightarrow> string \<Rightarrow> string" where
  "rewrite_drupal content = rewrite_block (drupal_block_span content) [''database'', ''username'', ''password''] content"

definition magento_block_span :: "string \<Rightarrow> (nat \<times> nat) option" where
  "magento_block_span content = array_block_bounds content [''connection'', ''default'']"

definition rewrite_magento :: "string \<Rightarrow> string \<Rightarrow> string \<Rightarrow> string \<Rightarrow> string" where
  "rewrite_magento content = rewrite_block (magento_block_span content) [''dbname'', ''username'', ''password''] content"

definition rewrite_presta_shop :: "string \<Rightarrow> string \<Rightarrow> string \<Rightarrow> string \<Rightarrow> string" where
  "rewrite_presta_shop = set_three (put_quoted define_pre) [''_DB_NAME_'', ''_DB_USER_'', ''_DB_PASSWD_'']"

definition rewrite_open_cart :: "string \<Rightarrow> string \<Rightarrow> string \<Rightarrow> string \<Rightarrow> string" where
  "rewrite_open_cart = set_three (put_quoted define_pre) [''DB_DATABASE'', ''DB_USERNAME'', ''DB_PASSWORD'']"

definition rewrite_moodle :: "string \<Rightarrow> string \<Rightarrow> string \<Rightarrow> string \<Rightarrow> string" where
  "rewrite_moodle = set_three (put_quoted cfg_prop_pre) [''dbname'', ''dbuser'', ''dbpass'']"

definition rewrite_dot_env :: "string \<Rightarrow> string \<Rightarrow> string \<Rightarrow> string \<Rightarrow> string" where
  "rewrite_dot_env = set_three set_dot_env [''DB_DATABASE'', ''DB_USERNAME'', ''DB_PASSWORD'']"

text \<open>A rewriter and the parser its result is checked with; the other kinds cannot be rewritten.\<close>

fun site_rewriter :: "cms_kind \<Rightarrow> ((string \<Rightarrow> string \<Rightarrow> string \<Rightarrow> string \<Rightarrow> string) \<times> (string \<Rightarrow> creds)) option" where
  "site_rewriter Joomla = Some (rewrite_joomla, parse_joomla)"
| "site_rewriter Drupal = Some (rewrite_drupal, parse_drupal)"
| "site_rewriter Moodle = Some (rewrite_moodle, parse_moodle)"
| "site_rewriter Magento = Some (rewrite_magento, parse_magento_env)"
| "site_rewriter PrestaShop = Some (rewrite_presta_shop, parse_presta_shop)"
| "site_rewriter OpenCart = Some (rewrite_open_cart, parse_open_cart)"
| "site_rewriter Laravel = Some (rewrite_dot_env, parse_dot_env)"
| "site_rewriter _ = None"

section \<open>The second opinion\<close>

fun first_doubt :: "ambiguity list \<Rightarrow> ambiguity" where
  "first_doubt [] = Provable"
| "first_doubt (a # as) = (if a \<noteq> Provable then a else first_doubt as)"

definition define_ambiguity :: "string \<Rightarrow> string list \<Rightarrow> ambiguity" where
  "define_ambiguity content consts =
     (if has_computed_define_name content then ComputedName
      else first_doubt (map (check_define_constant content) consts))"

definition joomla_prop_anchor :: "string \<Rightarrow> rx" where
  "joomla_prop_anchor name =
     (let name_char = Ch (\<lambda>c. c = backslash \<or> is_upper c \<or> is_lower c \<or> c = CHR ''_'');
          name_part = Ch (\<lambda>c. c = backslash \<or> is_upper c \<or> is_lower c \<or> is_digit c \<or> c = CHR ''_'')
      in cats [visibility, some_of (Ch rx_space), opt (Cat (lit ''readonly'') (some_of (Ch rx_space))),
               opt (cats [opt (lit ''?''), name_char, Many name_part, some_of (Ch rx_space)]),
               lit (CHR ''$'' # name), spaces, lit ''='', spaces])"

definition joomla_ambiguity :: "string \<Rightarrow> ambiguity" where
  "joomla_ambiguity content =
     first_doubt (map (\<lambda>n. check_quoted_cutover content (joomla_prop_anchor n) BindFirst True (php_assign n content) (''Joomla $'' @ n))
       [''db'', ''user'', ''password''])"

definition moodle_ambiguity :: "string \<Rightarrow> ambiguity" where
  "moodle_ambiguity content =
     first_doubt (map (\<lambda>n. check_quoted_cutover content (cfg_prop_pre n) BindLast False (moodle_cfg_value content n) (''Moodle $CFG->'' @ n))
       [''dbname'', ''dbuser'', ''dbpass''])"

definition block_in_non_code :: "string \<Rightarrow> nat \<Rightarrow> nat \<Rightarrow> bool" where
  "block_in_non_code content a b \<longleftrightarrow> \<not> b \<le> a \<and> list_all php_space (slice a b (mask_non_code_and_strings content))"

definition read_array_literal :: "string \<Rightarrow> nat \<Rightarrow> string" where
  "read_array_literal s pos = (case live_literal (drop pos s) of None \<Rightarrow> [] | Some v \<Rightarrow> v)"

definition array_key_dup_divergence :: "string \<Rightarrow> string \<Rightarrow> string \<Rightarrow> string \<Rightarrow> ambiguity" where
  "array_key_dup_divergence block block_strip key label =
     (let locs = filter (\<lambda>(off, t, g). off < length block_strip \<and> block_strip ! off \<noteq> CHR '' '')
                   (rx_find_all (array_key_pre key) block);
          value_at = (\<lambda>(off, t, g). read_array_literal block (off + length t))
      in if length locs \<le> 1 then Provable
         else if value_at (hd locs) \<noteq> value_at (last locs) then DuplicateKey label key (length locs)
         else Provable)"

definition array_kind_ambiguity ::
    "string \<Rightarrow> (string \<Rightarrow> creds) \<Rightarrow> (string \<Rightarrow> (nat \<times> nat) option) \<Rightarrow> string list \<Rightarrow> string \<Rightarrow> ambiguity" where
  "array_kind_ambiguity content parse block_span keys label =
     (if (case block_span content of None \<Rightarrow> False | Some (a, b) \<Rightarrow> block_in_non_code content a b) then NonCodeBlock label
      else
        (let masked = mask_non_code content; blind = parse content; aware = parse masked
         in if c_name blind \<noteq> c_name aware \<or> c_user blind \<noteq> c_user aware \<or> c_password blind \<noteq> c_password aware
            then OtherBlock label
            else
              (case block_span masked of
                 None \<Rightarrow> Provable
               | Some (a, b) \<Rightarrow>
                   first_doubt (map (\<lambda>k. array_key_dup_divergence (slice a b masked)
                     (slice a b (mask_non_code_and_strings content)) k label) keys))))"

text \<open>\<open>None\<close>: the kind is not covered.\<close>

fun config_ambiguity :: "cms_kind \<Rightarrow> string \<Rightarrow> ambiguity option" where
  "config_ambiguity WordPress content = Some (define_ambiguity content [''DB_NAME'', ''DB_USER'', ''DB_PASSWORD''])"
| "config_ambiguity PrestaShop content = Some (define_ambiguity content [''_DB_NAME_'', ''_DB_USER_'', ''_DB_PASSWD_''])"
| "config_ambiguity OpenCart content = Some (define_ambiguity content [''DB_DATABASE'', ''DB_USERNAME'', ''DB_PASSWORD''])"
| "config_ambiguity Joomla content = Some (joomla_ambiguity content)"
| "config_ambiguity Moodle content = Some (moodle_ambiguity content)"
| "config_ambiguity Laravel content = Some Provable"
| "config_ambiguity Drupal content =
     Some (array_kind_ambiguity content parse_drupal drupal_block_span [''database'', ''username'', ''password''] ''Drupal default-connection'')"
| "config_ambiguity Magento content =
     Some (array_kind_ambiguity content parse_magento_env magento_block_span [''dbname'', ''username'', ''password''] ''Magento db connection'')"
| "config_ambiguity _ content = None"

section \<open>Checking a configuration (transfer.go)\<close>

definition creds_set :: "creds \<Rightarrow> string \<Rightarrow> string \<Rightarrow> string \<Rightarrow> bool" where
  "creds_set got name user password \<longleftrightarrow>
     (name = [] \<or> c_name got = name) \<and> (user = [] \<or> c_user got = user) \<and> (password = [] \<or> c_password got = password)"

definition wp_creds_match :: "string \<Rightarrow> string \<Rightarrow> string \<Rightarrow> string \<Rightarrow> bool" where
  "wp_creds_match content name user password \<longleftrightarrow>
     (let got = wp_parse content
      in \<not> (name \<noteq> [] \<and> c_name got \<noteq> name) \<and> \<not> (user \<noteq> [] \<and> c_user got \<noteq> user)
         \<and> \<not> (password \<noteq> [] \<and> c_password got \<noteq> password))"

fun parse_config_by_kind :: "cms_kind \<Rightarrow> string \<Rightarrow> creds option" where
  "parse_config_by_kind kind content =
     (if kind = WordPress then Some (wp_parse content)
      else map_option (\<lambda>(rewrite, parse). parse content) (site_rewriter kind))"

datatype creds_fault = WrongName | WrongUser | WrongPassword | RemoteHost

definition check_dest_creds :: "creds \<Rightarrow> string \<Rightarrow> string \<Rightarrow> string \<Rightarrow> creds_fault option" where
  "check_dest_creds got name user password =
     (if c_name got \<noteq> name then Some WrongName
      else if c_user got \<noteq> user then Some WrongUser
      else if password \<noteq> [] \<and> c_password got \<noteq> password then Some WrongPassword
      else if \<not> is_local_db_host (c_host got) then Some RemoteHost
      else None)"

end
