(* ===== verification/CmsLaws.thy ===== *)
theory CmsLaws
  imports CmsKinds "HOL-Library.Sublist"
begin

text \<open>
  Rewriting a \<open>.env\<close> file: the value that is written is the one that is read back, and every other
  assignment keeps its value (\<open>dot_env_set_then_read\<close>).
\<close>

section \<open>Text up to a stop\<close>

text \<open>A character that is part of no key and no white space stops every loop of an assignment.\<close>

definition stops :: "string \<Rightarrow> bool" where
  "stops u \<longleftrightarrow> (\<exists>c\<in>set u. \<not> env_key_char c \<and> \<not> blank_or_tab c)"

lemma stopsI: "c \<in> set u \<Longrightarrow> \<not> env_key_char c \<Longrightarrow> \<not> blank_or_tab c \<Longrightarrow> stops u"
  by (auto simp: stops_def)

lemma stop_bytes: "\<not> env_key_char newline" "\<not> blank_or_tab newline" "\<not> env_key_char CHR ''=''" "\<not> blank_or_tab CHR ''=''"
  by (simp_all add: env_key_char_def blank_or_tab_def newline_def is_upper_def is_lower_def is_digit_def byte_def)

lemma takeWhile_stop: "stops u \<Longrightarrow> (\<And>c. P c \<Longrightarrow> env_key_char c \<or> blank_or_tab c) \<Longrightarrow> takeWhile P (u @ r) = takeWhile P u"
  unfolding stops_def by (auto intro!: takeWhile_append1)

lemma dropWhile_stop:
  assumes "stops u" "\<And>c. P c \<Longrightarrow> env_key_char c \<or> blank_or_tab c"
  shows "dropWhile P (u @ r) = dropWhile P u @ r \<and> stops (dropWhile P u)"
proof -
  obtain c where c: "c \<in> set u" "\<not> env_key_char c" "\<not> blank_or_tab c" using assms(1) by (auto simp: stops_def)
  then have np: "\<not> P c" using assms(2) by blast
  have "set u = set (takeWhile P u) \<union> set (dropWhile P u)" by (metis set_append takeWhile_dropWhile_id)
  then have "c \<in> set (dropWhile P u)" using c(1) np by (auto dest: set_takeWhileD)
  with c np show ?thesis using dropWhile_append1 [of c u P r] by (auto intro: stopsI)
qed

lemma export_prefix_stop:
  assumes "stops u"
  shows "has_prefix (u @ r) ''export'' \<longleftrightarrow> has_prefix u ''export''"
proof
  assume "has_prefix (u @ r) ''export''"
  then consider "prefix ''export'' u" | "prefix u ''export''"
    unfolding has_prefix_def by (metis prefixI prefix_same_cases)
  then show "has_prefix u ''export''"
  proof cases
    case 2
    then have "set u \<subseteq> set ''export''" by (rule set_mono_prefix)
    moreover have "\<forall>c\<in>set ''export''. env_key_char c" by (simp add: env_key_char_def is_lower_def byte_def)
    ultimately show ?thesis using assms by (auto simp: stops_def)
  qed (simp add: has_prefix_def)
qed (simp add: has_prefix_def)

lemma export_stop: "stops u \<Longrightarrow> env_export (u @ r) = env_export u @ r \<and> stops (env_export u)"
proof -
  assume u: "stops u"
  show ?thesis
  proof (cases "has_prefix u ''export''")
    case True
    then obtain z where z: "u = ''export'' @ z" by (auto simp: has_prefix_def prefix_def)
    have letters: "\<forall>c\<in>set ''export''. env_key_char c" by (simp add: env_key_char_def is_lower_def byte_def)
    with u z have sz: "stops z" by (auto simp: stops_def)
    then have "z \<noteq> []" by (auto simp: stops_def)
    then obtain c z' where "z = c # z'" by (cases z) auto
    then have "env_export (u @ r) = (if blank_or_tab c then dropWhile blank_or_tab (z @ r) else u @ r)"
      "env_export u = (if blank_or_tab c then dropWhile blank_or_tab z else u)"
      by (simp_all add: env_export_def z has_prefix_def)
    then show ?thesis using dropWhile_stop [OF sz, of blank_or_tab r] u by simp
  next
    case False
    then show ?thesis using u export_prefix_stop [OF u] by (simp add: env_export_def)
  qed
qed

text \<open>The assignment of a line depends on the text up to a stop, and the rest is left over.\<close>

lemma assignment_stop:
  assumes "stops u"
  shows "env_assignment (u @ r) = map_option (\<lambda>(k, m). (k, m @ r)) (env_assignment u)"
proof -
  let ?e = "env_export u"
  have e: "env_export (u @ r) = ?e @ r" "stops ?e" using export_stop [OF assms] by simp_all
  have key: "takeWhile env_key_char (?e @ r) = takeWhile env_key_char ?e" by (rule takeWhile_stop [OF e(2)]) blast
  have after: "drop (length (takeWhile env_key_char t)) t = dropWhile env_key_char t" for t by (rule dropWhile_eq_drop [symmetric])
  have v1: "dropWhile env_key_char (?e @ r) = dropWhile env_key_char ?e @ r" "stops (dropWhile env_key_char ?e)"
    using dropWhile_stop [OF e(2), of env_key_char r] by blast+
  let ?v = "dropWhile blank_or_tab (dropWhile env_key_char ?e)"
  have v2: "dropWhile blank_or_tab (dropWhile env_key_char ?e @ r) = ?v @ r" "stops ?v"
    using dropWhile_stop [OF v1(2), of blank_or_tab r] by blast+
  then obtain c w where v: "?v = c # w" by (cases ?v) (auto simp: stops_def)
  show ?thesis
    unfolding env_assignment_def Let_def e key after [of "?e @ r", unfolded key] v1 v2 after unfolding v by simp
qed

lemma assignment_split:
  assumes "env_assignment t = Some (key, m)"
  shows "\<exists>a. t = a @ m \<and> stops a \<and> (\<forall>r. env_assignment (a @ r) = Some (key, r))"
proof -
  let ?u = "env_export t"
  let ?v = "dropWhile blank_or_tab (drop (length (takeWhile env_key_char ?u)) ?u)"
  have v: "?v = CHR ''='' # m" using assms by (cases ?v) (auto simp: env_assignment_def Let_def split: if_splits)
  have "suffix ?v ?u" by (metis suffix_dropWhile suffix_drop suffix_order.trans)
  moreover have "suffix ?u t" by (auto simp: env_export_def intro: suffix_dropWhile suffix_drop suffix_order.trans)
  ultimately obtain p where "t = p @ ?v" using suffix_order.trans suffix_def by metis
  then have t: "t = (p @ ''='') @ m" using v by simp
  have st: "stops (p @ ''='')" using stop_bytes by (auto intro: stopsI)
  have "env_assignment (p @ ''='') = Some (key, [])"
    using assms assignment_stop [OF st, of m] t by (cases "env_assignment (p @ ''='')") auto
  then have "env_assignment ((p @ ''='') @ r) = Some (key, r)" for r using assignment_stop [OF st, of r] by simp
  then show ?thesis using t st by blast
qed

section \<open>Values\<close>

lemma extent_prefix: "quoted_extent q s = Some n \<Longrightarrow> n \<le> length s \<and> quoted_extent q (take n s @ r) = Some n"
proof (induction q s arbitrary: n rule: quoted_extent.induct)
  case (2 q c)
  then show ?case by (cases r) (auto simp: quote2_def backslash_def split: if_splits)
next
  case (3 q c d s)
  consider "q = quote2" "c = backslash" | "\<not> (q = quote2 \<and> c = backslash)" "c = q" "\<not> (q \<noteq> quote2 \<and> c = newline)"
    | "\<not> (q = quote2 \<and> c = backslash)" "c \<noteq> q" "\<not> (q \<noteq> quote2 \<and> c = newline)"
    using 3(3) by (auto split: if_splits)
  then show ?case
  proof cases
    case 1
    then obtain k where "quoted_extent q s = Some k" "n = k + 2" using 3(3) by auto
    then show ?thesis using 3(1) [of k] 1 by simp
  next
    case 2
    then have "n = 1" using 3(3) by (auto split: if_splits)
    then show ?thesis using 2 by (cases r) auto
  next
    case 3
    then obtain k where k: "quoted_extent q (d # s) = Some k" "n = Suc k" using "3.prems" by (auto split: if_splits)
    then have "k \<noteq> 0" by (cases s) (auto split: if_splits)
    then obtain j where "k = Suc j" by (cases k) auto
    then show ?thesis using "3.IH"(2) [of k] 3 k by auto
  qed
qed simp

text \<open>A value ends where it ends, whatever follows its line.\<close>

lemma value_split:
  assumes "env_value m = Some v"
  shows "\<exists>y. m = v @ y \<and> (\<forall>y1 z z'. y = y1 @ newline # z \<longrightarrow> env_value (v @ y1 @ newline # z') = Some v)"
proof -
  let ?p = "dropWhile blank_or_tab m"
  have m: "m = takeWhile blank_or_tab m @ ?p" by simp
  show ?thesis
  proof (cases "?p \<noteq> [] \<and> is_quote (hd ?p)")
    case True
    then obtain q s where p: "?p = q # s" "is_quote q" by (cases ?p) auto
    obtain n where n: "quoted_extent q s = Some n" "v = take (length m - length ?p + 1 + n) m"
      using assms True p by (auto simp: env_value_def)
    have len: "length m - length ?p = length (takeWhile blank_or_tab m)" by (metis add_diff_cancel_right' length_append m)
    have v: "v = takeWhile blank_or_tab m @ q # take n s"
      unfolding n(2) len by (subst m) (simp add: p(1))
    have "m = v @ drop n s" using m p(1) v by simp
    moreover have "env_value (v @ r) = Some v" for r
    proof -
      have nb: "\<not> blank_or_tab q" using p(2) by (auto simp: is_quote_def blank_or_tab_def quote1_def quote2_def)
      have tw: "\<forall>c\<in>set (takeWhile blank_or_tab m). blank_or_tab c" by (blast dest: set_takeWhileD)
      have "dropWhile blank_or_tab (v @ r) = q # take n s @ r"
        unfolding v using tw nb by (simp add: dropWhile_append2)
      then show ?thesis
        using extent_prefix [OF n(1), of r] p(2) v
        by (auto simp: env_value_def min_def)
    qed
    ultimately show ?thesis by (metis append.assoc)
  next
    case False
    have "env_value m = Some (takeWhile (\<lambda>c. c \<noteq> newline) m)" unfolding env_value_def Let_def if_not_P [OF False] ..
    then have v: "v = takeWhile (\<lambda>c. c \<noteq> newline) m" using assms by simp
    then have mv: "m = v @ dropWhile (\<lambda>c. c \<noteq> newline) m" by simp
    have "env_value (v @ newline # z') = Some v"
      if y: "dropWhile (\<lambda>c. c \<noteq> newline) m = newline # z" for z z'
    proof -
      have m2: "m = v @ newline # z" using mv y by simp
      have nl: "newline \<notin> set v" using v by (auto dest: set_takeWhileD)
      have st: "stops (v @ [newline])" using stop_bytes by (auto intro: stopsI)
      have "dropWhile blank_or_tab ((v @ [newline]) @ x) = dropWhile blank_or_tab (v @ [newline]) @ x" for x
        using dropWhile_stop [OF st, of blank_or_tab x] by blast
      moreover have ne: "dropWhile blank_or_tab (v @ [newline]) \<noteq> []" using stop_bytes(2) by simp
      ultimately have "hd (dropWhile blank_or_tab (v @ newline # z')) = hd ?p"
        using m2 by (metis append.assoc append_Cons append_Nil hd_append2)
      moreover have "?p \<noteq> []" using m2 stop_bytes(2) by simp
      ultimately have "\<not> is_quote (hd (dropWhile blank_or_tab (v @ newline # z')))" using False by simp
      moreover have "takeWhile (\<lambda>c. c \<noteq> newline) (v @ newline # z') = v"
        using nl by (subst takeWhile_append2) auto
      ultimately show ?thesis unfolding env_value_def by simp
    qed
    moreover have "\<exists>r. y1 @ newline # z = newline # r \<and> (\<exists>r'. y1 @ newline # z' = newline # r')"
      if "dropWhile (\<lambda>c. c \<noteq> newline) m = y1 @ newline # z" for y1 z z'
      using that by (cases y1) (auto dest!: dropWhile_eq_Cons_conv [THEN iffD1])
    ultimately show ?thesis using mv by metis
  qed
qed

section \<open>Scanning\<close>

lemma next_line_split: "newline \<in> set t \<Longrightarrow> \<exists>l. t = l @ newline # next_line t \<and> newline \<notin> set l"
proof -
  assume "newline \<in> set t"
  then obtain l r where t: "t = l @ newline # r" "newline \<notin> set l" using split_list_first by fast
  have "dropWhile (\<lambda>c. c \<noteq> newline) t = newline # r" unfolding t(1) by (subst dropWhile_append2) (use t(2) in auto)
  then show ?thesis using t by (auto simp: next_line_def)
qed

lemma next_line_append: "newline \<notin> set l \<Longrightarrow> next_line (l @ newline # r) = r"
  by (induction l) (auto simp: next_line_def)

lemma next_line_none: "newline \<notin> set t \<Longrightarrow> next_line t = []"
  by (induction t) (auto simp: next_line_def)

text \<open>White space, and then text that does not begin with white space.\<close>

lemma blanks_then:
  assumes "dropWhile blank_or_tab s = u @ w" "u \<noteq> []"
  shows "dropWhile blank_or_tab (takeWhile blank_or_tab s @ u @ r) = u @ r"
proof -
  have "\<not> blank_or_tab (hd u)" using assms hd_dropWhile [of blank_or_tab s] by (cases u) auto
  then have "dropWhile blank_or_tab (u @ r) = u @ r" using assms(2) by (cases u) auto
  then show ?thesis by (subst dropWhile_append2) (auto dest: set_takeWhileD)
qed

definition idle_line :: "string \<Rightarrow> bool" where
  "idle_line t \<longleftrightarrow> t = [] \<or> hd t = newline \<or> hd t = CHR ''#'' \<or> env_assignment t = None"

lemma scan_idle: "s \<noteq> [] \<Longrightarrow> idle_line (dropWhile blank_or_tab s) \<Longrightarrow> env_scan n s = env_scan n (next_line (dropWhile blank_or_tab s))"
  by (subst env_scan.simps) (auto simp: idle_line_def Let_def)

lemma idle_after:
  assumes t: "dropWhile blank_or_tab s = l @ newline # w" and "newline \<notin> set l" "idle_line (l @ newline # w)"
  shows "env_scan n (takeWhile blank_or_tab s @ l @ newline # r) = env_scan n r"
proof -
  have st: "stops (l @ [newline])" using stop_bytes by (auto intro: stopsI)
  have "env_assignment (l @ newline # x) = None \<longleftrightarrow> env_assignment (l @ [newline]) = None" for x
    using assignment_stop [OF st, of x] by simp
  then have "env_assignment (l @ newline # r) = None \<longleftrightarrow> env_assignment (l @ newline # w) = None" by blast
  then have idle: "idle_line (l @ newline # r)" using assms(3) by (cases l) (auto simp: idle_line_def)
  have d: "dropWhile blank_or_tab (takeWhile blank_or_tab s @ l @ newline # r) = l @ newline # r"
    using blanks_then [of s "l @ [newline]" w r] t by simp
  show ?thesis
    using scan_idle [of "takeWhile blank_or_tab s @ l @ newline # r" n] idle next_line_append [OF assms(2), of r]
    unfolding d by simp
qed

lemma scan_assignment:
  assumes "\<not> idle_line (dropWhile blank_or_tab s)" "env_assignment (dropWhile blank_or_tab s) = Some (key, m)" "env_value m = Some v"
  shows "env_scan n s = map_option ((#) \<lparr>ea_key = key, ea_raw = trim_space v, ea_start = n - length m, ea_end = n - length m + length v\<rparr>)
           (env_scan n (next_line (drop (length v) m)))"
proof -
  have "s \<noteq> []" using assms(1) by (auto simp: idle_line_def)
  then show ?thesis using assms by (subst env_scan.simps) (auto simp: idle_line_def Let_def)
qed

lemma scan_malformed:
  assumes "\<not> idle_line (dropWhile blank_or_tab s)" "env_assignment (dropWhile blank_or_tab s) = Some (key, m)" "env_value m = None"
  shows "env_scan n s = None"
proof -
  have "s \<noteq> []" using assms(1) by (auto simp: idle_line_def)
  then show ?thesis using assms by (subst env_scan.simps) (auto simp: idle_line_def Let_def)
qed

text \<open>Induction over the lines of a file: the end, an idle line, a line with a value, a malformed one.\<close>

lemma scan_induct [case_names Nil idle assign malformed]:
  assumes "P []"
    and idle: "\<And>s. s \<noteq> [] \<Longrightarrow> idle_line (dropWhile blank_or_tab s) \<Longrightarrow> P (next_line (dropWhile blank_or_tab s)) \<Longrightarrow> P s"
    and val: "\<And>s key m v. \<not> idle_line (dropWhile blank_or_tab s) \<Longrightarrow> env_assignment (dropWhile blank_or_tab s) = Some (key, m)
        \<Longrightarrow> env_value m = Some v \<Longrightarrow> P (next_line (drop (length v) m)) \<Longrightarrow> P s"
    and bad: "\<And>s. (\<And>n. env_scan n s = None) \<Longrightarrow> P s"
  shows "P s"
proof (induction "0::nat" s rule: env_scan.induct)
  case (1 s)
  let ?t = "dropWhile blank_or_tab s"
  consider "s = []" | "s \<noteq> []" "?t = [] \<or> hd ?t = newline \<or> hd ?t = CHR ''#''"
    | "s \<noteq> []" "\<not> (?t = [] \<or> hd ?t = newline \<or> hd ?t = CHR ''#'')" "env_assignment ?t = None"
    | key m where "s \<noteq> []" "\<not> (?t = [] \<or> hd ?t = newline \<or> hd ?t = CHR ''#'')" "env_assignment ?t = Some (key, m)"
    by (cases "env_assignment ?t") auto
  then show ?case
  proof cases
    case 2
    then show ?thesis using idle "1.hyps"(1) [OF 2(1) refl 2(2)] unfolding idle_line_def by blast
  next
    case 3
    then show ?thesis using idle "1.hyps"(2) [OF 3(1) refl 3(2,3)] unfolding idle_line_def by blast
  next
    case (4 key m)
    then have nidle: "\<not> idle_line ?t" by (auto simp: idle_line_def)
    show ?thesis
    proof (cases "env_value m")
      case None
      then show ?thesis using bad scan_malformed [OF nidle 4(3)] by blast
    next
      case (Some v)
      then show ?thesis using val [OF nidle 4(3) Some] "1.hyps"(3) [OF 4(1) refl 4(2,3) refl Some] by blast
    qed
  qed (simp add: assms(1))
qed

definition key_value :: "env_assign \<Rightarrow> string \<times> string" where
  "key_value a = (ea_key a, ea_raw a)"

lemma key_value_parts [simp]: "key_value \<lparr>ea_key = k, ea_raw = v, ea_start = i, ea_end = j\<rparr> = (k, v)"
  by (simp add: key_value_def)

text \<open>The keys and values do not depend on where the text stands.\<close>

lemma scan_keys: "env_scan n s = Some as \<Longrightarrow> \<exists>as'. env_scan n' s = Some as' \<and> map key_value as' = map key_value as"
proof (induction s arbitrary: as rule: scan_induct)
  case Nil
  then show ?case by (auto simp: env_scan.simps)
next
  case (idle s)
  then show ?case using scan_idle [OF idle(1,2)] by simp
next
  case (assign s key m v)
  obtain rest where rest: "env_scan n (next_line (drop (length v) m)) = Some rest"
    "map key_value as = (key, trim_space v) # map key_value rest"
    using assign.prems scan_assignment [OF assign.hyps(1,2,3), of n] by auto
  from assign.IH [OF rest(1)] obtain rest' where
    "env_scan n' (next_line (drop (length v) m)) = Some rest'" "map key_value rest' = map key_value rest" by blast
  then show ?case using scan_assignment [OF assign.hyps(1,2,3), of n'] rest(2) by simp
qed simp

text \<open>The \<open>k\<close>-th assignment lies at its positions, and replacing its value by one that is read as a whole
  changes this assignment only.\<close>

definition replaceable :: "nat \<Rightarrow> string \<Rightarrow> env_assign list \<Rightarrow> nat \<Rightarrow> bool" where
  "replaceable n s as k \<longleftrightarrow>
     (\<exists>x v y. s = x @ v @ y \<and> ea_start (as ! k) = n - length s + length x \<and> ea_end (as ! k) = ea_start (as ! k) + length v
        \<and> (\<forall>w n'. env_value (w @ y) = Some w \<longrightarrow>
             (\<exists>as'. env_scan n' (x @ w @ y) = Some as' \<and> map key_value as' = (map key_value as)[k := (ea_key (as ! k), trim_space w)])))"

lemma replaceable_behind:
  assumes "replaceable n r as k" "\<And>n' r'. env_scan n' (x @ r') = env_scan n' r'" "length (x @ r) \<le> n"
  shows "replaceable n (x @ r) as k"
proof -
  from assms(1) obtain x1 v y where r: "r = x1 @ v @ y"
    "ea_start (as ! k) = n - length r + length x1" "ea_end (as ! k) = ea_start (as ! k) + length v"
    "\<forall>w n'. env_value (w @ y) = Some w \<longrightarrow>
       (\<exists>as'. env_scan n' (x1 @ w @ y) = Some as' \<and> map key_value as' = (map key_value as)[k := (ea_key (as ! k), trim_space w)])"
    unfolding replaceable_def by blast
  have "x @ r = (x @ x1) @ v @ y" using r(1) by simp
  moreover have "ea_start (as ! k) = n - length (x @ r) + length (x @ x1)" using r(2) assms(3) by simp
  moreover have "env_scan n' ((x @ x1) @ w @ y) = env_scan n' (x1 @ w @ y)" for n' w
    using assms(2) by simp
  ultimately show ?thesis unfolding replaceable_def using r(3,4) by metis
qed

lemma replace_idle:
  assumes "s \<noteq> []" "idle_line (dropWhile blank_or_tab s)" "newline \<in> set (dropWhile blank_or_tab s)"
    "replaceable n (next_line (dropWhile blank_or_tab s)) as k" "length s \<le> n"
  shows "replaceable n s as k"
proof -
  let ?b = "takeWhile blank_or_tab s" and ?t = "dropWhile blank_or_tab s"
  obtain l where l: "?t = l @ newline # next_line ?t" "newline \<notin> set l" using next_line_split assms(3) by blast
  have s: "s = (?b @ l @ [newline]) @ next_line ?t" using l(1) by (metis append.assoc append_Cons append_Nil takeWhile_dropWhile_id)
  have "env_scan n' ((?b @ l @ [newline]) @ r') = env_scan n' r'" for n' r'
    using idle_after [OF l(1,2)] assms(2) l(1) by (metis append.assoc append_Cons append_Nil)
  then have "replaceable n ((?b @ l @ [newline]) @ next_line ?t) as k"
    using replaceable_behind [OF assms(4), of "?b @ l @ [newline]"] assms(5) s by metis
  then show ?thesis using s by simp
qed

lemma scan_replace: "env_scan n s = Some as \<Longrightarrow> k < length as \<Longrightarrow> length s \<le> n \<Longrightarrow> replaceable n s as k"
proof (induction s arbitrary: as k rule: scan_induct)
  case Nil
  then show ?case by (simp add: env_scan.simps)
next
  case (idle s)
  let ?t = "dropWhile blank_or_tab s"
  have empty: "env_scan n [] = Some []" by (simp add: env_scan.simps)
  have scan: "env_scan n (next_line ?t) = Some as" using scan_idle [OF idle.hyps(1,2)] idle.prems(1) by simp
  then have "newline \<in> set ?t" using next_line_none [of ?t] empty idle.prems(2) by (cases "newline \<in> set ?t") auto
  moreover have "length (next_line ?t) \<le> n"
    using next_line_le [of ?t] length_dropWhile_le [of blank_or_tab s] idle.prems(3) by linarith
  ultimately show ?case using replace_idle idle.hyps idle.IH [OF scan idle.prems(2)] idle.prems(3) by blast
next
  case (assign s key m v)
  note a = assign.hyps(2) and v = assign.hyps(3)
  let ?b = "takeWhile blank_or_tab s" and ?t = "dropWhile blank_or_tab s"
  have s: "s = ?b @ ?t" by simp
  have nt: "\<not> (?t = [] \<or> hd ?t = newline \<or> hd ?t = CHR ''#'')" using assign.hyps(1) by (auto simp: idle_line_def)
  have empty: "env_scan n [] = Some []" by (simp add: env_scan.simps)
  let ?y = "drop (length v) m"
  obtain p where p: "?t = p @ m" "stops p" "\<And>r. env_assignment (p @ r) = Some (key, r)" using assignment_split [OF a] by blast
  have pne: "p \<noteq> []" using p(2) by (auto simp: stops_def)
  obtain y where y: "m = v @ y" "\<And>y1 z z'. y = y1 @ newline # z \<Longrightarrow> env_value (v @ y1 @ newline # z') = Some v"
    using value_split [OF v] by blast
  have yd: "?y = y" using y(1) by simp
  have sm: "s = (?b @ p) @ v @ y" using s p(1) y(1) by simp
  obtain rest where rest: "env_scan n (next_line y) = Some rest"
    "as = \<lparr>ea_key = key, ea_raw = trim_space v, ea_start = n - length m, ea_end = n - length m + length v\<rparr> # rest"
    using assign.prems(1) scan_assignment [OF assign.hyps(1) a v, of n] yd by auto
  have again: "env_scan n' ((?b @ p) @ w @ y') =
      map_option ((#) \<lparr>ea_key = key, ea_raw = trim_space w, ea_start = n' - length (w @ y'), ea_end = n' - length (w @ y') + length w\<rparr>)
        (env_scan n' (next_line y'))" if w: "env_value (w @ y') = Some w" for n' w y'
  proof -
    have d: "dropWhile blank_or_tab ((?b @ p) @ w @ y') = p @ w @ y'"
      using blanks_then [of s p m "w @ y'"] p(1) pne by simp
    have "\<not> idle_line (p @ w @ y')" using nt p(1,3) pne by (cases p) (auto simp: idle_line_def)
    then show ?thesis using scan_assignment [of "(?b @ p) @ w @ y'" key "w @ y'" w n'] p(3) w unfolding d by simp
  qed
  show ?case
  proof (cases k)
    case 0
    have keys: "\<exists>as'. env_scan n' (next_line y) = Some as' \<and> map key_value as' = map key_value rest" for n'
      using scan_keys [of n "next_line y" rest n'] rest(1) by blast
    have "length s = length (?b @ p) + length m" using arg_cong [OF sm, of length] y(1) by simp
    then have start: "n - length m = n - length s + length (?b @ p)" using assign.prems(3) by linarith
    have "\<exists>as'. env_scan n' ((?b @ p) @ w @ y) = Some as' \<and> map key_value as' = (map key_value as)[0 := (key, trim_space w)]"
      if w: "env_value (w @ y) = Some w" for w n'
      using keys [of n'] again [OF w, of n'] rest(2) by auto
    then show ?thesis unfolding replaceable_def using sm 0 rest(2) start by (metis nth_Cons_0 env_assign.simps(1,3,4))
  next
    case (Suc j)
    then have j: "j < length rest" using assign.prems(2) rest(2) by simp
    then have "newline \<in> set y" using next_line_none [of y] empty rest(1) by (cases "newline \<in> set y") auto
    then obtain l where l: "y = l @ newline # next_line y" "newline \<notin> set l" using next_line_split by blast
    have "length (next_line y) \<le> n" using next_line_le [of y] arg_cong [OF sm, of length] assign.prems(3) by simp
    then have IH: "replaceable n (next_line y) rest j"
      using assign.IH rest(1) j yd by simp
    have step: "env_scan n' ((?b @ p) @ v @ l @ newline # r) =
        map_option ((#) \<lparr>ea_key = key, ea_raw = trim_space v, ea_start = n' - length (v @ l @ newline # r),
                         ea_end = n' - length (v @ l @ newline # r) + length v\<rparr>) (env_scan n' r)" for n' r
      using again [OF y(2) [OF l(1)]] next_line_append [OF l(2)] by simp
    from IH obtain x1 v1 y1 where r: "next_line y = x1 @ v1 @ y1"
      "ea_start (rest ! j) = n - length (next_line y) + length x1" "ea_end (rest ! j) = ea_start (rest ! j) + length v1"
      "\<And>w n'. env_value (w @ y1) = Some w \<Longrightarrow>
         \<exists>as'. env_scan n' (x1 @ w @ y1) = Some as' \<and> map key_value as' = (map key_value rest)[j := (ea_key (rest ! j), trim_space w)]"
      unfolding replaceable_def by blast
    let ?x = "?b @ p @ v @ l @ newline # x1"
    have sx: "s = ?x @ v1 @ y1" using sm l(1) r(1) by (metis append.assoc append_Cons)
    have start: "ea_start (rest ! j) = n - length s + length ?x"
    proof -
      have "length s = length ?x + length v1 + length y1" using arg_cong [OF sx, of length] by (simp only: length_append)
      moreover have "length (next_line y) = length x1 + length v1 + length y1" using arg_cong [OF r(1), of length] by simp
      moreover have "length x1 \<le> length ?x" by simp
      ultimately show ?thesis using r(2) assign.prems(3) by linarith
    qed
    have "\<exists>as'. env_scan n' (?x @ w @ y1) = Some as' \<and> map key_value as' = (map key_value as)[k := (ea_key (as ! k), trim_space w)]"
      if w: "env_value (w @ y1) = Some w" for w n'
      using r(4) [OF w, of n'] step [of n' "x1 @ w @ y1"] rest(2) Suc by auto
    moreover have "as ! k = rest ! j" using rest(2) Suc by simp
    ultimately show ?thesis
      unfolding replaceable_def using sx start r(3) by (intro exI [of _ ?x] exI [of _ v1] exI [of _ y1]) simp
  qed
qed simp

section \<open>Writing a value\<close>

lemma last_with_snoc: "last_with f k (xs @ [x]) = (if f x = k then Some x else last_with f k xs)"
  by (simp add: last_with_def)

lemma last_with_map: "last_with fst k (map key_value as) = map_option key_value (last_with ea_key k as)"
proof (induction as rule: rev_induct)
  case (snoc a as)
  then show ?case by (simp add: last_with_snoc) (simp add: key_value_def)
qed (simp add: last_with_def)

lemma last_with_split: "last_with f k xs = Some x \<Longrightarrow> \<exists>a b. xs = a @ x # b \<and> f x = k \<and> (\<forall>y\<in>set b. f y \<noteq> k)"
proof (induction xs rule: rev_induct)
  case (snoc y ys)
  show ?case
  proof (cases "f y = k")
    case False
    then obtain a b where "ys = a @ x # b" "f x = k" "\<forall>z\<in>set b. f z \<noteq> k" using snoc by (auto simp: last_with_snoc)
    then show ?thesis using False by (intro exI [of _ a] exI [of _ "b @ [y]"]) auto
  next
    case True
    then have "ys @ [y] = ys @ x # []" "f x = k" using snoc.prems by (auto simp: last_with_snoc)
    then show ?thesis by (intro exI [of _ ys] exI [of _ "[]"]) simp
  qed
qed (simp add: last_with_def)

lemma last_with_replaced:
  assumes "\<forall>y\<in>set b. fst y \<noteq> key"
  shows "last_with fst k (a @ (key, w) # b) = (if k = key then Some (key, w) else last_with fst k (a @ (key, v) # b))"
  using assms
proof (induction b rule: rev_induct)
  case (snoc y ys)
  then show ?case using last_with_snoc [of fst k "a @ (key, w) # ys" y] last_with_snoc [of fst k "a @ (key, v) # ys" y]
    by (cases "k = key") simp_all
qed (simp_all add: last_with_snoc)

lemma dot_env_value_pairs:
  "dot_env_scan content = Some as \<Longrightarrow>
     dot_env_value content k =
       (case last_with fst k (map key_value as) of None \<Rightarrow> [] | Some p \<Rightarrow> dot_env_unquote (trim_space (snd p)))"
  unfolding dot_env_value_def last_assign_def last_with_map
  by (cases "last_with ea_key k as") (simp_all add: key_value_def)

text \<open>The values that a quoted text can carry.\<close>

definition dot_env_storable :: "string \<Rightarrow> bool" where
  "dot_env_storable v \<longleftrightarrow>
     (if quote1 \<in> set v then \<not> contains_any v [CHR ''$'', backslash, quote2, newline, CHR 0x0D] else newline \<notin> set v)"

lemma extent_of_quoted: "is_quote q \<Longrightarrow> q \<notin> set v \<Longrightarrow> (if q = quote2 then backslash \<notin> set v else newline \<notin> set v) \<Longrightarrow>
    quoted_extent q (v @ q # y) = Some (Suc (length v))"
proof (induction v)
  case Nil
  then show ?case by (cases y) (auto simp: is_quote_def quote1_def quote2_def backslash_def newline_def)
next
  case (Cons c v)
  then have "quoted_extent q (v @ q # y) = Some (Suc (length v))" by (auto split: if_splits)
  then show ?case using Cons.prems by (cases "v @ q # y") (auto split: if_splits)
qed

lemma unquote_double_plain: "quote2 \<notin> set v \<Longrightarrow> backslash \<notin> set v \<Longrightarrow> unquote_double (v @ [quote2]) = v"
proof (induction v)
  case (Cons c v)
  then show ?case by (cases "v @ [quote2]") auto
qed simp

lemma quoted_forms:
  assumes "dot_env_storable v"
  obtains q where "dot_env_quote v = q # v @ [q]" "is_quote q" "q \<notin> set v"
    "if q = quote2 then backslash \<notin> set v else newline \<notin> set v"
proof (cases "quote1 \<in> set v")
  case True
  then have s: "\<not> contains_any v [CHR ''$'', backslash, quote2, newline, CHR 0x0D]" using assms by (simp add: dot_env_storable_def)
  then have "dot_env_quote v = quote2 # v @ [quote2]" using True by (simp add: dot_env_quote_def)
  moreover have "quote2 \<notin> set v" "backslash \<notin> set v" using s by (auto simp: contains_any_iff)
  ultimately show ?thesis using that [of quote2] by (simp add: is_quote_def)
next
  case False
  then have "dot_env_quote v = quote1 # v @ [quote1]" "newline \<notin> set v"
    using assms by (simp_all add: dot_env_quote_def dot_env_storable_def)
  then show ?thesis using that [of quote1] False by (simp add: is_quote_def quote1_def quote2_def)
qed

lemma quoted_value:
  assumes "dot_env_storable v"
  shows "env_value (dot_env_quote v @ y) = Some (dot_env_quote v)"
  using assms
proof (rule quoted_forms)
  fix q assume q: "dot_env_quote v = q # v @ [q]" "is_quote q" "q \<notin> set v"
    "if q = quote2 then backslash \<notin> set v else newline \<notin> set v"
  have "\<not> blank_or_tab q" using q(2) by (auto simp: is_quote_def blank_or_tab_def quote1_def quote2_def)
  then have d: "dropWhile blank_or_tab (q # (v @ [q]) @ y) = q # (v @ [q]) @ y" by simp
  have "quoted_extent q ((v @ [q]) @ y) = Some (Suc (length v))" using extent_of_quoted [OF q(2,3,4), of y] by simp
  then show ?thesis unfolding env_value_def q(1) append_Cons d by (simp add: q(2))
qed

lemma quote_trimmed:
  assumes "is_quote q"
  shows "trim_space (q # v @ [q]) = q # v @ [q]"
proof -
  have "list_all (\<lambda>p. p \<noteq> [] \<and> hd p \<noteq> q \<and> last p \<noteq> q) space_seqs"
    using assms by (auto simp: is_quote_def quote1_def quote2_def space_seqs_def)
  then have p: "p \<noteq> []" "hd p \<noteq> q" "last p \<noteq> q" if "p \<in> set space_seqs" for p using that by (auto simp: list_all_iff)
  have "\<not> prefix p (q # t)" if "p \<in> set space_seqs" for p t using p [OF that] by (cases p) auto
  then have l: "find (\<lambda>p. prefix p (q # v @ [q])) space_seqs = None" by (auto simp: find_None_iff)
  have "\<not> prefix (rev p) (q # t)" if "p \<in> set space_seqs" for p t
    using p [OF that] by (cases p rule: rev_cases) auto
  then have "find (\<lambda>p. prefix p (rev (q # v @ [q]))) (map rev space_seqs) = None" by (auto simp: find_None_iff)
  then show ?thesis using l by (simp add: trim_space_def trim_left_space_def trim_right_space_def strip_while_id)
qed

lemma quoted_reads:
  assumes "dot_env_storable v"
  shows "dot_env_unquote (trim_space (trim_space (dot_env_quote v))) = v"
  using assms
proof (rule quoted_forms)
  fix q assume q: "dot_env_quote v = q # v @ [q]" "is_quote q" "q \<notin> set v"
    "if q = quote2 then backslash \<notin> set v else newline \<notin> set v"
  then have "takeWhile (\<lambda>d. d \<noteq> q) (v @ [q]) = v" by (subst takeWhile_append2) auto
  moreover have "quote2 \<noteq> quote1" by (simp add: quote1_def quote2_def)
  ultimately show ?thesis
    using q quote_trimmed [OF q(2), of v] unquote_double_plain [of v]
    by (cases "q = quote1") (auto simp: dot_env_unquote_def is_quote_def)
qed

text \<open>C40. Writing a storable value for an assigned key into a \<open>.env\<close> file that can be scanned: the file is then read
  with that value for the key, and with its old value for every other key.
\<close>

theorem dot_env_set_then_read:
  assumes scan: "dot_env_scan content = Some as" and key: "last_assign key as = Some a" and v: "dot_env_storable v"
  shows "dot_env_value (set_dot_env content key v) k = (if k = key then v else dot_env_value content k)"
proof -
  obtain b c where as: "as = b @ a # c" "ea_key a = key" "\<forall>y\<in>set c. ea_key y \<noteq> key"
    using last_with_split [OF key [unfolded last_assign_def]] by blast
  have ak: "as ! length b = a" "length b < length as" using as(1) by simp_all
  have "replaceable (length content) content as (length b)"
    using scan_replace [OF scan [unfolded dot_env_scan_def] ak(2)] by simp
  then obtain x old y where split: "content = x @ old @ y" "ea_start a = length x" "ea_end a = length x + length old"
    "\<And>w n'. env_value (w @ y) = Some w \<Longrightarrow>
       \<exists>as'. env_scan n' (x @ w @ y) = Some as' \<and> map key_value as' = (map key_value as)[length b := (key, trim_space w)]"
    unfolding replaceable_def ak(1) as(2) by auto
  have set: "set_dot_env content key v = x @ dot_env_quote v @ y"
    using scan key split(2,3) by (simp add: set_dot_env_def split(1))
  obtain as' where as': "dot_env_scan (x @ dot_env_quote v @ y) = Some as'"
    "map key_value as' = (map key_value as)[length b := (key, trim_space (dot_env_quote v))]"
    using split(4) [OF quoted_value [OF v]] unfolding dot_env_scan_def by blast
  have pairs: "map key_value as' = map key_value b @ (key, trim_space (dot_env_quote v)) # map key_value c"
    "map key_value as = map key_value b @ (key, ea_raw a) # map key_value c"
    using as'(2) as(1,2) by (auto simp: key_value_def list_update_append)
  have "\<forall>p\<in>set (map key_value c). fst p \<noteq> key" using as(3) by (auto simp: key_value_def)
  from last_with_replaced [OF this, of k "map key_value b" "trim_space (dot_env_quote v)" "ea_raw a"]
  show ?thesis
    unfolding set dot_env_value_pairs [OF as'(1)] dot_env_value_pairs [OF scan] pairs
    by (simp add: quoted_reads [OF v])
qed

definition env_sample :: string where
  "env_sample = ''# db'' @ newline # ''export DB_PASSWORD=old #1'' @ newline # ''APP=x'' @ [newline]"

theorem dot_env_set_then_read_witness:
  "dot_env_value (set_dot_env env_sample ''DB_PASSWORD'' ''a#b c'') ''DB_PASSWORD'' = ''a#b c''"
proof -
  let ?a = "\<lparr>ea_key = ''DB_PASSWORD'', ea_raw = ''old #1'', ea_start = 24, ea_end = 30\<rparr>"
  have "dot_env_scan env_sample = Some [?a, \<lparr>ea_key = ''APP'', ea_raw = ''x'', ea_start = 35, ea_end = 36\<rparr>]" by code_simp
  moreover have "last_assign ''DB_PASSWORD'' [?a, \<lparr>ea_key = ''APP'', ea_raw = ''x'', ea_start = 35, ea_end = 36\<rparr>] = Some ?a" by code_simp
  moreover have "dot_env_storable ''a#b c''" by code_simp
  ultimately show ?thesis using dot_env_set_then_read [of env_sample _ _ _ _ "''DB_PASSWORD''"] by simp
qed

end
