(* ===== verification/DbSql.thy ===== *)
theory DbSql
  imports DbPlan NetIP
begin

text \<open>
  How the two MySQL servers are asked: \<open>dbmig.go\<close>, \<open>deepverify.go\<close>, \<open>contentfp.go\<close>, \<open>password.go\<close> and the
  readers of \<open>transfer.go\<close> in \<open>internal/dbmig\<close>. A server is a function of the calls made before and of
  the call, which answers with the output of the script or with an error. The scripts with a fixed text
  are constructors; the SQL that is built from names is the text itself. The laws at the end show that
  names of any bytes are quoted and read back, so that what the server executes is what was meant.
\<close>

section \<open>Calls\<close>

datatype side = Source | Destination

record db_env =
  de_db :: string
  de_user :: string
  de_password :: string

definition dump_env :: "string \<Rightarrow> string \<Rightarrow> string \<Rightarrow> db_env" where
  "dump_env db user pass = \<lparr>de_db = db, de_user = user, de_password = pass\<rparr>"

datatype db_script =
    ProbeDump | SchemaFingerprintCmd | CountTablesCmd | CountObjectsCmd | CharsetsCmd | MetaCmd
  | TableColumnsSQL | ObjectBodyCmd | DynamicSQL string

text \<open>Everything the database step does to a host, in one type: \<open>Run\<close> executes a script, the next four are
  calls of the cPanel API on the destination, \<open>Copy\<close> streams a dump from one server to the other. A
  configuration of the destination is read, is written in place, or is searched for a name; the last
  five search and read the source.\<close>

datatype db_call =
    Run side db_script db_env
  | CreateUser string string
  | SetPassword string string
  | CreateDatabase string
  | Grant string string
  | Copy bool db_env db_env
  | ReadConfig string
  | WriteConfig string string
  | ScanNeedle string string
  | DetectConfigs string
  | FindConfigs string
  | ReadSource string
  | GrepName string string
  | ReadRegistry

type_synonym db_log = "db_call list"
type_synonym runner = "db_log \<Rightarrow> db_call \<Rightarrow> string + string"

datatype db_error =
    HostError string string string
  | Unparseable string string
  | LabelMismatch string nat nat

type_synonym 'a reading = "(db_error + 'a) \<times> db_log"

definition run :: "runner \<Rightarrow> side \<Rightarrow> db_script \<Rightarrow> db_env \<Rightarrow> db_log \<Rightarrow> (string + string) \<times> db_log" where
  "run r side script env log = (r log (Run side script env), log @ [Run side script env])"

text \<open>Most readers run one script and parse its output.\<close>

definition read_as ::
    "string \<Rightarrow> (string \<Rightarrow> 'a option) \<Rightarrow> runner \<Rightarrow> side \<Rightarrow> db_script \<Rightarrow> db_env \<Rightarrow> db_log \<Rightarrow> 'a reading" where
  "read_as what parse r side script env log =
     (case run r side script env log of
        (Inl e, log) \<Rightarrow> (Inl (HostError what (de_db env) e), log)
      | (Inr out, log) \<Rightarrow>
          (case parse out of None \<Rightarrow> Inl (Unparseable what (de_db env)) | Some x \<Rightarrow> Inr x, log))"

section \<open>Names\<close>

definition tab :: char where "tab = CHR 0x09"
definition newline :: char where "newline = CHR 0x0A"
definition carriage_return :: char where "carriage_return = CHR 0x0D"
definition backtick :: char where "backtick = CHR 0x60"

definition encode_hex_name :: "string \<Rightarrow> string" where
  "encode_hex_name s = to_upper (concat (map (\<lambda>c. [hex_digit (byte c div 16), hex_digit (byte c mod 16)]) s))"

fun decode_hex :: "string \<Rightarrow> string option" where
  "decode_hex [] = Some []"
| "decode_hex [c] = None"
| "decode_hex (c # d # s) =
     (if is_hex c \<and> is_hex d
      then map_option ((#) (char_of (16 * hex_value c + hex_value d))) (decode_hex s)
      else None)"

definition decode_hex_name :: "string \<Rightarrow> string option" where
  "decode_hex_name s = decode_hex (trim_space s)"

definition quote_ident :: "string \<Rightarrow> string" where
  "quote_ident name = backtick # replace_all [backtick] [backtick, backtick] name @ [backtick]"

section \<open>Statements built from names\<close>

definition row_count_sql :: "string list \<Rightarrow> string" where
  "row_count_sql names =
     join '' UNION ALL ''
       (map (\<lambda>n. ''SELECT '' @ [CHR 0x27] @ encode_hex_name n @ [CHR 0x27] @ '' AS n, COUNT(*) AS c FROM '' @ quote_ident n) names)"

definition checksum_sql :: "string list \<Rightarrow> string" where
  "checksum_sql names = (if names = [] then [] else ''CHECKSUM TABLE '' @ join '','' (map quote_ident names))"

record schema_fp =
  fp_tables :: "string list"
  fp_views :: "string list"
  fp_triggers :: "string list"
  fp_routines :: "string list"
  fp_events :: "string list"

definition no_schema :: schema_fp where
  "no_schema = \<lparr>fp_tables = [], fp_views = [], fp_triggers = [], fp_routines = [], fp_events = []\<rparr>"

definition drop_line :: "string \<Rightarrow> string \<Rightarrow> string" where
  "drop_line what name = ''DROP '' @ what @ '' IF EXISTS '' @ quote_ident name @ '';'' @ [newline]"

definition drop_routine :: "string \<Rightarrow> string" where
  "drop_routine label =
     (case cut_byte CHR '' '' label of
        None \<Rightarrow> []
      | Some (typ, name) \<Rightarrow> if typ = ''PROCEDURE'' \<or> typ = ''FUNCTION'' then drop_line typ name else [])"

definition drop_schema_sql :: "schema_fp \<Rightarrow> string" where
  "drop_schema_sql fp =
     (if length (fp_tables fp) + length (fp_views fp) + length (fp_triggers fp) + length (fp_routines fp)
           + length (fp_events fp) = 0 then []
      else ''SET FOREIGN_KEY_CHECKS=0;'' @ [newline]
        @ concat (map (drop_line ''VIEW'') (sort (fp_views fp)))
        @ concat (map (drop_line ''TRIGGER'') (sort (fp_triggers fp)))
        @ concat (map (drop_line ''EVENT'') (sort (fp_events fp)))
        @ concat (map drop_routine (sort (fp_routines fp)))
        @ concat (map (drop_line ''TABLE'') (sort (fp_tables fp)))
        @ ''SET FOREIGN_KEY_CHECKS=1;'')"

text \<open>The fingerprint of the rows of a table, the same on every engine.\<close>

definition half_fingerprint :: "string \<Rightarrow> string" where
  "half_fingerprint from =
     ''LPAD(CONV(BIT_XOR(CAST(CONV(SUBSTRING(h,'' @ from @ '',16),16,10) AS UNSIGNED)),10,16),16,'' @ [CHR 0x27, CHR ''0'', CHR 0x27] @ '')''"

definition row_hash :: "string list \<Rightarrow> string" where
  "row_hash cols =
     (let idents = map quote_ident cols
      in ''MD5(CONCAT_WS('' @ [CHR 0x27, CHR ''#'', CHR 0x27] @ '','' @ join '','' idents
           @ '',CONCAT_WS('' @ [CHR 0x27, CHR '','', CHR 0x27] @ '','' @ join '','' (map (\<lambda>c. ''ISNULL('' @ c @ '')'') idents) @ '')''
           @ '',CONCAT_WS('' @ [CHR 0x27, CHR '','', CHR 0x27] @ '','' @ join '','' (map (\<lambda>c. ''COALESCE(OCTET_LENGTH('' @ c @ ''),0)'') idents) @ '')))'')"

definition fingerprint_select :: "string \<Rightarrow> string list \<Rightarrow> string" where
  "fingerprint_select t cols =
     ''SELECT '' @ [CHR 0x27] @ encode_hex_name t @ [CHR 0x27] @ '' AS t, LOWER(CONCAT(''
       @ half_fingerprint ''1'' @ '','' @ half_fingerprint ''17'' @ '')) AS f FROM (SELECT ''
       @ row_hash cols @ '' AS h FROM '' @ quote_ident t @ '') x''"

definition content_fingerprint_sql :: "(string, string list) gomap \<Rightarrow> string" where
  "content_fingerprint_sql cols =
     join '' UNION ALL ''
       (map (\<lambda>t. fingerprint_select t (list_at cols t)) (sort (map fst (filter (\<lambda>(t, cs). cs \<noteq> []) cols))))"

section \<open>Reading the answers\<close>

definition lines_of :: "string \<Rightarrow> string list" where
  "lines_of out = map (trim_right_byte carriage_return) (split_byte newline out)"

definition put_name :: "string \<Rightarrow> string list \<Rightarrow> string list" where
  "put_name n names = (if n \<in> set names then names else names @ [n])"

definition schema_line :: "schema_fp \<Rightarrow> string \<Rightarrow> schema_fp" where
  "schema_line fp line =
     (if trim_space line = [] then fp
      else
        (let f = split_byte tab line; tag = f ! 0
         in if tag = ''T'' \<and> 2 \<le> length f
            then (case decode_hex_name (f ! 1) of None \<Rightarrow> fp | Some n \<Rightarrow> fp\<lparr>fp_tables := put_name n (fp_tables fp)\<rparr>)
            else if tag = ''V'' \<and> 2 \<le> length f
            then (case decode_hex_name (f ! 1) of None \<Rightarrow> fp | Some n \<Rightarrow> fp\<lparr>fp_views := put_name n (fp_views fp)\<rparr>)
            else if tag = ''G'' \<and> 2 \<le> length f
            then (case decode_hex_name (f ! 1) of None \<Rightarrow> fp | Some n \<Rightarrow> fp\<lparr>fp_triggers := put_name n (fp_triggers fp)\<rparr>)
            else if tag = ''R'' \<and> 3 \<le> length f
            then (case decode_hex_name (f ! 2) of None \<Rightarrow> fp
                  | Some n \<Rightarrow> fp\<lparr>fp_routines := put_name (to_upper (f ! 1) @ '' '' @ n) (fp_routines fp)\<rparr>)
            else if tag = ''E'' \<and> 2 \<le> length f
            then (case decode_hex_name (f ! 1) of None \<Rightarrow> fp | Some n \<Rightarrow> fp\<lparr>fp_events := put_name n (fp_events fp)\<rparr>)
            else fp))"

definition parse_schema_fingerprint :: "string \<Rightarrow> schema_fp" where
  "parse_schema_fingerprint out = foldl schema_line no_schema (lines_of out)"

record object_counts =
  oc_routines :: nat
  oc_events :: nat
  oc_triggers :: nat
  oc_views :: nat

definition object_counts_of :: "schema_fp \<Rightarrow> object_counts" where
  "object_counts_of s =
     \<lparr>oc_routines = length (fp_routines s), oc_events = length (fp_events s),
      oc_triggers = length (fp_triggers s), oc_views = length (fp_views s)\<rparr>"

definition parse_count :: "string \<Rightarrow> int option" where
  "parse_count out = (if trim_space out = [] then None else parse_int64 (last (str_fields (trim_space out))))"

text \<open>Lines of a label, a tab and a value; the tab is the first one for columns, the last one elsewhere.\<close>

definition row_count_line :: "(string, int) gomap \<Rightarrow> string \<Rightarrow> (string, int) gomap" where
  "row_count_line m line =
     (if line = [] then m
      else case cut_last_byte tab line of
        None \<Rightarrow> m
      | Some (label, v) \<Rightarrow>
          (case parse_int64 (trim_space v) of None \<Rightarrow> m | Some n \<Rightarrow> AList.update label n m))"

definition parse_row_counts :: "string \<Rightarrow> (string, int) gomap" where
  "parse_row_counts out = foldl row_count_line [] (lines_of out)"

definition checksum_line :: "string \<Rightarrow> (string, string) gomap \<Rightarrow> string \<Rightarrow> (string, string) gomap" where
  "checksum_line schema m line =
     (if line = [] then m
      else case cut_last_byte tab line of
        None \<Rightarrow> m
      | Some (label, v) \<Rightarrow>
          (let ck = trim_space v
           in AList.update (trim_prefix label (schema @ ''.'')) (if ck = ''NULL'' then [] else ck) m))"

definition parse_checksums :: "string \<Rightarrow> string \<Rightarrow> (string, string) gomap" where
  "parse_checksums out schema = foldl (checksum_line schema) [] (lines_of out)"

definition fingerprint_line :: "(string, string) gomap \<Rightarrow> string \<Rightarrow> (string, string) gomap" where
  "fingerprint_line m line =
     (if line = [] then m
      else case cut_last_byte tab line of
        None \<Rightarrow> m
      | Some (label, v) \<Rightarrow>
          (case decode_hex_name (trim_space label) of None \<Rightarrow> m | Some n \<Rightarrow> AList.update n (trim_space v) m))"

definition parse_fingerprints :: "string \<Rightarrow> (string, string) gomap" where
  "parse_fingerprints out = foldl fingerprint_line [] (lines_of out)"

definition column_line :: "(string, string list) gomap \<Rightarrow> string \<Rightarrow> (string, string list) gomap" where
  "column_line m line =
     (if line = [] then m
      else case cut_byte tab line of
        None \<Rightarrow> m
      | Some (t, c) \<Rightarrow>
          (case (decode_hex_name (trim_space t), decode_hex_name (trim_space c)) of
             (Some table, Some col) \<Rightarrow> AList.update table (list_at m table @ [col]) m
           | _ \<Rightarrow> m))"

definition parse_table_columns :: "string \<Rightarrow> (string, string list) gomap" where
  "parse_table_columns out = foldl column_line [] (lines_of out)"

definition body_line :: "(string, string) gomap \<Rightarrow> string \<Rightarrow> (string, string) gomap" where
  "body_line m line =
     (if line = [] then m
      else
        (let f = split_byte tab line; tag = f ! 0;
             put = (\<lambda>label hash name. case decode_hex_name name of None \<Rightarrow> m | Some n \<Rightarrow> AList.update (label @ n) hash m)
         in if tag = ''V'' \<and> 3 \<le> length f then put ''view '' (f ! 2) (f ! 1)
            else if tag = ''G'' \<and> 3 \<le> length f then put ''trigger '' (f ! 2) (f ! 1)
            else if tag = ''R'' \<and> 4 \<le> length f then put (to_lower (f ! 1) @ '' '') (f ! 3) (f ! 2)
            else if tag = ''E'' \<and> 3 \<le> length f then put ''event '' (f ! 2) (f ! 1)
            else m))"

definition parse_object_bodies :: "string \<Rightarrow> (string, string) gomap" where
  "parse_object_bodies out = foldl body_line [] (lines_of out)"

record charset_info =
  ci_charset :: string
  ci_collation :: string
  ci_tables :: "(string, string) gomap"

definition charset_line :: "charset_info \<times> bool \<Rightarrow> string \<Rightarrow> charset_info \<times> bool" where
  "charset_line st line =
     (case st of (ci, have) \<Rightarrow>
        if trim_space line = [] then st
        else
          (let f = split_byte tab line
           in if f ! 0 = ''DB'' \<and> 3 \<le> length f then (ci\<lparr>ci_charset := f ! 1, ci_collation := f ! 2\<rparr>, True)
              else if f ! 0 = ''T'' \<and> 3 \<le> length f
              then (ci\<lparr>ci_tables := AList.update (f ! 1) (f ! 2) (ci_tables ci)\<rparr>, have)
              else st))"

definition parse_charsets :: "string \<Rightarrow> charset_info option" where
  "parse_charsets out =
     (case foldl charset_line (\<lparr>ci_charset = [], ci_collation = [], ci_tables = []\<rparr>, False) (lines_of out) of
        (ci, have) \<Rightarrow> if have then Some ci else None)"

text \<open>The version, the tables with their counter, and whether a version was seen and no name was unreadable.\<close>

record meta_info =
  mi_version :: string
  mi_auto :: "(string, int) gomap"
  mi_names :: "string list"
  mi_seen :: bool
  mi_bad :: bool

text \<open>\<open>ParseInt\<close> gives the nearest bound, or zero, beside the error the code drops.\<close>

definition int_or_clamped :: "string \<Rightarrow> int" where
  "int_or_clamped s =
     (case parse_int64 s of
        Some v \<Rightarrow> v
      | None \<Rightarrow>
          (let (neg, ds) = (case s of
                  c # cs \<Rightarrow> if c = CHR ''-'' then (True, cs) else if c = CHR ''+'' then (False, cs) else (False, s)
                | [] \<Rightarrow> (False, []))
           in if ds \<noteq> [] \<and> list_all is_digit ds then (if neg then - (2 ^ 63) else 2 ^ 63 - 1) else 0))"

definition meta_line :: "meta_info \<Rightarrow> string \<Rightarrow> meta_info" where
  "meta_line mi line =
     (if line = [] then mi
      else
        (let f = split_byte tab line
         in if f ! 0 = ''V'' \<and> 2 \<le> length f then mi\<lparr>mi_version := f ! 1, mi_seen := True\<rparr>
            else if f ! 0 = ''A'' \<and> 3 \<le> length f
            then (case decode_hex_name (f ! 1) of
                    None \<Rightarrow> mi\<lparr>mi_bad := True\<rparr>
                  | Some n \<Rightarrow> mi\<lparr>mi_auto := AList.update n (int_or_clamped (trim_space (f ! 2))) (mi_auto mi),
                               mi_names := mi_names mi @ [n]\<rparr>)
            else mi))"

definition parse_meta :: "string \<Rightarrow> meta_info option" where
  "parse_meta out =
     (let mi = foldl meta_line \<lparr>mi_version = [], mi_auto = [], mi_names = [], mi_seen = False, mi_bad = False\<rparr> (lines_of out)
      in if mi_seen mi \<and> \<not> mi_bad mi then Some (mi\<lparr>mi_names := sort (mi_names mi)\<rparr>) else None)"

section \<open>The readers\<close>

definition get_schema_fingerprint :: "runner \<Rightarrow> side \<Rightarrow> db_env \<Rightarrow> db_log \<Rightarrow> schema_fp reading" where
  "get_schema_fingerprint r side env =
     read_as ''read schema fingerprint'' (\<lambda>out. Some (parse_schema_fingerprint out)) r side SchemaFingerprintCmd env"

definition count_tables :: "runner \<Rightarrow> side \<Rightarrow> db_env \<Rightarrow> db_log \<Rightarrow> int reading" where
  "count_tables r side env = read_as ''count tables'' parse_count r side CountTablesCmd env"

definition get_charsets :: "runner \<Rightarrow> side \<Rightarrow> db_env \<Rightarrow> db_log \<Rightarrow> charset_info reading" where
  "get_charsets r side env = read_as ''read charsets'' parse_charsets r side CharsetsCmd env"

definition table_columns :: "runner \<Rightarrow> side \<Rightarrow> db_env \<Rightarrow> db_log \<Rightarrow> (string, string list) gomap reading" where
  "table_columns r side env =
     read_as ''read columns'' (\<lambda>out. Some (parse_table_columns out)) r side TableColumnsSQL env"

definition object_bodies :: "runner \<Rightarrow> side \<Rightarrow> db_env \<Rightarrow> db_log \<Rightarrow> (string, string) gomap reading" where
  "object_bodies r side env =
     read_as ''object bodies'' (\<lambda>out. Some (parse_object_bodies out)) r side ObjectBodyCmd env"

definition checksum_tables :: "runner \<Rightarrow> side \<Rightarrow> db_env \<Rightarrow> string list \<Rightarrow> db_log \<Rightarrow> (string, string) gomap reading" where
  "checksum_tables r side env names log =
     (if checksum_sql names = [] then (Inr [], log)
      else read_as ''checksum tables'' (\<lambda>out. Some (parse_checksums out (de_db env))) r side
             (DynamicSQL (checksum_sql names)) env log)"

definition content_fingerprints ::
    "runner \<Rightarrow> side \<Rightarrow> db_env \<Rightarrow> (string, string list) gomap \<Rightarrow> db_log \<Rightarrow> (string, string) gomap reading" where
  "content_fingerprints r side env cols log =
     (if content_fingerprint_sql cols = [] then (Inr [], log)
      else read_as ''content fingerprint'' (\<lambda>out. Some (parse_fingerprints out)) r side
             (DynamicSQL (content_fingerprint_sql cols)) env log)"

record deep_table =
  dt_rows :: int
  dt_auto :: int

record deep_info =
  di_version :: string
  di_tables :: "(string, deep_table) gomap"

text \<open>A count is kept when its label names a table; the counts are visited in the order \<open>visit\<close> gives.\<close>

definition keep_count ::
    "(string, deep_table) gomap \<times> nat \<Rightarrow> string \<times> int \<Rightarrow> (string, deep_table) gomap \<times> nat" where
  "keep_count st lc =
     (case decode_hex_name (fst lc) of
        None \<Rightarrow> st
      | Some n \<Rightarrow>
          (case map_of (fst st) n of
             None \<Rightarrow> st
           | Some e \<Rightarrow> (AList.update n (e\<lparr>dt_rows := snd lc\<rparr>) (fst st), Suc (snd st))))"

definition deep_tables ::
    "runner \<Rightarrow> ((string, int) gomap \<Rightarrow> (string, int) gomap) \<Rightarrow> side \<Rightarrow> db_env \<Rightarrow> db_log \<Rightarrow> deep_info reading" where
  "deep_tables r visit side env log =
     (case read_as ''row-count meta'' parse_meta r side MetaCmd env log of
        (Inl e, log) \<Rightarrow> (Inl e, log)
      | (Inr mi, log) \<Rightarrow>
          (let ts = foldl (\<lambda>m n. AList.update n \<lparr>dt_rows = 0, dt_auto = (case map_of (mi_auto mi) n of None \<Rightarrow> 0 | Some a \<Rightarrow> a)\<rparr> m)
                      [] (mi_names mi);
               sql = row_count_sql (mi_names mi)
           in if sql = [] then (Inr \<lparr>di_version = mi_version mi, di_tables = ts\<rparr>, log)
              else
                (case run r side (DynamicSQL sql) env log of
                   (Inl e, log) \<Rightarrow> (Inl (HostError ''row counts'' (de_db env) e), log)
                 | (Inr out, log) \<Rightarrow>
                     (let (ts, matched) = foldl keep_count (ts, 0) (visit (parse_row_counts out))
                      in if matched \<noteq> length (mi_names mi)
                         then (Inl (LabelMismatch (de_db env) matched (length (mi_names mi))), log)
                         else (Inr \<lparr>di_version = mi_version mi, di_tables = ts\<rparr>, log)))))"

section \<open>Writing\<close>

definition empty_database :: "runner \<Rightarrow> db_env \<Rightarrow> db_log \<Rightarrow> unit reading" where
  "empty_database r env log =
     (case get_schema_fingerprint r Destination env log of
        (Inl e, log) \<Rightarrow> (Inl e, log)
      | (Inr fp, log) \<Rightarrow>
          if drop_schema_sql fp = [] then (Inr (), log)
          else (case run r Destination (DynamicSQL (drop_schema_sql fp)) env log of
                  (Inl e, log) \<Rightarrow> (Inl (HostError ''empty database'' (de_db env) e), log)
                | (Inr out, log) \<Rightarrow> (Inr (), log)))"

definition safe_collation_token :: "string \<Rightarrow> bool" where
  "safe_collation_token s \<longleftrightarrow> s \<noteq> [] \<and> list_all (\<lambda>c. is_upper c \<or> is_lower c \<or> is_digit c \<or> c = CHR ''_'') s"

definition collation_sql :: "string \<Rightarrow> string \<Rightarrow> string" where
  "collation_sql charset collation =
     ''SELECT COUNT(*) FROM information_schema.COLLATIONS WHERE COLLATION_NAME='' @ [CHR 0x27] @ collation @ [CHR 0x27]
       @ '' AND CHARACTER_SET_NAME='' @ [CHR 0x27] @ charset @ [CHR 0x27]"

definition collation_supported :: "runner \<Rightarrow> db_env \<Rightarrow> string \<Rightarrow> string \<Rightarrow> db_log \<Rightarrow> bool reading" where
  "collation_supported r env charset collation =
     read_as ''probe collation'' (\<lambda>out. map_option (\<lambda>n. 0 < n) (parse_count out)) r Destination
       (DynamicSQL (collation_sql charset collation)) env"

definition alter_sql :: "string \<Rightarrow> string \<Rightarrow> string \<Rightarrow> string" where
  "alter_sql db charset collation =
     ''ALTER DATABASE '' @ quote_ident db @ '' CHARACTER SET '' @ charset @ '' COLLATE '' @ collation"

definition normalize_db_default :: "runner \<Rightarrow> db_env \<Rightarrow> string \<Rightarrow> string \<Rightarrow> db_log \<Rightarrow> bool reading" where
  "normalize_db_default r env charset collation log =
     (if \<not> safe_collation_token charset \<or> \<not> safe_collation_token collation then (Inr False, log)
      else
        (case collation_supported r env charset collation log of
           (Inl e, log) \<Rightarrow> (Inl e, log)
         | (Inr False, log) \<Rightarrow> (Inr False, log)
         | (Inr True, log) \<Rightarrow>
             (case run r Destination (DynamicSQL (alter_sql (de_db env) charset collation)) env log of
                (Inl e, log) \<Rightarrow> (Inl (HostError ''alter database'' (de_db env) e), log)
              | (Inr out, log) \<Rightarrow> (Inr True, log))))"

text \<open>Whether the dump program of the source knows the flag; any other answer is an error.\<close>

definition src_supports_gtid_purged :: "runner \<Rightarrow> db_log \<Rightarrow> bool reading" where
  "src_supports_gtid_purged r =
     read_as ''probe source mysqldump''
       (\<lambda>out. if trim_space out = ''PROBE_YES'' then Some True
              else if trim_space out = ''PROBE_NO'' then Some False else None)
       r Source ProbeDump (dump_env [] [] [])"

text \<open>A password is drawn character by character; the draws stand for \<open>crypto/rand\<close>.\<close>

definition password_alphabet :: string where
  "password_alphabet = ''ABCDEFGHJKLMNPQRSTUVWXYZabcdefghijkmnpqrstuvwxyz23456789!#%-_=+''"

definition generate_password :: "(nat \<Rightarrow> nat \<Rightarrow> string + nat) \<Rightarrow> int \<Rightarrow> string + string" where
  "generate_password draw n =
     (let n = nat (if n < 1 then 24 else n)
      in foldl (\<lambda>acc i. bindr acc (\<lambda>buf. bindr (draw i (length password_alphabet)) (\<lambda>k. Inr (buf @ [password_alphabet ! k]))))
           (Inr []) [0..<n])"

end
