(* ===== verification/DbSqlLaws.thy ===== *)
theory DbSqlLaws
  imports DbSql
begin

text \<open>
  Names of any bytes survive the way to the server and back: a hexadecimal label is decoded to the name
  it was made from, a quoted identifier is read as one identifier, and the script that empties a database
  is read by the server as exactly one statement per object (\<open>drop_script_exact\<close>). What the reader of row
  counts returns is what the server holds (\<open>deep_tables_read_back\<close>).
\<close>

section \<open>Hexadecimal labels\<close>

definition hex_pair :: "char \<Rightarrow> string" where
  "hex_pair c = [upper_char (hex_digit (byte c div 16)), upper_char (hex_digit (byte c mod 16))]"

lemma encode_hex_eq: "encode_hex_name s = concat (map hex_pair s)"
  by (induction s) (simp_all add: encode_hex_name_def to_upper_def hex_pair_def)

lemma upper_hex_digit:
  assumes "d < 16"
  shows "upper_char (hex_digit d) = char_of (if d < 10 then 48 + d else 55 + d)"
  using assms by (auto simp: hex_digit_def upper_char_def is_lower_def byte_char_of)

lemma hex_digit_reads:
  assumes "d < 16"
  shows "is_hex (upper_char (hex_digit d)) \<and> hex_value (upper_char (hex_digit d)) = d"
  using assms by (auto simp: upper_hex_digit is_hex_def hex_value_def is_digit_def byte_char_of)

lemma decode_pair: "decode_hex (hex_pair c @ s) = map_option ((#) c) (decode_hex s)"
proof -
  have "byte c div 16 < 16" using byte_less [of c] by linarith
  moreover have "16 * (byte c div 16) + byte c mod 16 = byte c" by (simp add: mult.commute)
  moreover have "char_of (byte c) = c" by (simp add: byte_def)
  ultimately show ?thesis by (simp add: hex_pair_def hex_digit_reads)
qed

lemma decode_encode_hex: "decode_hex (encode_hex_name s) = Some s"
  by (induction s) (simp_all add: encode_hex_eq decode_pair)

definition is_label_char :: "char \<Rightarrow> bool" where
  "is_label_char c \<longleftrightarrow> 33 \<le> byte c \<and> byte c < 128"

lemma encode_hex_chars: "list_all is_label_char (encode_hex_name s)"
proof (induction s)
  case (Cons c s)
  have "byte c div 16 < 16" using byte_less [of c] by linarith
  moreover have "byte c mod 16 < 16" by simp
  ultimately have "list_all is_label_char (hex_pair c)"
    by (auto simp: hex_pair_def upper_hex_digit is_label_char_def byte_char_of)
  with Cons show ?case by (simp add: encode_hex_eq)
qed (simp add: encode_hex_eq)

lemma encode_hex_empty_iff [simp]: "encode_hex_name s = [] \<longleftrightarrow> s = []"
  by (cases s) (simp_all add: encode_hex_eq hex_pair_def)

lemma space_seqs_not_label: "\<forall>p\<in>set space_seqs. \<not> is_label_char (hd p) \<and> \<not> is_label_char (last p)"
  by (simp add: space_seqs_def is_label_char_def byte_def)

text \<open>A text that begins and ends with a character of a label has no white space to trim.\<close>

lemma trim_space_label:
  assumes "list_all is_label_char s"
  shows "trim_space s = s"
proof (cases "s = []")
  case False
  have no_left: "find (\<lambda>p. prefix p s) space_seqs = None"
  proof -
    have "\<not> prefix p s" if "p \<in> set space_seqs" for p
    proof
      assume "prefix p s"
      moreover have "p \<noteq> []" using that space_seqs_nonempty by auto
      ultimately have "hd p \<in> set s" by (metis hd_in_set set_mono_prefix subsetD)
      then show False using assms space_seqs_not_label that by (auto simp: list_all_iff)
    qed
    then show ?thesis by (simp add: find_None_iff)
  qed
  have no_right: "find (\<lambda>p. prefix p (rev s)) (map rev space_seqs) = None"
  proof -
    have "\<not> prefix (rev p) (rev s)" if "p \<in> set space_seqs" for p
    proof
      assume "prefix (rev p) (rev s)"
      moreover have "rev p \<noteq> []" using that space_seqs_nonempty by auto
      ultimately have "last p \<in> set s" by (metis hd_in_set hd_rev set_mono_prefix set_rev subsetD)
      then show False using assms space_seqs_not_label that by (auto simp: list_all_iff)
    qed
    then show ?thesis by (auto simp: find_None_iff)
  qed
  show ?thesis
    unfolding trim_space_def trim_left_space_def trim_right_space_def
    by (simp add: strip_while_id [OF no_left] strip_while_id [OF no_right])
qed (simp add: trim_space_def trim_left_space_def trim_right_space_def)

lemma hex_label_reads: "decode_hex_name (encode_hex_name s) = Some s"
  by (simp add: decode_hex_name_def trim_space_label [OF encode_hex_chars] decode_encode_hex)

section \<open>Quoted identifiers\<close>

text \<open>How a server reads what stands after the opening backtick: two backticks are one of the name, a
  single one ends it.\<close>

fun read_ident :: "string \<Rightarrow> (string \<times> string) option" where
  "read_ident [] = None"
| "read_ident (c # s) =
     (if c \<noteq> backtick then map_option (map_prod ((#) c) id) (read_ident s)
      else (case s of
              d # t \<Rightarrow> if d = backtick then map_option (map_prod ((#) backtick) id) (read_ident t) else Some ([], s)
            | [] \<Rightarrow> Some ([], [])))"

definition doubled :: "char \<Rightarrow> string" where
  "doubled c = (if c = backtick then [backtick, backtick] else [c])"

lemma replace_backticks: "replace_all [backtick] [backtick, backtick] s = concat (map doubled s)"
  by (induction s) (simp_all add: doubled_def)

lemma quote_ident_eq: "quote_ident n = backtick # concat (map doubled n) @ [backtick]"
  by (simp add: quote_ident_def replace_backticks)

lemma read_quoted:
  "(case rest of [] \<Rightarrow> True | c # s \<Rightarrow> c \<noteq> backtick) \<Longrightarrow>
     read_ident (concat (map doubled n) @ backtick # rest) = Some (n, rest)"
  by (induction n) (auto simp: doubled_def split: list.splits)

section \<open>Statements as the server reads them\<close>

text \<open>A script is cut at the semicolons that stand outside a quoted identifier.\<close>

definition onto_first :: "string \<Rightarrow> string list \<Rightarrow> string list" where
  "onto_first t ss = (case ss of [] \<Rightarrow> [t] | s # ss \<Rightarrow> (t @ s) # ss)"

fun statements :: "bool \<Rightarrow> string \<Rightarrow> string list" where
  "statements quoted [] = [[]]"
| "statements quoted (c # s) =
     (if c = backtick then onto_first [c] (statements (\<not> quoted) s)
      else if c = CHR '';'' \<and> \<not> quoted then [] # statements quoted s
      else onto_first [c] (statements quoted s))"

lemma statements_nonempty [simp]: "statements q s \<noteq> []"
  by (induction q s rule: statements.induct) (auto simp: onto_first_def split: list.splits)

lemma onto_first_merge [simp]: "onto_first s (onto_first t ss) = onto_first (s @ t) ss"
  by (simp add: onto_first_def split: list.splits)

lemma semicolon_backtick [simp]: "CHR '';'' \<noteq> backtick"
  by (simp add: backtick_def)

lemma onto_first_Nil [simp]: "ss \<noteq> [] \<Longrightarrow> onto_first [] ss = ss"
  by (simp add: onto_first_def split: list.splits)

text \<open>A text that cannot end a statement nor open a quotation is passed over as a whole.\<close>

definition inert :: "string \<Rightarrow> bool" where
  "inert t \<longleftrightarrow> (\<forall>rest. statements False (t @ rest) = onto_first t (statements False rest))"

lemma inert_append: "inert s \<Longrightarrow> inert t \<Longrightarrow> inert (s @ t)"
  by (simp add: inert_def)

lemma inert_plain: "list_all (\<lambda>c. c \<noteq> backtick \<and> c \<noteq> CHR '';'') t \<Longrightarrow> inert t"
proof (induction t)
  case (Cons c t)
  then show ?case by (simp add: inert_def)
qed (simp add: inert_def)

lemma quoted_name: "statements True (concat (map doubled n) @ rest) = onto_first (concat (map doubled n)) (statements True rest)"
proof (induction n)
  case (Cons c n)
  then show ?case by (simp add: doubled_def)
qed simp

lemma inert_quote: "inert (quote_ident n)"
  unfolding inert_def quote_ident_eq
  by (simp add: quoted_name)

text \<open>A statement and the semicolon behind it.\<close>

lemma statement_ends: "inert t \<Longrightarrow> statements False (t @ CHR '';'' # rest) = t # statements False rest"
  by (simp add: inert_def onto_first_def)

section \<open>Emptying a database\<close>

type_synonym db_object = "string \<times> string"

text \<open>A routine carries its kind in its label.\<close>

definition routine_object :: "string \<Rightarrow> db_object list" where
  "routine_object label =
     (case cut_byte CHR '' '' label of
        None \<Rightarrow> [] | Some (typ, name) \<Rightarrow> if typ = ''PROCEDURE'' \<or> typ = ''FUNCTION'' then [(typ, name)] else [])"

definition objects_of :: "schema_fp \<Rightarrow> db_object list" where
  "objects_of fp =
     map (Pair ''VIEW'') (sort (fp_views fp)) @ map (Pair ''TRIGGER'') (sort (fp_triggers fp))
       @ map (Pair ''EVENT'') (sort (fp_events fp)) @ concat (map routine_object (sort (fp_routines fp)))
       @ map (Pair ''TABLE'') (sort (fp_tables fp))"

definition drop_text :: "db_object \<Rightarrow> string" where
  "drop_text ob = ''DROP '' @ fst ob @ '' IF EXISTS '' @ quote_ident (snd ob)"

definition drop_kinds :: "string list" where
  "drop_kinds = [''VIEW'', ''TRIGGER'', ''EVENT'', ''PROCEDURE'', ''FUNCTION'', ''TABLE'']"

lemma drop_line_text: "drop_line what name = drop_text (what, name) @ CHR '';'' # [newline]"
  by (simp add: drop_line_def drop_text_def)

lemma drop_lines: "concat (map (drop_line what) names) = concat (map (\<lambda>ob. drop_text ob @ CHR '';'' # [newline]) (map (Pair what) names))"
  by (induction names) (simp_all add: drop_line_text)

lemma drop_routines: "concat (map drop_routine labels) = concat (map (\<lambda>ob. drop_text ob @ CHR '';'' # [newline]) (concat (map routine_object labels)))"
  by (induction labels) (auto simp: drop_routine_def routine_object_def drop_line_text split: option.splits)

lemma drop_schema_eq:
  assumes "objects_of fp \<noteq> []"
  shows "drop_schema_sql fp =
     ''SET FOREIGN_KEY_CHECKS=0'' @ CHR '';'' # newline # concat (map (\<lambda>ob. drop_text ob @ CHR '';'' # [newline]) (objects_of fp))
       @ ''SET FOREIGN_KEY_CHECKS=1'' @ CHR '';'' # []"
proof -
  have ne: "\<not> length (fp_tables fp) + length (fp_views fp) + length (fp_triggers fp) + length (fp_routines fp)
           + length (fp_events fp) = 0"
    using assms by (auto simp: objects_of_def)
  show ?thesis
    unfolding drop_schema_sql_def if_not_P [OF ne] drop_lines drop_routines objects_of_def by simp
qed

lemma inert_drop: "fst ob \<in> set drop_kinds \<Longrightarrow> inert (newline # drop_text ob)"
proof -
  assume "fst ob \<in> set drop_kinds"
  then have "list_all (\<lambda>c. c \<noteq> backtick \<and> c \<noteq> CHR '';'') (newline # ''DROP '' @ fst ob @ '' IF EXISTS '')"
    by (auto simp: drop_kinds_def newline_def backtick_def)
  then have "inert ((newline # ''DROP '' @ fst ob @ '' IF EXISTS '') @ quote_ident (snd ob))"
    by (intro inert_append inert_plain inert_quote)
  then show ?thesis by (simp add: drop_text_def)
qed

lemma drop_statements:
  "list_all (\<lambda>ob. fst ob \<in> set drop_kinds) obs \<Longrightarrow>
     statements False (newline # concat (map (\<lambda>ob. drop_text ob @ CHR '';'' # [newline]) obs) @ rest)
       = map (\<lambda>ob. newline # drop_text ob) obs @ statements False (newline # rest)"
proof (induction obs)
  case (Cons ob obs)
  have "newline # concat (map (\<lambda>ob. drop_text ob @ CHR '';'' # [newline]) (ob # obs)) @ rest
     = (newline # drop_text ob) @ CHR '';'' # newline # concat (map (\<lambda>ob. drop_text ob @ CHR '';'' # [newline]) obs) @ rest"
    by simp
  then show ?case using Cons by (simp add: statement_ends [OF inert_drop, simplified])
qed simp

lemma objects_kinds: "list_all (\<lambda>ob. fst ob \<in> set drop_kinds) (objects_of fp)"
  by (auto simp: list_all_iff objects_of_def drop_kinds_def routine_object_def split: option.splits if_splits)

text \<open>C19. Whatever bytes the names of the objects have, the script that empties a database is read by the
  server as one statement that drops each of them, by its very name, between the two that switch the
  foreign key checks off and on: no name ends a statement or a quotation early, so nothing else is run.\<close>

theorem drop_script_exact:
  assumes "objects_of fp \<noteq> []"
  shows "statements False (drop_schema_sql fp) =
           ''SET FOREIGN_KEY_CHECKS=0'' # map (\<lambda>(what, n). newline # ''DROP '' @ what @ '' IF EXISTS '' @ quote_ident n) (objects_of fp)
             @ [newline # ''SET FOREIGN_KEY_CHECKS=1'', []]
         \<and> list_all (\<lambda>(what, n). what \<in> set drop_kinds \<and> read_ident (tl (quote_ident n)) = Some (n, [])) (objects_of fp)"
proof -
  have "inert ''SET FOREIGN_KEY_CHECKS=0''" "inert (newline # ''SET FOREIGN_KEY_CHECKS=1'')"
    by (rule inert_plain, simp add: backtick_def newline_def)+
  note ends = this [THEN statement_ends]
  have "statements False (drop_schema_sql fp) =
      ''SET FOREIGN_KEY_CHECKS=0'' # map (\<lambda>ob. newline # drop_text ob) (objects_of fp)
        @ [newline # ''SET FOREIGN_KEY_CHECKS=1'', []]"
    unfolding drop_schema_eq [OF assms] ends(1) drop_statements [OF objects_kinds]
    using ends(2) [of "[]"] by simp
  moreover have "(\<lambda>ob. newline # drop_text ob) = (\<lambda>(what, n). newline # ''DROP '' @ what @ '' IF EXISTS '' @ quote_ident n)"
    by (auto simp: drop_text_def)
  moreover have "read_ident (tl (quote_ident n)) = Some (n, [])" for n
    using read_quoted [of "[]" n] by (simp add: quote_ident_eq)
  ultimately show ?thesis using objects_kinds [of fp] by (auto simp: list_all_iff)
qed

section \<open>Row counts\<close>

text \<open>What a server prints: a line per item, tabs between the fields. A table is its name, its counter and
  its number of rows.\<close>

type_synonym table_row = "string \<times> int \<times> int"

definition printed :: "string list \<Rightarrow> string" where
  "printed ls = concat (map (\<lambda>l. l @ [newline]) ls)"

definition meta_row :: "table_row \<Rightarrow> string" where
  "meta_row t = ''A'' @ tab # encode_hex_name (fst t) @ tab # itoa (fst (snd t))"

definition count_row :: "table_row \<Rightarrow> string" where
  "count_row t = encode_hex_name (fst t) @ tab # itoa (snd (snd t))"

definition is_int64 :: "int \<Rightarrow> bool" where
  "is_int64 i \<longleftrightarrow> - (2 ^ 63) \<le> i \<and> i < 2 ^ 63"

definition clean_line :: "string \<Rightarrow> bool" where
  "clean_line l \<longleftrightarrow> newline \<notin> set l \<and> carriage_return \<notin> set l"

lemma trim_right_byte_absent: "c \<notin> set s \<Longrightarrow> trim_right_byte c s = s"
proof -
  assume "c \<notin> set s"
  have "c \<notin> set t \<Longrightarrow> dropWhile (\<lambda>d. d = c) t = t" for t by (cases t) auto
  then have "dropWhile (\<lambda>d. d = c) (rev s) = rev s" using \<open>c \<notin> set s\<close> by simp
  then show ?thesis by (simp add: trim_right_byte_def)
qed

lemma split_append_sep: "sep \<notin> set l \<Longrightarrow> split_byte sep (l @ sep # rest) = l # split_byte sep rest"
  by (induction l) auto

lemma lines_of_printed: "list_all clean_line ls \<Longrightarrow> lines_of (printed ls) = ls @ [[]]"
proof (induction ls)
  case (Cons l ls)
  then show ?case
    by (simp add: lines_of_def printed_def split_append_sep clean_line_def trim_right_byte_absent)
qed (simp add: lines_of_def printed_def trim_right_byte_def)

lemma cut_last_byte_sep:
  assumes "sep \<notin> set v"
  shows "cut_last_byte sep (l @ sep # v) = Some (l, v)"
proof -
  have "cut_byte sep (rev v @ sep # rev l) = Some (rev v, rev l)"
    using assms by (simp add: cut_byte_def takeWhile_append dropWhile_append)
  then show ?thesis by (simp add: cut_last_byte_def)
qed

lemma itoa_label: "list_all is_label_char (itoa i)"
  using itoa_chars by (fastforce simp: list_all_iff is_label_char_def is_digit_def byte_def)

lemma label_clean: "list_all is_label_char s \<Longrightarrow> tab \<notin> set s \<and> newline \<notin> set s \<and> carriage_return \<notin> set s"
proof -
  have "\<not> is_label_char tab" "\<not> is_label_char newline" "\<not> is_label_char carriage_return"
    by (simp_all add: is_label_char_def tab_def newline_def carriage_return_def byte_def)
  then show "list_all is_label_char s \<Longrightarrow> ?thesis" by (auto simp: list_all_iff)
qed

lemmas itoa_clean = label_clean [OF itoa_label] and hex_clean = label_clean [OF encode_hex_chars]

lemma itoa_reads: "is_int64 i \<Longrightarrow> parse_int64 (trim_space (itoa i)) = Some i"
  by (simp add: trim_space_label [OF itoa_label] is_int64_def parse_int64_itoa)

lemma fixed_bytes: "tab \<noteq> CHR ''A''" "newline \<noteq> CHR ''A''" "carriage_return \<noteq> CHR ''A''" "newline \<noteq> tab" "carriage_return \<noteq> tab"
  "tab \<noteq> CHR ''V''" "newline \<noteq> CHR ''V''" "carriage_return \<noteq> CHR ''V''"
  by (simp_all add: tab_def newline_def carriage_return_def)

lemma rows_clean: "clean_line (meta_row t)" "clean_line (count_row t)"
  using itoa_clean hex_clean fixed_bytes by (simp_all add: clean_line_def meta_row_def count_row_def)

lemma meta_row_fields: "split_byte tab (meta_row t) = [''A'', encode_hex_name (fst t), itoa (fst (snd t))]"
  using fixed_bytes(1) hex_clean itoa_clean
  by (simp add: meta_row_def split_append_sep split_byte_no_sep)

lemma update_absent: "k \<notin> fst ` set m \<Longrightarrow> AList.update k v m = m @ [(k, v)]"
  by (induction m) auto

lemma foldl_meta:
  assumes "list_all (\<lambda>t. is_int64 (fst (snd t))) ts" "distinct (map fst ts)" "fst ` set ts \<inter> fst ` set (mi_auto mi) = {}"
  shows "foldl meta_line mi (map meta_row ts) =
    mi\<lparr>mi_auto := mi_auto mi @ map (\<lambda>t. (fst t, fst (snd t))) ts, mi_names := mi_names mi @ map fst ts\<rparr>"
  using assms
proof (induction ts arbitrary: mi)
  case (Cons t ts)
  have "meta_row t \<noteq> []" by (simp add: meta_row_def)
  then have step: "meta_line mi (meta_row t) =
     mi\<lparr>mi_auto := mi_auto mi @ [(fst t, fst (snd t))], mi_names := mi_names mi @ [fst t]\<rparr>"
    using Cons.prems by (simp add: meta_line_def meta_row_fields hex_label_reads int_or_clamped_def itoa_reads update_absent)
  show ?case using Cons.prems unfolding list.map foldl.simps step by (subst Cons.IH) auto
qed simp

lemma parse_meta_printed:
  assumes "clean_line v" "tab \<notin> set v" "list_all (\<lambda>t. is_int64 (fst (snd t))) ts" "distinct (map fst ts)"
  shows "parse_meta (printed ((''V'' @ tab # v) # map meta_row ts)) =
    Some \<lparr>mi_version = v, mi_auto = map (\<lambda>t. (fst t, fst (snd t))) ts, mi_names = sort (map fst ts), mi_seen = True, mi_bad = False\<rparr>"
proof -
  have "list_all clean_line ((''V'' @ tab # v) # map meta_row ts)"
    using assms(1) fixed_bytes rows_clean by (simp add: clean_line_def list_all_iff)
  then have ls: "lines_of (printed ((''V'' @ tab # v) # map meta_row ts)) = (''V'' @ tab # v) # map meta_row ts @ [[]]"
    using lines_of_printed by simp
  have "split_byte tab (''V'' @ tab # v) = [''V'', v]"
    using assms(2) fixed_bytes(6) split_append_sep [of tab "''V''" v] by (simp add: split_byte_no_sep)
  then have "meta_line \<lparr>mi_version = [], mi_auto = [], mi_names = [], mi_seen = False, mi_bad = False\<rparr> (''V'' @ tab # v) =
      \<lparr>mi_version = v, mi_auto = [], mi_names = [], mi_seen = True, mi_bad = False\<rparr>"
    by (simp add: meta_line_def)
  then show ?thesis
    unfolding parse_meta_def ls using assms(3,4) by (simp add: foldl_meta meta_line_def [of _ "[]"])
qed

lemma foldl_counts:
  assumes "list_all (\<lambda>t. is_int64 (snd (snd t))) ts" "distinct (map fst ts)" "encode_hex_name ` fst ` set ts \<inter> fst ` set m = {}"
  shows "foldl row_count_line m (map count_row ts) = m @ map (\<lambda>t. (encode_hex_name (fst t), snd (snd t))) ts"
  using assms
proof (induction ts arbitrary: m)
  case (Cons t ts)
  have inj: "encode_hex_name x = encode_hex_name y \<Longrightarrow> x = y" for x y using hex_label_reads by (metis option.inject)
  have "count_row t \<noteq> []" by (simp add: count_row_def)
  then have step: "row_count_line m (count_row t) = m @ [(encode_hex_name (fst t), snd (snd t))]"
    using Cons.prems itoa_clean
    by (simp add: row_count_line_def count_row_def cut_last_byte_sep itoa_reads update_absent)
  show ?case using Cons.prems unfolding list.map foldl.simps step
    by (subst Cons.IH) (auto dest!: inj)
qed simp

lemma parse_counts_printed:
  assumes "list_all (\<lambda>t. is_int64 (snd (snd t))) ts" "distinct (map fst ts)"
  shows "parse_row_counts (printed (map count_row ts)) = map (\<lambda>t. (encode_hex_name (fst t), snd (snd t))) ts"
proof -
  have "lines_of (printed (map count_row ts)) = map count_row ts @ [[]]"
    by (rule lines_of_printed) (simp add: list_all_iff rows_clean)
  then show ?thesis using assms by (simp add: parse_row_counts_def foldl_counts row_count_line_def [of _ "[]"])
qed

lemma keep_count_found:
  "map_of m n = Some e \<Longrightarrow>
     keep_count (m, k) (encode_hex_name n, c) = (AList.update n (e\<lparr>dt_rows := c\<rparr>) m, Suc k)"
  by (simp add: keep_count_def hex_label_reads)

text \<open>Counts under labels of distinct tables: each is stored with its table and all are counted.\<close>

lemma foldl_keep_count:
  assumes "distinct (map fst ps)" "fst ` set ps \<subseteq> dom (map_of m)"
  shows "snd (foldl keep_count (m, k) (map (\<lambda>p. (encode_hex_name (fst p), snd p)) ps)) = k + length ps
    \<and> map_of (fst (foldl keep_count (m, k) (map (\<lambda>p. (encode_hex_name (fst p), snd p)) ps))) n =
        (case map_of ps n of
           None \<Rightarrow> map_of m n | Some c \<Rightarrow> map_option (\<lambda>e. e\<lparr>dt_rows := c\<rparr>) (map_of m n))"
  using assms
proof (induction ps arbitrary: m k)
  case (Cons p ps)
  obtain name c where p: "p = (name, c)" by (cases p)
  then obtain e where e: "map_of m name = Some e" using Cons.prems(2) by auto
  let ?m = "AList.update name (e\<lparr>dt_rows := c\<rparr>) m"
  have upd: "map_of ?m x = (if x = name then Some (e\<lparr>dt_rows := c\<rparr>) else map_of m x)" for x by (simp add: update_conv)
  then have sub: "fst ` set ps \<subseteq> dom (map_of ?m)" using Cons.prems(2) p by (auto simp: dom_def)
  have fresh: "map_of ps name = None" using Cons.prems(1) p by (simp add: map_of_eq_None_iff)
  have "distinct (map fst ps)" using Cons.prems(1) by simp
  note IH = Cons.IH [OF this sub, of "Suc k"]
  show ?case
    unfolding p list.map foldl.simps fst_conv snd_conv keep_count_found [OF e]
    using IH by (cases "n = name"; cases "map_of ps n") (simp_all add: upd e fresh)
qed simp

lemma foldl_fresh_tables:
  assumes "distinct (map fst m @ names)"
  shows "foldl (\<lambda>m n. AList.update n (f n) m) m names = m @ map (\<lambda>n. (n, f n)) names"
  using assms by (induction names arbitrary: m) (simp_all add: update_absent)

definition deep_of :: "table_row \<Rightarrow> string \<times> deep_table" where
  "deep_of t = (fst t, \<lparr>dt_rows = snd (snd t), dt_auto = fst (snd t)\<rparr>)"

lemma map_of_keyed: "map_of (map (\<lambda>t. (fst t, g t)) ts) n = map_option (\<lambda>x. g (n, x)) (map_of ts n)"
  by (induction ts) auto

text \<open>The reader, once the two answers are parsed.\<close>

lemma kept_counts:
  assumes "distinct (map fst ts)" "mset ps = mset (map (\<lambda>t. (fst t, snd (snd t))) ts)"
    "m = map (\<lambda>n. (n, \<lparr>dt_rows = 0, dt_auto = (case map_of (map (\<lambda>t. (fst t, fst (snd t))) ts) n of None \<Rightarrow> 0 | Some a \<Rightarrow> a)\<rparr>)) (sort (map fst ts))"
  shows "snd (foldl keep_count (m, 0) (map (\<lambda>p. (encode_hex_name (fst p), snd p)) ps)) = length ts
    \<and> map_of (fst (foldl keep_count (m, 0) (map (\<lambda>p. (encode_hex_name (fst p), snd p)) ps))) = map_of (map deep_of ts)"
proof -
  have keys: "mset (map fst ps) = mset (map fst ts)"
    using arg_cong [OF assms(2), of "image_mset fst"] by (simp add: comp_def flip: mset_map)
  have ps: "distinct (map fst ps)" using assms(1) keys mset_eq_imp_distinct_iff by blast
  have same: "map_of ps = map_of (map (\<lambda>t. (fst t, snd (snd t))) ts)"
    using map_of_inject_set [of ps "map (\<lambda>t. (fst t, snd (snd t))) ts"] assms(1) ps arg_cong [OF assms(2), of set_mset]
    by (simp add: comp_def)
  have m: "map_of m n = (case map_of ts n of None \<Rightarrow> None | Some x \<Rightarrow> Some \<lparr>dt_rows = 0, dt_auto = fst x\<rparr>)" for n
  proof (cases "map_of ts n")
    case None
    then have "n \<notin> fst ` set ts" by (simp add: map_of_eq_None_iff)
    then show ?thesis using None by (simp add: assms(3) map_of_map_restrict)
  next
    case (Some x)
    then have "n \<in> fst ` set ts" by (metis domI dom_map_of_conv_image_fst)
    then show ?thesis using Some by (simp add: assms(3) map_of_map_restrict map_of_keyed)
  qed
  have sub: "fst ` set ps \<subseteq> dom (map_of m)"
  proof
    fix n assume "n \<in> fst ` set ps"
    then have "n \<in> fst ` set ts" using arg_cong [OF keys, of set_mset] by simp
    then obtain x where "map_of ts n = Some x" by (metis domD dom_map_of_conv_image_fst)
    then show "n \<in> dom (map_of m)" using m [of n] by auto
  qed
  have len: "length ps = length ts" using arg_cong [OF keys, of size] by simp
  let ?r = "foldl keep_count (m, 0) (map (\<lambda>p. (encode_hex_name (fst p), snd p)) ps)"
  have "map_of (fst ?r) n = map_of (map deep_of ts) n" for n
  proof -
    have "map_of (map deep_of ts) n = map_option (\<lambda>x. \<lparr>dt_rows = snd x, dt_auto = fst x\<rparr>) (map_of ts n)"
      unfolding deep_of_def by (rule map_of_keyed [where g = "\<lambda>t. \<lparr>dt_rows = snd (snd t), dt_auto = fst (snd t)\<rparr>", simplified])
    moreover have "map_of ps n = map_option snd (map_of ts n)" unfolding same by (simp add: map_of_keyed)
    ultimately show ?thesis
      using conjunct2 [OF foldl_keep_count [OF ps sub, of 0 n]] m [of n] by (cases "map_of ts n") simp_all
  qed
  then show ?thesis using conjunct1 [OF foldl_keep_count [OF ps sub, of 0]] len by (simp add: fun_eq_iff)
qed

text \<open>A permutation of a mapped list is the map of a permutation.\<close>

lemma permuted_map:
  assumes "mset ys = mset (map f xs)"
  shows "\<exists>zs. ys = map f zs \<and> mset zs = mset xs"
  using assms
proof (induction xs arbitrary: ys)
  case (Cons x xs)
  then obtain a b where ys: "ys = a @ f x # b" by (metis list.set_intros(1) list.simps(9) mset_eq_setD split_list)
  with Cons.prems have "mset (a @ b) = mset (map f xs)" by simp
  then obtain zs where zs: "a @ b = map f zs" "mset zs = mset xs" using Cons.IH by blast
  have "ys = map f (take (length a) zs @ x # drop (length a) zs)"
    using ys zs(1) by (simp add: take_map [symmetric] drop_map [symmetric] flip: zs(1))
  moreover have "mset (take (length a) zs @ x # drop (length a) zs) = mset (x # xs)"
    using zs(2) arg_cong [OF append_take_drop_id [of "length a" zs], of mset] by (simp del: append_take_drop_id)
  ultimately show ?case by blast
qed simp

text \<open>A server that holds these tables answers the two questions, each in an order of its own.\<close>

definition serves :: "runner \<Rightarrow> side \<Rightarrow> db_env \<Rightarrow> db_log \<Rightarrow> string \<Rightarrow> table_row list \<Rightarrow> table_row list \<Rightarrow> bool" where
  "serves r side env log v ts counted \<longleftrightarrow>
     r log (Run side MetaCmd env) = Inr (printed ((''V'' @ tab # v) # map meta_row ts))
     \<and> r (log @ [Run side MetaCmd env]) (Run side (DynamicSQL (row_count_sql (sort (map fst ts)))) env)
         = Inr (printed (map count_row counted))"

lemma row_count_sql_empty_iff: "row_count_sql names = [] \<longleftrightarrow> names = []"
  by (cases names rule: remdups_adj.cases) (simp_all add: row_count_sql_def)

text \<open>C38. Whatever bytes the names of the tables have and in whatever order the server and the loop go through
  them, the fingerprint of a database holds its version and, for every table under its own name, the
  number of rows and the counter the server has: no count is lost or stored with another table.\<close>

theorem deep_tables_read_back:
  assumes "serves r side env log v ts counted"
    and "clean_line v" "tab \<notin> set v"
    and "distinct (map fst ts)" "mset counted = mset ts"
    and "list_all (\<lambda>t. is_int64 (fst (snd t)) \<and> is_int64 (snd (snd t))) ts"
    and "mset (visit (parse_row_counts (printed (map count_row counted)))) = mset (parse_row_counts (printed (map count_row counted)))"
  shows "\<exists>info log'. deep_tables r visit side env log = (Inr info, log')
           \<and> di_version info = v \<and> map_of (di_tables info) = map_of (map deep_of ts)"
proof (cases "ts = []")
  case True
  then show ?thesis
    using assms parse_meta_printed [of v ts]
    by (simp add: deep_tables_def read_as_def run_def serves_def row_count_sql_empty_iff)
next
  case False
  let ?auto = "map (\<lambda>t. (fst t, fst (snd t))) ts"
  let ?m = "map (\<lambda>n. (n, \<lparr>dt_rows = 0, dt_auto = (case map_of ?auto n of None \<Rightarrow> 0 | Some a \<Rightarrow> a)\<rparr>)) (sort (map fst ts))"
  have ints: "list_all (\<lambda>t. is_int64 (fst (snd t))) ts" "list_all (\<lambda>t. is_int64 (snd (snd t))) counted"
    using assms(6) arg_cong [OF assms(5), of set_mset] by (simp_all add: list_all_iff)
  have dist: "distinct (map fst counted)"
    using assms(4) arg_cong [OF assms(5), of "image_mset fst"] mset_eq_imp_distinct_iff by (metis mset_map)
  let ?counts = "map (\<lambda>t. (encode_hex_name (fst t), snd (snd t))) counted"
  have counts: "parse_row_counts (printed (map count_row counted)) = ?counts"
    by (rule parse_counts_printed [OF ints(2) dist])
  obtain ps where ps: "visit ?counts = map (\<lambda>p. (encode_hex_name (fst p), snd p)) ps"
    "mset ps = mset (map (\<lambda>t. (fst t, snd (snd t))) ts)"
    using permuted_map [of "visit ?counts" "\<lambda>p. (encode_hex_name (fst p), snd p)" "map (\<lambda>t. (fst t, snd (snd t))) counted"]
      assms(5,7) counts by (auto simp: comp_def)
  have fresh: "foldl (\<lambda>m n. AList.update n \<lparr>dt_rows = 0, dt_auto = (case map_of ?auto n of None \<Rightarrow> 0 | Some a \<Rightarrow> a)\<rparr> m) []
      (sort (map fst ts)) = ?m"
    by (subst foldl_fresh_tables) (simp_all add: assms(4))
  note kept = kept_counts [OF assms(4) ps(2) refl]
  obtain tables k where fold: "foldl keep_count (?m, 0) (visit ?counts) = (tables, k)" by (cases "foldl keep_count (?m, 0) (visit ?counts)")
  then have "k = length ts" "map_of tables = map_of (map deep_of ts)" using kept unfolding ps(1) by simp_all
  then show ?thesis
    using assms(1) parse_meta_printed [OF assms(2,3) ints(1) assms(4)] False
    by (simp add: deep_tables_def read_as_def run_def serves_def row_count_sql_empty_iff Let_def fresh counts fold)
qed

text \<open>Two tables, one of them called by a tab and a backtick; the counts come in the other order.\<close>

definition odd_tables :: "table_row list" where
  "odd_tables = [([tab, backtick], 7, 2), (''wp_posts'', 41, 40)]"

definition odd_server :: runner where
  "odd_server log call =
     (case call of
        Run _ MetaCmd _ \<Rightarrow> Inr (printed ((''V'' @ tab # ''8.0.36'') # map meta_row odd_tables))
      | Run _ (DynamicSQL _) _ \<Rightarrow> Inr (printed (map count_row (rev odd_tables)))
      | _ \<Rightarrow> Inl [])"

lemma deep_tables_read_back_witness:
  "serves odd_server Source (dump_env ''db'' ''u'' ''p'') [] ''8.0.36'' odd_tables (rev odd_tables)
   \<and> (\<exists>info log'. deep_tables odd_server rev Source (dump_env ''db'' ''u'' ''p'') [] = (Inr info, log')
        \<and> di_version info = ''8.0.36'' \<and> map_of (di_tables info) = map_of (map deep_of odd_tables))"
proof -
  have s: "serves odd_server Source (dump_env ''db'' ''u'' ''p'') [] ''8.0.36'' odd_tables (rev odd_tables)"
    by (simp add: serves_def odd_server_def)
  have "\<exists>info log'. deep_tables odd_server rev Source (dump_env ''db'' ''u'' ''p'') [] = (Inr info, log')
        \<and> di_version info = ''8.0.36'' \<and> map_of (di_tables info) = map_of (map deep_of odd_tables)"
    by (rule deep_tables_read_back [OF s])
       (simp_all add: clean_line_def odd_tables_def newline_def carriage_return_def tab_def is_int64_def)
  with s show ?thesis by blast
qed

text \<open>A view and a table whose names try to end the quotation and the statement.\<close>

definition odd_schema :: schema_fp where
  "odd_schema = no_schema\<lparr>fp_tables := [backtick # '';DROP DATABASE x;''], fp_views := [''v'']\<rparr>"

lemma drop_script_exact_witness:
  "objects_of odd_schema \<noteq> [] \<and> length (statements False (drop_schema_sql odd_schema)) = 5"
  using drop_script_exact [of odd_schema] by (simp add: objects_of_def odd_schema_def no_schema_def)

end
