(* ===== verification/DbVerify.thy ===== *)
theory DbVerify
  imports DbSql MigData
begin

text \<open>
  The verification of migrated databases in \<open>internal/migrate/apply_dbs.go\<close>: the comparison of schemas,
  encodings, row counts, checksums and object bodies, the verdict on one database and the loop over the
  plan. Verdicts are cases; the sentences printed from them are left out. A runner answers every script,
  on either side, as a function of the calls made before.
\<close>

section \<open>Schemas\<close>

record schema_diff =
  xd_missing_tables :: "string list"
  xd_extra_tables :: "string list"
  xd_missing_views :: "string list"
  xd_extra_views :: "string list"
  xd_missing_triggers :: "string list"
  xd_extra_triggers :: "string list"
  xd_missing_routines :: "string list"
  xd_extra_routines :: "string list"
  xd_missing_events :: "string list"
  xd_extra_events :: "string list"

definition missing_names :: "string list \<Rightarrow> string list \<Rightarrow> string list" where
  "missing_names want have = sort (filter (\<lambda>n. n \<notin> set have) want)"

definition diff_schema :: "schema_fp \<Rightarrow> schema_fp \<Rightarrow> schema_diff" where
  "diff_schema src dest =
     \<lparr>xd_missing_tables = missing_names (fp_tables src) (fp_tables dest),
      xd_extra_tables = missing_names (fp_tables dest) (fp_tables src),
      xd_missing_views = missing_names (fp_views src) (fp_views dest),
      xd_extra_views = missing_names (fp_views dest) (fp_views src),
      xd_missing_triggers = missing_names (fp_triggers src) (fp_triggers dest),
      xd_extra_triggers = missing_names (fp_triggers dest) (fp_triggers src),
      xd_missing_routines = missing_names (fp_routines src) (fp_routines dest),
      xd_extra_routines = missing_names (fp_routines dest) (fp_routines src),
      xd_missing_events = missing_names (fp_events src) (fp_events dest),
      xd_extra_events = missing_names (fp_events dest) (fp_events src)\<rparr>"

definition schema_diff_empty :: "schema_diff \<Rightarrow> bool" where
  "schema_diff_empty d \<longleftrightarrow>
     length (xd_missing_tables d) + length (xd_extra_tables d)
     + length (xd_missing_views d) + length (xd_extra_views d)
     + length (xd_missing_triggers d) + length (xd_extra_triggers d)
     + length (xd_missing_routines d) + length (xd_extra_routines d)
     + length (xd_missing_events d) + length (xd_extra_events d) = 0"

definition no_schema_diff :: schema_diff where
  "no_schema_diff = diff_schema no_schema no_schema"

text \<open>The first component says that the databases match, the second that a side could not be read.\<close>

definition db_verdict ::
    "nat \<Rightarrow> nat \<Rightarrow> object_counts \<Rightarrow> object_counts \<Rightarrow> schema_diff \<Rightarrow> bool \<Rightarrow> bool \<Rightarrow> bool \<times> bool" where
  "db_verdict src_tables dest_tables src_obj dest_obj delta err_src err_dest =
     (if err_src \<or> err_dest then (False, True)
      else (src_tables = dest_tables \<and> src_obj = dest_obj \<and> schema_diff_empty delta, False))"

section \<open>Encodings\<close>

definition cs_verdict :: "bool \<Rightarrow> bool \<Rightarrow> nat \<Rightarrow> bool \<times> bool" where
  "cs_verdict comparable db_diff n = (comparable \<and> \<not> db_diff \<and> n = 0, comparable \<and> db_diff \<and> n = 0)"

definition collation_change :: "string \<Rightarrow> string \<Rightarrow> string \<Rightarrow> string" where
  "collation_change name a b = name @ '' ('' @ a @ ''->'' @ b @ '')''"

definition diff_charsets :: "charset_info \<Rightarrow> charset_info \<Rightarrow> bool \<times> string list" where
  "diff_charsets src dest =
     (ci_charset src \<noteq> ci_charset dest \<or> ci_collation src \<noteq> ci_collation dest,
      sort (concat (map (\<lambda>(name, sc). case map_of (ci_tables dest) name of
              None \<Rightarrow> [] | Some dc \<Rightarrow> if sc \<noteq> dc then [collation_change name sc dc] else []) (ci_tables src))))"

section \<open>Contents\<close>

datatype unchecked_reason =
    ChecksumUnread | VersionsDiffer string string | NoChecksum "string list" | BodiesUnread
  | BodiesNotCompared string string

record deep_result =
  dd_missing :: "string list"
  dd_extra :: "string list"
  dd_rows :: "string list"
  dd_checksums :: "string list"
  dd_objects :: "string list"
  dd_unchecked :: bool
  dd_reason :: "unchecked_reason option"
  dd_auto :: "string list"

definition no_deep_result :: deep_result where
  "no_deep_result =
     \<lparr>dd_missing = [], dd_extra = [], dd_rows = [], dd_checksums = [], dd_objects = [], dd_unchecked = False,
      dd_reason = None, dd_auto = []\<rparr>"

definition hard_diff :: "deep_result \<Rightarrow> bool" where
  "hard_diff d \<longleftrightarrow>
     0 < length (dd_missing d) + length (dd_extra d) + length (dd_rows d) + length (dd_checksums d) + length (dd_objects d)"

definition same_columns :: "string list \<Rightarrow> string list \<Rightarrow> bool" where
  "same_columns a b \<longleftrightarrow> length a = length b \<and> list_all2 (=) a b"

definition diff_object_bodies :: "(string, string) gomap \<Rightarrow> (string, string) gomap \<Rightarrow> string list" where
  "diff_object_bodies src dest =
     sort (map fst (filter (\<lambda>(label, hash). case map_of dest label of None \<Rightarrow> False | Some h \<Rightarrow> hash \<noteq> h) src))"

definition common_object_count :: "(string, string) gomap \<Rightarrow> (string, string) gomap \<Rightarrow> nat" where
  "common_object_count src dest = length (filter (\<lambda>(label, hash). map_of dest label \<noteq> None) src)"

definition sorted_names :: "(string, deep_table) gomap \<Rightarrow> string list" where
  "sorted_names m = sort (map fst m)"

definition common_table_names :: "(string, deep_table) gomap \<Rightarrow> (string, deep_table) gomap \<Rightarrow> string list" where
  "common_table_names src dest = sort (filter (\<lambda>n. map_of dest n \<noteq> None) (map fst src))"

definition table_at :: "(string, deep_table) gomap \<Rightarrow> string \<Rightarrow> deep_table" where
  "table_at m n = (case map_of m n of None \<Rightarrow> \<lparr>dt_rows = 0, dt_auto = 0\<rparr> | Some t \<Rightarrow> t)"

definition count_change :: "string \<Rightarrow> int \<Rightarrow> int \<Rightarrow> string" where
  "count_change n a b = n @ '' ('' @ itoa a @ ''->'' @ itoa b @ '')''"

text \<open>One table of the source against the destination; the second component collects the tables whose
  content no checksum proves.\<close>

definition deep_step ::
    "deep_info \<Rightarrow> deep_info \<Rightarrow> (string, string) gomap option \<Rightarrow> (string, string) gomap option
     \<Rightarrow> deep_result \<times> string list \<Rightarrow> string \<Rightarrow> deep_result \<times> string list" where
  "deep_step src dest src_ck dest_ck st n =
     (case st of (res, unproven) \<Rightarrow>
        (let s = table_at (di_tables src) n
         in case map_of (di_tables dest) n of
              None \<Rightarrow> (res\<lparr>dd_missing := dd_missing res @ [n]\<rparr>, unproven)
            | Some d \<Rightarrow>
                (let (res, unproven) =
                   (if dt_rows s \<noteq> dt_rows d
                    then (res\<lparr>dd_rows := dd_rows res @ [count_change n (dt_rows s) (dt_rows d)]\<rparr>, unproven)
                    else case (src_ck, dest_ck) of
                      (Some ck, Some ck') \<Rightarrow>
                        (if str_at ck n = [] \<or> str_at ck' n = [] then (res, unproven @ [n])
                         else if str_at ck n \<noteq> str_at ck' n then (res\<lparr>dd_checksums := dd_checksums res @ [n]\<rparr>, unproven)
                         else (res, unproven))
                    | _ \<Rightarrow> (res, unproven))
                 in (if dt_auto s \<noteq> dt_auto d
                     then res\<lparr>dd_auto := dd_auto res @ [count_change n (dt_auto s) (dt_auto d)]\<rparr> else res, unproven))))"

definition diff_deep_tables ::
    "deep_info \<Rightarrow> deep_info \<Rightarrow> (string, string) gomap option \<Rightarrow> (string, string) gomap option \<Rightarrow> deep_result" where
  "diff_deep_tables src dest src_ck dest_ck =
     (let (res, unproven) = foldl (deep_step src dest src_ck dest_ck) (no_deep_result, []) (sorted_names (di_tables src));
          res = res\<lparr>dd_extra := filter (\<lambda>n. map_of (di_tables src) n = None) (sorted_names (di_tables dest))\<rparr>
      in if unproven \<noteq> [] then res\<lparr>dd_unchecked := True, dd_reason := Some (NoChecksum unproven)\<rparr> else res)"

text \<open>Which columns to hash: those of the source, and only if the destination has the same ones.\<close>

fun wanted_columns ::
    "(string, string list) gomap \<Rightarrow> (string, string list) gomap \<Rightarrow> string list \<Rightarrow> (string, string list) gomap option" where
  "wanted_columns src dest [] = Some []"
| "wanted_columns src dest (t # ts) =
     (case (map_of src t, map_of dest t) of
        (Some sc, Some dc) \<Rightarrow>
          if sc = [] \<or> \<not> same_columns sc dc then None
          else map_option (AList.update t sc) (wanted_columns src dest ts)
      | _ \<Rightarrow> None)"

definition fingerprint_certifies :: "(string, string) gomap \<Rightarrow> (string, string) gomap \<Rightarrow> string \<Rightarrow> bool" where
  "fingerprint_certifies src dest t =
     (case (map_of src t, map_of dest t) of
        (Some s, Some d) \<Rightarrow> s \<noteq> [] \<and> d \<noteq> [] \<and> s = d
      | _ \<Rightarrow> False)"

definition cross_engine_content_matches ::
    "runner \<Rightarrow> db_env \<Rightarrow> db_env \<Rightarrow> string list \<Rightarrow> db_log \<Rightarrow> bool \<times> db_log" where
  "cross_engine_content_matches r senv denv tables log =
     (if tables = [] then (False, log)
      else
        (let (src_cols, log) = table_columns r Source senv log; (dest_cols, log) = table_columns r Destination denv log
         in case (src_cols, dest_cols) of
              (Inr sc, Inr dc) \<Rightarrow>
                (case wanted_columns sc dc tables of
                   None \<Rightarrow> (False, log)
                 | Some want \<Rightarrow>
                     (let (src_fp, log) = content_fingerprints r Source senv want log;
                          (dest_fp, log) = content_fingerprints r Destination denv want log
                      in case (src_fp, dest_fp) of
                           (Inr sf, Inr df) \<Rightarrow> (list_all (fingerprint_certifies sf df) (map fst want), log)
                         | _ \<Rightarrow> (False, log)))
            | _ \<Rightarrow> (False, log)))"

text \<open>The checksums of the tables with equal row counts, or why their content is not proven.\<close>

definition checksums ::
    "runner \<Rightarrow> db_env \<Rightarrow> db_env \<Rightarrow> deep_info \<Rightarrow> deep_info \<Rightarrow> string list \<Rightarrow> db_log
     \<Rightarrow> ((string, string) gomap option \<times> (string, string) gomap option \<times> unchecked_reason option) \<times> db_log" where
  "checksums r senv denv src dest checkable log =
     (if checkable \<noteq> [] \<and> di_version src \<noteq> [] \<and> di_version src = di_version dest then
        (let (a, log) = checksum_tables r Source senv checkable log; (b, log) = checksum_tables r Destination denv checkable log
         in case (a, b) of
              (Inr ca, Inr cb) \<Rightarrow> ((Some ca, Some cb, None), log)
            | _ \<Rightarrow> ((None, None, Some ChecksumUnread), log))
      else if checkable \<noteq> [] then
        (case cross_engine_content_matches r senv denv checkable log of
           (True, log) \<Rightarrow> ((None, None, None), log)
         | (False, log) \<Rightarrow> ((None, None, Some (VersionsDiffer (di_version src) (di_version dest))), log))
      else ((None, None, None), log))"

definition note_unchecked :: "unchecked_reason \<Rightarrow> deep_result \<Rightarrow> deep_result" where
  "note_unchecked why res =
     res\<lparr>dd_unchecked := True, dd_reason := (if dd_reason res = None then Some why else dd_reason res)\<rparr>"

definition compare_bodies ::
    "deep_info \<Rightarrow> deep_info \<Rightarrow> db_error + (string, string) gomap \<Rightarrow> db_error + (string, string) gomap \<Rightarrow> deep_result \<Rightarrow> deep_result" where
  "compare_bodies src dest a b res =
     (case (a, b) of
        (Inr sb, Inr db) \<Rightarrow>
          if di_version src \<noteq> [] \<and> di_version src = di_version dest then res\<lparr>dd_objects := diff_object_bodies sb db\<rparr>
          else if 0 < common_object_count sb db
          then note_unchecked (BodiesNotCompared (di_version src) (di_version dest)) res
          else res
      | _ \<Rightarrow> note_unchecked BodiesUnread res)"

definition deep_db ::
    "runner \<Rightarrow> ((string, int) gomap \<Rightarrow> (string, int) gomap) \<Rightarrow> db_env \<Rightarrow> db_env \<Rightarrow> db_log \<Rightarrow> deep_result option \<times> db_log" where
  "deep_db r visit senv denv log =
     (let (a, log) = deep_tables r visit Source senv log; (b, log) = deep_tables r visit Destination denv log
      in case (a, b) of
           (Inr src, Inr dest) \<Rightarrow>
             (let checkable = filter (\<lambda>n. dt_rows (table_at (di_tables src) n) = dt_rows (table_at (di_tables dest) n))
                                (common_table_names (di_tables src) (di_tables dest));
                  ((src_ck, dest_ck, why), log) = checksums r senv denv src dest checkable log;
                  res = diff_deep_tables src dest src_ck dest_ck;
                  res = (case why of None \<Rightarrow> res | Some w \<Rightarrow> res\<lparr>dd_unchecked := True, dd_reason := Some w\<rparr>);
                  (sb, log) = object_bodies r Source senv log; (db, log) = object_bodies r Destination denv log
              in (Some (compare_bodies src dest sb db res), log))
         | _ \<Rightarrow> (None, log))"

section \<open>The verdict on one database\<close>

datatype diff_cause = SchemaDiffers | TableCounts | TableSet | RowCounts | Checksums | ObjectBodies | Encoding
datatype unproven_cause = ContentIncomplete | EncodingUnread

datatype verify_verdict =
    VerifySkipped string
  | VerifyNoCredential
  | VerifyUnreadable
  | VerifyOK bool
  | VerifyDiff diff_cause
  | VerifyUnverified unproven_cause

record dest_cred =
  dc_user :: string
  dc_password :: string

definition failed_reading :: "db_error + 'a \<Rightarrow> bool" where
  "failed_reading x = (case x of Inl _ \<Rightarrow> True | Inr _ \<Rightarrow> False)"

definition reading_or :: "'a \<Rightarrow> db_error + 'a \<Rightarrow> 'a" where
  "reading_or d x = (case x of Inl _ \<Rightarrow> d | Inr y \<Rightarrow> y)"

text \<open>Why a database that does not match is reported, in the order of the code.\<close>

definition divergence :: "schema_diff \<Rightarrow> nat \<Rightarrow> nat \<Rightarrow> deep_result \<Rightarrow> bool \<Rightarrow> bool \<Rightarrow> verify_verdict" where
  "divergence delta src_tables dest_tables res deep_unverified cs_unverified =
     (if \<not> schema_diff_empty delta then VerifyDiff SchemaDiffers
      else if src_tables \<noteq> dest_tables then VerifyDiff TableCounts
      else if dd_missing res \<noteq> [] \<or> dd_extra res \<noteq> [] then VerifyDiff TableSet
      else if dd_rows res \<noteq> [] then VerifyDiff RowCounts
      else if dd_checksums res \<noteq> [] then VerifyDiff Checksums
      else if dd_objects res \<noteq> [] then VerifyDiff ObjectBodies
      else if deep_unverified then VerifyUnverified ContentIncomplete
      else if cs_unverified then VerifyUnverified EncodingUnread
      else VerifyDiff Encoding)"

text \<open>The verdict and the number of events on the destination.\<close>

definition verify_db ::
    "runner \<Rightarrow> ((string, int) gomap \<Rightarrow> (string, int) gomap) \<Rightarrow> bool \<Rightarrow> db_env \<Rightarrow> db_env \<Rightarrow> db_log \<Rightarrow> (verify_verdict \<times> nat) \<times> db_log" where
  "verify_db r visit deep senv denv log =
     (let (ss, log) = get_schema_fingerprint r Source senv log;
          (ds, log) = get_schema_fingerprint r Destination denv log;
          sfp = reading_or no_schema ss; dfp = reading_or no_schema ds;
          src_tables = length (fp_tables sfp); dest_tables = length (fp_tables dfp);
          events = oc_events (object_counts_of dfp);
          delta = (if failed_reading ss \<or> failed_reading ds then no_schema_diff else diff_schema sfp dfp);
          (sc, log) = get_charsets r Source senv log;
          (dc, log) = get_charsets r Destination denv log;
          comparable = (\<not> failed_reading sc \<and> \<not> failed_reading dc);
          (cs_db_diff, cs_table_diffs) = (case (sc, dc) of (Inr a, Inr b) \<Rightarrow> diff_charsets a b | _ \<Rightarrow> (False, []));
          (cs_ok, default_only) = cs_verdict comparable cs_db_diff (length cs_table_diffs);
          (match, read_err) = db_verdict src_tables dest_tables (object_counts_of sfp) (object_counts_of dfp) delta
                                (failed_reading ss) (failed_reading ds);
          match = (match \<and> (cs_ok \<or> default_only))
      in if read_err then ((VerifyUnreadable, events), log)
         else
           (let (done, log) = deep_db r visit senv denv log;
                res = (case done of None \<Rightarrow> no_deep_result | Some res \<Rightarrow> res);
                deep_unverified = (done = None \<or> deep \<and> dd_unchecked res);
                match = (match \<and> \<not> (done = None \<or> hard_diff res \<or> deep \<and> dd_unchecked res))
            in ((if match then VerifyOK default_only
                 else divergence delta src_tables dest_tables res deep_unverified (\<not> comparable), events), log)))"

section \<open>The loop over the plan\<close>

record verify_run =
  vr_verdicts :: "(string \<times> verify_verdict) list"
  vr_ok :: nat
  vr_diff :: nat
  vr_real_diff :: nat
  vr_events :: nat
  vr_interrupted :: bool

definition tally :: "string \<Rightarrow> verify_verdict \<Rightarrow> nat \<Rightarrow> verify_run \<Rightarrow> verify_run" where
  "tally name v events acc =
     (let acc = acc\<lparr>vr_verdicts := vr_verdicts acc @ [(name, v)], vr_events := vr_events acc + events\<rparr>
      in case v of
           VerifySkipped _ \<Rightarrow> acc
         | VerifyOK _ \<Rightarrow> acc\<lparr>vr_ok := Suc (vr_ok acc)\<rparr>
         | VerifyNoCredential \<Rightarrow> acc\<lparr>vr_diff := Suc (vr_diff acc)\<rparr>
         | _ \<Rightarrow> acc\<lparr>vr_diff := Suc (vr_diff acc), vr_real_diff := Suc (vr_real_diff acc)\<rparr>)"

fun verify_loop ::
    "runner \<Rightarrow> (db_log \<Rightarrow> bool) \<Rightarrow> ((string, int) gomap \<Rightarrow> (string, int) gomap) \<Rightarrow> bool \<Rightarrow> migration
     \<Rightarrow> string \<Rightarrow> string \<Rightarrow> (string, dest_cred) gomap \<Rightarrow> plan_item list \<Rightarrow> verify_run \<Rightarrow> db_log \<Rightarrow> verify_run \<times> db_log" where
  "verify_loop r interrupted visit deep pd src_user src_pass creds [] acc log = (acc, log)"
| "verify_loop r interrupted visit deep pd src_user src_pass creds (it # items) acc log =
     (if interrupted log then (acc\<lparr>vr_interrupted := True\<rparr>, log)
      else
        (case db_unavailable pd it of
           Some reason \<Rightarrow>
             verify_loop r interrupted visit deep pd src_user src_pass creds items
               (tally (pi_dest_db it) (VerifySkipped reason) 0 acc) log
         | None \<Rightarrow>
             (case map_of creds (pi_dest_db it) of
                None \<Rightarrow>
                  verify_loop r interrupted visit deep pd src_user src_pass creds items
                    (tally (pi_dest_db it) VerifyNoCredential 0 acc) log
              | Some dc \<Rightarrow>
                  (case verify_db r visit deep (dump_env (pi_src_db it) src_user src_pass)
                          (dump_env (pi_dest_db it) (dc_user dc) (dc_password dc)) log of
                     ((v, events), log) \<Rightarrow>
                       verify_loop r interrupted visit deep pd src_user src_pass creds items
                         (tally (pi_dest_db it) v events acc) log))))"

definition verify_dbs ::
    "runner \<Rightarrow> (db_log \<Rightarrow> bool) \<Rightarrow> ((string, int) gomap \<Rightarrow> (string, int) gomap) \<Rightarrow> bool \<Rightarrow> migration
     \<Rightarrow> (string, override) gomap \<Rightarrow> string \<Rightarrow> string \<Rightarrow> (string, dest_cred) gomap \<Rightarrow> db_log \<Rightarrow> verify_run \<times> db_log" where
  "verify_dbs r interrupted visit deep pd overrides src_user src_pass creds log =
     verify_loop r interrupted visit deep pd src_user src_pass creds (db_plan pd overrides)
       \<lparr>vr_verdicts = [], vr_ok = 0, vr_diff = 0, vr_real_diff = 0, vr_events = 0, vr_interrupted = False\<rparr> log"

end
