(* ===== verification/SiteConfig.thy ===== *)
theory SiteConfig
  imports DbSql CmsKinds
begin

text \<open>
  The configurations of the sites on the two hosts: how they are found on the source (\<open>discover.go\<close>,
  \<open>detect.go\<close>), rewritten on the destination (\<open>transfer.go\<close>) and searched for what is left of the source's
  credentials (\<open>staleconfig.go\<close>), all in \<open>internal/dbmig\<close>. A host answers every call as a function of the
  calls made before, so each function returns its result and the calls it made.
\<close>

definition call :: "runner \<Rightarrow> db_call \<Rightarrow> db_log \<Rightarrow> (string + string) \<times> db_log" where
  "call r c log = (r log c, log @ [c])"

text \<open>The lines of an answer that hold a path.\<close>

definition path_lines :: "string \<Rightarrow> string list" where
  "path_lines out = filter (\<lambda>p. p \<noteq> []) (map trim_space (split_byte newline out))"

section \<open>Finding credentials on the source (discover.go)\<close>

text \<open>The paths seen so far, and the credentials found in the files among them.\<close>

fun discover_paths ::
    "runner \<Rightarrow> string \<Rightarrow> string list \<Rightarrow> string list \<times> site_creds list \<Rightarrow> db_log \<Rightarrow> (string list \<times> site_creds list) \<times> db_log" where
  "discover_paths r dr [] acc log = (acc, log)"
| "discover_paths r dr (p # ps) (seen, found) log =
     (if p \<in> set seen then discover_paths r dr ps (seen, found) log
      else
        (case call r (ReadSource p) log of
           (Inl e, log) \<Rightarrow> discover_paths r dr ps (p # seen, found) log
         | (Inr content, log) \<Rightarrow>
             (let (cr, kind) = parse_cms_config content
              in discover_paths r dr ps
                   (p # seen,
                    if c_name cr = [] then found
                    else found @ [\<lparr>sc_docroot = dr, sc_config_path = p, sc_kind = kind, sc_registry = False, sc_creds = cr\<rparr>])
                   log)))"

fun discover_docroots ::
    "runner \<Rightarrow> string list \<Rightarrow> string list \<times> site_creds list \<Rightarrow> db_log \<Rightarrow> (string + site_creds list) \<times> db_log" where
  "discover_docroots r [] acc log = (Inr (snd acc), log)"
| "discover_docroots r (dr # drs) acc log =
     (if dr = [] then discover_docroots r drs acc log
      else
        (case call r (FindConfigs dr) log of
           (Inl e, log) \<Rightarrow> (Inl e, log)
         | (Inr out, log) \<Rightarrow>
             (case discover_paths r dr (path_lines out) acc log of
                (acc, log) \<Rightarrow> discover_docroots r drs acc log)))"

definition discover_site_creds :: "runner \<Rightarrow> string list \<Rightarrow> db_log \<Rightarrow> (string + site_creds list) \<times> db_log" where
  "discover_site_creds r docroots log = discover_docroots r docroots ([], []) log"

definition discover_softaculous :: "'f float_text \<Rightarrow> runner \<Rightarrow> db_log \<Rightarrow> (string + site_creds list) \<times> db_log" where
  "discover_softaculous fl r log =
     (case call r ReadRegistry log of
        (Inl e, log) \<Rightarrow> (Inl e, log)
      | (Inr raw, log) \<Rightarrow> (Inr (if raw = [] then [] else parse_softaculous fl raw), log))"

text \<open>At most 64 files per name are read.\<close>

definition max_cred_candidates :: nat where "max_cred_candidates = 64"

text \<open>New paths are appended until the bound is reached, which ends the search.\<close>

fun add_candidates :: "string list \<Rightarrow> string list \<Rightarrow> string list \<times> bool" where
  "add_candidates paths [] = (paths, False)"
| "add_candidates paths (p # ps) =
     (if p \<in> set paths then add_candidates paths ps
      else if max_cred_candidates \<le> Suc (length paths) then (paths @ [p], True)
      else add_candidates (paths @ [p]) ps)"

fun grep_db_name_files ::
    "runner \<Rightarrow> string \<Rightarrow> string list \<Rightarrow> string list \<Rightarrow> db_log \<Rightarrow> (string + string list) \<times> db_log" where
  "grep_db_name_files r db [] paths log = (Inr paths, log)"
| "grep_db_name_files r db (dr # drs) paths log =
     (if dr = [] then grep_db_name_files r db drs paths log
      else
        (case call r (GrepName dr db) log of
           (Inl e, log) \<Rightarrow> (Inl e, log)
         | (Inr out, log) \<Rightarrow>
             (case add_candidates paths (path_lines out) of
                (paths, True) \<Rightarrow> (Inr paths, log)
              | (paths, False) \<Rightarrow> grep_db_name_files r db drs paths log)))"

text \<open>The first candidate that holds credentials of the database.\<close>

fun first_candidate ::
    "runner \<Rightarrow> string list \<Rightarrow> string \<Rightarrow> string list \<Rightarrow> db_log \<Rightarrow> site_creds option \<times> db_log" where
  "first_candidate r docroots db [] log = (None, log)"
| "first_candidate r docroots db (p # ps) log =
     (case call r (ReadSource p) log of
        (Inl e, log) \<Rightarrow> first_candidate r docroots db ps log
      | (Inr content, log) \<Rightarrow>
          (let (cr, kind) = parse_cms_config content
           in if c_name cr = db \<and> (c_user cr \<noteq> [] \<or> c_password cr \<noteq> [])
              then (Some \<lparr>sc_docroot = docroot_of docroots p, sc_config_path = p, sc_kind = kind,
                          sc_registry = False, sc_creds = cr\<rparr>, log)
              else first_candidate r docroots db ps log))"

fun search_creds_by_db_name ::
    "runner \<Rightarrow> string list \<Rightarrow> string list \<Rightarrow> db_log \<Rightarrow> (string + site_creds list) \<times> db_log" where
  "search_creds_by_db_name r docroots [] log = (Inr [], log)"
| "search_creds_by_db_name r docroots (db # dbs) log =
     (case grep_db_name_files r db docroots [] log of
        (Inl e, log) \<Rightarrow> (Inl e, log)
      | (Inr paths, log) \<Rightarrow>
          (case first_candidate r docroots db paths log of
             (found, log) \<Rightarrow>
               (case search_creds_by_db_name r docroots dbs log of
                  (Inl e, log) \<Rightarrow> (Inl e, log)
                | (Inr others, log) \<Rightarrow> (Inr ((case found of None \<Rightarrow> [] | Some sc \<Rightarrow> [sc]) @ others), log))))"

definition have_password :: "site_creds list \<Rightarrow> string \<Rightarrow> bool" where
  "have_password scs db \<longleftrightarrow> list_ex (\<lambda>sc. c_name (sc_creds sc) = db \<and> db \<noteq> [] \<and> c_password (sc_creds sc) \<noteq> []) scs"

text \<open>The registry, the configurations under the document roots, and for a database neither gave a password
  for, the search by name.\<close>

definition discover_all_creds ::
    "'f float_text \<Rightarrow> runner \<Rightarrow> string list \<Rightarrow> string list \<Rightarrow> db_log \<Rightarrow> (string + site_creds list) \<times> db_log" where
  "discover_all_creds fl r docroots want_dbs log =
     (case discover_softaculous fl r log of
        (Inl e, log) \<Rightarrow> (Inl e, log)
      | (Inr soft, log) \<Rightarrow>
          (case discover_site_creds r docroots log of
             (Inl e, log) \<Rightarrow> (Inl e, log)
           | (Inr cfg, log) \<Rightarrow>
               (let missing = filter (\<lambda>db. \<not> have_password (soft @ cfg) db) want_dbs
                in if missing = [] then (Inr (soft @ cfg), log)
                   else (case search_creds_by_db_name r docroots missing log of
                           (Inl e, log) \<Rightarrow> (Inl e, log)
                         | (Inr found, log) \<Rightarrow> (Inr (soft @ cfg @ found), log)))))"

section \<open>Formats that are not migrated (detect.go)\<close>

record detected_app =
  da_docroot :: string
  da_app :: string
  da_marker :: string

definition app_of_line :: "string \<Rightarrow> string \<Rightarrow> detected_app" where
  "app_of_line dr line =
     (case cut_byte CHR ''|'' line of
        None \<Rightarrow> \<lparr>da_docroot = dr, da_app = line, da_marker = []\<rparr>
      | Some (app, marker) \<Rightarrow> \<lparr>da_docroot = dr, da_app = app, da_marker = marker\<rparr>)"

fun detect_unmigrated ::
    "runner \<Rightarrow> string list \<Rightarrow> string list \<Rightarrow> string list \<Rightarrow> db_log \<Rightarrow> (string + detected_app list) \<times> db_log" where
  "detect_unmigrated r handled seen [] log = (Inr [], log)"
| "detect_unmigrated r handled seen (dr # drs) log =
     (if dr = [] \<or> dr \<in> set seen \<or> docroot_is_handled dr handled then detect_unmigrated r handled seen drs log
      else
        (case call r (DetectConfigs dr) log of
           (Inl e, log) \<Rightarrow> (Inl e, log)
         | (Inr out, log) \<Rightarrow>
             (case detect_unmigrated r handled (dr # seen) drs log of
                (Inl e, log) \<Rightarrow> (Inl e, log)
              | (Inr others, log) \<Rightarrow> (Inr (dedup_by da_app [] (map (app_of_line dr) (path_lines out)) @ others), log))))"

section \<open>Rewriting a configuration of the destination (transfer.go)\<close>

datatype rewrite_fault = UnsupportedKind | ConfigUnread string | CannotSet | ConfigUnwritten string

text \<open>Read, rewrite, check that the new text reads back as intended, and write it if it differs.\<close>

definition rewrite_with ::
    "runner \<Rightarrow> (string \<Rightarrow> string) \<Rightarrow> (string \<Rightarrow> bool) \<Rightarrow> string \<Rightarrow> db_log \<Rightarrow> (rewrite_fault + unit) \<times> db_log" where
  "rewrite_with r rewrite ok path log =
     (case call r (ReadConfig path) log of
        (Inl e, log) \<Rightarrow> (Inl (ConfigUnread e), log)
      | (Inr cur, log) \<Rightarrow>
          (let new = rewrite cur
           in if \<not> ok new then (Inl CannotSet, log)
              else if new = cur then (Inr (), log)
              else (case call r (WriteConfig path new) log of
                      (Inl e, log) \<Rightarrow> (Inl (ConfigUnwritten e), log)
                    | (Inr out, log) \<Rightarrow> (Inr (), log))))"

definition rewrite_wp_config ::
    "runner \<Rightarrow> string \<Rightarrow> string \<Rightarrow> string \<Rightarrow> string \<Rightarrow> db_log \<Rightarrow> (rewrite_fault + unit) \<times> db_log" where
  "rewrite_wp_config r path db user password =
     rewrite_with r (\<lambda>cur. wp_rewrite cur db user password) (\<lambda>new. wp_creds_match new db user password) path"

definition rewrite_via ::
    "runner \<Rightarrow> (string \<Rightarrow> string \<Rightarrow> string \<Rightarrow> string \<Rightarrow> string) \<times> (string \<Rightarrow> creds) \<Rightarrow> string \<Rightarrow> string \<Rightarrow> string \<Rightarrow> string
       \<Rightarrow> db_log \<Rightarrow> (rewrite_fault + unit) \<times> db_log" where
  "rewrite_via r rw path db user password =
     rewrite_with r (\<lambda>cur. fst rw cur db user password) (\<lambda>new. creds_set (snd rw new) db user password) path"

definition rewrite_site_config ::
    "runner \<Rightarrow> string \<Rightarrow> cms_kind \<Rightarrow> string \<Rightarrow> string \<Rightarrow> string \<Rightarrow> db_log \<Rightarrow> (rewrite_fault + unit) \<times> db_log" where
  "rewrite_site_config r path kind db user password log =
     (if kind = WordPress then rewrite_wp_config r path db user password log
      else (case site_rewriter kind of
              None \<Rightarrow> (Inl UnsupportedKind, log)
            | Some rw \<Rightarrow> rewrite_via r rw path db user password log))"

section \<open>Reading it again\<close>

text \<open>What a configuration shows after the rewrite: the destination, something else, or no proof.\<close>

datatype doubt = Ambiguous ambiguity | StaleSource string string string

datatype cutover = CutoverOK | CutoverWrong "creds_fault option" | CutoverUnproven doubt

definition verify_dest_config ::
    "runner \<Rightarrow> string \<Rightarrow> cms_kind \<Rightarrow> string \<Rightarrow> string \<Rightarrow> string \<Rightarrow> db_log \<Rightarrow> (string + cutover) \<times> db_log" where
  "verify_dest_config r path kind db user password log =
     (case call r (ReadConfig path) log of
        (Inl e, log) \<Rightarrow> (Inl e, log)
      | (Inr cur, log) \<Rightarrow>
          (case parse_config_by_kind kind cur of
             None \<Rightarrow> (Inr (CutoverWrong None), log)
           | Some got \<Rightarrow>
               (case check_dest_creds got db user password of
                  Some f \<Rightarrow> (Inr (CutoverWrong (Some f)), log)
                | None \<Rightarrow>
                    (case config_ambiguity kind cur of
                       None \<Rightarrow> (Inr CutoverOK, log)
                     | Some a \<Rightarrow> (Inr (if a = Provable then CutoverOK else CutoverUnproven (Ambiguous a)), log)))))"

section \<open>What is left of the source's credentials (staleconfig.go)\<close>

definition stale_needles :: "string \<Rightarrow> string \<Rightarrow> string \<Rightarrow> string \<Rightarrow> (string \<times> string) list" where
  "stale_needles src_db dest_db src_user dest_user =
     (if src_db \<noteq> [] \<and> src_db \<noteq> dest_db then [(''DB name'', src_db)] else [])
     @ (if src_user \<noteq> [] \<and> src_user \<noteq> dest_user then [(''DB user'', src_user)] else [])"

fun scan_needles ::
    "runner \<Rightarrow> string \<Rightarrow> string list \<Rightarrow> (string \<times> string) list \<Rightarrow> db_log \<Rightarrow> (string + doubt option) \<times> db_log" where
  "scan_needles r docroot ignore [] log = (Inr None, log)"
| "scan_needles r docroot ignore ((what, needle) # ns) log =
     (case call r (ScanNeedle docroot needle) log of
        (Inl e, log) \<Rightarrow> (Inl e, log)
      | (Inr out, log) \<Rightarrow>
          (case find (\<lambda>p. p \<notin> set ignore \<and> \<not> is_non_live_config_path p) (path_lines (trim_space out)) of
             Some p \<Rightarrow> (Inr (Some (StaleSource what needle p)), log)
           | None \<Rightarrow> scan_needles r docroot ignore ns log))"

definition source_creds_still_reachable ::
    "runner \<Rightarrow> string \<Rightarrow> string \<Rightarrow> string \<Rightarrow> string \<Rightarrow> string \<Rightarrow> string list \<Rightarrow> db_log \<Rightarrow> (string + doubt option) \<times> db_log" where
  "source_creds_still_reachable r docroot src_db dest_db src_user dest_user ignore log =
     (if docroot = [] then (Inr None, log)
      else scan_needles r docroot ignore (stale_needles src_db dest_db src_user dest_user) log)"

end
