(* ===== verification/DbApply.thy ===== *)
theory DbApply
  imports SiteConfig DbVerify
begin

text \<open>
  The database step of an apply run (\<open>applyDBs\<close> and its helpers in \<open>internal/migrate/apply_dbs.go\<close>, with
  \<open>CopyDatabase\<close> of \<open>internal/dbmig/transfer.go\<close>), the database part of \<open>runApply\<close> and the outcome of the
  run (\<open>internal/migrate/apply.go\<close>). The world answers every call, may interrupt the run after any of
  them, and draws random numbers; all three depend on the calls made before. A copy is one call: the
  transport below it, with its retries, is left out.
\<close>

record db_world =
  dw_answer :: runner
  dw_interrupted :: "db_log \<Rightarrow> bool"
  dw_draw :: "db_log \<Rightarrow> nat \<Rightarrow> nat \<Rightarrow> string + nat"

section \<open>The configurations of one database\<close>

datatype manual_step =
    NoSourceDocroot
  | SiteBlocked string
  | SiteTypeBlocked type_issue
  | DestDocrootUnclear string
  | NoDestDocroot

datatype config_result =
    ConfigRewritten string
  | ConfigManual manual_step
  | ConfigFault rewrite_fault
  | ConfigNotReread string
  | ConfigWrong "creds_fault option"
  | ConfigUnproven string doubt

text \<open>Where a configuration of the source lies on the destination, with the document root it lies in.\<close>

definition dest_config :: "migration \<Rightarrow> config_ref \<Rightarrow> manual_step + string \<times> string" where
  "dest_config pd cfg =
     (case src_docroot_containing pd (cr_config_path cfg) of
        None \<Rightarrow> Inl NoSourceDocroot
      | Some e \<Rightarrow>
          (case domain_blocked pd (dr_domain e) of
             Some reason \<Rightarrow> Inl (SiteBlocked reason)
           | None \<Rightarrow>
               (case db_config_issue pd (dr_domain e) of
                  Some issue \<Rightarrow> Inl (SiteTypeBlocked issue)
                | None \<Rightarrow>
                    (case dest_docroot_for pd (dr_domain e) of
                       Inl issue \<Rightarrow> Inl (DestDocrootUnclear issue)
                     | Inr dd \<Rightarrow>
                         if dd = [] then Inl NoDestDocroot
                         else Inr (dd, map_config_path (cr_config_path cfg) (dr_document_root e) dd)))))"

definition planned_dest_configs :: "migration \<Rightarrow> plan_item \<Rightarrow> string list" where
  "planned_dest_configs pd it =
     List.map_filter (\<lambda>c.
         case src_docroot_containing pd (cr_config_path c) of
           None \<Rightarrow> None
         | Some e \<Rightarrow>
             (case dest_docroot_for pd (dr_domain e) of
                Inl issue \<Rightarrow> None
              | Inr dd \<Rightarrow> if dd = [] then None else Some (map_config_path (cr_config_path c) (dr_document_root e) dd)))
       (pi_configs it)"

text \<open>A configuration that reads back as intended is in doubt while the source's names are still found beside
  it; a search that fails changes nothing.\<close>

definition check_cutover ::
    "runner \<Rightarrow> plan_item \<Rightarrow> string list \<Rightarrow> string \<Rightarrow> string \<Rightarrow> cutover \<Rightarrow> db_log \<Rightarrow> cutover \<times> db_log" where
  "check_cutover r it planned docroot path c log =
     (case c of
        CutoverOK \<Rightarrow>
          (case source_creds_still_reachable r docroot (pi_src_db it) (pi_dest_db it) (pi_src_user it) (pi_dest_user it)
                  (filter (\<lambda>p. p \<noteq> path) planned) log of
             (Inr (Some d), log) \<Rightarrow> (CutoverUnproven d, log)
           | (_, log) \<Rightarrow> (CutoverOK, log))
      | _ \<Rightarrow> (c, log))"

definition rewrite_config ::
    "runner \<Rightarrow> migration \<Rightarrow> plan_item \<Rightarrow> string \<Rightarrow> string list \<Rightarrow> config_ref \<Rightarrow> db_log \<Rightarrow> config_result \<times> db_log" where
  "rewrite_config r pd it password planned cfg log =
     (case dest_config pd cfg of
        Inl step \<Rightarrow> (ConfigManual step, log)
      | Inr (docroot, path) \<Rightarrow>
          (case rewrite_site_config r path (cr_kind cfg) (pi_dest_db it) (pi_dest_user it) password log of
             (Inl f, log) \<Rightarrow> (ConfigFault f, log)
           | (Inr _, log) \<Rightarrow>
               (case verify_dest_config r path (cr_kind cfg) (pi_dest_db it) (pi_dest_user it) password log of
                  (Inl e, log) \<Rightarrow> (ConfigNotReread e, log)
                | (Inr c, log) \<Rightarrow>
                    (case check_cutover r it planned docroot path c log of
                       (CutoverOK, log) \<Rightarrow> (ConfigRewritten path, log)
                     | (CutoverWrong f, log) \<Rightarrow> (ConfigWrong f, log)
                     | (CutoverUnproven d, log) \<Rightarrow> (ConfigUnproven path d, log)))))"

fun rewrite_configs ::
    "runner \<Rightarrow> migration \<Rightarrow> plan_item \<Rightarrow> string \<Rightarrow> string list \<Rightarrow> config_ref list \<Rightarrow> db_log \<Rightarrow> config_result list \<times> db_log" where
  "rewrite_configs r pd it password planned [] log = ([], log)"
| "rewrite_configs r pd it password planned (c # cs) log =
     (let (x, log) = rewrite_config r pd it password planned c log;
          (xs, log) = rewrite_configs r pd it password planned cs log
      in (x # xs, log))"

definition rewrite_dest_configs ::
    "runner \<Rightarrow> migration \<Rightarrow> plan_item \<Rightarrow> string \<Rightarrow> db_log \<Rightarrow> config_result list \<times> db_log" where
  "rewrite_dest_configs r pd it password = rewrite_configs r pd it password (planned_dest_configs pd it) (pi_configs it)"

text \<open>A doubt counts as not verified, and as not rewritten when the run is to prove every cutover.\<close>

fun not_rewritten :: "bool \<Rightarrow> config_result \<Rightarrow> bool" where
  "not_rewritten deep (ConfigRewritten path) = False"
| "not_rewritten deep (ConfigUnproven path d) = deep"
| "not_rewritten deep _ = True"

fun not_verified :: "bool \<Rightarrow> config_result \<Rightarrow> bool" where
  "not_verified deep (ConfigUnproven path d) = (\<not> deep)"
| "not_verified deep _ = False"

section \<open>One database\<close>

text \<open>Creating may fail because the object exists already; the password and the grant must succeed.\<close>

definition provision_dest :: "runner \<Rightarrow> plan_item \<Rightarrow> string \<Rightarrow> db_log \<Rightarrow> (string + unit) \<times> db_log" where
  "provision_dest r it password log =
     (let (_, log) = call r (CreateUser (pi_dest_user it) password) log
      in case call r (SetPassword (pi_dest_user it) password) log of
           (Inl e, log) \<Rightarrow> (Inl e, log)
         | (Inr _, log) \<Rightarrow>
             (let (_, log) = call r (CreateDatabase (pi_dest_db it)) log
              in case call r (Grant (pi_dest_user it) (pi_dest_db it)) log of
                   (Inl e, log) \<Rightarrow> (Inl e, log)
                 | (Inr _, log) \<Rightarrow> (Inr (), log)))"

text \<open>\<open>gtid_off\<close>: the dump command carries the flag that only some programs know.\<close>

definition copy_database ::
    "runner \<Rightarrow> bool \<Rightarrow> string \<Rightarrow> string \<Rightarrow> plan_item \<Rightarrow> string \<Rightarrow> db_log \<Rightarrow> (string + unit) \<times> db_log" where
  "copy_database r gtid_off src_user src_pass it password log =
     (if pi_src_db it = [] \<or> pi_dest_db it = [] then (Inl ''missing database name'', log)
      else (case call r (Copy gtid_off (dump_env (pi_src_db it) src_user src_pass)
                         (dump_env (pi_dest_db it) (pi_dest_user it) password)) log of
              (Inl e, log) \<Rightarrow> (Inl e, log)
            | (Inr _, log) \<Rightarrow> (Inr (), log)))"

text \<open>The default encoding of the destination follows the source; a failure leaves it as it is.\<close>

definition normalize_default :: "runner \<Rightarrow> string \<Rightarrow> string \<Rightarrow> plan_item \<Rightarrow> string \<Rightarrow> db_log \<Rightarrow> db_log" where
  "normalize_default r src_user src_pass it password log =
     (case get_charsets r Source (dump_env (pi_src_db it) src_user src_pass) log of
        (Inl e, log) \<Rightarrow> log
      | (Inr cs, log) \<Rightarrow>
          snd (normalize_db_default r (dump_env (pi_dest_db it) (pi_dest_user it) password)
                 (ci_charset cs) (ci_collation cs) log))"

datatype item_failure =
    NoPassword string
  | ProvisionFailed string
  | EmptyFailed db_error
  | CopyFailed string

datatype item_result =
    ItemFailed item_failure
  | ItemStopped
  | ItemMigrated string "config_result list"

text \<open>A failure during an interrupted run is not the database's.\<close>

definition fail_item :: "db_world \<Rightarrow> item_failure \<Rightarrow> db_log \<Rightarrow> item_result \<times> db_log" where
  "fail_item w f log = (if dw_interrupted w log then ItemStopped else ItemFailed f, log)"

definition item_password :: "db_world \<Rightarrow> plan_item \<Rightarrow> db_log \<Rightarrow> string + string" where
  "item_password w it log = (if pi_password it = [] then generate_password (dw_draw w log) 24 else Inr (pi_password it))"

definition migrate_item ::
    "db_world \<Rightarrow> migration \<Rightarrow> string \<Rightarrow> string \<Rightarrow> bool \<Rightarrow> plan_item \<Rightarrow> db_log \<Rightarrow> item_result \<times> db_log" where
  "migrate_item w pd src_user src_pass gtid_off it log =
     (let r = dw_answer w
      in case item_password w it log of
           Inl e \<Rightarrow> (ItemFailed (NoPassword e), log)
         | Inr password \<Rightarrow>
             (case provision_dest r it password log of
                (Inl e, log) \<Rightarrow> fail_item w (ProvisionFailed e) log
              | (Inr _, log) \<Rightarrow>
                  (case empty_database r (dump_env (pi_dest_db it) (pi_dest_user it) password) log of
                     (Inl e, log) \<Rightarrow> fail_item w (EmptyFailed e) log
                   | (Inr _, log) \<Rightarrow>
                       (case copy_database r gtid_off src_user src_pass it password log of
                          (Inl e, log) \<Rightarrow> fail_item w (CopyFailed e) log
                        | (Inr _, log) \<Rightarrow>
                            (let log = normalize_default r src_user src_pass it password log;
                                 (rs, log) = rewrite_dest_configs r pd it password log;
                                 (tables, log) = count_tables r Destination (dump_env (pi_dest_db it) (pi_dest_user it) password) log
                             in (ItemMigrated password rs, log))))))"

section \<open>The loop over the plan\<close>

datatype apply_verdict =
    Skipped string
  | Unavailable string
  | Collides
  | BadName
  | Failed item_failure
  | Migrated "config_result list"

record apply_run =
  ar_creds :: "(string, dest_cred) gomap"
  ar_verdicts :: "(string \<times> apply_verdict) list"
  ar_done :: nat
  ar_failed :: nat
  ar_skipped :: nat
  ar_unrewritten :: nat
  ar_unverified :: nat
  ar_interrupted :: bool

definition no_apply :: apply_run where
  "no_apply = \<lparr>ar_creds = [], ar_verdicts = [], ar_done = 0, ar_failed = 0, ar_skipped = 0, ar_unrewritten = 0,
     ar_unverified = 0, ar_interrupted = False\<rparr>"

definition count_apply :: "bool \<Rightarrow> string \<Rightarrow> apply_verdict \<Rightarrow> apply_run \<Rightarrow> apply_run" where
  "count_apply deep src v acc =
     (let acc = acc\<lparr>ar_verdicts := ar_verdicts acc @ [(src, v)]\<rparr>
      in case v of
           Skipped _ \<Rightarrow> acc\<lparr>ar_skipped := Suc (ar_skipped acc)\<rparr>
         | Migrated rs \<Rightarrow>
             acc\<lparr>ar_done := Suc (ar_done acc),
                 ar_unrewritten := ar_unrewritten acc + (if list_ex (not_rewritten deep) rs then 1 else 0),
                 ar_unverified := ar_unverified acc + length (filter (not_verified deep) rs)\<rparr>
         | _ \<Rightarrow> acc\<lparr>ar_failed := Suc (ar_failed acc)\<rparr>)"

definition record_cred :: "plan_item \<Rightarrow> string \<Rightarrow> apply_run \<Rightarrow> apply_run" where
  "record_cred it password acc =
     acc\<lparr>ar_creds := AList.update (pi_dest_db it) \<lparr>dc_user = pi_dest_user it, dc_password = password\<rparr> (ar_creds acc)\<rparr>"

text \<open>The databases that the preflight refuses: \<open>conflicted\<close> and \<open>invalid\<close> hold their names on the source.\<close>

definition refusal :: "migration \<Rightarrow> string list \<Rightarrow> string list \<Rightarrow> plan_item \<Rightarrow> apply_verdict option" where
  "refusal pd conflicted invalid it =
     (case db_unavailable pd it of
        Some reason \<Rightarrow> Some (if unavailable_reason_fails_db reason then Unavailable reason else Skipped reason)
      | None \<Rightarrow>
          if pi_src_db it \<in> set conflicted then Some Collides
          else if pi_src_db it \<in> set invalid then Some BadName else None)"

fun apply_loop ::
    "db_world \<Rightarrow> migration \<Rightarrow> bool \<Rightarrow> string \<Rightarrow> string \<Rightarrow> bool \<Rightarrow> string list \<Rightarrow> string list \<Rightarrow> plan_item list
     \<Rightarrow> apply_run \<Rightarrow> db_log \<Rightarrow> apply_run \<times> db_log" where
  "apply_loop w pd deep src_user src_pass gtid_off conflicted invalid [] acc log = (acc, log)"
| "apply_loop w pd deep src_user src_pass gtid_off conflicted invalid (it # items) acc log =
     (if dw_interrupted w log then (acc\<lparr>ar_interrupted := True\<rparr>, log)
      else
        (case refusal pd conflicted invalid it of
           Some v \<Rightarrow> apply_loop w pd deep src_user src_pass gtid_off conflicted invalid items (count_apply deep (pi_src_db it) v acc) log
         | None \<Rightarrow>
             (case migrate_item w pd src_user src_pass gtid_off it log of
                (ItemStopped, log) \<Rightarrow> (acc\<lparr>ar_interrupted := True\<rparr>, log)
              | (ItemFailed f, log) \<Rightarrow>
                  apply_loop w pd deep src_user src_pass gtid_off conflicted invalid items
                    (count_apply deep (pi_src_db it) (Failed f) acc) log
              | (ItemMigrated password rs, log) \<Rightarrow>
                  apply_loop w pd deep src_user src_pass gtid_off conflicted invalid items
                    (count_apply deep (pi_src_db it) (Migrated rs) (record_cred it password acc)) log)))"

section \<open>The step\<close>

definition live_items :: "migration \<Rightarrow> plan_item list \<Rightarrow> plan_item list" where
  "live_items pd plan = filter (\<lambda>it. db_unavailable pd it = None) plan"

definition conflicted_dbs :: "plan_item list \<Rightarrow> string list" where
  "conflicted_dbs live = concat (map pc_src_dbs (validate_plan live))"

definition invalid_dbs :: "migration \<Rightarrow> plan_item list \<Rightarrow> string list" where
  "invalid_dbs pd live = map nv_src_db (db_plan_name_violations pd live)"

definition src_docroot_paths :: "docroot_entry list \<Rightarrow> string list" where
  "src_docroot_paths es = filter (\<lambda>d. d \<noteq> []) (map dr_document_root es)"

text \<open>The number of sites with a format that is not migrated; a probe that fails counts none.\<close>

definition report_unmigrated :: "runner \<Rightarrow> migration \<Rightarrow> db_log \<Rightarrow> nat \<times> db_log" where
  "report_unmigrated r pd log =
     (let handled = map sc_docroot (filter (\<lambda>sc. \<not> sc_registry sc \<and> sc_docroot sc \<noteq> [] \<and> c_name (sc_creds sc) \<noteq> [])
                      (mg_site_creds pd))
      in case detect_unmigrated r handled [] (src_docroot_paths (mg_src_docroots pd)) log of
           (Inl e, log) \<Rightarrow> (0, log)
         | (Inr apps, log) \<Rightarrow> (length apps, log))"

datatype apply_error = ProbeFailed db_error | Interrupted

record apply_result =
  ap_run :: apply_run
  ap_failed :: nat
  ap_unmigrated :: nat
  ap_error :: "apply_error option"

definition apply_dbs ::
    "db_world \<Rightarrow> migration \<Rightarrow> (string, override) gomap \<Rightarrow> bool \<Rightarrow> string \<Rightarrow> string \<Rightarrow> db_log \<Rightarrow> apply_result \<times> db_log" where
  "apply_dbs w pd overrides deep src_user src_pass log =
     (let plan = db_plan pd overrides;
          live = live_items pd plan;
          conflicted = conflicted_dbs live;
          invalid = invalid_dbs pd live;
          will_dump = list_ex (\<lambda>it. pi_src_db it \<notin> set conflicted \<and> pi_src_db it \<notin> set invalid) live
      in case (if will_dump then src_supports_gtid_purged (dw_answer w) log else (Inr False, log)) of
           (Inl e, log) \<Rightarrow>
             (\<lparr>ap_run = no_apply, ap_failed = length live, ap_unmigrated = 0, ap_error = Some (ProbeFailed e)\<rparr>, log)
         | (Inr gtid_off, log) \<Rightarrow>
             (case apply_loop w pd deep src_user src_pass gtid_off conflicted invalid plan no_apply log of
                (acc, log) \<Rightarrow>
                  if ar_interrupted acc
                  then (\<lparr>ap_run = acc, ap_failed = ar_failed acc, ap_unmigrated = 0, ap_error = Some Interrupted\<rparr>, log)
                  else (let (n, log) = report_unmigrated (dw_answer w) pd log
                        in (\<lparr>ap_run = acc, ap_failed = ar_failed acc, ap_unmigrated = n, ap_error = None\<rparr>, log))))"

section \<open>The outcome of a run (apply.go)\<close>

datatype trouble =
    DomainsFailed | DomainsBlocked | MailFailed | MailUnverified | WebFailed | DbFailed | DbConfigNotRewritten
  | DbConfigUnmigrated | MailDivergent | WebDivergent | DbDivergent

record apply_tally =
  at_failed_domains :: nat
  at_blocked_domains :: nat
  at_mail_failed :: nat
  at_mail_unverified :: nat
  at_web_failed :: nat
  at_db_failed :: nat
  at_db_config_not_rewritten :: nat
  at_db_config_unmigrated :: nat
  at_mail_diff :: nat
  at_web_diff :: nat
  at_db_diff :: nat

text \<open>What the process reports; it succeeds when there is nothing.\<close>

definition apply_outcome :: "apply_tally \<Rightarrow> (nat \<times> trouble) list" where
  "apply_outcome t =
     filter (\<lambda>p. 0 < fst p)
       [(at_failed_domains t, DomainsFailed), (at_blocked_domains t, DomainsBlocked), (at_mail_failed t, MailFailed),
        (at_mail_unverified t, MailUnverified), (at_web_failed t, WebFailed), (at_db_failed t, DbFailed),
        (at_db_config_not_rewritten t, DbConfigNotRewritten), (at_db_config_unmigrated t, DbConfigUnmigrated),
        (at_mail_diff t, MailDivergent), (at_web_diff t, WebDivergent), (at_db_diff t, DbDivergent)]"

datatype run_error = StepFailed apply_error | RunInterrupted | Issues "(nat \<times> trouble) list"

text \<open>The database part of \<open>runApply\<close> and its end, with the tallies of the parts before it.\<close>

definition run_db_flow ::
    "db_world \<Rightarrow> ((string, int) gomap \<Rightarrow> (string, int) gomap) \<Rightarrow> migration \<Rightarrow> (string, override) gomap \<Rightarrow> bool
     \<Rightarrow> string \<Rightarrow> string \<Rightarrow> apply_tally \<Rightarrow> db_log \<Rightarrow> (run_error option \<times> apply_result \<times> verify_run option) \<times> db_log" where
  "run_db_flow w visit pd overrides deep src_user src_pass t log =
     (case apply_dbs w pd overrides deep src_user src_pass log of
        (res, log) \<Rightarrow>
          (case ap_error res of
             Some e \<Rightarrow> ((Some (StepFailed e), res, None), log)
           | None \<Rightarrow>
               if dw_interrupted w log then ((Some RunInterrupted, res, None), log)
               else
                 (case verify_dbs (dw_answer w) (dw_interrupted w) visit deep pd overrides src_user src_pass
                         (ar_creds (ap_run res)) log of
                    (v, log) \<Rightarrow>
                      if vr_interrupted v \<or> dw_interrupted w log then ((Some RunInterrupted, res, Some v), log)
                      else
                        (let t = t\<lparr>at_db_failed := ap_failed res,
                                   at_db_config_not_rewritten := ar_unrewritten (ap_run res),
                                   at_db_config_unmigrated := ap_unmigrated res, at_db_diff := vr_real_diff v,
                                   at_failed_domains := length (mg_failed pd), at_blocked_domains := length (mg_blocked pd)\<rparr>
                         in ((if apply_outcome t = [] then None else Some (Issues (apply_outcome t)), res, Some v), log)))))"

end
