(* ===== verification/Spec2Isabelle.thy ===== *)
theory Spec2Isabelle
  imports Validate WbStore ExecContract PolicyLaws DnsVerifyLaws EmailCmdLaws CronLaws PhpLaws DbPlanLaws MigLaws PhpConfigLaws
    DnsReplace DnsUndoLaws CmsLaws DbSqlLaws DbVerifyLaws DbApplyLaws
begin

text \<open>
  A verification library for cPanel_self-migration, a Go tool that migrates one cPanel account from a
  source host to a destination host. The tool takes an inventory of both accounts, compares them, turns
  the difference into a verdict and into plans (DNS, e-mail, cron), applies a plan to the destination
  under a freshness guard with a backup and a rollback, and verifies the result; a local web workbench
  keeps the history of each migration. The library models that core; paths below are under \<open>src/\<close>.

  \<^bold>\<open>Ground\<close>. \<open>Prelude\<close>: results, Go maps as association lists, visiting orders, grouping, seen-sets, sorting.
  \<open>GoStrings\<close>: the functions of \<open>strings\<close>, \<open>strconv\<close>, \<open>utf8\<close> and \<open>fmt\<close> on byte strings. \<open>GoRegexp\<close>: the
  \<open>regexp\<close> package as a backtracking matcher, with the list of all matches as its specification. \<open>NetIP\<close>: the
  addresses of \<open>net/netip\<close>. \<open>Paths\<close>: walking a cleaned path.

  \<^bold>\<open>Inputs\<close>. \<open>Validate\<close>: \<open>internal/domainname\<close> and \<open>internal/validate\<close>; every accepted path stays inside its
  root, and the identity of a domain is an equivalence.

  \<^bold>\<open>Workbench\<close>. \<open>WbStatus\<close> and \<open>WbStore\<close>: \<open>internal/workbench\<close>. The status machine is the relation of its
  transition table; a session directory is a map of files, each operation a state transformer with a fault at
  any system call. Sessions do not touch each other, the recorded timeline explains the status, and a listing
  finds every session. The locales of \<open>WbStore\<close> state what an update keeps; they are interpreted on the
  operations of the store.

  \<^bold>\<open>Execution contract\<close>. \<open>Events\<close> and \<open>ExecContract\<close>: \<open>internal/events\<close> and \<open>internal/executioncontract\<close>.
  What an accepted specification or result guarantees, and that what the writer redacts passes the validator.

  \<^bold>\<open>Inventory, comparison, policy\<close>. \<open>InvTypes\<close>, \<open>Diff\<close>, \<open>DiffLaws\<close>, \<open>Policy\<close>, \<open>PolicyLaws\<close>:
  \<open>internal/accountinventory/types.go\<close>, \<open>diff.go\<close> and \<open>policy.go\<close>. A clean section means equal contents, a keyed
  section reports exactly the differences, the result does not depend on the order in which Go visits a
  map, every difference gets a finding, and a ready verdict means that everything was carried over.

  \<^bold>\<open>DNS\<close>. \<open>DnsPlan\<close>, \<open>DnsPlanLaws\<close>, \<open>DnsVerify\<close>, \<open>DnsVerifyLaws\<close>: \<open>dnsplan.go\<close> and \<open>dnsverify.go\<close>. Planned writes are
  complete, translated and never touch protected records; a plan covers the zone; a verified apply is clean.
  \<open>DnsZone\<close>: \<open>internal/cpanel/dns_zones.go\<close> and \<open>dns_apply.go\<close>; \<open>DnsCmd\<close>: \<open>dnsapply.go\<close> and
  \<open>cmd/cpanel-self-migration/dns_apply_cmd.go\<close>, the apply run and the rollback run. \<open>DnsCmdLaws\<close> and
  \<open>DnsUndoLaws\<close> say what the two runs do whatever the host answers, \<open>DnsReplace\<close> when a replace goes ahead.

  \<^bold>\<open>E-mail\<close>. \<open>EmailPlan\<close>, \<open>EmailApply\<close>, \<open>EmailVerify\<close>: the three files of that name in
  \<open>internal/accountinventory\<close>; \<open>Cpanel\<close>: the API calls of \<open>internal/cpanel\<close> behind them; \<open>EmailCmd\<close>:
  \<open>cmd/cpanel-self-migration/email_apply_cmd.go\<close>. \<open>EmailLaws\<close> shows what a plan may ask for, \<open>EmailLiveLaws\<close>
  that planner, guard and verifier agree, \<open>EmailRollbackLaws\<close> that a rollback restores the listing,
  \<open>EmailCmdLaws\<close> what a run does whatever the host answers.

  \<^bold>\<open>Cron\<close>. \<open>Crontab\<close>: \<open>internal/cpanel/cron.go\<close> and \<open>cron_apply.go\<close>; \<open>CronPlan\<close>: \<open>cronplan.go\<close>,
  \<open>cronapply.go\<close> and the cron part of \<open>collector.go\<close>; \<open>CronCmd\<close>: the commands \<open>cron apply\<close> and \<open>cron verify\<close>.
  \<open>CrontabLaws\<close> is about the parser (every line counted, what is written reads back), \<open>CronLaws\<close> about the
  commands (one guarded install, nothing lost, planning again converges or not, rollback).

  \<^bold>\<open>Databases\<close>. \<open>PhpSerialize\<close>: \<open>internal/phpserialize\<close>; \<open>PhpConfig\<close> and \<open>PhpMask\<close>: reading, rewriting and
  checking \<open>wp-config.php\<close> (\<open>internal/wpconfig\<close>); \<open>DbPlan\<close>: the plan, the preflight and the registry parser of
  \<open>internal/dbmig\<close>; \<open>MigData\<close>: the gathered data and the guards of \<open>internal/migrate\<close>. \<open>PhpLaws\<close> shows that the
  decoder only builds values of the format and reads back every encoded one, \<open>DbPlanLaws\<close> the rules a plan
  follows and what the preflight checks, \<open>PhpConfigLaws\<close> that offsets of the searched views are offsets of the
  file and that escaping is undone by reading, \<open>MigLaws\<close> exactly when a database is left out.
  \<open>DbSql\<close>: the SQL built from names, the parsers of the servers' answers and the readers (\<open>dbmig.go\<close>,
  \<open>deepverify.go\<close>, \<open>contentfp.go\<close>, \<open>password.go\<close>); \<open>CmsConfig\<close> and \<open>CmsKinds\<close>: the configurations of 24 kinds of
  site (\<open>cmsconfig.go\<close>, \<open>cmsrewrite.go\<close>, \<open>ambiguity.go\<close>); \<open>SiteConfig\<close>: finding, rewriting and checking them on the
  hosts (\<open>discover.go\<close>, \<open>detect.go\<close>, \<open>staleconfig.go\<close>, \<open>transfer.go\<close>). \<open>DbApply\<close> and \<open>DbVerify\<close>: the two database
  phases of a run (\<open>internal/migrate/apply_dbs.go\<close>, \<open>apply.go\<close>). \<open>DbSqlLaws\<close> shows that names of any bytes are
  quoted and read back, \<open>CmsLaws\<close> that a value written to a \<open>.env\<close> file is the one read, \<open>DbVerifyLaws\<close> what a
  verdict of OK means and where it means less than the comment says, \<open>DbApplyLaws\<close> what the apply phase may do
  whatever the hosts answer and that a run without an error has migrated everything.

  \<^bold>\<open>Conventions\<close>. Strings are byte strings. Errors are values of a sum type with the text of the code. A host is a
  function of the calls made before, so every theorem about a run holds for every behaviour of the other
  side; where a law needs the other side to behave, that is a named hypothesis with a concrete instance in
  the witness. The local file system only decides whether a step succeeds (or, in \<open>WbStore\<close>, is the state).
  JSON decoding and SHA-256 are parameters. Messages on the terminal and Markdown reports are left out.

  \<^bold>\<open>Bounds and fuel\<close>. The IPv6 parser runs at most nine rounds, one more than an address has groups. White
  space is stripped in at most as many rounds as the text has bytes, since each round removes one. Repetition
  in a pattern is bounded by the length of the text, since a round that consumes nothing ends it. All other
  loops are structural or have a termination proof.

  \<^bold>\<open>Not modelled\<close>. \<open>internal/webui\<close> (HTTP handlers and templates), \<open>internal/sshx\<close>, \<open>internal/logx\<close>,
  \<open>internal/report\<close>, \<open>internal/config\<close>, \<open>internal/maildir\<close> and \<open>internal/webfiles\<close> (transfer over pipes),
  the domain, mailbox and web phases of \<open>internal/migrate\<close>, the shell text of the scripts that \<open>internal/dbmig\<close>
  runs on the hosts (a call stands for each; a copy is one call), the writers (\<open>*_write.go\<close>) and the checklist of \<open>internal/accountinventory\<close>, the remaining commands, and the Python
  and TypeScript of \<open>migration-platform\<close>.
\<close>

end
